(* ===== verification/Prelude.thy ===== *)
theory Prelude
  imports Main "HOL-Library.Char_ord" "HOL-Library.List_Lexorder" "HOL-Library.Sublist"
    "HOL-Library.Multiset"
begin

text \<open>
  Shared vocabulary of the development: the fragment of the JavaScript run time the console
  uses (strings, numbers, sets, the stable array sort), with the generic lemmas the component
  theories rely on.

  Text is a \<^typ>\<open>string\<close>, the UTF-8 bytes of the JavaScript string. Operations that count or
  compare code units (\<open>length\<close>, \<open>slice\<close>, \<open><\<close>, \<open>toLowerCase\<close>) agree with JavaScript on ASCII
  text, which is what identifiers, timestamps and status words are; the non-ASCII glyphs of the
  user interface only occur inside fixed labels. Numbers are \<open>jsnum\<close>: an integer or \<open>NaN\<close>, the
  two outcomes date arithmetic has.
\<close>

named_theorems js_simps \<open>evaluation rules of the JavaScript run time fragment\<close>
named_theorems view_defs \<open>definitions of stateless view components, unfolded in proofs about pages\<close>

section \<open>Numbers\<close>

datatype jsnum = NaN | Num int

fun num_sub :: "jsnum \<Rightarrow> jsnum \<Rightarrow> jsnum" where
  "num_sub (Num a) (Num b) = Num (a - b)"
| "num_sub _ _ = NaN"

fun num_neg :: "jsnum \<Rightarrow> jsnum" where
  "num_neg (Num a) = Num (- a)"
| "num_neg NaN = NaN"

text \<open>Every comparison with \<open>NaN\<close> is false.\<close>

fun num_lt :: "jsnum \<Rightarrow> jsnum \<Rightarrow> bool" where
  "num_lt (Num a) (Num b) = (a < b)"
| "num_lt _ _ = False"

fun num_le :: "jsnum \<Rightarrow> jsnum \<Rightarrow> bool" where
  "num_le (Num a) (Num b) = (a \<le> b)"
| "num_le _ _ = False"

fun is_finite_num :: "jsnum \<Rightarrow> bool" where
  "is_finite_num (Num _) = True"
| "is_finite_num NaN = False"

lemma num_lt_irrefl [simp]: "\<not> num_lt x x"
  by (cases x) auto

lemma num_sub_self_le: "num_le (num_sub a b) (Num 0) \<Longrightarrow> num_le a b"
  by (cases a; cases b) auto

section \<open>Decimal text of integers\<close>

definition digit_char :: "nat \<Rightarrow> char" where
  "digit_char d = (''0123456789'' ! d)"

definition digit_val :: "char \<Rightarrow> nat" where
  "digit_val c = of_char c - 48"

definition is_digit :: "char \<Rightarrow> bool" where
  "is_digit c \<longleftrightarrow> 48 \<le> (of_char c :: nat) \<and> (of_char c :: nat) \<le> 57"

fun nat_str :: "nat \<Rightarrow> string" where
  "nat_str n = (if n < 10 then [digit_char n] else nat_str (n div 10) @ [digit_char (n mod 10)])"

declare nat_str.simps [simp del]

definition int_str :: "int \<Rightarrow> string" where
  "int_str i = (if i < 0 then CHR ''-'' # nat_str (nat (- i)) else nat_str (nat i))"

definition digits_val :: "string \<Rightarrow> nat" where
  "digits_val ds = foldl (\<lambda>a c. 10 * a + digit_val c) 0 ds"

lemma of_char_digit_char: "d < 10 \<Longrightarrow> (of_char (digit_char d) :: nat) = 48 + d"
  by (auto simp: digit_char_def eval_nat_numeral less_Suc_eq)

lemma digit_val_digit_char [simp]: "d < 10 \<Longrightarrow> digit_val (digit_char d) = d"
  by (simp add: digit_val_def of_char_digit_char)

lemma is_digit_digit_char [simp]: "d < 10 \<Longrightarrow> is_digit (digit_char d)"
  by (simp add: is_digit_def of_char_digit_char)

lemma digits_val_snoc [simp]: "digits_val (ds @ [c]) = 10 * digits_val ds + digit_val c"
  by (simp add: digits_val_def)

lemma digits_val_single [simp]: "digits_val [c] = digit_val c"
  by (simp add: digits_val_def)

lemma digits_val_nat_str [simp]: "digits_val (nat_str n) = n"
proof (induction n rule: nat_str.induct)
  case (1 n)
  then show ?case by (cases "n < 10") (simp_all add: nat_str.simps [of n])
qed

lemma nat_str_digits: "list_all is_digit (nat_str n)"
proof (induction n rule: nat_str.induct)
  case (1 n)
  then show ?case by (cases "n < 10") (simp_all add: nat_str.simps [of n])
qed

lemma nat_str_nonempty [simp]: "nat_str n \<noteq> []"
  by (subst nat_str.simps) simp

lemma inj_nat_str: "nat_str m = nat_str n \<Longrightarrow> m = n"
  by (metis digits_val_nat_str)

lemma inj_digit_char: "a < 10 \<Longrightarrow> b < 10 \<Longrightarrow> digit_char a = digit_char b \<Longrightarrow> a = b"
  by (metis digit_val_digit_char)

text \<open>A decimal numeral has no leading zero, unless it is \<open>0\<close> itself.\<close>

lemma hd_nat_str: "n \<noteq> 0 \<Longrightarrow> hd (nat_str n) \<noteq> digit_char 0"
proof (induction n rule: nat_str.induct)
  case (1 n)
  show ?case
  proof (cases "n < 10")
    case True
    with "1.prems" show ?thesis
      using inj_digit_char [of n 0] by (auto simp: nat_str.simps [of n])
  next
    case False
    then have "hd (nat_str n) = hd (nat_str (n div 10))"
      by (simp add: nat_str.simps [of n])
    with False "1.IH" show ?thesis by simp
  qed
qed

lemma hd_nat_str_digit: "is_digit (hd (nat_str n))"
  using nat_str_digits [of n] nat_str_nonempty [of n] by (cases "nat_str n") auto

lemma length_nat_str_1: "n < 10 \<Longrightarrow> nat_str n = [digit_char n]"
  by (simp add: nat_str.simps)

section \<open>Strings\<close>

text \<open>\<open>s.startsWith(p)\<close>, \<open>s.includes(q)\<close>, \<open>s.slice(0, n)\<close>, \<open>s.toLowerCase()\<close>, \<open>s.trim()\<close>.\<close>

fun starts_with :: "string \<Rightarrow> string \<Rightarrow> bool" where
  "starts_with s [] = True"
| "starts_with [] (c # p) = False"
| "starts_with (d # s) (c # p) = (c = d \<and> starts_with s p)"

fun js_includes :: "string \<Rightarrow> string \<Rightarrow> bool" where
  "js_includes [] q = (q = [])"
| "js_includes (c # s) q = (starts_with (c # s) q \<or> js_includes s q)"

definition slice0 :: "nat \<Rightarrow> string \<Rightarrow> string" where
  "slice0 n s = take n s"

definition lower_char :: "char \<Rightarrow> char" where
  "lower_char c = (let n = (of_char c :: nat) in
     if 65 \<le> n \<and> n \<le> 90 then char_of (n + 32) else c)"

definition to_lower :: "string \<Rightarrow> string" where
  "to_lower s = map lower_char s"

definition is_space :: "char \<Rightarrow> bool" where
  "is_space c = (let n = (of_char c :: nat) in n = 32 \<or> (9 \<le> n \<and> n \<le> 13))"

definition js_trim :: "string \<Rightarrow> string" where
  "js_trim s = rev (dropWhile is_space (rev (dropWhile is_space s)))"

lemma starts_with_prefix: "starts_with s p \<longleftrightarrow> prefix p s"
  by (induction s p rule: starts_with.induct) auto

lemma js_includes_sublist: "js_includes s q \<longleftrightarrow> sublist q s"
proof (induction s)
  case Nil
  show ?case by simp
next
  case (Cons c s)
  then show ?case by (auto simp: sublist_Cons_right starts_with_prefix simp del: starts_with.simps)
qed

lemma js_includes_append: "js_includes s q \<longleftrightarrow> (\<exists>a b. s = a @ q @ b)"
  by (simp add: js_includes_sublist sublist_def)

lemma js_includes_empty [simp]: "js_includes s []"
  by (cases s) auto

fun join_with :: "string \<Rightarrow> string list \<Rightarrow> string" where
  "join_with sep [] = []"
| "join_with sep [x] = x"
| "join_with sep (x # y # xs) = x @ sep @ join_with sep (y # xs)"

section \<open>JavaScript sets as insertion-ordered lists\<close>

type_synonym 'a jsset = "'a list"

definition set_has :: "'a jsset \<Rightarrow> 'a \<Rightarrow> bool" where
  "set_has s x = List.member s x"

definition set_add :: "'a jsset \<Rightarrow> 'a \<Rightarrow> 'a jsset" where
  "set_add s x = (if List.member s x then s else s @ [x])"

definition set_delete :: "'a jsset \<Rightarrow> 'a \<Rightarrow> 'a jsset" where
  "set_delete s x = filter (\<lambda>y. y \<noteq> x) s"

definition js_set :: "'a list \<Rightarrow> 'a jsset" where
  "js_set xs = foldl set_add [] xs"

lemma set_has_iff [simp]: "set_has s x \<longleftrightarrow> x \<in> set s"
  by (simp add: set_has_def)

lemma set_set_add [simp]: "set (set_add s x) = insert x (set s)"
  by (auto simp: set_add_def)

lemma set_set_delete [simp]: "set (set_delete s x) = set s - {x}"
  by (auto simp: set_delete_def)

lemma distinct_set_add [simp]: "distinct s \<Longrightarrow> distinct (set_add s x)"
  by (auto simp: set_add_def)

lemma distinct_set_delete [simp]: "distinct s \<Longrightarrow> distinct (set_delete s x)"
  by (simp add: set_delete_def)

lemma set_foldl_set_add: "set (foldl set_add s xs) = set s \<union> set xs"
  by (induction xs arbitrary: s) auto

lemma distinct_foldl_set_add: "distinct s \<Longrightarrow> distinct (foldl set_add s xs)"
  by (induction xs arbitrary: s) auto

lemma set_js_set [simp]: "set (js_set xs) = set xs"
  by (simp add: js_set_def set_foldl_set_add)

lemma distinct_js_set [simp]: "distinct (js_set xs)"
  by (simp add: js_set_def distinct_foldl_set_add)

section \<open>The array sort\<close>

text \<open>
  \<open>Array.prototype.sort(cmp)\<close> is a stable sort for a consistent comparator (ECMAScript 2019);
  it is written here as the stable insertion sort. For a consistent comparator a stable sorted
  permutation is unique, which the locale \<open>consistent_comparator\<close> below makes precise.
\<close>

fun sort_insert :: "('a \<Rightarrow> 'a \<Rightarrow> int) \<Rightarrow> 'a \<Rightarrow> 'a list \<Rightarrow> 'a list" where
  "sort_insert cmp x [] = [x]"
| "sort_insert cmp x (y # ys) = (if cmp x y \<le> 0 then x # y # ys else y # sort_insert cmp x ys)"

definition js_sort :: "('a \<Rightarrow> 'a \<Rightarrow> int) \<Rightarrow> 'a list \<Rightarrow> 'a list" where
  "js_sort cmp xs = foldr (sort_insert cmp) xs []"

lemma mset_sort_insert [simp]: "mset (sort_insert cmp x ys) = add_mset x (mset ys)"
  by (induction ys) auto

lemma mset_js_sort [simp]: "mset (js_sort cmp xs) = mset xs"
  by (induction xs) (auto simp: js_sort_def)

lemma set_js_sort [simp]: "set (js_sort cmp xs) = set xs"
  by (metis mset_js_sort set_mset_mset)

lemma length_js_sort [simp]: "length (js_sort cmp xs) = length xs"
  by (metis mset_js_sort size_mset)

lemma js_sort_Nil [simp]: "js_sort cmp [] = []"
  by (simp add: js_sort_def)

lemma js_sort_Cons: "js_sort cmp (x # xs) = sort_insert cmp x (js_sort cmp xs)"
  by (simp add: js_sort_def)

lemma set_sort_insert [simp]: "set (sort_insert cmp x ys) = insert x (set ys)"
  by (induction ys) auto

locale consistent_comparator =
  fixes cmp :: "'a \<Rightarrow> 'a \<Rightarrow> int"
  assumes cmp_swap: "(cmp x y \<le> 0) = (0 \<le> cmp y x)"
    and cmp_trans: "cmp x y \<le> 0 \<Longrightarrow> cmp y z \<le> 0 \<Longrightarrow> cmp x z \<le> 0"
begin

lemma cmp_refl: "cmp x x \<le> 0"
  using cmp_swap [of x x] by linarith

lemma cmp_total: "\<not> cmp x y \<le> 0 \<Longrightarrow> cmp y x \<le> 0"
  using cmp_swap [of y x] by linarith

lemma sorted_sort_insert:
  "sorted_wrt (\<lambda>a b. cmp a b \<le> 0) ys \<Longrightarrow> sorted_wrt (\<lambda>a b. cmp a b \<le> 0) (sort_insert cmp x ys)"
  by (induction ys) (auto intro: cmp_trans dest: cmp_total)

lemma sorted_js_sort: "sorted_wrt (\<lambda>a b. cmp a b \<le> 0) (js_sort cmp xs)"
  by (induction xs) (auto simp: js_sort_Cons intro: sorted_sort_insert)

lemma eqv_trans: "cmp x y = 0 \<Longrightarrow> cmp y z = 0 \<Longrightarrow> cmp x z = 0"
  using cmp_trans [of x y z] cmp_trans [of z y x] cmp_swap [of z y] cmp_swap [of y x]
    cmp_swap [of z x] by linarith

lemma eqv_sym: "cmp x y = 0 \<Longrightarrow> cmp y x = 0"
  using cmp_swap [of x y] cmp_swap [of y x] by linarith

text \<open>Stability: the elements equal to a given one keep their order.\<close>

lemma filter_sort_insert:
  "filter (\<lambda>y. cmp k y = 0) (sort_insert cmp x ys) =
     (if cmp k x = 0 then x # filter (\<lambda>y. cmp k y = 0) ys else filter (\<lambda>y. cmp k y = 0) ys)"
proof (induction ys)
  case Nil
  show ?case by simp
next
  case (Cons y ys)
  have "cmp x y \<le> 0" if "cmp k x = 0" and "cmp k y = 0"
    using eqv_trans [OF eqv_sym [OF that(1)] that(2)] by simp
  with Cons show ?case by auto
qed

lemma js_sort_stable: "filter (\<lambda>y. cmp k y = 0) (js_sort cmp xs) = filter (\<lambda>y. cmp k y = 0) xs"
  by (induction xs) (simp_all add: js_sort_Cons filter_sort_insert)

end

text \<open>The default comparator of \<open>[...].sort()\<close> on strings: code unit order.\<close>

definition str_cmp :: "string \<Rightarrow> string \<Rightarrow> int" where
  "str_cmp x y = (if x < y then -1 else if y < x then 1 else 0)"

interpretation string_sort: consistent_comparator str_cmp
  by unfold_locales (auto simp: str_cmp_def split: if_splits)

section \<open>Options\<close>

text \<open>\<open>x ?? d\<close> and the truthiness of an optional string (\<open>null\<close> and \<open>""\<close> are falsy).\<close>

definition nullish :: "'a option \<Rightarrow> 'a \<Rightarrow> 'a" where
  "nullish x d = (case x of None \<Rightarrow> d | Some v \<Rightarrow> v)"

definition truthy_str :: "string option \<Rightarrow> bool" where
  "truthy_str x = (case x of None \<Rightarrow> False | Some v \<Rightarrow> v \<noteq> [])"

lemma nullish_simps [simp]: "nullish None d = d" "nullish (Some v) d = v"
  by (simp_all add: nullish_def)

lemma truthy_str_simps [simp]: "\<not> truthy_str None" "truthy_str (Some v) \<longleftrightarrow> v \<noteq> []"
  by (simp_all add: truthy_str_def)

section \<open>Functional refinement\<close>

text \<open>
  A service takes calls one after the other; every accepted call moves the abstraction of its
  state as the specification says. Then so does every sequence of accepted calls, and what the
  specification keeps invariant, the service keeps.
\<close>

fun run_service :: "('c \<Rightarrow> 's \<Rightarrow> 'r \<times> 's) \<Rightarrow> 'c list \<Rightarrow> 's \<Rightarrow> 'r list \<times> 's" where
  "run_service impl [] s = ([], s)"
| "run_service impl (c # cs) s =
     (let (r, s1) = impl c s; (rs, s2) = run_service impl cs s1 in (r # rs, s2))"

locale service_refinement =
  fixes impl :: "'c \<Rightarrow> 's \<Rightarrow> 'r \<times> 's"
    and accepted :: "'r \<Rightarrow> bool"
    and abstr :: "'s \<Rightarrow> 'a"
    and step :: "'c \<Rightarrow> 'a \<Rightarrow> 'a"
  assumes accepted_step: "impl c s = (r, s') \<Longrightarrow> accepted r \<Longrightarrow> abstr s' = step c (abstr s)"
begin

lemma accepted_run:
  "run_service impl cs s = (rs, s') \<Longrightarrow> list_all accepted rs \<Longrightarrow> abstr s' = fold step cs (abstr s)"
proof (induction cs arbitrary: s rs s')
  case (Cons c cs)
  obtain r s1 where r: "impl c s = (r, s1)" by (cases "impl c s")
  obtain rs2 s2 where rs: "run_service impl cs s1 = (rs2, s2)" by (cases "run_service impl cs s1")
  from Cons.prems r rs have "rs = r # rs2" "s' = s2" by simp_all
  with Cons.IH [OF rs] Cons.prems(2) accepted_step [OF r] show ?case by simp
qed simp

lemma accepted_invariant:
  assumes "\<And>c a. I a \<Longrightarrow> I (step c a)" and "I (abstr s)"
    and "run_service impl cs s = (rs, s')" and "list_all accepted rs"
  shows "I (abstr s')"
proof -
  have "I (fold step cs a)" if "I a" for a
    using that assms(1) by (induction cs arbitrary: a) auto
  with assms(2) accepted_run [OF assms(3,4)] show ?thesis by simp
qed

end

end
