(* ===== verification/Json.thy ===== *)
theory Json
  imports Prelude
begin

text \<open>
  JSON values, \<open>JSON.stringify\<close> (compact and with an indent of two) and \<open>JSON.parse\<close>, as the
  stores, the HTTP client and the JSON viewer use them. Objects are key/value lists in insertion
  order; a repeated key keeps its first position and its last value. Integral numerals are
  \<open>JNum\<close>; a numeral with a fraction or an exponent keeps its text (\<open>JFloat\<close>), since the console
  only prints such numbers. The parser is a recursive descent over the text; its fuel is twice the
  length of the text plus one, and \<open>pval_fuel\<close> shows that more fuel never changes the result.
\<close>

datatype json =
    JNull
  | JBool bool
  | JNum int
  | JFloat string
  | JStr string
  | JArr "json list"
  | JObj "(string \<times> json) list"

section \<open>Printing\<close>

definition hex_digit :: "nat \<Rightarrow> char" where
  "hex_digit n = (if n < 10 then char_of (48 + n) else char_of (87 + n))"

definition esc_char :: "char \<Rightarrow> string" where
  "esc_char c =
     (let n = (of_char c :: nat) in
      if n = 34 then [CHR 0x5C, CHR 0x22]
      else if n = 92 then [CHR 0x5C, CHR 0x5C]
      else if n = 8 then [CHR 0x5C, CHR ''b'']
      else if n = 9 then [CHR 0x5C, CHR ''t'']
      else if n = 10 then [CHR 0x5C, CHR ''n'']
      else if n = 12 then [CHR 0x5C, CHR ''f'']
      else if n = 13 then [CHR 0x5C, CHR ''r'']
      else if n < 32 then [CHR 0x5C, CHR ''u'', CHR ''0'', CHR ''0'', hex_digit (n div 16), hex_digit (n mod 16)]
      else [c])"

definition quote_str :: "string \<Rightarrow> string" where
  "quote_str s = CHR 0x22 # concat (map esc_char s) @ [CHR 0x22]"

fun stringify :: "json \<Rightarrow> string" where
  "stringify JNull = ''null''"
| "stringify (JBool b) = (if b then ''true'' else ''false'')"
| "stringify (JNum i) = int_str i"
| "stringify (JFloat t) = t"
| "stringify (JStr s) = quote_str s"
| "stringify (JArr xs) = ''['' @ join_with '','' (map stringify xs) @ '']''"
| "stringify (JObj kvs) =
     ''{'' @ join_with '','' (map (\<lambda>(k, v). quote_str k @ '':'' @ stringify v) kvs) @ ''}''"

text \<open>\<open>JSON.stringify(value, null, 2)\<close>; \<open>ind\<close> is the current indentation.\<close>

definition nl :: string where
  "nl = [CHR 0x0A]"

fun stringify2 :: "string \<Rightarrow> json \<Rightarrow> string" where
  "stringify2 ind (JArr xs) =
     (if xs = [] then ''[]''
      else let ind' = ind @ ''  '' in
        ''['' @ nl @ ind' @ join_with ('','' @ nl @ ind') (map (stringify2 ind') xs) @ nl @ ind @ '']'')"
| "stringify2 ind (JObj kvs) =
     (if kvs = [] then ''{}''
      else let ind' = ind @ ''  '' in
        ''{'' @ nl @ ind' @
        join_with ('','' @ nl @ ind') (map (\<lambda>(k, v). quote_str k @ '': '' @ stringify2 ind' v) kvs)
        @ nl @ ind @ ''}'')"
| "stringify2 ind v = stringify v"

section \<open>Parsing\<close>

definition json_ws :: "char \<Rightarrow> bool" where
  "json_ws c = (let n = (of_char c :: nat) in n = 32 \<or> n = 9 \<or> n = 10 \<or> n = 13)"

definition skip_ws :: "string \<Rightarrow> string" where
  "skip_ws s = dropWhile json_ws s"

definition hex_val :: "char \<Rightarrow> nat option" where
  "hex_val c =
     (let n = (of_char c :: nat) in
      if 48 \<le> n \<and> n \<le> 57 then Some (n - 48)
      else if 97 \<le> n \<and> n \<le> 102 then Some (n - 87)
      else if 65 \<le> n \<and> n \<le> 70 then Some (n - 55)
      else None)"

definition hex4 :: "char \<Rightarrow> char \<Rightarrow> char \<Rightarrow> char \<Rightarrow> nat option" where
  "hex4 a b c d =
     (case (hex_val a, hex_val b, hex_val c, hex_val d) of
        (Some w, Some x, Some y, Some z) \<Rightarrow> Some (4096 * w + 256 * x + 16 * y + z)
      | _ \<Rightarrow> None)"

text \<open>The UTF-8 bytes of a code point.\<close>

definition utf8 :: "nat \<Rightarrow> string" where
  "utf8 n =
     (if n < 128 then [char_of n]
      else if n < 2048 then [char_of (192 + n div 64), char_of (128 + n mod 64)]
      else if n < 65536 then
        [char_of (224 + n div 4096), char_of (128 + (n div 64) mod 64), char_of (128 + n mod 64)]
      else [char_of (240 + n div 262144), char_of (128 + (n div 4096) mod 64),
            char_of (128 + (n div 64) mod 64), char_of (128 + n mod 64)])"

definition unescape :: "char \<Rightarrow> char option" where
  "unescape c =
     (if c = CHR 0x22 \<or> c = CHR 0x5C \<or> c = CHR ''/'' then Some c
      else if c = CHR ''b'' then Some (char_of (8::nat))
      else if c = CHR ''t'' then Some (char_of (9::nat))
      else if c = CHR ''n'' then Some (char_of (10::nat))
      else if c = CHR ''f'' then Some (char_of (12::nat))
      else if c = CHR ''r'' then Some (char_of (13::nat))
      else None)"

text \<open>
  \<open>surrogate n r\<close>: a high surrogate \<open>n\<close> followed by an escaped low surrogate is one code
  point; anything else stands for itself. Returns the code point and the rest of the text.
\<close>

fun surrogate :: "nat \<Rightarrow> string \<Rightarrow> nat \<times> string" where
  "surrogate n (e # u # a # b # c # d # r) =
     (if 55296 \<le> n \<and> n < 56320 \<and> e = CHR 0x5C \<and> u = CHR ''u'' then
        (case hex4 a b c d of
           Some m \<Rightarrow> if 56320 \<le> m \<and> m < 57344
                     then (65536 + (n - 55296) * 1024 + (m - 56320), r)
                     else (n, e # u # a # b # c # d # r)
         | None \<Rightarrow> (n, e # u # a # b # c # d # r))
      else (n, e # u # a # b # c # d # r))"
| "surrogate n r = (n, r)"

lemma length_surrogate: "length (snd (surrogate n r)) \<le> length r"
  by (induction n r rule: surrogate.induct) (auto split: option.splits)

text \<open>The body of a string literal, after its opening quote.\<close>

function pstr :: "string \<Rightarrow> (string \<times> string) option" where
  "pstr [] = None"
| "pstr (c # cs) =
     (if c = CHR 0x22 then Some ([], cs)
      else if c = CHR 0x5C then
        (case cs of
           [] \<Rightarrow> None
         | e # es \<Rightarrow>
             if e = CHR ''u'' then
               (case es of
                  h1 # h2 # h3 # h4 # r \<Rightarrow>
                    (case hex4 h1 h2 h3 h4 of
                       None \<Rightarrow> None
                     | Some n \<Rightarrow>
                         map_option (apfst (append (utf8 (fst (surrogate n r)))))
                           (pstr (snd (surrogate n r))))
                | _ \<Rightarrow> None)
             else (case unescape e of
                     None \<Rightarrow> None
                   | Some x \<Rightarrow> map_option (apfst (Cons x)) (pstr es)))
      else if (of_char c :: nat) < 32 then None
      else map_option (apfst (Cons c)) (pstr cs))"
  by pat_completeness auto
termination
  by (relation "measure length") (auto intro: le_less_trans [OF length_surrogate])

text \<open>A numeral: sign, integer part without leading zeros, optional fraction and exponent.\<close>

definition pfrac :: "string \<Rightarrow> (string \<times> string) option" where
  "pfrac s =
     (case s of
        c # r \<Rightarrow>
          if c = CHR ''.'' then
            (if takeWhile is_digit r = [] then None
             else Some (c # takeWhile is_digit r, dropWhile is_digit r))
          else Some ([], s)
      | [] \<Rightarrow> Some ([], s))"

definition pexp :: "string \<Rightarrow> (string \<times> string) option" where
  "pexp s =
     (case s of
        c # r \<Rightarrow>
          if c = CHR ''e'' \<or> c = CHR ''E'' then
            (let sg = (case r of d # r' \<Rightarrow> if d = CHR ''+'' \<or> d = CHR ''-'' then [d] else [] | [] \<Rightarrow> []);
                 r' = drop (length sg) r
             in if takeWhile is_digit r' = [] then None
                else Some (c # sg @ takeWhile is_digit r', dropWhile is_digit r'))
          else Some ([], s)
      | [] \<Rightarrow> Some ([], s))"

definition pnumber :: "string \<Rightarrow> (json \<times> string) option" where
  "pnumber s =
     (let neg = (case s of c # _ \<Rightarrow> c = CHR ''-'' | [] \<Rightarrow> False);
          s1 = (if neg then tl s else s);
          ds = takeWhile is_digit s1
      in if ds = [] \<or> (hd ds = CHR ''0'' \<and> length ds > 1) then None
         else case pfrac (dropWhile is_digit s1) of
             None \<Rightarrow> None
           | Some (fr, r1) \<Rightarrow>
               (case pexp r1 of
                  None \<Rightarrow> None
                | Some (ex, r2) \<Rightarrow>
                    if fr = [] \<and> ex = [] then
                      Some (JNum (if neg then - int (digits_val ds) else int (digits_val ds)), r2)
                    else Some (JFloat ((if neg then [CHR ''-''] else []) @ ds @ fr @ ex), r2)))"

definition plit :: "string \<Rightarrow> json \<Rightarrow> string \<Rightarrow> (json \<times> string) option" where
  "plit lit v s = (if starts_with s lit then Some (v, drop (length lit) s) else None)"

text \<open>Members of an object: a repeated key keeps its place and takes the later value.\<close>

fun obj_put :: "(string \<times> json) list \<Rightarrow> string \<Rightarrow> json \<Rightarrow> (string \<times> json) list" where
  "obj_put [] k v = [(k, v)]"
| "obj_put ((k', v') # kvs) k v =
     (if k' = k then (k, v) # kvs else (k', v') # obj_put kvs k v)"

definition obj_of :: "(string \<times> json) list \<Rightarrow> (string \<times> json) list" where
  "obj_of kvs = foldl (\<lambda>o' (k, v). obj_put o' k v) [] kvs"

fun pval :: "nat \<Rightarrow> string \<Rightarrow> (json \<times> string) option"
and pelems :: "nat \<Rightarrow> string \<Rightarrow> (json list \<times> string) option"
and pmembers :: "nat \<Rightarrow> string \<Rightarrow> ((string \<times> json) list \<times> string) option" where
  "pval 0 s = None"
| "pval (Suc n) s =
     (case skip_ws s of
        [] \<Rightarrow> None
      | c # cs \<Rightarrow>
          if c = CHR 0x22 then map_option (apfst JStr) (pstr cs)
          else if c = CHR ''['' then
            (case skip_ws cs of
               [] \<Rightarrow> None
             | d # ds \<Rightarrow> if d = CHR '']'' then Some (JArr [], ds)
                         else map_option (apfst JArr) (pelems n cs))
          else if c = CHR ''{'' then
            (case skip_ws cs of
               [] \<Rightarrow> None
             | d # ds \<Rightarrow> if d = CHR ''}'' then Some (JObj [], ds)
                         else map_option (apfst (\<lambda>kvs. JObj (obj_of kvs))) (pmembers n cs))
          else if c = CHR ''t'' then plit ''true'' (JBool True) (c # cs)
          else if c = CHR ''f'' then plit ''false'' (JBool False) (c # cs)
          else if c = CHR ''n'' then plit ''null'' JNull (c # cs)
          else pnumber (c # cs))"
| "pelems 0 s = None"
| "pelems (Suc n) s =
     (case pval n s of
        None \<Rightarrow> None
      | Some (v, r) \<Rightarrow>
          (case skip_ws r of
             [] \<Rightarrow> None
           | c # r' \<Rightarrow>
               if c = CHR '','' then map_option (apfst (Cons v)) (pelems n r')
               else if c = CHR '']'' then Some ([v], r')
               else None))"
| "pmembers 0 s = None"
| "pmembers (Suc n) s =
     (case skip_ws s of
        [] \<Rightarrow> None
      | q # cs \<Rightarrow>
          if q \<noteq> CHR 0x22 then None
          else case pstr cs of
              None \<Rightarrow> None
            | Some (k, r) \<Rightarrow>
                (case skip_ws r of
                   [] \<Rightarrow> None
                 | c # r1 \<Rightarrow>
                     if c \<noteq> CHR '':'' then None
                     else case pval n r1 of
                         None \<Rightarrow> None
                       | Some (v, r2) \<Rightarrow>
                           (case skip_ws r2 of
                              [] \<Rightarrow> None
                            | d # r3 \<Rightarrow>
                                if d = CHR '','' then map_option (apfst (Cons (k, v))) (pmembers n r3)
                                else if d = CHR ''}'' then Some ([(k, v)], r3)
                                else None)))"

text \<open>\<open>None\<close> is the \<open>SyntaxError\<close> of \<open>JSON.parse\<close>.\<close>

definition json_parse :: "string \<Rightarrow> json option" where
  "json_parse s =
     (case pval (2 * length s + 1) s of
        None \<Rightarrow> None
      | Some (v, r) \<Rightarrow> if skip_ws r = [] then Some v else None)"

section \<open>The fuel is enough\<close>

declare pval.simps [simp del] pelems.simps [simp del] pmembers.simps [simp del]

lemmas p_unfold = pval.simps pelems.simps pmembers.simps

lemma skip_ws_length: "skip_ws s = c # cs \<Longrightarrow> length cs < length s"
  using length_dropWhile_le [of json_ws s] by (simp add: skip_ws_def)

lemma length_surrogate_6: "length (snd (surrogate n r)) < Suc (Suc (Suc (Suc (Suc (Suc (length r))))))"
  using length_surrogate [of n r] by simp

lemma pstr_shorter: "pstr s = Some (x, r) \<Longrightarrow> length r < length s"
proof (induction s arbitrary: x r rule: measure_induct_rule [where f = length])
  case (less s)
  have key: "length r' < length s" if "pstr t = Some (y, r')" and "length t < length s" for t y r'
    using less.IH [OF that(2,1)] that(2) by simp
  show ?case
  proof (cases s)
    case (Cons c cs)
    with less.prems show ?thesis
      by (auto simp: length_surrogate_6 split: if_splits list.splits option.splits dest!: key)
  qed (use less.prems in simp)
qed

lemma length_dropWhile_less: "takeWhile P s \<noteq> [] \<Longrightarrow> length (dropWhile P s) < length s"
  by (cases s) (auto simp: length_dropWhile_le le_imp_less_Suc split: if_splits)

lemma pfrac_shorter: "pfrac s = Some (x, r) \<Longrightarrow> length r \<le> length s"
  by (auto simp: pfrac_def le_SucI length_dropWhile_le split: list.splits if_splits)

lemma pexp_shorter: "pexp s = Some (x, r) \<Longrightarrow> length r \<le> length s"
  by (auto simp: pexp_def Let_def le_SucI [OF le_SucI [OF length_dropWhile_le]]
      split: list.splits if_splits)

lemma pnumber_shorter:
  assumes "pnumber s = Some (v, r)"
  shows "length r < length s"
proof -
  define s1 where "s1 = (if (case s of c # _ \<Rightarrow> c = CHR ''-'' | [] \<Rightarrow> False) then tl s else s)"
  have "length s1 \<le> length s" by (simp add: s1_def)
  moreover obtain fr r1 where "takeWhile is_digit s1 \<noteq> []"
    and "pfrac (dropWhile is_digit s1) = Some (fr, r1)" and "\<exists>ex. pexp r1 = Some (ex, r)"
    using assms by (auto simp: pnumber_def Let_def s1_def split: option.splits if_splits)
  ultimately show ?thesis
    using length_dropWhile_less [of is_digit s1] pfrac_shorter pexp_shorter by fastforce
qed

lemma plit_shorter: "lit \<noteq> [] \<Longrightarrow> plit lit v s = Some (w, r) \<Longrightarrow> length r < length s"
  by (cases s; cases lit) (auto simp: plit_def split: if_splits)

lemmas p_shorter = pstr_shorter pnumber_shorter plit_shorter [of "''true''", simplified]
  plit_shorter [of "''false''", simplified] plit_shorter [of "''null''", simplified]

lemma pval_shorter_all:
  "(\<forall>s v r. pval n s = Some (v, r) \<longrightarrow> length r < length s) \<and>
   (\<forall>s v r. pelems n s = Some (v, r) \<longrightarrow> length r < length s) \<and>
   (\<forall>s v r. pmembers n s = Some (v, r) \<longrightarrow> length r < length s)"
proof (induction n)
  case 0
  show ?case by (simp add: p_unfold)
next
  case (Suc n)
  then have IH: "\<And>s v r. pval n s = Some (v, r) \<Longrightarrow> length r < length s"
    "\<And>s v r. pelems n s = Some (v, r) \<Longrightarrow> length r < length s"
    "\<And>s v r. pmembers n s = Some (v, r) \<Longrightarrow> length r < length s"
    by blast+
  have v: "length r < length s" if "pval (Suc n) s = Some (v, r)" for s v r
    using that
    by (auto simp: pval.simps split: list.splits if_splits dest!: IH(2,3) p_shorter skip_ws_length)
  have e: "length r < length s" if "pelems (Suc n) s = Some (v, r)" for s v r
    using that
    by (auto simp: pelems.simps split: list.splits if_splits option.splits
        dest!: IH(1,2) skip_ws_length)
  have m: "length r < length s" if "pmembers (Suc n) s = Some (v, r)" for s v r
    using that
    by (auto simp: pmembers.simps split: list.splits if_splits option.splits
        dest!: IH(1,3) pstr_shorter skip_ws_length)
  from v e m show ?case by blast
qed

lemma pval_shorter: "pval n s = Some (v, r) \<Longrightarrow> length r < length s"
  and pelems_shorter: "pelems n s = Some (vs, r) \<Longrightarrow> length r < length s"
  and pmembers_shorter: "pmembers n s = Some (kvs, r) \<Longrightarrow> length r < length s"
  using pval_shorter_all by blast+

lemma pval_fuel_all:
  "(\<forall>s. 2 * length s < n \<longrightarrow> pval (Suc n) s = pval n s) \<and>
   (\<forall>s. 2 * length s + 1 < n \<longrightarrow> pelems (Suc n) s = pelems n s) \<and>
   (\<forall>s. 2 * length s + 1 < n \<longrightarrow> pmembers (Suc n) s = pmembers n s)"
proof (induction n)
  case 0
  show ?case by simp
next
  case (Suc n)
  then have IH: "\<And>s. 2 * length s < n \<Longrightarrow> pval (Suc n) s = pval n s"
    "\<And>s. 2 * length s + 1 < n \<Longrightarrow> pelems (Suc n) s = pelems n s"
    "\<And>s. 2 * length s + 1 < n \<Longrightarrow> pmembers (Suc n) s = pmembers n s"
    by blast+
  have v: "pval (Suc (Suc n)) s = pval (Suc n) s" if "2 * length s < Suc n" for s
  proof -
    have "pelems (Suc n) cs = pelems n cs" and "pmembers (Suc n) cs = pmembers n cs"
      if "skip_ws s = c # cs" for c cs
      using skip_ws_length [OF that] \<open>2 * length s < Suc n\<close> by (auto intro!: IH)
    then show ?thesis
      by (simp add: pval.simps(2) split: list.split)
  qed
  have e: "pelems (Suc (Suc n)) s = pelems (Suc n) s" if "2 * length s + 1 < Suc n" for s
  proof -
    have "pelems (Suc n) r' = pelems n r'" if "pval n s = Some (v, r)" "skip_ws r = c # r'" for v r c r'
      using skip_ws_length [OF that(2)] pval_shorter [OF that(1)] \<open>2 * length s + 1 < Suc n\<close>
      by (auto intro!: IH)
    then show ?thesis
      using that by (simp add: pelems.simps(2) IH(1) split: list.split option.split)
  qed
  have m: "pmembers (Suc (Suc n)) s = pmembers (Suc n) s" if "2 * length s + 1 < Suc n" for s
  proof -
    have "pval (Suc n) r1 = pval n r1" and
      "\<And>v r2 d r3. pval n r1 = Some (v, r2) \<Longrightarrow> skip_ws r2 = d # r3 \<Longrightarrow> pmembers (Suc n) r3 = pmembers n r3"
      if "skip_ws s = q # cs" "pstr cs = Some (k, r)" "skip_ws r = c # r1" for q cs k r c r1
      using skip_ws_length [OF that(1)] pstr_shorter [OF that(2)] skip_ws_length [OF that(3)]
        skip_ws_length pval_shorter \<open>2 * length s + 1 < Suc n\<close>
      by (fastforce intro!: IH)+
    then show ?thesis
      by (simp add: pmembers.simps(2) split: list.split option.split)
  qed
  from v e m show ?case by blast
qed

text \<open>Past the fuel \<open>json_parse\<close> starts with, more fuel changes nothing, failures included.\<close>

lemma pval_fuel: "2 * length s < n \<Longrightarrow> pval (n + m) s = pval n s"
proof (induction m)
  case (Suc m)
  then have "pval (Suc (n + m)) s = pval (n + m) s"
    using pval_fuel_all [of "n + m"] by auto
  with Suc show ?case by simp
qed simp

section \<open>Printing and parsing are inverse\<close>

lemma char_of_lits:
  "char_of (48::nat) = CHR ''0''" "char_of (34::nat) = CHR 0x22" "char_of (92::nat) = CHR 0x5C"
  by (simp_all add: char_of_def bit_Suc_0_iff)

lemma hex_val_hex_digit: "n < 16 \<Longrightarrow> hex_val (hex_digit n) = Some n"
  by (simp add: hex_val_def hex_digit_def Let_def)

lemma hex_val_0: "hex_val (CHR ''0'') = Some 0"
  by (simp add: hex_val_def)

lemma surrogate_small: "n < 55296 \<Longrightarrow> surrogate n r = (n, r)"
  by (induction n r rule: surrogate.induct) auto

lemma pstr_hex_escape:
  assumes "n < 128"
  shows "pstr (CHR 0x5C # CHR ''u'' # CHR ''0'' # CHR ''0'' # hex_digit (n div 16) #
           hex_digit (n mod 16) # r) = map_option (apfst (Cons (char_of n))) (pstr r)"
proof -
  have "hex4 (CHR ''0'') (CHR ''0'') (hex_digit (n div 16)) (hex_digit (n mod 16)) = Some n"
    using assms by (simp add: hex4_def hex_val_hex_digit hex_val_0)
  moreover have "append (utf8 n) = Cons (char_of n)"
    using assms by (auto simp: utf8_def)
  ultimately show ?thesis
    using assms by (simp add: surrogate_small)
qed

lemma pstr_esc_char: "pstr (esc_char c @ r) = map_option (apfst (Cons c)) (pstr r)"
proof -
  define n where "n = (of_char c :: nat)"
  have c: "c = char_of n" by (simp add: n_def)
  consider "n = 34" | "n = 92" | "n = 8" | "n = 9" | "n = 10" | "n = 12" | "n = 13"
    | "n < 32" "n \<notin> {8, 9, 10, 12, 13}" | "32 \<le> n" "n \<noteq> 34" "n \<noteq> 92"
    by fastforce
  then show ?thesis
  proof cases
    case 8
    then have "esc_char c = [CHR 0x5C, CHR ''u'', CHR ''0'', CHR ''0'', hex_digit (n div 16), hex_digit (n mod 16)]"
      by (simp add: esc_char_def flip: n_def)
    with 8 show ?thesis by (simp add: pstr_hex_escape c del: pstr.simps)
  next
    case 9
    then have "esc_char c = [c]"
      by (simp add: esc_char_def flip: n_def)
    moreover from 9 have "c \<noteq> CHR 0x22" and "c \<noteq> CHR 0x5C"
      by (auto simp: n_def)
    ultimately show ?thesis using 9 by (simp flip: n_def)
  qed (simp_all add: c esc_char_def unescape_def char_of_lits)
qed

lemma pstr_escaped: "pstr (concat (map esc_char s) @ CHR 0x22 # r) = Some (s, r)"
proof (induction s)
  case Nil
  show ?case by simp
next
  case (Cons c s)
  then show ?case by (simp add: pstr_esc_char del: pstr.simps)
qed

text \<open>The values a round trip preserves: no opaque numerals, no repeated keys.\<close>

fun wf_json :: "json \<Rightarrow> bool" where
  "wf_json (JFloat t) = False"
| "wf_json (JArr xs) = list_all wf_json xs"
| "wf_json (JObj kvs) = (distinct (map fst kvs) \<and> list_all (\<lambda>(k, v). wf_json v) kvs)"
| "wf_json v = True"

lemma obj_put_new: "k \<notin> fst ` set kvs \<Longrightarrow> obj_put kvs k v = kvs @ [(k, v)]"
  by (induction kvs) auto

lemma obj_of_distinct: "distinct (map fst kvs) \<Longrightarrow> obj_of kvs = kvs"
proof -
  have "foldl (\<lambda>o' (k, v). obj_put o' k v) acc kvs = acc @ kvs"
    if "distinct (map fst acc @ map fst kvs)" for acc
    using that
  proof (induction kvs arbitrary: acc)
    case (Cons kv kvs)
    then show ?case
      by (cases kv) (auto simp: obj_put_new)
  qed simp
  from this [of "[]"] show "distinct (map fst kvs) \<Longrightarrow> obj_of kvs = kvs"
    by (simp add: obj_of_def)
qed

text \<open>What may follow a value without being read as a part of it.\<close>

definition num_stop :: "string \<Rightarrow> bool" where
  "num_stop r = (case r of [] \<Rightarrow> True
     | c # _ \<Rightarrow> \<not> is_digit c \<and> c \<noteq> CHR ''.'' \<and> c \<noteq> CHR ''e'' \<and> c \<noteq> CHR ''E'')"

lemma num_stop_simps [simp]:
  "num_stop []" "num_stop (CHR '','' # r)" "num_stop (CHR '']'' # r)" "num_stop (CHR ''}'' # r)"
  by (simp_all add: num_stop_def is_digit_def)

lemma takeWhile_digits:
  "list_all is_digit ds \<Longrightarrow> num_stop r \<Longrightarrow> takeWhile is_digit (ds @ r) = ds"
  "list_all is_digit ds \<Longrightarrow> num_stop r \<Longrightarrow> dropWhile is_digit (ds @ r) = r"
  by (induction ds) (auto simp: num_stop_def split: list.splits)

lemma nat_str_no_leading_zero:
  "\<not> (hd (nat_str n) = CHR ''0'' \<and> length (nat_str n) > 1)"
proof (cases "n = 0")
  case False
  then show ?thesis using hd_nat_str [of n] by (simp add: digit_char_def)
qed (simp add: length_nat_str_1)

lemma pfrac_stop: "num_stop r \<Longrightarrow> pfrac r = Some ([], r)"
  by (auto simp: pfrac_def num_stop_def split: list.splits)

lemma pexp_stop: "num_stop r \<Longrightarrow> pexp r = Some ([], r)"
  by (auto simp: pexp_def num_stop_def split: list.splits)

lemma hd_nat_str_minus: "hd (nat_str n) \<noteq> CHR ''-''"
  using hd_nat_str_digit [of n] by (auto simp: is_digit_def)

lemma pnumber_int_str:
  assumes r: "num_stop r"
  shows "pnumber (int_str i @ r) = Some (JNum i, r)"
proof -
  note stop = pfrac_stop [OF r] pexp_stop [OF r] takeWhile_digits [OF nat_str_digits r]
  show ?thesis
  proof (cases "i < 0")
    case True
    then show ?thesis
      using nat_str_no_leading_zero [of "nat (- i)"] by (auto simp: pnumber_def int_str_def Let_def stop)
  next
    case False
    then have eq: "int_str i @ r = nat_str (nat i) @ r" by (simp add: int_str_def)
    have "hd (nat_str (nat i) @ r) \<noteq> CHR ''-''" using hd_nat_str_minus [of "nat i"] by simp
    then have "\<not> (case nat_str (nat i) @ r of [] \<Rightarrow> False | c # _ \<Rightarrow> c = CHR ''-'')"
      by (cases "nat_str (nat i) @ r") simp_all
    then show ?thesis
      using False nat_str_no_leading_zero [of "nat i"]
      by (auto simp: pnumber_def eq Let_def stop)
  qed
qed

text \<open>The first character of a printed value decides the branch of the parser.\<close>

definition value_start :: "char \<Rightarrow> bool" where
  "value_start c \<longleftrightarrow> \<not> json_ws c \<and> c \<noteq> CHR '']'' \<and> c \<noteq> CHR ''}''"

lemma is_digit_start:
  "is_digit c \<Longrightarrow> value_start c \<and> c \<notin> {CHR 0x22, CHR ''['', CHR ''{'', CHR ''t'', CHR ''f'', CHR ''n''}"
  by (auto simp: is_digit_def value_start_def json_ws_def Let_def)

lemma int_str_start:
  "int_str i \<noteq> [] \<and> value_start (hd (int_str i)) \<and>
   hd (int_str i) \<notin> {CHR 0x22, CHR ''['', CHR ''{'', CHR ''t'', CHR ''f'', CHR ''n''}"
  using is_digit_start [OF hd_nat_str_digit]
  by (auto simp: int_str_def value_start_def json_ws_def)

lemma stringify_start: "wf_json v \<Longrightarrow> stringify v \<noteq> [] \<and> value_start (hd (stringify v))"
  by (cases v) (simp_all add: int_str_start, auto simp: value_start_def json_ws_def quote_str_def)

lemma skip_ws_start: "value_start c \<Longrightarrow> skip_ws (c # cs) = c # cs"
  by (simp add: skip_ws_def value_start_def)

lemma skip_ws_hd: "t \<noteq> [] \<Longrightarrow> value_start (hd t) \<Longrightarrow> skip_ws (t @ r) = t @ r"
  by (cases t) (simp_all add: skip_ws_start)

lemma skip_ws_punct [simp]:
  "skip_ws (CHR '','' # r) = CHR '','' # r" "skip_ws (CHR '']'' # r) = CHR '']'' # r"
  "skip_ws (CHR ''}'' # r) = CHR ''}'' # r" "skip_ws (CHR '':'' # r) = CHR '':'' # r"
  "skip_ws (CHR 0x22 # r) = CHR 0x22 # r" "skip_ws (CHR ''['' # r) = CHR ''['' # r"
  "skip_ws (CHR ''{'' # r) = CHR ''{'' # r" "skip_ws [] = []"
  by (simp_all add: skip_ws_def json_ws_def)

definition reads :: "json \<Rightarrow> bool" where
  "reads v \<longleftrightarrow> (\<forall>n r. length (stringify v) < n \<longrightarrow> num_stop r \<longrightarrow> pval n (stringify v @ r) = Some (v, r))"

lemma pelems_reads:
  assumes "list_all reads xs" and "xs \<noteq> []"
    and "length (join_with '','' (map stringify xs)) + 1 < n"
  shows "pelems n (join_with '','' (map stringify xs) @ CHR '']'' # r) = Some (xs, r)"
  using assms
proof (induction xs arbitrary: n)
  case (Cons x xs)
  then obtain m where n: "n = Suc m" by (cases n) auto
  show ?case
  proof (cases xs)
    case Nil
    with Cons n show ?thesis by (simp add: reads_def pelems.simps)
  next
    case (Cons y ys)
    have "pval m (stringify x @ CHR '','' # join_with '','' (map stringify xs) @ CHR '']'' # r) =
        Some (x, CHR '','' # join_with '','' (map stringify xs) @ CHR '']'' # r)"
      using Cons.prems n Cons by (simp add: reads_def)
    moreover have "pelems m (join_with '','' (map stringify xs) @ CHR '']'' # r) = Some (xs, r)"
      using Cons.prems n Cons by (intro Cons.IH) auto
    ultimately show ?thesis using n Cons by (simp add: pelems.simps)
  qed
qed simp

lemma pmembers_reads:
  assumes "list_all (\<lambda>(k, v). reads v) kvs" and "kvs \<noteq> []"
    and "length (join_with '','' (map (\<lambda>(k, v). quote_str k @ '':'' @ stringify v) kvs)) + 1 < n"
  shows "pmembers n (join_with '','' (map (\<lambda>(k, v). quote_str k @ '':'' @ stringify v) kvs)
           @ CHR ''}'' # r) = Some (kvs, r)"
  using assms
proof (induction kvs arbitrary: n)
  case (Cons kv kvs)
  obtain k v where kv: "kv = (k, v)" by (cases kv)
  from Cons.prems obtain m where n: "n = Suc m" by (cases n) auto
  let ?p = "\<lambda>kvs. join_with '','' (map (\<lambda>(k, v). quote_str k @ '':'' @ stringify v) kvs)"
  show ?case
  proof (cases kvs)
    case Nil
    with Cons.prems n kv show ?thesis
      by (simp add: reads_def quote_str_def pstr_escaped pmembers.simps del: pstr.simps)
  next
    case (Cons kv' kvs')
    have "pval m (stringify v @ CHR '','' # ?p kvs @ CHR ''}'' # r) =
        Some (v, CHR '','' # ?p kvs @ CHR ''}'' # r)"
      using Cons.prems n kv Cons by (simp add: reads_def)
    moreover have "pmembers m (?p kvs @ CHR ''}'' # r) = Some (kvs, r)"
      using Cons.prems n kv Cons by (intro Cons.IH) auto
    ultimately show ?thesis
      using n kv Cons by (simp add: quote_str_def pstr_escaped pmembers.simps del: pstr.simps)
  qed
qed simp

lemma reads_scalar: "reads JNull" "reads (JBool b)" "reads (JStr s)"
  by (auto simp: reads_def pval.simps plit_def quote_str_def pstr_escaped skip_ws_def json_ws_def
      gr0_conv_Suc less_Suc_eq_0_disj elim!: less_natE simp del: pstr.simps)

lemma pval_number:
  "value_start c \<Longrightarrow> c \<notin> {CHR 0x22, CHR ''['', CHR ''{'', CHR ''t'', CHR ''f'', CHR ''n''} \<Longrightarrow>
   pval (Suc n) (c # cs) = pnumber (c # cs)"
  by (simp add: pval.simps skip_ws_start)

lemma reads_int: "reads (JNum i)"
proof -
  obtain c cs where s: "int_str i = c # cs" using int_str_start [of i] by (cases "int_str i") auto
  then have "value_start c" and "c \<notin> {CHR 0x22, CHR ''['', CHR ''{'', CHR ''t'', CHR ''f'', CHR ''n''}"
    using int_str_start [of i] by auto
  then have "pval (Suc n) (int_str i @ r) = pnumber (int_str i @ r)" for n r
    by (simp add: s pval_number)
  then show ?thesis
    unfolding reads_def by (auto simp: pnumber_int_str elim!: less_natE)
qed

lemma pval_arr:
  "skip_ws t = t \<and> t \<noteq> [] \<and> hd t \<noteq> CHR '']'' \<Longrightarrow>
   pval (Suc n) (CHR ''['' # t) = map_option (apfst JArr) (pelems n t)"
  by (cases t) (simp_all add: pval.simps)

lemma pval_obj:
  "skip_ws t = t \<and> t \<noteq> [] \<and> hd t \<noteq> CHR ''}'' \<Longrightarrow>
   pval (Suc n) (CHR ''{'' # t) = map_option (apfst (\<lambda>kvs. JObj (obj_of kvs))) (pmembers n t)"
  by (cases t) (simp_all add: pval.simps)

lemma reads_arr:
  assumes "list_all reads xs" and "list_all wf_json xs"
  shows "reads (JArr xs)"
proof (cases xs)
  case Nil
  then show ?thesis by (auto simp: reads_def pval.simps elim!: less_natE)
next
  case (Cons x ys)
  let ?t = "join_with '','' (map stringify xs)"
  have hd: "?t \<noteq> [] \<and> value_start (hd ?t)"
    using assms(2) Cons stringify_start [of x] by (cases ys) auto
  have sk: "skip_ws (?t @ r) = ?t @ r \<and> ?t @ r \<noteq> [] \<and> hd (?t @ r) \<noteq> CHR '']''" for r
    using hd skip_ws_hd [of ?t r] by (simp add: value_start_def)
  have "pval (Suc m) (stringify (JArr xs) @ r) = Some (JArr xs, r)" if "length ?t + 1 < m" for m r
    using pelems_reads [OF assms(1) _ that, of r] pval_arr [OF sk [of "CHR '']'' # r"], of m] Cons
    by simp
  then show ?thesis
    by (auto simp: reads_def simp del: join_with.simps elim!: less_natE)
qed

lemma reads_obj:
  assumes "list_all (\<lambda>(k, v). reads v) kvs" and "distinct (map fst kvs)"
  shows "reads (JObj kvs)"
proof (cases kvs)
  case Nil
  then show ?thesis by (auto simp: reads_def pval.simps elim!: less_natE)
next
  case (Cons kv kvs')
  let ?t = "join_with '','' (map (\<lambda>(k, v). quote_str k @ '':'' @ stringify v) kvs)"
  have hd: "?t \<noteq> [] \<and> hd ?t = CHR 0x22"
    using Cons by (cases kvs'; cases kv) (auto simp: quote_str_def)
  have sk: "skip_ws (?t @ r) = ?t @ r \<and> ?t @ r \<noteq> [] \<and> hd (?t @ r) \<noteq> CHR ''}''" for r
    using hd skip_ws_hd [of ?t r] by (simp add: value_start_def json_ws_def)
  have "pval (Suc m) (stringify (JObj kvs) @ r) = Some (JObj kvs, r)" if "length ?t + 1 < m" for m r
    using pmembers_reads [OF assms(1) _ that, of r] pval_obj [OF sk [of "CHR ''}'' # r"], of m] Cons
      obj_of_distinct [OF assms(2)] by simp
  then show ?thesis
    by (auto simp: reads_def simp del: join_with.simps elim!: less_natE)
qed

lemma wf_json_reads: "wf_json v \<Longrightarrow> reads v"
proof (induction v rule: json.induct)
  case (JArr xs)
  then show ?case by (intro reads_arr) (auto simp: list_all_iff)
next
  case (JObj kvs)
  then show ?case by (intro reads_obj) (fastforce simp: list_all_iff)+
qed (auto simp: reads_scalar reads_int)

lemma json_parse_stringify: "wf_json v \<Longrightarrow> json_parse (stringify v) = Some v"
  using wf_json_reads [of v]
  by (auto simp: reads_def json_parse_def dest!: spec [of _ "2 * length (stringify v) + 1"] spec [of _ "[]"])

end
