(* ===== verification/Dates.thy ===== *)
theory Dates
  imports Prelude
begin

text \<open>
  Instants. \<open>date_parse\<close> is \<open>Date.parse\<close> on the RFC 3339 timestamps the API server emits (any
  number of fractional digits, truncated to milliseconds; \<open>Z\<close> or a numeric offset) and \<open>NaN\<close>
  on every other text; \<open>to_iso\<close> is \<open>Date.prototype.toISOString\<close> for the years 0 to 9999. Both
  count milliseconds from the epoch in the proleptic Gregorian calendar.
\<close>

definition days_from_civil :: "int \<Rightarrow> int \<Rightarrow> int \<Rightarrow> int" where
  "days_from_civil y m d =
     (let y' = (if m \<le> 2 then y - 1 else y);
          era = y' div 400;
          yoe = y' - era * 400;
          doy = (153 * ((m + 9) mod 12) + 2) div 5 + d - 1;
          doe = yoe * 365 + yoe div 4 - yoe div 100 + doy
      in era * 146097 + doe - 719468)"

definition civil_from_days :: "int \<Rightarrow> int \<times> int \<times> int" where
  "civil_from_days z0 =
     (let z = z0 + 719468;
          era = z div 146097;
          doe = z - era * 146097;
          yoe = (doe - doe div 1460 + doe div 36524 - doe div 146096) div 365;
          doy = doe - (365 * yoe + yoe div 4 - yoe div 100);
          mp = (5 * doy + 2) div 153;
          d = doy - (153 * mp + 2) div 5 + 1;
          m = (if mp < 10 then mp + 3 else mp - 9)
      in (if m \<le> 2 then yoe + era * 400 + 1 else yoe + era * 400, m, d))"

definition is_leap :: "int \<Rightarrow> bool" where
  "is_leap y \<longleftrightarrow> y mod 4 = 0 \<and> (y mod 100 \<noteq> 0 \<or> y mod 400 = 0)"

definition days_in_month :: "int \<Rightarrow> int \<Rightarrow> int" where
  "days_in_month y m =
     (if m = 2 then (if is_leap y then 29 else 28)
      else if m = 4 \<or> m = 6 \<or> m = 9 \<or> m = 11 then 30 else 31)"

text \<open>\<open>pdigits k s\<close> reads exactly \<open>k\<close> digits.\<close>

definition pdigits :: "nat \<Rightarrow> string \<Rightarrow> (int \<times> string) option" where
  "pdigits k s =
     (if length (take k s) = k \<and> list_all is_digit (take k s)
      then Some (int (digits_val (take k s)), drop k s) else None)"

definition pchar :: "char \<Rightarrow> string \<Rightarrow> string option" where
  "pchar c s = (case s of [] \<Rightarrow> None | d # r \<Rightarrow> if d = c then Some r else None)"

text \<open>The fraction: its first three digits are the milliseconds.\<close>

definition pmillis :: "string \<Rightarrow> (int \<times> string) option" where
  "pmillis s =
     (case s of
        [] \<Rightarrow> Some (0, s)
      | c # r \<Rightarrow>
          if c = CHR ''.'' then
            (let ds = takeWhile is_digit r in
             if ds = [] then None
             else Some (int (digits_val (take 3 (ds @ ''00''))), dropWhile is_digit r))
          else Some (0, s))"

text \<open>The zone, in minutes east of UTC, up to the end of the text.\<close>

definition pzone :: "string \<Rightarrow> int option" where
  "pzone s =
     (case s of
        [] \<Rightarrow> None
      | c # r \<Rightarrow>
          if c = CHR ''Z'' then (if r = [] then Some 0 else None)
          else if c = CHR ''+'' \<or> c = CHR ''-'' then
            Option.bind (pdigits 2 r) (\<lambda>(h, r1).
            Option.bind (pchar (CHR '':'') r1) (\<lambda>r2.
            Option.bind (pdigits 2 r2) (\<lambda>(m, r3).
              if r3 = [] \<and> h \<le> 23 \<and> m \<le> 59
              then Some (if c = CHR ''+'' then h * 60 + m else - (h * 60 + m)) else None)))
          else None)"

definition date_parse_opt :: "string \<Rightarrow> int option" where
  "date_parse_opt s =
     Option.bind (pdigits 4 s) (\<lambda>(y, s).
     Option.bind (pchar (CHR ''-'') s) (\<lambda>s.
     Option.bind (pdigits 2 s) (\<lambda>(mo, s).
     Option.bind (pchar (CHR ''-'') s) (\<lambda>s.
     Option.bind (pdigits 2 s) (\<lambda>(d, s).
     Option.bind (pchar (CHR ''T'') s) (\<lambda>s.
     Option.bind (pdigits 2 s) (\<lambda>(h, s).
     Option.bind (pchar (CHR '':'') s) (\<lambda>s.
     Option.bind (pdigits 2 s) (\<lambda>(mi, s).
     Option.bind (pchar (CHR '':'') s) (\<lambda>s.
     Option.bind (pdigits 2 s) (\<lambda>(sec, s).
     Option.bind (pmillis s) (\<lambda>(ms, s).
     Option.bind (pzone s) (\<lambda>off.
       if 1 \<le> mo \<and> mo \<le> 12 \<and> 1 \<le> d \<and> d \<le> days_in_month y mo \<and> h \<le> 23 \<and> mi \<le> 59 \<and> sec \<le> 59
       then Some (86400000 * days_from_civil y mo d + 3600000 * h + 60000 * (mi - off) + 1000 * sec + ms)
       else None)))))))))))))"

definition date_parse :: "string \<Rightarrow> jsnum" where
  "date_parse s = (case date_parse_opt s of None \<Rightarrow> NaN | Some t \<Rightarrow> Num t)"

text \<open>Zero padding to a fixed width.\<close>

definition pad :: "nat \<Rightarrow> int \<Rightarrow> string" where
  "pad k n = (let s = nat_str (nat n) in replicate (k - length s) (CHR ''0'') @ s)"

definition to_iso :: "int \<Rightarrow> string" where
  "to_iso t =
     (let (y, m, d) = civil_from_days (t div 86400000);
          r = t mod 86400000
      in pad 4 y @ ''-'' @ pad 2 m @ ''-'' @ pad 2 d @ ''T'' @ pad 2 (r div 3600000) @ '':'' @
         pad 2 ((r div 60000) mod 60) @ '':'' @ pad 2 ((r div 1000) mod 60) @ ''.'' @
         pad 3 (r mod 1000) @ ''Z'')"

lemma date_parse_epoch: "date_parse ''1970-01-01T00:00:00Z'' = Num 0"
  by code_simp

lemma date_parse_nanos: "date_parse ''2026-03-01T10:20:30.123456789Z'' = Num 1772360430123"
  by code_simp

lemma date_parse_offset: "date_parse ''2026-03-01T10:20:30+05:30'' = Num 1772340630000"
  by code_simp

lemma to_iso_sample: "to_iso 1772360430123 = ''2026-03-01T10:20:30.123Z''"
  by code_simp

end
