(* ===== verification/Format.thy ===== *)
theory Format
  imports Prelude
begin

text \<open>
  The number and duration formats of \<open>web/src/lib/format.ts\<close>. \<open>Intl.NumberFormat\<close> depends on
  the locale of the browser and is a parameter (\<open>nf\<close>). \<open>toFixed\<close> is modelled down to the
  rounding of the double \<open>n / 1000\<close>: the quotient is the nearest 53-bit binary fraction, ties to
  even, and \<open>toFixed\<close> takes the integer nearest to its scaled value, the larger one on a tie.
\<close>

section \<open>Division by a thousand in double precision, and toFixed\<close>

fun floor_log2 :: "nat \<Rightarrow> nat" where
  "floor_log2 n = (if n < 2 then 0 else Suc (floor_log2 (n div 2)))"

declare floor_log2.simps [simp del]

definition round_half_even :: "nat \<Rightarrow> nat \<Rightarrow> nat" where
  "round_half_even a b =
     (let q = a div b; r = a mod b in
      if 2 * r < b then q else if b < 2 * r then Suc q else if even q then q else Suc q)"

text \<open>The double nearest to \<open>n / 1000\<close> (for \<open>1000 \<le> n\<close>) as mantissa and number of fraction bits.\<close>

definition div1000 :: "nat \<Rightarrow> nat \<times> nat" where
  "div1000 n = (let k = 52 - floor_log2 (n div 1000) in (round_half_even (n * 2 ^ k) 1000, k))"

text \<open>\<open>x.toFixed(f)\<close> of the double \<open>m / 2 ^ k\<close>, as the integer number of units of \<open>10 ^ -f\<close>.\<close>

definition to_fixed_units :: "nat \<Rightarrow> nat \<times> nat \<Rightarrow> nat" where
  "to_fixed_units f x = (2 * fst x * 10 ^ f + 2 ^ snd x) div 2 ^ Suc (snd x)"

definition zero_pad :: "nat \<Rightarrow> nat \<Rightarrow> string" where
  "zero_pad w n = replicate (w - length (nat_str n)) (CHR ''0'') @ nat_str n"

definition to_fixed :: "nat \<Rightarrow> nat \<times> nat \<Rightarrow> string" where
  "to_fixed f x =
     (let u = to_fixed_units f x in nat_str (u div 10 ^ f) @ ''.'' @ zero_pad f (u mod 10 ^ f))"

section \<open>The formatters\<close>

definition fmtNum :: "(int \<Rightarrow> string) \<Rightarrow> int \<Rightarrow> string" where
  "fmtNum nf n = nf n"

definition fmtRate :: "int \<Rightarrow> string" where
  "fmtRate perMin =
     (if perMin \<ge> 1000 then to_fixed 1 (div1000 (nat perMin)) @ ''k/min''
      else int_str perMin @ ''/min'')"

definition em_dash :: string where
  "em_dash = [CHR 0xE2, CHR 0x80, CHR 0x94]"

text \<open>
  \<open>None\<close> is \<open>null\<close> or \<open>undefined\<close>. A \<open>NaN\<close> (an unparsable timestamp) fails every comparison
  and reaches the last branch.
\<close>

fun fmtDuration :: "jsnum option \<Rightarrow> string" where
  "fmtDuration None = em_dash"
| "fmtDuration (Some NaN) = ''NaNd NaNh''"
| "fmtDuration (Some (Num ms0)) =
     (let ms = (if ms0 < 0 then 0 else ms0) in
      if ms < 1000 then int_str ms @ ''ms''
      else if ms < 60000 then to_fixed 2 (div1000 (nat ms)) @ ''s''
      else if ms < 3600000 then
        int_str (ms div 60000) @ ''m '' @ int_str (ms mod 60000 div 1000) @ ''s''
      else if ms < 86400000 then
        int_str (ms div 3600000) @ ''h '' @ int_str (ms mod 3600000 div 60000) @ ''m''
      else int_str (ms div 86400000) @ ''d '' @ int_str (ms mod 86400000 div 3600000) @ ''h'')"

definition shortId :: "string \<Rightarrow> nat \<Rightarrow> string" where
  "shortId i n = (if length i > n then slice0 n i else i)"

section \<open>The double arithmetic rounds to the nearest unit\<close>

lemma floor_log2_le: "1 \<le> n \<Longrightarrow> 2 ^ floor_log2 n \<le> n"
proof (induction n rule: floor_log2.induct)
  case (1 n)
  show ?case
  proof (cases "n < 2")
    case False
    then have "2 ^ floor_log2 (n div 2) \<le> n div 2" using 1 by simp
    with False show ?thesis by (simp add: floor_log2.simps [of n])
  qed (use 1 in \<open>simp add: floor_log2.simps [of n]\<close>)
qed

lemma round_half_even_bounds:
  assumes "0 < b"
  shows "2 * b * round_half_even a b \<le> 2 * a + b" and "2 * a \<le> 2 * b * round_half_even a b + b"
proof -
  define q r where "q = a div b" and "r = a mod b"
  have a: "a = b * q + r" and "r < b" using assms by (simp_all add: q_def r_def)
  then show "2 * b * round_half_even a b \<le> 2 * a + b" and "2 * a \<le> 2 * b * round_half_even a b + b"
    by (auto simp: round_half_even_def Let_def algebra_simps simp flip: q_def r_def)
qed

lemma floor_log2_less:
  assumes "n < 2 ^ k" and "0 < k"
  shows "floor_log2 n < k"
proof (cases "n = 0")
  case False
  then have "(2::nat) ^ floor_log2 n < 2 ^ k" using floor_log2_le [of n] assms(1) by linarith
  then show ?thesis by (rule power_less_imp_less_exp [rotated]) simp
qed (use assms in \<open>simp add: floor_log2.simps\<close>)

lemma cancel_slack:
  fixes P a b :: nat
  assumes "P * a \<le> P * b + 500" and "500 < P"
  shows "a \<le> b"
proof (rule ccontr)
  assume "\<not> a \<le> b"
  then have "P * (b + 1) \<le> P * a" by (intro mult_left_mono) auto
  with assms show False by (simp add: algebra_simps)
qed

lemma to_fixed_units_bounds:
  "2 * 2 ^ k * to_fixed_units f (m, k) \<le> 2 * m * 10 ^ f + 2 ^ k"
  "2 * m * 10 ^ f < 2 * 2 ^ k * to_fixed_units f (m, k) + 2 ^ k"
proof -
  define P :: nat where "P = 2 ^ k"
  have N: "to_fixed_units f (m, k) = (2 * m * 10 ^ f + P) div (2 * P)"
    by (simp add: to_fixed_units_def P_def)
  have "0 < 2 * P" by (simp add: P_def)
  then have "(2 * m * 10 ^ f + P) div (2 * P) * (2 * P) \<le> 2 * m * 10 ^ f + P"
    and "2 * m * 10 ^ f + P < (2 * m * 10 ^ f + P) div (2 * P) * (2 * P) + 2 * P"
    using div_times_less_eq_dividend dividend_less_div_times by (metis add.commute)+
  then show "2 * 2 ^ k * to_fixed_units f (m, k) \<le> 2 * m * 10 ^ f + 2 ^ k"
    and "2 * m * 10 ^ f < 2 * 2 ^ k * to_fixed_units f (m, k) + 2 ^ k"
    by (simp_all add: N mult.commute flip: P_def)
qed

text \<open>
  The printed value is a nearest multiple of \<open>10 ^ -f\<close> to the exact quotient: the error of the
  double never moves it past the midpoint between two multiples.
\<close>

lemma div1000_scaled:
  assumes "n < 1000 * 2 ^ 42"
  obtains P M k where "div1000 n = (M, k)" and "P = 2 ^ k" and "500 < P"
    and "2000 * M \<le> 2 * (n * P) + 1000" and "2 * (n * P) \<le> 2000 * M + 1000"
proof -
  define k where "k = 52 - floor_log2 (n div 1000)"
  have "n div 1000 < 2 ^ 42" using assms by (simp add: less_mult_imp_div_less mult.commute)
  then have "10 \<le> k" using floor_log2_less [of "n div 1000" 42] by (simp add: k_def)
  then have "(2::nat) ^ 10 \<le> 2 ^ k" by (intro power_increasing) simp_all
  then show ?thesis
    using round_half_even_bounds [of 1000 "n * 2 ^ k"]
    by (intro that [of "round_half_even (n * 2 ^ k) 1000" k "2 ^ k"])
      (simp_all add: div1000_def k_def Let_def)
qed

lemma to_fixed_2_nearest:
  assumes "n < 1000 * 2 ^ 42"
  shows "10 * to_fixed_units 2 (div1000 n) \<le> n + 5" and "n \<le> 10 * to_fixed_units 2 (div1000 n) + 5"
proof -
  obtain P M k where d: "div1000 n = (M, k)" "P = 2 ^ k" "500 < P"
    and m: "2000 * M \<le> 2 * (n * P) + 1000" "2 * (n * P) \<le> 2000 * M + 1000"
    using div1000_scaled [OF assms] .
  define N where "N = to_fixed_units 2 (div1000 n)"
  have "2 * (P * N) \<le> 200 * M + P" and "200 * M < 2 * (P * N) + P"
    using to_fixed_units_bounds [where k = k and f = 2 and m = M] d by (simp_all add: N_def mult.assoc)
  with m have "10 * (P * N) \<le> n * P + 5 * P + 500" and "n * P \<le> 10 * (P * N) + 5 * P + 500"
    by linarith+
  then have "P * (10 * N) \<le> P * (n + 5) + 500" and "P * n \<le> P * (10 * N + 5) + 500"
    by (simp_all add: distrib_left mult.left_commute mult.commute [of n P] mult.commute [of _ P])
  from this [THEN cancel_slack, OF d(3)]
  show "10 * to_fixed_units 2 (div1000 n) \<le> n + 5" and "n \<le> 10 * to_fixed_units 2 (div1000 n) + 5"
    by (simp_all add: N_def)
qed

lemma to_fixed_1_nearest:
  assumes "n < 1000 * 2 ^ 42"
  shows "100 * to_fixed_units 1 (div1000 n) \<le> n + 50" and "n \<le> 100 * to_fixed_units 1 (div1000 n) + 50"
proof -
  obtain P M k where d: "div1000 n = (M, k)" "P = 2 ^ k" "500 < P"
    and m: "2000 * M \<le> 2 * (n * P) + 1000" "2 * (n * P) \<le> 2000 * M + 1000"
    using div1000_scaled [OF assms] .
  define N where "N = to_fixed_units 1 (div1000 n)"
  have "2 * (P * N) \<le> 20 * M + P" and "20 * M < 2 * (P * N) + P"
    using to_fixed_units_bounds [where k = k and f = 1 and m = M] d by (simp_all add: N_def mult.assoc)
  with m have "100 * (P * N) \<le> n * P + 50 * P + 500" and "n * P \<le> 100 * (P * N) + 50 * P + 500"
    by linarith+
  then have "P * (100 * N) \<le> P * (n + 50) + 500" and "P * n \<le> P * (100 * N + 50) + 500"
    by (simp_all add: distrib_left mult.left_commute mult.commute [of n P] mult.commute [of _ P])
  from this [THEN cancel_slack, OF d(3)]
  show "100 * to_fixed_units 1 (div1000 n) \<le> n + 50" and "n \<le> 100 * to_fixed_units 1 (div1000 n) + 50"
    by (simp_all add: N_def)
qed

lemma two_units:
  fixes S B ms :: int
  assumes "0 < S" and "S < B" and "B \<le> ms"
  shows "\<exists>a b. ms div B = a \<and> ms mod B div S = b \<and> 1 \<le> a \<and> 0 \<le> b \<and> b * S < B
      \<and> a * B + b * S \<le> ms \<and> ms < a * B + b * S + S"
proof -
  have "ms = ms div B * B + ms mod B" and "0 \<le> ms mod B" and "ms mod B < B"
    using assms by simp_all
  moreover have "ms mod B = ms mod B div S * S + ms mod B mod S" and "0 \<le> ms mod B mod S"
    and "ms mod B mod S < S" using assms by simp_all
  moreover have "1 \<le> ms div B" using assms zdiv_mono1 [of B ms B] by simp
  moreover have "0 \<le> ms mod B div S" using assms by (simp add: pos_imp_zdiv_nonneg_iff)
  ultimately have "1 \<le> ms div B \<and> 0 \<le> ms mod B div S \<and> ms mod B div S * S < B
      \<and> ms div B * B + ms mod B div S * S \<le> ms \<and> ms < ms div B * B + ms mod B div S * S + S"
    by linarith
  then show ?thesis by blast
qed

section \<open>Properties\<close>

text \<open>
  Durations from one minute on are printed as two adjacent units whose values are in range
  and together give the duration truncated to the smaller unit.
\<close>

theorem fmtDuration_units:
  assumes "60000 \<le> ms"
  shows "\<exists>a b big small U u. fmtDuration (Some (Num ms)) = int_str a @ U @ '' '' @ int_str b @ u
      \<and> (big, small, U, u) \<in> {(60000, 1000, ''m'', ''s''), (3600000, 60000, ''h'', ''m''),
                                (86400000, 3600000, ''d'', ''h'')}
      \<and> 1 \<le> a \<and> 0 \<le> b \<and> b * small < big \<and> (U \<noteq> ''d'' \<longrightarrow> a * big < 24 * 3600000)
      \<and> a * big + b * small \<le> ms \<and> ms < a * big + b * small + small"
proof -
  consider "ms < 3600000" | "3600000 \<le> ms" "ms < 86400000" | "86400000 \<le> ms" by linarith
  then show ?thesis
  proof cases
    case 1
    obtain a b where ab: "ms div 60000 = a" "ms mod 60000 div 1000 = b" "1 \<le> a" "0 \<le> b"
      "b * 1000 < 60000" "a * 60000 + b * 1000 \<le> ms" "ms < a * 60000 + b * 1000 + 1000"
      using two_units [of 1000 60000 ms] assms by auto
    show ?thesis
      by (rule exI [of _ a], rule exI [of _ b], rule exI [of _ 60000], rule exI [of _ 1000],
          rule exI [of _ "''m''"], rule exI [of _ "''s''"]) (use 1 ab assms in simp)
  next
    case 2
    obtain a b where ab: "ms div 3600000 = a" "ms mod 3600000 div 60000 = b" "1 \<le> a" "0 \<le> b"
      "b * 60000 < 3600000" "a * 3600000 + b * 60000 \<le> ms" "ms < a * 3600000 + b * 60000 + 60000"
      using two_units [of 60000 3600000 ms] 2 by auto
    show ?thesis
      by (rule exI [of _ a], rule exI [of _ b], rule exI [of _ 3600000], rule exI [of _ 60000],
          rule exI [of _ "''h''"], rule exI [of _ "''m''"]) (use 2 ab in simp)
  next
    case 3
    obtain a b where ab: "ms div 86400000 = a" "ms mod 86400000 div 3600000 = b" "1 \<le> a" "0 \<le> b"
      "b * 3600000 < 86400000" "a * 86400000 + b * 3600000 \<le> ms"
      "ms < a * 86400000 + b * 3600000 + 3600000"
      using two_units [of 3600000 86400000 ms] 3 by auto
    show ?thesis
      by (rule exI [of _ a], rule exI [of _ b], rule exI [of _ 86400000], rule exI [of _ 3600000],
          rule exI [of _ "''d''"], rule exI [of _ "''h''"]) (use 3 ab in simp)
  qed
qed

theorem fmtDuration_units_witness:
  "fmtDuration (Some (Num 3725000)) = ''1h 2m'' \<and> (60000::int) \<le> 3725000 \<and>
   (\<exists>a b big small U u. fmtDuration (Some (Num 3725000)) = int_str a @ U @ '' '' @ int_str b @ u
      \<and> (big, small, U, u) \<in> {(60000, 1000, ''m'', ''s''), (3600000, 60000, ''h'', ''m''),
                                (86400000, 3600000, ''d'', ''h'')}
      \<and> 1 \<le> a \<and> 0 \<le> b \<and> b * small < big \<and> (U \<noteq> ''d'' \<longrightarrow> a * big < 24 * 3600000)
      \<and> a * big + b * small \<le> 3725000 \<and> 3725000 < a * big + b * small + small)"
proof -
  have "fmtDuration (Some (Num 3725000)) = ''1h 2m''" by code_simp
  moreover have h: "(60000::int) \<le> 3725000" by simp
  ultimately show ?thesis using fmtDuration_units [OF h] by blast
qed

text \<open>
  A duration of one second up to one minute is printed with two decimals, as a nearest
  multiple of ten milliseconds, in spite of the rounding of the floating-point quotient.
\<close>

theorem fmtDuration_seconds:
  assumes "1000 \<le> ms" and "ms < 60000"
  shows "\<exists>u. fmtDuration (Some (Num ms)) = nat_str (u div 100) @ ''.'' @ zero_pad 2 (u mod 100) @ ''s''
      \<and> \<bar>int (10 * u) - ms\<bar> \<le> 5"
proof -
  have "nat ms < 1000 * 2 ^ 42" using assms by simp
  from to_fixed_2_nearest [OF this] have "\<bar>int (10 * to_fixed_units 2 (div1000 (nat ms))) - ms\<bar> \<le> 5"
    using assms by linarith
  then show ?thesis
    using assms by (intro exI [of _ "to_fixed_units 2 (div1000 (nat ms))"])
      (simp add: to_fixed_def Let_def power2_eq_square)
qed

theorem fmtDuration_seconds_witness:
  "fmtDuration (Some (Num 1005)) = ''1.00s'' \<and> (1000::int) \<le> 1005 \<and> (1005::int) < 60000 \<and>
   (\<exists>u. fmtDuration (Some (Num 1005)) = nat_str (u div 100) @ ''.'' @ zero_pad 2 (u mod 100) @ ''s''
      \<and> \<bar>int (10 * u) - 1005\<bar> \<le> 5)"
proof -
  have "fmtDuration (Some (Num 1005)) = ''1.00s''"
    by (simp add: to_fixed_def to_fixed_units_def div1000_def round_half_even_def zero_pad_def
        floor_log2.simps nat_str.simps digit_char_def)
  then show ?thesis using fmtDuration_seconds [of 1005] by simp
qed

end
