(* ===== verification/Runtime.thy ===== *)
theory Runtime
  imports Json Dates Format
begin

text \<open>
  What the console asks of its host: the browser (\<open>localStorage\<close>, the clock, the locale), the
  build (\<open>import.meta.env\<close>) and \<open>date-fns\<close>. Each is a field of \<open>host\<close>, a parameter of the
  definitions that use it. The theory also has property access and coercions on JSON values,
  for code that reads parsed JSON without checking its shape, and the interface of a text codec
  that the persistent stores rely on.
\<close>

record host =
  in_browser :: bool                          \<comment> \<open>\<open>typeof window !== "undefined"\<close>\<close>
  date_now :: int                             \<comment> \<open>\<open>Date.now()\<close>\<close>
  nf_format :: "int \<Rightarrow> string"                \<comment> \<open>\<open>Intl.NumberFormat().format\<close>\<close>
  locale_compare :: "string \<Rightarrow> string \<Rightarrow> int"  \<comment> \<open>\<open>a.localeCompare(b)\<close>\<close>
  fmt_abs :: "int \<Rightarrow> string"                  \<comment> \<open>date-fns \<open>format(d, "yyyy-MM-dd HH:mm:ss")\<close>\<close>
  fmt_rel :: "int \<Rightarrow> int \<Rightarrow> string"           \<comment> \<open>date-fns \<open>formatDistanceToNowStrict\<close> at a time\<close>
  fmt_hm :: "string \<Rightarrow> string"                \<comment> \<open>date-fns \<open>format(new Date(t), "HH:mm")\<close>\<close>
  day_of :: "string \<Rightarrow> string"                \<comment> \<open>\<open>new Date(t).toDateString()\<close>\<close>
  day_now :: string                           \<comment> \<open>\<open>new Date().toDateString()\<close>\<close>
  syntax_msg :: "string \<Rightarrow> string"            \<comment> \<open>message of the \<open>SyntaxError\<close> of \<open>JSON.parse\<close>\<close>
  type_msg :: string                          \<comment> \<open>message of the \<open>TypeError\<close> of a method call on a non-string\<close>
  env_api_base :: "string option"             \<comment> \<open>\<open>import.meta.env.VITE_API_BASE_URL\<close>\<close>
  env_version :: "string option"              \<comment> \<open>\<open>import.meta.env.VITE_APP_VERSION\<close>\<close>
  prefers_dark :: bool                        \<comment> \<open>\<open>matchMedia("(prefers-color-scheme: dark)").matches\<close>\<close>
  origin :: string                            \<comment> \<open>\<open>window.location.origin\<close>\<close>

section \<open>Local storage\<close>

record storage =
  items :: "string \<Rightarrow> string option"
  available :: bool                           \<comment> \<open>when false, every access throws\<close>

definition set_item :: "string \<Rightarrow> string \<Rightarrow> storage \<Rightarrow> storage" where
  "set_item k v st = st\<lparr>items := (items st)(k \<mapsto> v)\<rparr>"

definition remove_item :: "string \<Rightarrow> storage \<Rightarrow> storage" where
  "remove_item k st = st\<lparr>items := (items st)(k := None)\<rparr>"

section \<open>Unchecked JSON values\<close>

text \<open>\<open>None\<close> is \<open>undefined\<close>. \<open>js_get v k\<close> is \<open>v.k\<close> on a value that is not \<open>null\<close>.\<close>

fun js_get :: "json \<Rightarrow> string \<Rightarrow> json option" where
  "js_get (JObj kvs) k = map_of kvs k"
| "js_get _ k = None"

text \<open>\<open>v?.k\<close>: \<open>undefined\<close> on \<open>null\<close> and \<open>undefined\<close>.\<close>

definition opt_get :: "json option \<Rightarrow> string \<Rightarrow> json option" where
  "opt_get v k = (case v of None \<Rightarrow> None | Some j \<Rightarrow> js_get j k)"

fun truthy :: "json option \<Rightarrow> bool" where
  "truthy None = False"
| "truthy (Some JNull) = False"
| "truthy (Some (JBool b)) = b"
| "truthy (Some (JNum n)) = (n \<noteq> 0)"
| "truthy (Some (JStr s)) = (s \<noteq> [])"
| "truthy (Some _) = True"

fun is_nullish :: "json option \<Rightarrow> bool" where
  "is_nullish None = True"
| "is_nullish (Some JNull) = True"
| "is_nullish (Some _) = False"

text \<open>The string a template literal or the \<open>Error\<close> constructor makes of a value.\<close>

fun to_str :: "json \<Rightarrow> string" where
  "to_str JNull = ''null''"
| "to_str (JBool b) = (if b then ''true'' else ''false'')"
| "to_str (JNum n) = int_str n"
| "to_str (JFloat t) = t"
| "to_str (JStr s) = s"
| "to_str (JArr xs) = join_with '','' (map (\<lambda>x. if x = JNull then [] else to_str x) xs)"
| "to_str (JObj kvs) = ''[object Object]''"

text \<open>\<open>Date.parse\<close> of a property that should be a timestamp.\<close>

fun json_date :: "json option \<Rightarrow> jsnum" where
  "json_date (Some (JStr s)) = date_parse s"
| "json_date _ = NaN"

text \<open>\<open>{...a, ...b}\<close>: own enumerable properties of \<open>b\<close> override those of \<open>a\<close> in place.\<close>

fun own_props :: "json \<Rightarrow> (string \<times> json) list" where
  "own_props (JObj kvs) = kvs"
| "own_props (JArr xs) = zip (map nat_str [0..<length xs]) xs"
| "own_props (JStr s) = zip (map nat_str [0..<length s]) (map (\<lambda>c. JStr [c]) s)"
| "own_props _ = []"

definition spread :: "json \<Rightarrow> json \<Rightarrow> json" where
  "spread a b = JObj (foldl (\<lambda>o' (k, v). obj_put o' k v) (own_props a) (own_props b))"

lemma map_of_obj_put: "map_of (obj_put kvs k v) = (map_of kvs)(k \<mapsto> v)"
  by (induction kvs k v rule: obj_put.induct) auto

lemma obj_put_keys: "fst ` set (obj_put kvs k v) = insert k (fst ` set kvs)"
  by (induction kvs k v rule: obj_put.induct) auto

lemma distinct_obj_put: "distinct (map fst kvs) \<Longrightarrow> distinct (map fst (obj_put kvs k v))"
  by (induction kvs k v rule: obj_put.induct) (auto simp: obj_put_keys)

lemma wf_obj_put:
  "list_all (\<lambda>(k, v). wf_json v) kvs \<Longrightarrow> wf_json v \<Longrightarrow> list_all (\<lambda>(k, v). wf_json v) (obj_put kvs k v)"
  by (induction kvs k v rule: obj_put.induct) auto

lemma wf_foldl_obj_put:
  "wf_json (JObj kvs) \<Longrightarrow> list_all (\<lambda>(k, v). wf_json v) ps \<Longrightarrow>
   wf_json (JObj (foldl (\<lambda>o' (k, v). obj_put o' k v) kvs ps))"
  by (induction ps arbitrary: kvs) (auto simp: distinct_obj_put wf_obj_put)

lemma wf_spread: "wf_json (JObj kvs) \<Longrightarrow> wf_json (JObj ps) \<Longrightarrow> wf_json (spread (JObj kvs) (JObj ps))"
  unfolding spread_def own_props.simps by (rule wf_foldl_obj_put) simp_all

lemma js_get_foldl_obj_put:
  "distinct (map fst ps) \<Longrightarrow>
   map_of (foldl (\<lambda>o' (k, v). obj_put o' k v) kvs ps) k =
     (case map_of ps k of Some v \<Rightarrow> Some v | None \<Rightarrow> map_of kvs k)"
proof (induction ps arbitrary: kvs)
  case (Cons p ps)
  obtain k' v' where p: "p = (k', v')" by (cases p)
  with Cons have "k' \<notin> fst ` set ps" by auto
  then have "map_of ps k' = None" by (simp add: map_of_eq_None_iff)
  with Cons p show ?case by (auto simp: map_of_obj_put split: option.splits)
qed simp

lemma js_get_spread:
  "distinct (map fst ps) \<Longrightarrow> js_get (spread (JObj kvs) (JObj ps)) k =
     (case map_of ps k of Some v \<Rightarrow> Some v | None \<Rightarrow> map_of kvs k)"
  by (simp add: spread_def js_get_foldl_obj_put)

section \<open>Text codecs\<close>

text \<open>
  The contract between a store and the text it persists: whatever the store writes is read
  back as the same value, by a later page load.
\<close>

locale text_codec =
  fixes enc :: "'s \<Rightarrow> string"
    and dec :: "string \<Rightarrow> 's option"
    and ok :: "'s \<Rightarrow> bool"
  assumes dec_enc: "ok s \<Longrightarrow> dec (enc s) = Some s"
    and enc_nonempty: "ok s \<Longrightarrow> enc s \<noteq> []"
begin

lemma enc_inj: "ok s \<Longrightarrow> ok t \<Longrightarrow> enc s = enc t \<Longrightarrow> s = t"
  by (metis dec_enc option.inject)

lemma stored_reads_back:
  assumes "ok s"
  shows "Option.bind (items (set_item k (enc s) st) k) dec = Some s"
  using assms by (simp add: set_item_def dec_enc)

lemma stored_truthy: "ok s \<Longrightarrow> truthy_str (items (set_item k (enc s) st) k)"
  by (simp add: set_item_def enc_nonempty)

end

interpretation json_text: text_codec stringify json_parse wf_json
  by unfold_locales (simp_all add: json_parse_stringify stringify_start)

section \<open>External stores\<close>

text \<open>
  The listener sets of \<open>useSyncExternalStore\<close>: subscribing returns the unsubscriber, and a
  notification calls every listener once, in subscription order.
\<close>

type_synonym listener = nat

definition sub_add :: "listener \<Rightarrow> listener jsset \<Rightarrow> listener jsset" where
  "sub_add l ls = set_add ls l"

definition sub_remove :: "listener \<Rightarrow> listener jsset \<Rightarrow> listener jsset" where
  "sub_remove l ls = set_delete ls l"

lemma unsubscribe_subscribe:
  "l \<notin> set ls \<Longrightarrow> sub_remove l (sub_add l ls) = ls"
  by (auto simp: sub_add_def sub_remove_def set_add_def set_delete_def filter_id_conv)

end
