(* ===== verification/Auth.thy ===== *)
theory Auth
  imports Runtime
begin

text \<open>
  The session store of \<open>web/src/lib/auth.ts\<close>: module state (\<open>state\<close>, \<open>loaded\<close>, the listeners)
  as a record, each exported function as a step on the store and the browser storage. The code
  casts whatever JSON it finds to a \<open>Session\<close>, so the state is a JSON value; \<open>session\<close> is the
  typed session the server issues and \<open>session_json\<close> its wire form. The log of called listeners
  is kept, since notification is the store's only other effect.
\<close>

text \<open>The union of the permissions the console knows. A session holds texts, so nothing forces its entries to be among them.\<close>

definition Permission :: "string list" where
  "Permission =
     [''system:read'', ''queues:read'', ''queues:write'', ''jobs:read'', ''jobs:write'', ''workers:read'',
      ''dlq:read'', ''dlq:write'', ''delayed:read'', ''delayed:write'', ''metrics:read'']"

record session_user =
  u_username :: string
  u_roles :: "string list"
  u_permissions :: "string list"

record session =
  s_token :: string
  s_expiresAt :: string
  s_user :: session_user

definition user_json :: "session_user \<Rightarrow> json" where
  "user_json u = JObj [(''username'', JStr (u_username u)), (''roles'', JArr (map JStr (u_roles u))),
     (''permissions'', JArr (map JStr (u_permissions u)))]"

definition session_json :: "session \<Rightarrow> json" where
  "session_json s = JObj [(''token'', JStr (s_token s)), (''expiresAt'', JStr (s_expiresAt s)),
     (''user'', user_json (s_user s))]"

text \<open>The typed reading of a JSON session; \<open>None\<close> when the shape is not that of a \<open>Session\<close>.\<close>

fun str_of :: "json option \<Rightarrow> string option" where
  "str_of (Some (JStr s)) = Some s"
| "str_of _ = None"

fun strs_of :: "json option \<Rightarrow> string list option" where
  "strs_of (Some (JArr xs)) = those (map (\<lambda>x. str_of (Some x)) xs)"
| "strs_of _ = None"

definition session_of :: "json \<Rightarrow> session option" where
  "session_of j =
     (case (str_of (js_get j ''token''), str_of (js_get j ''expiresAt''),
            str_of (opt_get (js_get j ''user'') ''username''),
            strs_of (opt_get (js_get j ''user'') ''roles''),
            strs_of (opt_get (js_get j ''user'') ''permissions'')) of
        (Some tok, Some ex, Some un, Some rs, Some ps) \<Rightarrow>
          Some \<lparr>s_token = tok, s_expiresAt = ex,
                s_user = \<lparr>u_username = un, u_roles = rs, u_permissions = ps\<rparr>\<rparr>
      | _ \<Rightarrow> None)"

record auth_store =
  a_state :: "json option"
  a_loaded :: bool
  a_listeners :: "listener jsset"
  a_log :: "listener list"

definition auth_init :: auth_store where
  "auth_init = \<lparr>a_state = None, a_loaded = False, a_listeners = [], a_log = []\<rparr>"

definition AUTH_KEY :: string where
  "AUTH_KEY = ''forgequeue-ui:session''"

type_synonym auth_ctx = "auth_store \<times> storage"

definition isExpired :: "host \<Rightarrow> json \<Rightarrow> bool" where
  "isExpired h s = (case json_date (js_get s ''expiresAt'') of NaN \<Rightarrow> False | Num t \<Rightarrow> t \<le> date_now h)"

definition auth_load :: "host \<Rightarrow> auth_ctx \<Rightarrow> auth_ctx" where
  "auth_load h c =
     (if a_loaded (fst c) \<or> \<not> in_browser h then c
      else
        let a = (fst c)\<lparr>a_loaded := True\<rparr>; st = snd c in
        if \<not> available st then (a, st)
        else case items st AUTH_KEY of
            None \<Rightarrow> (a, st)
          | Some raw \<Rightarrow>
              if raw = [] then (a, st)
              else case json_parse raw of
                  None \<Rightarrow> (a, st)
                | Some parsed \<Rightarrow>
                    if truthy (js_get parsed ''token'') \<and> \<not> isExpired h parsed
                    then (a\<lparr>a_state := Some parsed\<rparr>, st)
                    else (a, remove_item AUTH_KEY st))"

definition auth_persist :: "auth_ctx \<Rightarrow> auth_ctx" where
  "auth_persist c =
     (let (a, st) = c in
      if \<not> available st then c
      else if truthy (a_state a) then (a, set_item AUTH_KEY (stringify (the (a_state a))) st)
      else (a, remove_item AUTH_KEY st))"

definition auth_emit :: "auth_ctx \<Rightarrow> auth_ctx" where
  "auth_emit c = ((fst c)\<lparr>a_log := a_log (fst c) @ a_listeners (fst c)\<rparr>, snd c)"

definition getSession :: "host \<Rightarrow> auth_ctx \<Rightarrow> json option \<times> auth_ctx" where
  "getSession h c = (let c' = auth_load h c in (a_state (fst c'), c'))"

text \<open>\<open>getSession()?.token ?? null\<close>; \<open>None\<close> stands for \<open>null\<close>.\<close>

definition getToken :: "host \<Rightarrow> auth_ctx \<Rightarrow> json option \<times> auth_ctx" where
  "getToken h c =
     (let (s, c') = getSession h c; t = opt_get s ''token'' in (if is_nullish t then None else t, c'))"

definition setSession :: "host \<Rightarrow> json \<Rightarrow> auth_ctx \<Rightarrow> auth_ctx" where
  "setSession h nxt c =
     (let c1 = auth_load h c in auth_emit (auth_persist ((fst c1)\<lparr>a_state := Some nxt\<rparr>, snd c1)))"

definition clearSession :: "host \<Rightarrow> auth_ctx \<Rightarrow> auth_ctx" where
  "clearSession h c =
     (let c1 = auth_load h c in auth_emit (auth_persist ((fst c1)\<lparr>a_state := None\<rparr>, snd c1)))"

text \<open>
  \<open>s.user.permissions.includes(p)\<close> on an unchecked session: reading a property of \<open>undefined\<close>
  or \<open>null\<close>, or calling a missing method, is a \<open>TypeError\<close>. A string has an \<open>includes\<close> too.
\<close>

datatype js_error = TypeError

definition permissions_include :: "json \<Rightarrow> string \<Rightarrow> js_error + bool" where
  "permissions_include s p =
     (if is_nullish (js_get s ''user'') then Inl TypeError
      else case opt_get (js_get s ''user'') ''permissions'' of
          Some (JArr xs) \<Rightarrow> Inr (List.member xs (JStr p))
        | Some (JStr t) \<Rightarrow> Inr (js_includes t p)
        | _ \<Rightarrow> Inl TypeError)"

definition hasPermission :: "host \<Rightarrow> string \<Rightarrow> auth_ctx \<Rightarrow> (js_error + bool) \<times> auth_ctx" where
  "hasPermission h p c =
     (let (s, c') = getSession h c in
      (if truthy s then permissions_include (the s) p else Inr False, c'))"

definition auth_subscribe :: "listener \<Rightarrow> auth_store \<Rightarrow> auth_store" where
  "auth_subscribe l a = a\<lparr>a_listeners := sub_add l (a_listeners a)\<rparr>"

definition auth_unsubscribe :: "listener \<Rightarrow> auth_store \<Rightarrow> auth_store" where
  "auth_unsubscribe l a = a\<lparr>a_listeners := sub_remove l (a_listeners a)\<rparr>"

text \<open>The snapshots of \<open>useSyncExternalStore\<close>: \<open>null\<close> while rendering on the server.\<close>

definition useSession :: "host \<Rightarrow> auth_ctx \<Rightarrow> json option \<times> auth_ctx" where
  "useSession h c = (if in_browser h then getSession h c else (None, c))"

definition useHasPermission :: "host \<Rightarrow> string \<Rightarrow> auth_ctx \<Rightarrow> (js_error + bool) \<times> auth_ctx" where
  "useHasPermission h p c =
     (let (s, c') = useSession h c in
      (if truthy s then permissions_include (the s) p else Inr False, c'))"

section \<open>Lemmas\<close>

lemmas auth_defs = auth_load_def auth_persist_def auth_emit_def getSession_def setSession_def
  clearSession_def set_item_def remove_item_def

lemma wf_session_json: "wf_json (session_json s)"
  by (simp add: session_json_def user_json_def list_all_iff)

lemma truthy_session_token: "truthy (js_get (session_json s) ''token'') \<longleftrightarrow> s_token s \<noteq> []"
  by (simp add: session_json_def)

lemma isExpired_session:
  "isExpired h (session_json s) \<longleftrightarrow> (\<exists>t. date_parse (s_expiresAt s) = Num t \<and> t \<le> date_now h)"
  by (auto simp: isExpired_def session_json_def split: jsnum.splits)

lemma permissions_include_session:
  "permissions_include (session_json s) p = Inr (p \<in> set (u_permissions (s_user s)))"
  by (auto simp: permissions_include_def session_json_def user_json_def opt_get_def)


lemma auth_load_loaded [simp]: "a_loaded (fst c) \<Longrightarrow> auth_load h c = c"
  by (simp add: auth_load_def)

lemma loaded_auth_load: "in_browser h \<Longrightarrow> a_loaded (fst (auth_load h c))"
  by (auto simp: auth_load_def Let_def split: option.splits)

lemma available_auth_load [simp]: "available (snd (auth_load h c)) = available (snd c)"
  by (auto simp: auth_load_def Let_def remove_item_def split: option.splits)

lemma setSession_state [simp]: "a_state (fst (setSession h j c)) = Some j"
  by (auto simp: setSession_def auth_emit_def auth_persist_def Let_def split: prod.splits)

lemma clearSession_state [simp]: "a_state (fst (clearSession h c)) = None"
  by (auto simp: clearSession_def auth_emit_def auth_persist_def Let_def split: prod.splits)

lemma setSession_stored:
  "available (snd c) \<Longrightarrow> truthy (Some j) \<Longrightarrow>
   snd (setSession h j c) = set_item AUTH_KEY (stringify j) (snd (auth_load h c))"
  by (auto simp: setSession_def auth_emit_def auth_persist_def Let_def split: prod.splits)

lemma clearSession_stored:
  "available (snd c) \<Longrightarrow> items (snd (clearSession h c)) AUTH_KEY = None"
  by (auto simp: clearSession_def auth_emit_def auth_persist_def Let_def remove_item_def split: prod.splits)

lemma those_map_Some: "those (map Some xs) = Some xs"
  by (induction xs) auto

lemma session_of_json [simp]: "session_of (session_json s) = Some s"
  by (simp add: session_of_def session_json_def user_json_def opt_get_def comp_def those_map_Some)

interpretation session_text: text_codec "\<lambda>s. stringify (session_json s)"
  "\<lambda>t. Option.bind (json_parse t) session_of" "\<lambda>s. True"
  by unfold_locales
    (simp_all add: json_parse_stringify wf_session_json stringify_start)

text \<open>What a fresh page load does with a stored session text.\<close>

lemma auth_load_stored:
  assumes "in_browser h" and "available st" and "items st AUTH_KEY = Some (stringify j)" and "wf_json j"
  shows "auth_load h (auth_init, st) =
     (if truthy (js_get j ''token'') \<and> \<not> isExpired h j
      then (auth_init\<lparr>a_loaded := True, a_state := Some j\<rparr>, st)
      else (auth_init\<lparr>a_loaded := True\<rparr>, remove_item AUTH_KEY st))"
  using assms stringify_start [OF assms(4)]
  by (simp add: auth_load_def auth_init_def json_parse_stringify Let_def)

lemma truthy_session [simp]: "truthy (Some (session_json s))"
  by (simp add: session_json_def)

lemma setSession_items:
  "available (snd c) \<Longrightarrow> truthy (Some j) \<Longrightarrow> items (snd (setSession h j c)) AUTH_KEY = Some (stringify j)"
  "available (snd c) \<Longrightarrow> truthy (Some j) \<Longrightarrow> available (snd (setSession h j c))"
  by (simp_all add: setSession_stored set_item_def)

section \<open>Properties\<close>

text \<open>
  (C18) Signing in survives a page reload: a session stored by \<open>setSession\<close> is the session a
  fresh page loads, as long as it has a token and its expiry time has not passed, and the
  permission checks then answer exactly from the permissions the server granted.
\<close>

theorem session_survives_reload:
  assumes "in_browser h'" and "available (snd c)" and "s_token s \<noteq> []"
    and "date_parse (s_expiresAt s) = Num t" and "date_now h' < t"
  shows "fst (getSession h' (auth_init, snd (setSession h (session_json s) c))) = Some (session_json s)
     \<and> fst (hasPermission h' p (auth_init, snd (setSession h (session_json s) c))) =
         Inr (p \<in> set (u_permissions (s_user s)))"
proof -
  have "auth_load h' (auth_init, snd (setSession h (session_json s) c)) =
      (auth_init\<lparr>a_loaded := True, a_state := Some (session_json s)\<rparr>, snd (setSession h (session_json s) c))"
    using assms by (subst auth_load_stored [of _ _ "session_json s"])
      (auto simp: setSession_items wf_session_json isExpired_session truthy_session_token)
  then show ?thesis
    by (simp add: getSession_def hasPermission_def permissions_include_session)
qed

definition sample_host :: host where
  "sample_host = \<lparr>in_browser = True, date_now = 1000, nf_format = int_str,
     locale_compare = str_cmp, fmt_abs = int_str, fmt_rel = (\<lambda>d n. int_str (n - d)),
     fmt_hm = (\<lambda>t. t), day_of = (\<lambda>t. take 10 t), day_now = ''1970-01-01'',
     syntax_msg = (\<lambda>t. ''Unexpected token''), type_msg = ''not a function'', env_api_base = None, env_version = None,
     prefers_dark = True, origin = ''https://console.example''\<rparr>"

definition sample_session :: session where
  "sample_session = \<lparr>s_token = ''tok'', s_expiresAt = ''1970-01-01T00:00:10Z'',
     s_user = \<lparr>u_username = ''ann'', u_roles = [''viewer''], u_permissions = [''jobs:read'']\<rparr>\<rparr>"

definition sample_storage :: storage where
  "sample_storage = \<lparr>items = Map.empty, available = True\<rparr>"

lemma sample_expiry: "date_parse (s_expiresAt sample_session) = Num 10000"
  by code_simp

theorem session_survives_reload_witness:
  "fst (getSession sample_host (auth_init,
       snd (setSession sample_host (session_json sample_session) (auth_init, sample_storage)))) =
     Some (session_json sample_session)
   \<and> fst (hasPermission sample_host ''jobs:read'' (auth_init,
       snd (setSession sample_host (session_json sample_session) (auth_init, sample_storage)))) = Inr True"
  using session_survives_reload [of sample_host "(auth_init, sample_storage)" sample_session 10000
      sample_host "''jobs:read''", OF _ _ _ sample_expiry]
  by (simp add: sample_host_def sample_storage_def sample_session_def)

text \<open>
  An expired session is never used: a page load past the expiry time starts signed out,
  every permission check is negative, and the stored text is removed.
\<close>

theorem expired_session_dropped:
  assumes "in_browser h" and "available st" and "items st AUTH_KEY = Some (stringify (session_json s))"
    and "date_parse (s_expiresAt s) = Num t" and "t \<le> date_now h"
  shows "fst (getSession h (auth_init, st)) = None
     \<and> fst (hasPermission h p (auth_init, st)) = Inr False
     \<and> items (snd (snd (getSession h (auth_init, st)))) AUTH_KEY = None"
proof -
  have "auth_load h (auth_init, st) = (auth_init\<lparr>a_loaded := True\<rparr>, remove_item AUTH_KEY st)"
    using assms by (subst auth_load_stored [of _ _ "session_json s"])
      (auto simp: wf_session_json isExpired_session)
  then show ?thesis
    by (simp add: getSession_def hasPermission_def auth_init_def remove_item_def)
qed

definition expired_storage :: storage where
  "expired_storage = set_item AUTH_KEY (stringify (session_json sample_session)) sample_storage"

theorem expired_session_dropped_witness:
  "fst (getSession (sample_host\<lparr>date_now := 10000\<rparr>) (auth_init, expired_storage)) = None
   \<and> fst (hasPermission (sample_host\<lparr>date_now := 10000\<rparr>) ''jobs:read'' (auth_init, expired_storage)) = Inr False
   \<and> items (snd (snd (getSession (sample_host\<lparr>date_now := 10000\<rparr>) (auth_init, expired_storage)))) AUTH_KEY = None"
  by (rule expired_session_dropped [OF _ _ _ sample_expiry])
    (simp_all add: sample_host_def expired_storage_def sample_storage_def set_item_def)

text \<open>
  Signing out is complete: whatever the store held, \<open>clearSession\<close> leaves no session in
  memory and none in the storage, so the next page load is signed out as well, and every
  listener is notified once.
\<close>

theorem clearSession_complete:
  assumes "available (snd c)"
  shows "a_state (fst (clearSession h c)) = None
     \<and> fst (getSession h' (auth_init, snd (clearSession h c))) = None
     \<and> a_log (fst (clearSession h c)) = a_log (fst c) @ a_listeners (fst c)"
proof -
  have "items (snd (clearSession h c)) AUTH_KEY = None" by (rule clearSession_stored [OF assms])
  then have "fst (getSession h' (auth_init, snd (clearSession h c))) = None"
    by (simp add: getSession_def auth_load_def auth_init_def Let_def)
  moreover have "a_log (fst (clearSession h c)) = a_log (fst c) @ a_listeners (fst c)"
    by (auto simp: clearSession_def auth_emit_def auth_persist_def auth_load_def Let_def
        split: prod.splits option.splits)
  ultimately show ?thesis by simp
qed

theorem clearSession_complete_witness:
  "a_state (fst (clearSession sample_host (auth_init\<lparr>a_listeners := [7]\<rparr>, expired_storage))) = None
   \<and> fst (getSession sample_host (auth_init,
         snd (clearSession sample_host (auth_init\<lparr>a_listeners := [7]\<rparr>, expired_storage)))) = None
   \<and> a_log (fst (clearSession sample_host (auth_init\<lparr>a_listeners := [7]\<rparr>, expired_storage))) = [7]"
  using clearSession_complete [of "(auth_init\<lparr>a_listeners := [7]\<rparr>, expired_storage)" sample_host sample_host]
  by (simp add: expired_storage_def sample_storage_def set_item_def auth_init_def)

text \<open>
  The store trusts the shape of what it finds: a stored object with a token but no user is
  taken as the session, and every later permission check throws instead of answering.
\<close>

theorem unshaped_session_throws:
  assumes "in_browser h" and "available st" and "items st AUTH_KEY = Some (stringify (JObj [(''token'', JStr tok)]))"
    and "tok \<noteq> []"
  shows "fst (getSession h (auth_init, st)) = Some (JObj [(''token'', JStr tok)])
     \<and> fst (hasPermission h p (auth_init, st)) = Inl TypeError"
  using assms auth_load_stored [of h st "JObj [(''token'', JStr tok)]"]
  by (simp add: getSession_def hasPermission_def permissions_include_def isExpired_def del: stringify.simps)

theorem unshaped_session_throws_witness:
  "fst (getSession sample_host (auth_init,
       set_item AUTH_KEY (stringify (JObj [(''token'', JStr ''x'')])) sample_storage)) =
     Some (JObj [(''token'', JStr ''x'')])
   \<and> fst (hasPermission sample_host ''jobs:read'' (auth_init,
       set_item AUTH_KEY (stringify (JObj [(''token'', JStr ''x'')])) sample_storage)) = Inl TypeError"
  by (rule unshaped_session_throws)
    (simp_all add: sample_host_def sample_storage_def set_item_def del: stringify.simps)

end
