(* ===== verification/Prefs.thy ===== *)
theory Prefs
  imports Auth
begin

text \<open>
  The preference store of \<open>web/src/lib/prefs.ts\<close>. As in \<open>Auth\<close>, the code merges unchecked JSON
  into the state, so the state is a JSON object; \<open>prefs\<close> is its typed reading, which the views
  take, and \<open>prefs_patch\<close> a typed \<open>Partial<Prefs>\<close>.
\<close>

datatype theme_pref = Light | Dark | System
datatype auto_refresh = Off | R5s | R10s | R30s
datatype density = Compact | Comfortable

fun theme_str :: "theme_pref \<Rightarrow> string" where
  "theme_str Light = ''light''"
| "theme_str Dark = ''dark''"
| "theme_str System = ''system''"

fun auto_refresh_str :: "auto_refresh \<Rightarrow> string" where
  "auto_refresh_str Off = ''off''"
| "auto_refresh_str R5s = ''5s''"
| "auto_refresh_str R10s = ''10s''"
| "auto_refresh_str R30s = ''30s''"

fun density_str :: "density \<Rightarrow> string" where
  "density_str Compact = ''compact''"
| "density_str Comfortable = ''comfortable''"

record prefs =
  p_theme :: theme_pref
  p_autoRefresh :: auto_refresh
  p_density :: density
  p_relativeTime :: bool
  p_apiBase :: string

datatype prefs_patch =
    PTheme theme_pref
  | PAutoRefresh auto_refresh
  | PDensity density
  | PRelativeTime bool
  | PApiBase string

fun patch_json :: "prefs_patch \<Rightarrow> json" where
  "patch_json (PTheme t) = JObj [(''theme'', JStr (theme_str t))]"
| "patch_json (PAutoRefresh a) = JObj [(''autoRefresh'', JStr (auto_refresh_str a))]"
| "patch_json (PDensity d) = JObj [(''density'', JStr (density_str d))]"
| "patch_json (PRelativeTime b) = JObj [(''relativeTime'', JBool b)]"
| "patch_json (PApiBase b) = JObj [(''apiBase'', JStr b)]"

definition PREFS_KEY :: string where
  "PREFS_KEY = ''forgequeue-ui:prefs''"

definition THEME_KEY :: string where
  "THEME_KEY = ''forgequeue-ui:theme''"

definition prefs_json :: "prefs \<Rightarrow> json" where
  "prefs_json p = JObj [(''theme'', JStr (theme_str (p_theme p))),
     (''autoRefresh'', JStr (auto_refresh_str (p_autoRefresh p))),
     (''density'', JStr (density_str (p_density p))),
     (''relativeTime'', JBool (p_relativeTime p)),
     (''apiBase'', JStr (p_apiBase p))]"

text \<open>\<open>import.meta.env["VITE_API_BASE_URL"] || "/api"\<close>: an empty variable counts as unset.\<close>

definition env_or :: "string option \<Rightarrow> string \<Rightarrow> string" where
  "env_or v d = (if truthy_str v then the v else d)"

definition prefs_defaults :: "host \<Rightarrow> prefs" where
  "prefs_defaults h = \<lparr>p_theme = Dark, p_autoRefresh = R5s, p_density = Compact, p_relativeTime = True,
     p_apiBase = env_or (env_api_base h) ''/api''\<rparr>"

record prefs_store =
  ps_state :: json
  ps_loaded :: bool
  ps_listeners :: "listener jsset"
  ps_log :: "listener list"

definition prefs_init :: "host \<Rightarrow> prefs_store" where
  "prefs_init h = \<lparr>ps_state = prefs_json (prefs_defaults h), ps_loaded = False, ps_listeners = [], ps_log = []\<rparr>"

type_synonym prefs_ctx = "prefs_store \<times> storage"

text \<open>
  The \<open>try\<close> block of \<open>load\<close>: a \<open>SyntaxError\<close> of the stored preferences leaves the block before
  the theme is read.
\<close>

definition prefs_load :: "host \<Rightarrow> prefs_ctx \<Rightarrow> prefs_ctx" where
  "prefs_load h c =
     (if ps_loaded (fst c) \<or> \<not> in_browser h then c
      else
        let p = (fst c)\<lparr>ps_loaded := True\<rparr>; st = snd c in
        if \<not> available st then (p, st)
        else
          let with_theme = (\<lambda>p. case items st THEME_KEY of
                None \<Rightarrow> p
              | Some t \<Rightarrow> if t = [] then p
                          else p\<lparr>ps_state := spread (ps_state p) (JObj [(''theme'', JStr t)])\<rparr>) in
          case items st PREFS_KEY of
            None \<Rightarrow> (with_theme p, st)
          | Some raw \<Rightarrow>
              if raw = [] then (with_theme p, st)
              else case json_parse raw of
                  None \<Rightarrow> (p, st)
                | Some j \<Rightarrow> (with_theme (p\<lparr>ps_state := spread (prefs_json (prefs_defaults h)) j\<rparr>), st))"

definition getPrefs :: "host \<Rightarrow> prefs_ctx \<Rightarrow> json \<times> prefs_ctx" where
  "getPrefs h c = (let c' = prefs_load h c in (ps_state (fst c'), c'))"

definition setPrefs :: "host \<Rightarrow> json \<Rightarrow> prefs_ctx \<Rightarrow> prefs_ctx" where
  "setPrefs h patch c =
     (let (p, st) = prefs_load h c;
          s' = spread (ps_state p) patch;
          st' = (if \<not> available st then st
                 else set_item THEME_KEY (case js_get s' ''theme'' of None \<Rightarrow> ''undefined'' | Some v \<Rightarrow> to_str v)
                        (set_item PREFS_KEY (stringify s') st))
      in (p\<lparr>ps_state := s', ps_log := ps_log p @ ps_listeners p\<rparr>, st'))"

definition prefs_subscribe :: "listener \<Rightarrow> prefs_store \<Rightarrow> prefs_store" where
  "prefs_subscribe l p = p\<lparr>ps_listeners := sub_add l (ps_listeners p)\<rparr>"

definition prefs_unsubscribe :: "listener \<Rightarrow> prefs_store \<Rightarrow> prefs_store" where
  "prefs_unsubscribe l p = p\<lparr>ps_listeners := sub_remove l (ps_listeners p)\<rparr>"

definition usePrefs :: "host \<Rightarrow> prefs_ctx \<Rightarrow> json \<times> prefs_ctx" where
  "usePrefs h c = (if in_browser h then getPrefs h c else (prefs_json (prefs_defaults h), c))"

text \<open>
  \<open>Number(a.replace("s", "")) * 1000\<close>, on the texts of digits the type allows; other texts
  are \<open>NaN\<close>. \<open>None\<close> is \<open>false\<close>: no polling.
\<close>

fun remove_first :: "char \<Rightarrow> string \<Rightarrow> string" where
  "remove_first c [] = []"
| "remove_first c (d # s) = (if d = c then s else d # remove_first c s)"

definition to_number :: "string \<Rightarrow> jsnum" where
  "to_number s = (if s = [] then Num 0
     else if list_all is_digit s then Num (int (digits_val s)) else NaN)"

definition refreshMs :: "string \<Rightarrow> jsnum option" where
  "refreshMs a = (if a = ''off'' then None
     else Some (case to_number (remove_first (CHR ''s'') a) of NaN \<Rightarrow> NaN | Num n \<Rightarrow> Num (n * 1000)))"

section \<open>The typed reading\<close>

definition theme_of :: "string \<Rightarrow> theme_pref option" where
  "theme_of s = find (\<lambda>t. theme_str t = s) [Light, Dark, System]"

definition auto_refresh_of :: "string \<Rightarrow> auto_refresh option" where
  "auto_refresh_of s = find (\<lambda>t. auto_refresh_str t = s) [Off, R5s, R10s, R30s]"

definition density_of :: "string \<Rightarrow> density option" where
  "density_of s = find (\<lambda>t. density_str t = s) [Compact, Comfortable]"

fun bool_of :: "json option \<Rightarrow> bool option" where
  "bool_of (Some (JBool b)) = Some b"
| "bool_of _ = None"

definition prefs_of :: "json \<Rightarrow> prefs option" where
  "prefs_of j =
     (case (Option.bind (str_of (js_get j ''theme'')) theme_of,
            Option.bind (str_of (js_get j ''autoRefresh'')) auto_refresh_of,
            Option.bind (str_of (js_get j ''density'')) density_of,
            bool_of (js_get j ''relativeTime''), str_of (js_get j ''apiBase'')) of
        (Some t, Some a, Some d, Some r, Some b) \<Rightarrow>
          Some \<lparr>p_theme = t, p_autoRefresh = a, p_density = d, p_relativeTime = r, p_apiBase = b\<rparr>
      | _ \<Rightarrow> None)"

fun apply_patch :: "prefs_patch \<Rightarrow> prefs \<Rightarrow> prefs" where
  "apply_patch (PTheme t) p = p\<lparr>p_theme := t\<rparr>"
| "apply_patch (PAutoRefresh a) p = p\<lparr>p_autoRefresh := a\<rparr>"
| "apply_patch (PDensity d) p = p\<lparr>p_density := d\<rparr>"
| "apply_patch (PRelativeTime b) p = p\<lparr>p_relativeTime := b\<rparr>"
| "apply_patch (PApiBase b) p = p\<lparr>p_apiBase := b\<rparr>"

lemma theme_of_str [simp]: "theme_of (theme_str t) = Some t"
  by (cases t) (simp_all add: theme_of_def)

lemma auto_refresh_of_str [simp]: "auto_refresh_of (auto_refresh_str a) = Some a"
  by (cases a) (simp_all add: auto_refresh_of_def)

lemma density_of_str [simp]: "density_of (density_str d) = Some d"
  by (cases d) (simp_all add: density_of_def)

lemma prefs_of_json [simp]: "prefs_of (prefs_json p) = Some p"
  by (simp add: prefs_of_def prefs_json_def)

lemma wf_prefs_json: "wf_json (prefs_json p)"
  by (simp add: prefs_json_def)

interpretation prefs_text: text_codec "\<lambda>p. stringify (prefs_json p)"
  "\<lambda>t. Option.bind (json_parse t) prefs_of" "\<lambda>p. True"
  by unfold_locales (simp_all add: json_parse_stringify wf_prefs_json stringify_start)

text \<open>Patching the JSON state is patching the typed preferences, in the same key order.\<close>

lemma spread_patch: "spread (prefs_json p) (patch_json u) = prefs_json (apply_patch u p)"
  by (cases u) (simp_all add: spread_def prefs_json_def)

lemma spread_prefs: "spread (prefs_json d) (prefs_json p) = prefs_json p"
  by (simp add: spread_def prefs_json_def)

lemma spread_theme: "spread (prefs_json p) (JObj [(''theme'', JStr (theme_str t))]) = prefs_json (p\<lparr>p_theme := t\<rparr>)"
  by (simp add: spread_def prefs_json_def)

lemma theme_str_nonempty [simp]: "theme_str t \<noteq> []"
  by (cases t) auto

lemma keys_differ [simp]: "THEME_KEY \<noteq> PREFS_KEY" "PREFS_KEY \<noteq> THEME_KEY"
  by (simp_all add: THEME_KEY_def PREFS_KEY_def)

lemma prefs_load_loaded [simp]: "ps_loaded (fst c) \<Longrightarrow> prefs_load h c = c"
  by (simp add: prefs_load_def)

text \<open>A page load after preferences have been stored.\<close>

lemma prefs_load_stored:
  assumes "in_browser h" and "available st"
    and "items st PREFS_KEY = Some (stringify (prefs_json p))"
    and "items st THEME_KEY = Some (theme_str (p_theme p))"
  shows "prefs_load h (prefs_init h, st) = (\<lparr>ps_state = prefs_json p, ps_loaded = True, ps_listeners = [], ps_log = []\<rparr>, st)"
  using assms stringify_start [OF wf_prefs_json [of p]]
  by (simp add: prefs_load_def prefs_init_def json_parse_stringify wf_prefs_json spread_prefs spread_theme Let_def)

lemma setPrefs_typed:
  assumes "ps_loaded (fst c)" and "ps_state (fst c) = prefs_json p"
  shows "ps_state (fst (setPrefs h (patch_json u) c)) = prefs_json (apply_patch u p)"
    and "available (snd c) \<Longrightarrow> items (snd (setPrefs h (patch_json u) c)) PREFS_KEY = Some (stringify (prefs_json (apply_patch u p)))"
    and "available (snd c) \<Longrightarrow> items (snd (setPrefs h (patch_json u) c)) THEME_KEY = Some (theme_str (p_theme (apply_patch u p)))"
    and "available (snd c) \<Longrightarrow> available (snd (setPrefs h (patch_json u) c))"
  using assms by (cases c; simp add: setPrefs_def spread_patch set_item_def Let_def; simp add: prefs_json_def)+

section \<open>Properties\<close>

text \<open>
  Changing a preference changes exactly that field, and the changed preferences are the
  ones a later page load starts from.
\<close>

theorem setPrefs_persists:
  assumes "in_browser h" and "ps_loaded (fst c)" and "ps_state (fst c) = prefs_json p" and "available (snd c)"
  shows "prefs_of (ps_state (fst (setPrefs h (patch_json u) c))) = Some (apply_patch u p)
     \<and> prefs_of (fst (getPrefs h (prefs_init h, snd (setPrefs h (patch_json u) c)))) = Some (apply_patch u p)"
  using setPrefs_typed [OF assms(2,3), of h u] assms(1,4)
    prefs_load_stored [of h "snd (setPrefs h (patch_json u) c)" "apply_patch u p"]
  by (simp add: getPrefs_def)

theorem setPrefs_persists_witness:
  "prefs_of (ps_state (fst (setPrefs sample_host (patch_json (PTheme Light))
       ((prefs_init sample_host)\<lparr>ps_loaded := True\<rparr>, sample_storage)))) =
     Some ((prefs_defaults sample_host)\<lparr>p_theme := Light\<rparr>)
   \<and> prefs_of (fst (getPrefs sample_host (prefs_init sample_host, snd (setPrefs sample_host
       (patch_json (PTheme Light)) ((prefs_init sample_host)\<lparr>ps_loaded := True\<rparr>, sample_storage))))) =
     Some ((prefs_defaults sample_host)\<lparr>p_theme := Light\<rparr>)"
  using setPrefs_persists [of sample_host "((prefs_init sample_host)\<lparr>ps_loaded := True\<rparr>, sample_storage)"
      "prefs_defaults sample_host" "PTheme Light"]
  by (simp add: prefs_init_def sample_storage_def) (simp add: sample_host_def)

text \<open>
  The polling interval is the number of milliseconds its label says, and polling is off for
  \<open>off\<close> only.
\<close>

theorem refreshMs_values:
  "refreshMs (auto_refresh_str a) =
     (case a of Off \<Rightarrow> None | R5s \<Rightarrow> Some (Num 5000) | R10s \<Rightarrow> Some (Num 10000) | R30s \<Rightarrow> Some (Num 30000))"
  by (cases a) (simp_all add: refreshMs_def to_number_def is_digit_def digits_val_def digit_val_def)

end
