(* ===== verification/Client.thy ===== *)
theory Client
  imports Prefs
begin

text \<open>
  The HTTP client of \<open>web/src/api/client.ts\<close>: the connection state, the request headers and
  \<open>request\<close>. The network is a parameter: \<open>fetch_result\<close> is what \<open>fetch\<close> and \<open>res.text()\<close> came
  back with (a response, or a rejection, which an abort after ten seconds also is). The stores
  the client reads and writes are the components of \<open>console\<close>.
\<close>

datatype conn_status = Connected | Connecting | Disconnected | ConnError

record conn_state =
  cs_status :: conn_status
  cs_lastSuccessAt :: "int option"
  cs_lastError :: "string option"

definition conn_init :: conn_state where
  "conn_init = \<lparr>cs_status = Connecting, cs_lastSuccessAt = None, cs_lastError = None\<rparr>"

text \<open>\<open>ApiError\<close> and the two other errors \<open>request\<close> can throw: a \<open>SyntaxError\<close>, a rejected fetch.\<close>

datatype req_error =
    ApiError string int "json option"
  | SyntaxErr string
  | FetchErr string

fun err_message :: "req_error \<Rightarrow> string" where
  "err_message (ApiError m _ _) = m"
| "err_message (SyntaxErr m) = m"
| "err_message (FetchErr m) = m"

fun is_ApiError :: "req_error \<Rightarrow> bool" where
  "is_ApiError (ApiError _ _ _) = True"
| "is_ApiError _ = False"

record http_request =
  rq_method :: string
  rq_url :: string
  rq_headers :: "(string \<times> string) list"
  rq_body :: "string option"

datatype fetch_result =
    Response int string string       \<comment> \<open>status, status text, body text\<close>
  | Rejected string                  \<comment> \<open>message\<close>

text \<open>
  The state of the console outside its components: the three stores, the storage, the toasts
  shown, and how often the query cache has been invalidated and cleared.
\<close>

datatype toast = ToastSuccess string | ToastError string

record console =
  c_auth :: auth_store
  c_prefs :: prefs_store
  c_conn :: conn_state
  c_storage :: storage
  c_toasts :: "toast list"
  c_invalidated :: nat
  c_cleared :: nat

text \<open>\<open>setConn\<close> with the optional fields it patches.\<close>

definition setConn :: "conn_status \<Rightarrow> int option option \<Rightarrow> string option \<Rightarrow> console \<Rightarrow> console" where
  "setConn s succ err w = w\<lparr>c_conn := \<lparr>cs_status = s,
     cs_lastSuccessAt = (case succ of None \<Rightarrow> cs_lastSuccessAt (c_conn w) | Some t \<Rightarrow> t),
     cs_lastError = err\<rparr>\<rparr>"

text \<open>The snapshot of \<open>useConnection\<close>: the server renders the initial state.\<close>

definition useConnection :: "host \<Rightarrow> console \<Rightarrow> conn_state" where
  "useConnection h w = (if in_browser h then c_conn w else conn_init)"

text \<open>\<open>base.replace(/\/$/, "")\<close>: one trailing slash is dropped.\<close>

definition strip_slash :: "string \<Rightarrow> string" where
  "strip_slash b = (if b \<noteq> [] \<and> last b = CHR ''/'' then butlast b else b)"

definition with_prefs :: "prefs_ctx \<Rightarrow> console \<Rightarrow> console" where
  "with_prefs c w = w\<lparr>c_prefs := fst c, c_storage := snd c\<rparr>"

definition with_auth :: "auth_ctx \<Rightarrow> console \<Rightarrow> console" where
  "with_auth c w = w\<lparr>c_auth := fst c, c_storage := snd c\<rparr>"

text \<open>\<open>getPrefs().apiBase.replace(...)\<close>; \<open>None\<close> is the \<open>TypeError\<close> on a stored value that is no string.\<close>

definition getApiBase :: "host \<Rightarrow> console \<Rightarrow> string option \<times> console" where
  "getApiBase h w =
     (let (s, c) = getPrefs h (c_prefs w, c_storage w) in
      (map_option strip_slash (str_of (js_get s ''apiBase'')), with_prefs c w))"

definition headers :: "host \<Rightarrow> console \<Rightarrow> (string \<times> string) list \<times> console" where
  "headers h w =
     (let (t, c) = getToken h (c_auth w, c_storage w) in
      ([(''Content-Type'', ''application/json''), (''Accept'', ''application/json'')] @
       (if truthy t then [(''Authorization'', ''Bearer '' @ to_str (the t))] else []), with_auth c w))"

definition res_ok :: "int \<Rightarrow> bool" where
  "res_ok status \<longleftrightarrow> 200 \<le> status \<and> status \<le> 299"

text \<open>\<open>text ? JSON.parse(text) : undefined\<close>.\<close>

definition parse_body :: "host \<Rightarrow> string \<Rightarrow> req_error + json option" where
  "parse_body h text =
     (if text = [] then Inr None
      else case json_parse text of None \<Rightarrow> Inl (SyntaxErr (syntax_msg h text)) | Some v \<Rightarrow> Inr (Some v))"

text \<open>\<open>data?.message ?? res.statusText\<close>.\<close>

definition error_text :: "json option \<Rightarrow> string \<Rightarrow> string" where
  "error_text data statusText =
     (let m = opt_get data ''message'' in if is_nullish m then statusText else to_str (the m))"

text \<open>
  The request that is sent, and the stores after reading base URL and token. With an unusable
  base URL nothing is sent: the \<open>TypeError\<close> is caught like a rejected fetch.
\<close>

definition build_request ::
  "host \<Rightarrow> string \<Rightarrow> string \<Rightarrow> json option \<Rightarrow> console \<Rightarrow> http_request option \<times> console" where
  "build_request h meth path body w =
     (let (base, w1) = getApiBase h w in
      case base of
        None \<Rightarrow> (None, w1)
      | Some url \<Rightarrow>
          (let (hs, w2) = headers h w1 in
           (Some \<lparr>rq_method = meth, rq_url = url @ path, rq_headers = hs,
                  rq_body = map_option stringify body\<rparr>, w2)))"

definition send ::
  "host \<Rightarrow> (http_request \<Rightarrow> fetch_result) \<Rightarrow> string \<Rightarrow> string \<Rightarrow> json option \<Rightarrow> console
     \<Rightarrow> fetch_result \<times> console" where
  "send h fetch meth path body w =
     (case build_request h meth path body w of
        (None, w1) \<Rightarrow> (Rejected (type_msg h), w1)
      | (Some rq, w1) \<Rightarrow> (fetch rq, w1))"

text \<open>The \<open>try\<close> block after the response has arrived.\<close>

definition on_response ::
  "host \<Rightarrow> fetch_result \<Rightarrow> console \<Rightarrow> (req_error + json option) \<times> console" where
  "on_response h res w =
     (case res of
        Rejected m \<Rightarrow> (Inl (FetchErr m), w)
      | Response status statusText text \<Rightarrow>
          (case parse_body h text of
             Inl e \<Rightarrow> (Inl e, w)
           | Inr data \<Rightarrow>
               if \<not> res_ok status then
                 (Inl (ApiError (error_text data statusText) status data),
                  if status = 401 then with_auth (clearSession h (c_auth w, c_storage w)) w else w)
               else (Inr data, setConn Connected (Some (Some (date_now h))) None w)))"

text \<open>
  The rest of \<open>request\<close> from the arrival of the answer on: the \<open>try\<close> block and, when it threw,
  the \<open>catch\<close> block, which records the failure and throws it again.
\<close>

definition settle :: "host \<Rightarrow> fetch_result \<Rightarrow> console \<Rightarrow> (req_error + json option) \<times> console" where
  "settle h res w =
     (let (r, w2) = on_response h res w in
      case r of
        Inl e \<Rightarrow> (Inl e, setConn (if is_ApiError e then ConnError else Disconnected) None
                    (Some (err_message e)) w2)
      | Inr d \<Rightarrow> (Inr d, w2))"

definition request ::
  "host \<Rightarrow> (http_request \<Rightarrow> fetch_result) \<Rightarrow> string \<Rightarrow> string \<Rightarrow> json option \<Rightarrow> console
     \<Rightarrow> (req_error + json option) \<times> console" where
  "request h fetch meth path body w =
     (let (res, w1) = send h fetch meth path body w in settle h res w1)"

section \<open>Lemmas\<close>

lemma snd_prefs_load [simp]: "snd (prefs_load h c) = snd c"
  by (auto simp: prefs_load_def Let_def split: option.splits)

lemma send_stores:
  "c_conn (snd (send h fetch m p b w)) = c_conn w"
  "c_toasts (snd (send h fetch m p b w)) = c_toasts w"
  "c_invalidated (snd (send h fetch m p b w)) = c_invalidated w"
  by (simp_all add: send_def build_request_def getApiBase_def headers_def getPrefs_def getToken_def
      getSession_def with_prefs_def with_auth_def Let_def split_beta split: option.splits)

text \<open>A request does not touch the session before the answer.\<close>

lemma auth_load_idem [simp]: "auth_load h (auth_load h c) = auth_load h c"
proof (cases "in_browser h")
  case True
  then show ?thesis by (simp add: loaded_auth_load)
qed (simp add: auth_load_def)

lemma send_session:
  "fst (getSession h (c_auth (snd (send h fetch m p b w)), c_storage (snd (send h fetch m p b w)))) =
   fst (getSession h (c_auth w, c_storage w))"
  by (simp add: send_def build_request_def getApiBase_def headers_def getPrefs_def getToken_def
      getSession_def with_prefs_def with_auth_def Let_def split_beta split: option.splits)

lemma send_available: "available (c_storage (snd (send h fetch m p b w))) = available (c_storage w)"
  by (simp add: send_def build_request_def getApiBase_def headers_def getPrefs_def getToken_def
      getSession_def with_prefs_def with_auth_def Let_def split_beta split: option.splits)

lemma build_request_headers:
  assumes "fst (build_request h m p b w) = Some rq"
  shows "rq_headers rq =
     [(''Content-Type'', ''application/json''), (''Accept'', ''application/json'')] @
     (let t = fst (getToken h (c_auth w, c_storage w))
      in if truthy t then [(''Authorization'', ''Bearer '' @ to_str (the t))] else [])"
  using assms
  by (auto simp: build_request_def getApiBase_def headers_def getPrefs_def with_prefs_def Let_def split_beta
      split: option.splits)

lemma setConn_simps [simp]:
  "c_auth (setConn s su e w) = c_auth w" "c_storage (setConn s su e w) = c_storage w"
  "c_prefs (setConn s su e w) = c_prefs w" "c_toasts (setConn s su e w) = c_toasts w"
  "c_invalidated (setConn s su e w) = c_invalidated w"
  "cs_status (c_conn (setConn s su e w)) = s" "cs_lastError (c_conn (setConn s su e w)) = e"
  by (simp_all add: setConn_def)

lemma with_auth_simps [simp]:
  "c_auth (with_auth c w) = fst c" "c_storage (with_auth c w) = snd c" "c_conn (with_auth c w) = c_conn w"
  by (simp_all add: with_auth_def)

text \<open>\<open>request\<close> on each kind of answer.\<close>

lemma request_rejected:
  "fst (send h fetch m p b w) = Rejected msg \<Longrightarrow>
   request h fetch m p b w =
     (Inl (FetchErr msg), setConn Disconnected None (Some msg) (snd (send h fetch m p b w)))"
  by (simp add: request_def settle_def on_response_def split_beta)

lemma request_unparsable:
  "fst (send h fetch m p b w) = Response st stx body \<Longrightarrow> parse_body h body = Inl e \<Longrightarrow>
   request h fetch m p b w =
     (Inl e, setConn Disconnected None (Some (err_message e)) (snd (send h fetch m p b w)))"
  by (auto simp: request_def settle_def on_response_def parse_body_def split_beta split: if_splits option.splits)

lemma request_error:
  "fst (send h fetch m p b w) = Response st stx body \<Longrightarrow> parse_body h body = Inr d \<Longrightarrow>
   \<not> res_ok st \<Longrightarrow>
   request h fetch m p b w =
     (Inl (ApiError (error_text d stx) st d),
      setConn ConnError None (Some (error_text d stx))
        (let w1 = snd (send h fetch m p b w) in
         if st = 401 then with_auth (clearSession h (c_auth w1, c_storage w1)) w1 else w1))"
  by (simp add: request_def settle_def on_response_def split_beta Let_def)

lemma request_success:
  "fst (send h fetch m p b w) = Response st stx body \<Longrightarrow> parse_body h body = Inr d \<Longrightarrow>
   res_ok st \<Longrightarrow>
   request h fetch m p b w =
     (Inr d, setConn Connected (Some (Some (date_now h))) None (snd (send h fetch m p b w)))"
  by (simp add: request_def settle_def on_response_def split_beta)

lemmas request_cases = request_rejected request_unparsable request_error request_success

lemma request_401:
  assumes "fst (send h fetch m p b w) = Response 401 stx body"
    and "parse_body h body = Inr d" and "available (c_storage w)"
  shows "fst (request h fetch m p b w) = Inl (ApiError (error_text d stx) 401 d)"
    and "a_state (c_auth (snd (request h fetch m p b w))) = None"
    and "items (c_storage (snd (request h fetch m p b w))) AUTH_KEY = None"
    and "cs_status (c_conn (snd (request h fetch m p b w))) = ConnError"
    and "cs_lastError (c_conn (snd (request h fetch m p b w))) = Some (error_text d stx)"
proof -
  have "available (c_storage (snd (send h fetch m p b w)))"
    using assms(3) by (simp add: send_available)
  then show "fst (request h fetch m p b w) = Inl (ApiError (error_text d stx) 401 d)"
    and "a_state (c_auth (snd (request h fetch m p b w))) = None"
    and "items (c_storage (snd (request h fetch m p b w))) AUTH_KEY = None"
    and "cs_status (c_conn (snd (request h fetch m p b w))) = ConnError"
    and "cs_lastError (c_conn (snd (request h fetch m p b w))) = Some (error_text d stx)"
    using assms(1,2) by (simp_all add: request_error res_ok_def Let_def clearSession_stored)
qed

section \<open>Properties\<close>

text \<open>
  A rejected token ends the session: when the server answers 401 with a JSON or empty body,
  \<open>request\<close> throws an \<open>ApiError\<close> with that status, the session is gone from memory and storage,
  and the connection state is an error with the same message.
\<close>

theorem request_401_signs_out:
  assumes "fst (send h fetch m p b w) = Response 401 stx body"
    and "parse_body h body = Inr d" and "available (c_storage w)"
  shows "fst (request h fetch m p b w) = Inl (ApiError (error_text d stx) 401 d)
     \<and> a_state (c_auth (snd (request h fetch m p b w))) = None
     \<and> items (c_storage (snd (request h fetch m p b w))) AUTH_KEY = None
     \<and> cs_status (c_conn (snd (request h fetch m p b w))) = ConnError
     \<and> cs_lastError (c_conn (snd (request h fetch m p b w))) = Some (error_text d stx)"
  using request_401 [OF assms] by blast

definition sample_console :: console where
  "sample_console = \<lparr>c_auth = auth_init\<lparr>a_state := Some (session_json sample_session), a_loaded := True\<rparr>,
     c_prefs = prefs_init sample_host, c_conn = conn_init, c_storage = sample_storage,
     c_toasts = [], c_invalidated = 0, c_cleared = 0\<rparr>"

lemma sample_send:
  "fst (send sample_host (\<lambda>r. Response 401 ''Unauthorized'' []) ''GET'' ''/queues'' None sample_console) =
     Response 401 ''Unauthorized'' []"
  "fst (send sample_host (\<lambda>r. Response 500 ''Oops'' ''<html>'') ''GET'' ''/queues'' None sample_console) =
     Response 500 ''Oops'' ''<html>''"
  by code_simp+

theorem request_401_signs_out_witness:
  "a_state (c_auth (snd (request sample_host (\<lambda>r. Response 401 ''Unauthorized'' []) ''GET'' ''/queues'' None
     sample_console))) = None"
  using request_401_signs_out [OF sample_send(1), of None]
  by (simp add: parse_body_def sample_console_def sample_storage_def)

text \<open>
  Nothing else ends it: on a success, on any other error status, on a body that is not JSON
  and on a network failure, the session after the request is the one loaded before it.
\<close>

theorem request_keeps_session:
  assumes "\<And>stx body. fst (send h fetch m p b w) = Response 401 stx body \<Longrightarrow>
             \<exists>e. parse_body h body = Inl e"
  shows "fst (getSession h (c_auth (snd (request h fetch m p b w)), c_storage (snd (request h fetch m p b w)))) =
         fst (getSession h (c_auth w, c_storage w))"
proof (cases "fst (send h fetch m p b w)")
  case (Response st stx body)
  show ?thesis
  proof (cases "parse_body h body")
    case (Inr d)
    then have "st \<noteq> 401" using assms Response by fastforce
    then show ?thesis
      using Response Inr
      by (cases "res_ok st") (simp_all add: request_cases send_session Let_def)
  qed (use Response in \<open>simp add: request_cases send_session\<close>)
qed (simp add: request_cases send_session)

theorem request_keeps_session_witness:
  "fst (getSession sample_host
     (c_auth (snd (request sample_host (\<lambda>r. Response 500 ''Oops'' ''<html>'') ''GET'' ''/queues'' None sample_console)),
      c_storage (snd (request sample_host (\<lambda>r. Response 500 ''Oops'' ''<html>'') ''GET'' ''/queues'' None sample_console)))) =
   fst (getSession sample_host (c_auth sample_console, c_storage sample_console))"
  by (rule request_keeps_session) (simp add: sample_send(2))

text \<open>
  Only a good answer counts as a connection: after a request the status is \<open>connected\<close>
  exactly when it returned data, with the time of the answer and no error; a failed request
  keeps the time of the last success and records its message.
\<close>

theorem request_connection:
  "(case fst (request h fetch m p b w) of
      Inr d \<Rightarrow> c_conn (snd (request h fetch m p b w)) =
               \<lparr>cs_status = Connected, cs_lastSuccessAt = Some (date_now h), cs_lastError = None\<rparr>
    | Inl e \<Rightarrow> c_conn (snd (request h fetch m p b w)) =
               \<lparr>cs_status = (if is_ApiError e then ConnError else Disconnected),
                cs_lastSuccessAt = cs_lastSuccessAt (c_conn w), cs_lastError = Some (err_message e)\<rparr>)"
proof (cases "fst (send h fetch m p b w)")
  case (Response st stx body)
  show ?thesis
  proof (cases "parse_body h body")
    case (Inl e)
    then have "\<not> is_ApiError e" by (auto simp: parse_body_def split: if_splits option.splits)
    with Response Inl show ?thesis
      by (simp add: request_cases setConn_def send_stores)
  next
    case (Inr d)
    with Response show ?thesis
      by (cases "res_ok st") (simp_all add: request_cases setConn_def send_stores Let_def)
  qed
qed (simp add: request_cases setConn_def send_stores)

end
