(* ===== verification/Forge_Types.thy ===== *)
theory Forge_Types
  imports Json
begin

text \<open>
  The wire types of the console (\<open>web/src/types/forgequeue.ts\<close>): status words as datatypes with
  their text, entities as records with one field per property. A nullable or optional property
  is an \<open>option\<close>; timestamps are the text the server sends; counts are integers.
\<close>

datatype job_status =
  JsPending | JsProcessing | JsCompleted | JsFailed | JsRetrying | JsDelayed | JsDlq | JsCancelled

datatype queue_status = QsHealthy | QsPaused | QsDegraded | QsUnknown

datatype worker_status = WsHealthy | WsIdle | WsBusy | WsStale | WsDisconnected

fun job_status_str :: "job_status \<Rightarrow> string" where
  "job_status_str JsPending = ''pending''"
| "job_status_str JsProcessing = ''processing''"
| "job_status_str JsCompleted = ''completed''"
| "job_status_str JsFailed = ''failed''"
| "job_status_str JsRetrying = ''retrying''"
| "job_status_str JsDelayed = ''delayed''"
| "job_status_str JsDlq = ''dlq''"
| "job_status_str JsCancelled = ''cancelled''"

fun queue_status_str :: "queue_status \<Rightarrow> string" where
  "queue_status_str QsHealthy = ''healthy''"
| "queue_status_str QsPaused = ''paused''"
| "queue_status_str QsDegraded = ''degraded''"
| "queue_status_str QsUnknown = ''unknown''"

fun worker_status_str :: "worker_status \<Rightarrow> string" where
  "worker_status_str WsHealthy = ''healthy''"
| "worker_status_str WsIdle = ''idle''"
| "worker_status_str WsBusy = ''busy''"
| "worker_status_str WsStale = ''stale''"
| "worker_status_str WsDisconnected = ''disconnected''"

text \<open>\<open>JobStatus | QueueStatus | WorkerStatus\<close>, the argument of the status badge.\<close>

datatype status = SJob job_status | SQueue queue_status | SWorker worker_status

fun status_str :: "status \<Rightarrow> string" where
  "status_str (SJob s) = job_status_str s"
| "status_str (SQueue s) = queue_status_str s"
| "status_str (SWorker s) = worker_status_str s"

record attempt =
  at_attempt :: int
  at_workerId :: "string option"
  at_startedAt :: string
  at_finishedAt :: "string option"
  at_durationMs :: "int option"
  at_result :: "json option"
  at_error :: "string option"

datatype backoff = Exponential | Fixed

fun backoff_str :: "backoff \<Rightarrow> string" where
  "backoff_str Exponential = ''exponential''"
| "backoff_str Fixed = ''fixed''"

record retry_policy =
  rp_backoff :: backoff
  rp_baseMs :: int
  rp_maxMs :: int
  rp_jitter :: bool

record job_error =
  je_message :: string
  je_stack :: "string option"
  je_code :: "string option"

record job =
  j_id :: string
  j_queue :: string
  j_task :: string
  j_status :: job_status
  j_attempts :: int
  j_maxAttempts :: int
  j_createdAt :: string
  j_enqueuedAt :: "string option"
  j_startedAt :: "string option"
  j_completedAt :: "string option"
  j_failedAt :: "string option"
  j_durationMs :: "int option"
  j_workerId :: "string option"
  j_leaseId :: "string option"
  j_leaseExpiresAt :: "string option"
  j_nextRetryAt :: "string option"
  j_retryPolicy :: "retry_policy option"
  j_payload :: json
  j_result :: "json option"
  j_error :: "job_error option"
  j_lastErrorAt :: "string option"
  j_lastError :: "string option"
  j_attemptsHistory :: "attempt list option"

record queue_summary =
  q_name :: string
  q_pending :: int
  q_processing :: int
  q_delayed :: int
  q_failed :: int
  q_completed :: int
  q_workers :: int
  q_ratePerMin :: int
  q_oldestJobAt :: "string option"
  q_status :: queue_status

record lease =
  l_jobId :: string
  l_queue :: string
  l_task :: string
  l_leaseId :: string
  l_acquiredAt :: string
  l_expiresAt :: string

record recent_job =
  rj_jobId :: string
  rj_queue :: string
  rj_status :: job_status
  rj_durationMs :: "int option"
  rj_finishedAt :: "string option"

record worker =
  w_id :: string
  w_hostname :: string
  w_version :: string
  w_status :: worker_status
  w_startedAt :: string
  w_lastHeartbeatAt :: string
  w_leaseCount :: int
  w_jobsProcessing :: int
  w_concurrency :: int
  w_leases :: "lease list"
  w_recentJobs :: "recent_job list"

record dlq_item =
  d_jobId :: string
  d_originalQueue :: string
  d_task :: string
  d_attempts :: int
  d_lastError :: string
  d_failedAt :: string
  d_ageMs :: int
  d_job :: job

record delayed_job =
  dj_jobId :: string
  dj_queue :: string
  dj_task :: string
  dj_attempts :: int
  dj_scheduledFor :: string
  dj_delayMs :: int
  dj_status :: job_status

record metrics_point =
  mp_time :: string
  mp_enqueued :: int
  mp_completed :: int
  mp_failed :: int
  mp_depth :: int
  mp_latencyMs :: int
  mp_execMs :: int
  mp_retries :: int
  mp_dlq :: int
  mp_workers :: int
  mp_leaseExpirations :: int

record system_stats =
  ss_queues :: int
  ss_activeJobs :: int
  ss_pending :: int
  ss_processing :: int
  ss_failed :: int
  ss_delayed :: int
  ss_dlq :: int
  ss_activeWorkers :: int
  ss_healthyWorkers :: int
  ss_staleWorkers :: int
  ss_workersWithExpiredLeases :: int

lemma job_status_str_inj: "job_status_str a = job_status_str b \<Longrightarrow> a = b"
  by (cases a; cases b) simp_all

lemma queue_status_str_inj: "queue_status_str a = queue_status_str b \<Longrightarrow> a = b"
  by (cases a; cases b) simp_all

lemma worker_status_str_inj: "worker_status_str a = worker_status_str b \<Longrightarrow> a = b"
  by (cases a; cases b) simp_all

end
