(* ===== verification/Endpoints.thy ===== *)
theory Endpoints
  imports Client Forge_Types
begin

text \<open>
  The typed API of \<open>web/src/api/endpoints.ts\<close>. Each method of \<open>httpApi\<close> is a constructor of
  \<open>api_call\<close>; \<open>api_method\<close>, \<open>api_path\<close> and \<open>api_body\<close> give the request it makes, and \<open>call_api\<close>
  runs it through \<open>request\<close>. \<open>encodeURIComponent\<close> is on the UTF-8 bytes of the text.
\<close>

datatype MetricsRange = R5m | R15m | R1h | R6h | R24h | R7d

fun range_str :: "MetricsRange \<Rightarrow> string" where
  "range_str R5m = ''5m''"
| "range_str R15m = ''15m''"
| "range_str R1h = ''1h''"
| "range_str R6h = ''6h''"
| "range_str R24h = ''24h''"
| "range_str R7d = ''7d''"

record AuthConfig =
  ac_password :: bool
  ac_oidc :: bool
  ac_provider :: "string option"

datatype api_call =
    AuthConfigC | Login string string | ExchangeOidc string | Me
  | Stats | Queues | Queue string | QueueJobs string
  | JobC string | RetryJob string | RequeueJob string | DeleteJob string
  | PauseQueue string | ResumeQueue string | PurgeQueue string
  | Workers | WorkerC string
  | Dlq | RetryDlq string | DeleteDlq string | PurgeDlq
  | Delayed | PromoteDelayed string | CancelDelayed string
  | Throughput MetricsRange "string option"
  | Version

section \<open>Percent encoding\<close>

definition pct_digit :: "nat \<Rightarrow> char" where
  "pct_digit d = (''0123456789ABCDEF'' ! d)"

definition unreserved :: "char \<Rightarrow> bool" where
  "unreserved c = (let n = (of_char c :: nat) in
     (48 \<le> n \<and> n \<le> 57) \<or> (65 \<le> n \<and> n \<le> 90) \<or> (97 \<le> n \<and> n \<le> 122) \<or>
     List.member (map of_char ''-_.!~*()'') n \<or> n = 39)"

definition enc_char :: "char \<Rightarrow> string" where
  "enc_char c = (if unreserved c then [c]
     else let n = (of_char c :: nat) in [CHR ''%'', pct_digit (n div 16), pct_digit (n mod 16)])"

definition encodeURIComponent :: "string \<Rightarrow> string" where
  "encodeURIComponent s = concat (map enc_char s)"

text \<open>The inverse the receiving side applies to a path segment (RFC 3986, section 2.1).\<close>

definition pct_val :: "char \<Rightarrow> nat option" where
  "pct_val c = (let n = (of_char c :: nat) in
     if 48 \<le> n \<and> n \<le> 57 then Some (n - 48)
     else if 65 \<le> n \<and> n \<le> 70 then Some (n - 55)
     else if 97 \<le> n \<and> n \<le> 102 then Some (n - 87) else None)"

fun percent_decode :: "string \<Rightarrow> string option" where
  "percent_decode [] = Some []"
| "percent_decode (c # s) =
     (if c = CHR ''%''
      then case s of
          a # b # r \<Rightarrow>
            (case (pct_val a, pct_val b, percent_decode r) of
               (Some x, Some y, Some d) \<Rightarrow> Some (char_of (16 * x + y) # d)
             | _ \<Rightarrow> None)
        | _ \<Rightarrow> None
      else map_option ((#) c) (percent_decode s))"

section \<open>The endpoints\<close>

fun api_method :: "api_call \<Rightarrow> string" where
  "api_method (Login _ _) = ''POST''"
| "api_method (ExchangeOidc _) = ''POST''"
| "api_method (RetryJob _) = ''POST''"
| "api_method (RequeueJob _) = ''POST''"
| "api_method (DeleteJob _) = ''DELETE''"
| "api_method (PauseQueue _) = ''POST''"
| "api_method (ResumeQueue _) = ''POST''"
| "api_method (PurgeQueue _) = ''POST''"
| "api_method (RetryDlq _) = ''POST''"
| "api_method (DeleteDlq _) = ''DELETE''"
| "api_method PurgeDlq = ''POST''"
| "api_method (PromoteDelayed _) = ''POST''"
| "api_method (CancelDelayed _) = ''DELETE''"
| "api_method _ = ''GET''"

fun api_path :: "api_call \<Rightarrow> string" where
  "api_path AuthConfigC = ''/auth/config''"
| "api_path (Login _ _) = ''/auth/login''"
| "api_path (ExchangeOidc _) = ''/auth/oidc/exchange''"
| "api_path Me = ''/auth/me''"
| "api_path Stats = ''/system/stats''"
| "api_path Queues = ''/queues''"
| "api_path (Queue n) = ''/queues/'' @ encodeURIComponent n"
| "api_path (QueueJobs n) = ''/queues/'' @ encodeURIComponent n @ ''/jobs''"
| "api_path (JobC i) = ''/jobs/'' @ encodeURIComponent i"
| "api_path (RetryJob i) = ''/jobs/'' @ encodeURIComponent i @ ''/retry''"
| "api_path (RequeueJob i) = ''/jobs/'' @ encodeURIComponent i @ ''/requeue''"
| "api_path (DeleteJob i) = ''/jobs/'' @ encodeURIComponent i"
| "api_path (PauseQueue n) = ''/queues/'' @ encodeURIComponent n @ ''/pause''"
| "api_path (ResumeQueue n) = ''/queues/'' @ encodeURIComponent n @ ''/resume''"
| "api_path (PurgeQueue n) = ''/queues/'' @ encodeURIComponent n @ ''/purge''"
| "api_path Workers = ''/workers''"
| "api_path (WorkerC i) = ''/workers/'' @ encodeURIComponent i"
| "api_path Dlq = ''/dlq''"
| "api_path (RetryDlq i) = ''/dlq/'' @ encodeURIComponent i @ ''/retry''"
| "api_path (DeleteDlq i) = ''/dlq/'' @ encodeURIComponent i"
| "api_path PurgeDlq = ''/dlq/purge''"
| "api_path Delayed = ''/delayed''"
| "api_path (PromoteDelayed i) = ''/delayed/'' @ encodeURIComponent i @ ''/promote''"
| "api_path (CancelDelayed i) = ''/delayed/'' @ encodeURIComponent i"
| "api_path (Throughput r q) = ''/metrics/throughput?range='' @ range_str r @
     (if truthy_str q then ''&queue='' @ encodeURIComponent (the q) else [])"
| "api_path Version = ''/system/version''"

fun api_body :: "api_call \<Rightarrow> json option" where
  "api_body (Login u p) = Some (JObj [(''username'', JStr u), (''password'', JStr p)])"
| "api_body (ExchangeOidc c) = Some (JObj [(''code'', JStr c)])"
| "api_body _ = None"

definition call_api ::
  "host \<Rightarrow> (http_request \<Rightarrow> fetch_result) \<Rightarrow> api_call \<Rightarrow> console \<Rightarrow> (req_error + json option) \<times> console" where
  "call_api h fetch c = request h fetch (api_method c) (api_path c) (api_body c)"

section \<open>Lemmas\<close>

lemma pct_val_pct_digit: "d < 16 \<Longrightarrow> pct_val (pct_digit d) = Some d"
  by (auto simp: pct_digit_def pct_val_def eval_nat_numeral less_Suc_eq)

lemma of_char_less: "(of_char c :: nat) < 256"
  by (rule nat_of_char_less_256)

lemma of_char_nibble: "(of_char c :: nat) div 16 < 16"
  using of_char_less [of c] by (intro less_mult_imp_div_less) simp

lemma unreserved_no_percent: "unreserved c \<Longrightarrow> c \<noteq> CHR ''%''"
  by (auto simp: unreserved_def)

lemma percent_decode_enc_char: "percent_decode (enc_char c @ s) = map_option ((#) c) (percent_decode s)"
proof (cases "unreserved c")
  case True
  then show ?thesis by (simp add: enc_char_def unreserved_no_percent)
next
  case False
  then show ?thesis
    using of_char_nibble [of c] by (auto simp: enc_char_def pct_val_pct_digit Let_def split: option.splits)
qed

text \<open>What is decoded on the server is what was encoded here.\<close>

lemma percent_decode_encode: "percent_decode (encodeURIComponent s) = Some s"
  by (induction s) (simp_all add: encodeURIComponent_def percent_decode_enc_char)

lemma inj_encodeURIComponent: "encodeURIComponent s = encodeURIComponent t \<Longrightarrow> s = t"
  by (metis option.inject percent_decode_encode)

lemma pct_digit_plain: "d < 16 \<Longrightarrow> pct_digit d \<notin> set ''/?&=#''"
  by (auto simp: pct_digit_def eval_nat_numeral less_Suc_eq)

lemma enc_char_plain: "set (enc_char c) \<inter> set ''/?&=#'' = {}"
proof (cases "unreserved c")
  case True
  then show ?thesis by (auto simp: enc_char_def unreserved_def)
next
  case False
  with pct_digit_plain [OF of_char_nibble [of c]] pct_digit_plain [of "of_char c mod 16"]
  show ?thesis by (simp add: enc_char_def Let_def)
qed

text \<open>An encoded name cannot leave its path segment or its query parameter.\<close>

lemma encode_plain: "set (encodeURIComponent s) \<inter> set ''/?&=#'' = {}"
  using enc_char_plain by (induction s) (auto simp: encodeURIComponent_def)

lemma encode_no [simp]:
  "CHR ''/'' \<notin> set (encodeURIComponent s)" "CHR ''?'' \<notin> set (encodeURIComponent s)"
  "CHR ''&'' \<notin> set (encodeURIComponent s)" "CHR ''='' \<notin> set (encodeURIComponent s)"
  using encode_plain [of s] by auto

lemma encode_empty_iff [simp]: "encodeURIComponent s = [] \<longleftrightarrow> s = []"
  by (cases s) (auto simp: encodeURIComponent_def enc_char_def Let_def)

section \<open>Properties\<close>

text \<open>
  \<open>encodeURIComponent\<close> is faithful and safe for every text: decoding gives the text back, and
  the encoding has none of the characters that delimit path segments, queries and fragments, so
  a queue name or job id cannot address another endpoint.
\<close>

theorem encodeURIComponent_safe:
  "percent_decode (encodeURIComponent s) = Some s
   \<and> list_all (\<lambda>c. \<not> List.member ''/?&=#'' c) (encodeURIComponent s)"
  using encode_plain [of s] by (auto simp: percent_decode_encode list_all_iff)

end
