(* ===== verification/Queries.thy ===== *)
theory Queries
  imports Endpoints
begin

text \<open>
  The query and mutation hooks of \<open>web/src/api/queries.ts\<close>. A query is its key, the call it makes
  and the options it hands to React Query. A mutation is the calls it makes and the label of its
  success toast; \<open>run_mutation\<close> is what a \<open>mutate\<close> does to the console: all requests are sent
  before the first answer is handled (\<open>Promise.all\<close>), the answers settle in any order.
\<close>

section \<open>Queries\<close>

datatype query =
    QStats | QQueues | QQueue string | QQueueJobs string | QJob string
  | QWorkers | QWorker string | QDlq | QDelayed | QThroughput MetricsRange "string option"

fun keys :: "query \<Rightarrow> string list" where
  "keys QStats = [''system'', ''stats'']"
| "keys QQueues = [''queues'']"
| "keys (QQueue n) = [''queue'', n]"
| "keys (QQueueJobs n) = [''queue'', n, ''jobs'']"
| "keys (QJob i) = [''job'', i]"
| "keys QWorkers = [''workers'']"
| "keys (QWorker i) = [''worker'', i]"
| "keys QDlq = [''dlq'']"
| "keys QDelayed = [''delayed'']"
| "keys (QThroughput r q) = [''metrics'', ''throughput'', range_str r, nullish q ''all'']"

fun query_fn :: "query \<Rightarrow> api_call" where
  "query_fn QStats = Stats"
| "query_fn QQueues = Queues"
| "query_fn (QQueue n) = Queue n"
| "query_fn (QQueueJobs n) = QueueJobs n"
| "query_fn (QJob i) = JobC i"
| "query_fn QWorkers = Workers"
| "query_fn (QWorker i) = WorkerC i"
| "query_fn QDlq = Dlq"
| "query_fn QDelayed = Delayed"
| "query_fn (QThroughput r q) = Throughput r q"

record query_options =
  qo_queryKey :: "string list"
  qo_queryFn :: api_call
  qo_refetchInterval :: "jsnum option"     \<comment> \<open>\<open>None\<close> is \<open>false\<close>\<close>
  qo_keepPreviousData :: bool
  qo_staleTime :: int
  qo_gcTime :: int
  qo_retry :: nat

definition usePoll :: "prefs \<Rightarrow> jsnum option \<times> string" where
  "usePoll p = (refreshMs (auto_refresh_str (p_autoRefresh p)), p_apiBase p)"

definition useQ :: "prefs \<Rightarrow> string list \<Rightarrow> api_call \<Rightarrow> query_options" where
  "useQ p key fn =
     (let (interval, scope) = usePoll p in
      \<lparr>qo_queryKey = key @ [scope], qo_queryFn = fn, qo_refetchInterval = interval,
       qo_keepPreviousData = True, qo_staleTime = 2000, qo_gcTime = 60000, qo_retry = 1\<rparr>)"

text \<open>\<open>useStats\<close>, \<open>useQueues\<close>, ..., \<open>useThroughput\<close>.\<close>

definition use_query :: "prefs \<Rightarrow> query \<Rightarrow> query_options" where
  "use_query p q = useQ p (keys q) (query_fn q)"

section \<open>Mutations\<close>

record mutation =
  m_calls :: "api_call list"
  m_label :: string

definition useAction :: "('a \<Rightarrow> api_call) \<Rightarrow> ('a \<Rightarrow> string) \<Rightarrow> 'a \<Rightarrow> mutation" where
  "useAction fn label arg = \<lparr>m_calls = [fn arg], m_label = label arg\<rparr>"

definition useBulk :: "(string \<Rightarrow> api_call) \<Rightarrow> string \<Rightarrow> string list \<Rightarrow> mutation" where
  "useBulk fn verb ids = \<lparr>m_calls = map fn ids,
     m_label = verb @ '' '' @ nat_str (length ids) @ '' job'' @ (if length ids = 1 then [] else ''s'')\<rparr>"

definition show_toast :: "toast \<Rightarrow> console \<Rightarrow> console" where
  "show_toast t w = w\<lparr>c_toasts := c_toasts w @ [t]\<rparr>"

definition invalidateQueries :: "console \<Rightarrow> console" where
  "invalidateQueries w = w\<lparr>c_invalidated := Suc (c_invalidated w)\<rparr>"

definition clearQueries :: "console \<Rightarrow> console" where
  "clearQueries w = w\<lparr>c_cleared := Suc (c_cleared w)\<rparr>"

fun start_all ::
  "host \<Rightarrow> (http_request \<Rightarrow> fetch_result) \<Rightarrow> api_call list \<Rightarrow> console \<Rightarrow> fetch_result list \<times> console" where
  "start_all h fetch [] w = ([], w)"
| "start_all h fetch (c # cs) w =
     (let (r, w1) = send h fetch (api_method c) (api_path c) (api_body c) w;
          (rs, w2) = start_all h fetch cs w1 in (r # rs, w2))"

text \<open>
  The answers in the order they settle. The first failure rejects the \<open>Promise.all\<close> and shows the
  error toast; later answers still reach the client.
\<close>

fun settle_all ::
  "('r \<Rightarrow> console \<Rightarrow> (req_error + json option) \<times> console) \<Rightarrow> 'r list \<Rightarrow> bool \<Rightarrow> console \<Rightarrow> bool \<times> console" where
  "settle_all stl [] failed w = (failed, w)"
| "settle_all stl (r # rs) failed w =
     (case stl r w of
        (Inl err, w1) \<Rightarrow>
          settle_all stl rs True (if failed then w1 else show_toast (ToastError (err_message err)) w1)
      | (Inr d, w1) \<Rightarrow> settle_all stl rs failed w1)"

definition run_mutation ::
  "host \<Rightarrow> (http_request \<Rightarrow> fetch_result) \<Rightarrow> nat list \<Rightarrow> mutation \<Rightarrow> console \<Rightarrow> bool \<times> console" where
  "run_mutation h fetch order m w =
     (let (rs, w1) = start_all h fetch (m_calls m) w;
          (failed, w2) = settle_all (settle h) (map (nth rs) order) False w1 in
      if failed then (False, w2)
      else (True, invalidateQueries (show_toast (ToastSuccess (m_label m)) w2)))"

section \<open>The transport interface\<close>

text \<open>
  What the mutation hooks rely on: handling an answer fails exactly on the answers that are not
  good, and shows no toast and invalidates nothing by itself.
\<close>

text \<open>The toast of the first failure among the answers, if any fails.\<close>

definition shown :: "('r \<Rightarrow> bool) \<Rightarrow> ('r \<Rightarrow> string) \<Rightarrow> 'r list \<Rightarrow> toast list" where
  "shown good msg rs = (case find (\<lambda>r. \<not> good r) rs of None \<Rightarrow> [] | Some r \<Rightarrow> [ToastError (msg r)])"

locale transport =
  fixes stl :: "'r \<Rightarrow> console \<Rightarrow> (req_error + json option) \<times> console"
    and good :: "'r \<Rightarrow> bool"
    and msg :: "'r \<Rightarrow> string"
  assumes fails_iff: "(\<exists>err. fst (stl r w) = Inl err) = (\<not> good r)"
    and fail_msg: "fst (stl r w) = Inl err \<Longrightarrow> err_message err = msg r"
    and keeps_toasts: "c_toasts (snd (stl r w)) = c_toasts w"
    and keeps_invalidated: "c_invalidated (snd (stl r w)) = c_invalidated w"
begin

lemma good_step:
  assumes "good r"
  obtains d w1 where "stl r w = (Inr d, w1)" and "c_toasts w1 = c_toasts w"
    and "c_invalidated w1 = c_invalidated w"
proof (cases "stl r w")
  case (Pair res w1)
  with fails_iff [of r w] assms show ?thesis
    using keeps_toasts [of r w] keeps_invalidated [of r w] that by (cases res) auto
qed

lemma bad_step:
  assumes "\<not> good r"
  obtains err w1 where "stl r w = (Inl err, w1)" and "err_message err = msg r"
    and "c_toasts w1 = c_toasts w" and "c_invalidated w1 = c_invalidated w"
proof (cases "stl r w")
  case (Pair res w1)
  with fails_iff [of r w] assms show ?thesis
    using keeps_toasts [of r w] keeps_invalidated [of r w] fail_msg [of r w] that by (cases res) auto
qed

text \<open>At most one error toast, that of the first failure, however many requests fail.\<close>

lemma settle_all_outcome:
  "(fst (settle_all stl rs f w) \<longleftrightarrow> f \<or> (\<exists>r\<in>set rs. \<not> good r))
   \<and> c_toasts (snd (settle_all stl rs f w)) = c_toasts w @ (if f then [] else shown good msg rs)
   \<and> c_invalidated (snd (settle_all stl rs f w)) = c_invalidated w"
proof (induction rs arbitrary: f w)
  case (Cons r rs)
  show ?case
  proof (cases "good r")
    case True
    then show ?thesis by (rule good_step [of r w]) (use True in \<open>auto simp: Cons shown_def\<close>)
  next
    case False
    then show ?thesis by (rule bad_step [of r w]) (use False in \<open>auto simp: Cons shown_def show_toast_def\<close>)
  qed
qed (simp add: shown_def)

lemma shown_failure:
  assumes "\<exists>r\<in>set rs. \<not> good r"
  shows "\<exists>r\<in>set rs. \<not> good r \<and> shown good msg rs = [ToastError (msg r)]"
proof (cases "find (\<lambda>r. \<not> good r) rs")
  case None
  with assms show ?thesis by (auto simp: find_None_iff)
next
  case (Some r)
  then have "r \<in> set rs \<and> \<not> good r" by (auto simp: find_Some_iff)
  with Some show ?thesis by (auto simp: shown_def)
qed

lemma shown_none: "\<forall>r\<in>set rs. good r \<Longrightarrow> shown good msg rs = []"
  by (auto simp: shown_def find_None_iff split: option.splits dest: find_Some_iff [THEN iffD1])

end

text \<open>The error an answer leads to, whatever the state it arrives in.\<close>

definition answer_error :: "host \<Rightarrow> fetch_result \<Rightarrow> req_error option" where
  "answer_error h r =
     (case r of
        Rejected m \<Rightarrow> Some (FetchErr m)
      | Response st stx bd \<Rightarrow>
          (case parse_body h bd of
             Inl err \<Rightarrow> Some err
           | Inr d \<Rightarrow> if res_ok st then None else Some (ApiError (error_text d stx) st d)))"

lemma settle_result:
  "fst (settle h r w) = (case answer_error h r of
     Some err \<Rightarrow> Inl err | None \<Rightarrow> Inr (case r of Response st stx bd \<Rightarrow> projr (parse_body h bd)))"
  by (auto simp: settle_def on_response_def answer_error_def split: fetch_result.splits sum.splits)

lemma settle_toasts:
  "c_toasts (snd (settle h r w)) = c_toasts w" "c_invalidated (snd (settle h r w)) = c_invalidated w"
  by (auto simp: settle_def on_response_def with_auth_def split: fetch_result.splits sum.splits)

interpretation client: transport "settle h" "\<lambda>r. answer_error h r = None"
  "\<lambda>r. case answer_error h r of Some err \<Rightarrow> err_message err" for h
  by unfold_locales (auto simp: settle_result settle_toasts split: option.splits)

lemma length_start_all: "length (fst (start_all h fetch cs w)) = length cs"
  by (induction cs arbitrary: w) (simp_all add: split_beta)

lemma start_all_toasts:
  "c_toasts (snd (start_all h fetch cs w)) = c_toasts w"
  "c_invalidated (snd (start_all h fetch cs w)) = c_invalidated w"
  by (induction cs arbitrary: w) (simp_all add: split_beta send_stores)

lemma set_permuted:
  assumes "mset order = mset [0..<length rs]"
  shows "set (map (nth rs) order) = set rs"
proof -
  have "set order = {0..<length rs}" using assms by (metis set_mset_mset set_upt)
  then show ?thesis by (simp add: nth_image)
qed

section \<open>Properties\<close>

text \<open>
  Cache keys identify what is fetched: two queries with the same key and scope make the same
  call, with one exception, the throughput series of all queues and that of a queue named
  \<open>all\<close>, which share a key although they are different calls.
\<close>

theorem query_keys_injective:
  "qo_queryKey (use_query p q1) = qo_queryKey (use_query p' q2) \<longleftrightarrow>
     p_apiBase p = p_apiBase p' \<and>
     (q1 = q2 \<or> (\<exists>r. {q1, q2} = {QThroughput r None, QThroughput r (Some ''all'')}))"
proof -
  have range: "range_str r1 = range_str r2 \<longleftrightarrow> r1 = r2" for r1 r2
    by (cases r1; cases r2) simp_all
  have tp: "nullish x ''all'' = nullish y ''all'' \<longleftrightarrow>
      x = y \<or> (x = None \<and> y = Some ''all'') \<or> (x = Some ''all'' \<and> y = None)" for x y
    by (cases x; cases y) auto
  have "keys q1 = keys q2 \<longleftrightarrow>
      q1 = q2 \<or> (\<exists>r. {q1, q2} = {QThroughput r None, QThroughput r (Some ''all'')})"
    by (cases q1; cases q2) (auto simp: range tp doubleton_eq_iff)
  then show ?thesis by (auto simp: use_query_def useQ_def usePoll_def)
qed

text \<open>
  (C19) Every mutation reports exactly once, in whatever order its answers arrive: when all requests
  succeed, one success toast with the label is shown and the query cache is invalidated; when
  any fails, one error toast with the message of a failed request is shown, and nothing is
  invalidated.
\<close>

theorem mutation_outcome:
  assumes "mset order = mset [0..<length (m_calls m)]"
    and "rs = fst (start_all h fetch (m_calls m) w)"
    and "(ok, w') = run_mutation h fetch order m w"
  shows "(ok \<longleftrightarrow> list_all (\<lambda>r. answer_error h r = None) rs)
    \<and> (if ok
       then c_toasts w' = c_toasts w @ [ToastSuccess (m_label m)] \<and> c_invalidated w' = Suc (c_invalidated w)
       else (\<exists>r\<in>set rs. \<exists>err. answer_error h r = Some err
              \<and> c_toasts w' = c_toasts w @ [ToastError (err_message err)])
            \<and> c_invalidated w' = c_invalidated w)"
proof -
  let ?w = "snd (start_all h fetch (m_calls m) w)"
  define ps where "ps = map (nth rs) order"
  have ps: "set ps = set rs"
    using set_permuted [of order rs] assms(1,2) by (simp add: length_start_all ps_def)
  note oc = client.settle_all_outcome [of h ps False ?w]
  have run: "(ok, w') = (if fst (settle_all (settle h) ps False ?w)
      then (False, snd (settle_all (settle h) ps False ?w))
      else (True, invalidateQueries (show_toast (ToastSuccess (m_label m)) (snd (settle_all (settle h) ps False ?w)))))"
    using assms(2,3) by (simp add: run_mutation_def split_beta ps_def)
  show ?thesis
  proof (cases "\<forall>r\<in>set rs. answer_error h r = None")
    case True
    then have ok "w' = invalidateQueries (show_toast (ToastSuccess (m_label m)) (snd (settle_all (settle h) ps False ?w)))"
      using run oc ps by (auto split: if_splits)
    then show ?thesis
      using True oc ps client.shown_none [of ps h]
      by (simp add: invalidateQueries_def show_toast_def start_all_toasts list_all_iff)
  next
    case False
    then have f: "\<not> ok" "w' = snd (settle_all (settle h) ps False ?w)"
      using run oc ps by (auto split: if_splits)
    obtain r err where "r \<in> set rs" "answer_error h r = Some err"
      "shown (\<lambda>r. answer_error h r = None) (\<lambda>r. case answer_error h r of Some err \<Rightarrow> err_message err) ps =
        [ToastError (err_message err)]"
      using client.shown_failure [of ps h] False ps by fastforce
    then show ?thesis
      using f oc False by (auto simp: start_all_toasts list_all_iff)
  qed
qed

lemma sample_bulk:
  "fst (start_all sample_host (\<lambda>r. Response 404 ''Not Found'' []) [RetryJob ''a'', RetryJob ''b''] sample_console) =
     [Response 404 ''Not Found'' [], Response 404 ''Not Found'' []]"
  by code_simp

theorem mutation_outcome_witness:
  "c_toasts (snd (run_mutation sample_host (\<lambda>r. Response 404 ''Not Found'' []) [1, 0]
     (useBulk RetryJob ''Retried'' [''a'', ''b'']) sample_console)) = [ToastError ''Not Found'']"
proof -
  let ?m = "useBulk RetryJob ''Retried'' [''a'', ''b'']" and ?f = "\<lambda>r. Response 404 ''Not Found'' []"
  have calls: "m_calls ?m = [RetryJob ''a'', RetryJob ''b'']" by (simp add: useBulk_def)
  have "mset [1, 0::nat] = mset [0..<length (m_calls ?m)]" by (simp add: calls upt_rec)
  note mutation_outcome [OF this refl prod.collapse, of sample_host ?f sample_console]
  moreover have "answer_error sample_host (Response 404 ''Not Found'' []) = Some (ApiError ''Not Found'' 404 None)"
    by (simp add: answer_error_def parse_body_def res_ok_def error_text_def opt_get_def)
  moreover have "c_toasts sample_console = []" by (simp add: sample_console_def)
  ultimately show ?thesis unfolding calls sample_bulk by (auto split: if_splits)
qed

end
