(* ===== verification/View.thy ===== *)
theory View
  imports Queries
begin

text \<open>
  Rendered pages. A React component is a function from its props and state to a tree of \<open>node\<close>s:
  text, elements with attributes and event handlers, and the confirmation dialog, which has its
  own theory. A handler is the list of effects its body performs, in order; \<open>'l\<close> is the type of
  the local state updates (\<open>setState\<close> calls) of the page. A value that cannot be rendered (an
  invalid date in \<open>date-fns\<close>) is \<open>Throw\<close>.

  Attributes kept are those behaviour or meaning depends on: targets, values, labels, disabled
  and checked flags, and the class names or styles that depend on data. Constant styling and
  icons without a meaning of their own are dropped. Page components read the preferences, the
  session and the clock through \<open>ctx\<close>.
\<close>

section \<open>Nodes\<close>

datatype 'l eff =
    StopPropagation
  | PreventDefault
  | Navigate string bool               \<comment> \<open>path, whether it replaces the history entry\<close>
  | Mutate mutation "'l eff list"      \<comment> \<open>\<open>mutate(arg, {onSuccess})\<close>\<close>
  | SetPrefs prefs_patch
  | ShowToast toast
  | CopyText string
  | InvalidateQueries
  | ClearQueries
  | ClearSession
  | RunRequest api_call
  | SetLocation string                 \<comment> \<open>\<open>window.location.assign\<close> and \<open>href\<close>\<close>
  | RouterReset                        \<comment> \<open>\<open>router.invalidate()\<close> and the boundary's \<open>reset()\<close>\<close>
  | Local 'l

datatype 'l handler =
    OnClick "'l eff list"
  | OnChange "string \<Rightarrow> 'l eff list"
  | OnCheckedChange "bool \<Rightarrow> 'l eff list"
  | OnSubmit "'l eff list"

record confirm_props =
  cp_title :: string
  cp_description :: string
  cp_confirmLabel :: string
  cp_destructive :: bool
  cp_typeToConfirm :: "string option"

datatype 'l node =
    Text string
  | Elem string "(string \<times> string) list" "'l handler list" "'l node list"
  | ConfirmDialog confirm_props "'l node" "'l eff list"
  | Throw string

record ctx =
  cx_host :: host
  cx_prefs :: prefs
  cx_session :: "session option"

definition cx_can :: "ctx \<Rightarrow> string \<Rightarrow> bool" where
  "cx_can cx p = (case cx_session cx of None \<Rightarrow> False | Some s \<Rightarrow> List.member (u_permissions (s_user s)) p)"

section \<open>Building blocks\<close>

definition el :: "string \<Rightarrow> 'l node list \<Rightarrow> 'l node" where
  "el tag kids = Elem tag [] [] kids"

definition ela :: "string \<Rightarrow> (string \<times> string) list \<Rightarrow> 'l node list \<Rightarrow> 'l node" where
  "ela tag attrs kids = Elem tag attrs [] kids"

definition button :: "(string \<times> string) list \<Rightarrow> 'l eff list \<Rightarrow> 'l node list \<Rightarrow> 'l node" where
  "button attrs effs kids = Elem ''button'' attrs [OnClick effs] kids"

text \<open>\<open><Link to=... onClick=...>\<close>: the handler of the caller runs first, then the router navigates.\<close>

definition link :: "string \<Rightarrow> (string \<times> string) list \<Rightarrow> 'l eff list \<Rightarrow> 'l node list \<Rightarrow> 'l node" where
  "link to attrs effs kids = Elem ''a'' ((''href'', to) # attrs) [OnClick (effs @ [Navigate to False])] kids"

text \<open>\<open>{cond && <X/>}\<close>, \<open>{value && f(value)}\<close> and a boolean attribute.\<close>

definition cond :: "bool \<Rightarrow> 'a \<Rightarrow> 'a list" where
  "cond b x = (if b then [x] else [])"

definition cond_some :: "'a option \<Rightarrow> ('a \<Rightarrow> 'b) \<Rightarrow> 'b list" where
  "cond_some v f = (case v of None \<Rightarrow> [] | Some x \<Rightarrow> [f x])"

definition flag :: "string \<Rightarrow> bool \<Rightarrow> (string \<times> string) list" where
  "flag name b = (if b then [(name, ''true'')] else [])"

definition cls :: "string \<Rightarrow> (string \<times> string) list" where
  "cls s = (if s = [] then [] else [(''class'', s)])"

lemmas node_builders = el_def ela_def button_def link_def cond_def cond_some_def flag_def cls_def

lemma cond_simps [simp]: "cond True x = [x]" "cond False x = []"
  by (simp_all add: cond_def)

lemma cond_some_simps [simp]: "cond_some None f = []" "cond_some (Some x) f = [f x]"
  by (simp_all add: cond_some_def)

lemma set_cond [simp]: "set (cond b x) = {y. b \<and> y = x}"
  by (cases b) simp_all

lemma set_cond_some [simp]: "set (cond_some v f) = f ` set_option v"
  by (cases v) simp_all

text \<open>The path of a route with a parameter: the router encodes the parameter.\<close>

definition job_path :: "string \<Rightarrow> string" where
  "job_path i = ''/jobs/'' @ encodeURIComponent i"

definition queue_path :: "string \<Rightarrow> string" where
  "queue_path n = ''/queues/'' @ encodeURIComponent n"

definition worker_path :: "string \<Rightarrow> string" where
  "worker_path i = ''/workers/'' @ encodeURIComponent i"

section \<open>Events\<close>

definition is_disabled :: "(string \<times> string) list \<Rightarrow> bool" where
  "is_disabled attrs = (map_of attrs ''disabled'' = Some ''true'')"

definition click_effs :: "'l handler list \<Rightarrow> 'l eff list" where
  "click_effs hs = concat (map (\<lambda>x. case x of OnClick es \<Rightarrow> es | _ \<Rightarrow> []) hs)"

definition stopped :: "'l eff list \<Rightarrow> bool" where
  "stopped es = list_ex (\<lambda>x. case x of StopPropagation \<Rightarrow> True | _ \<Rightarrow> False) es"

text \<open>
  A click on the node at a path of child positions: the handlers run from the target outwards
  until one stops the propagation; a disabled element swallows the click. At a confirmation
  dialog the empty path is its confirm button and any other its trigger. The dialog is a React
  portal, and React bubbles events out of a portal to the component that rendered it, so both
  clicks go on to the handlers around the dialog.
\<close>

fun click :: "'l node \<Rightarrow> nat list \<Rightarrow> 'l eff list" where
  "click (Elem tag attrs hs kids) [] = (if is_disabled attrs then [StopPropagation] else click_effs hs)"
| "click (Elem tag attrs hs kids) (i # is) =
     (if is_disabled attrs then [StopPropagation]
      else if i < length kids then
        let es = click (kids ! i) is in if stopped es then es else es @ click_effs hs
      else [])"
| "click (ConfirmDialog c trigger effs) [] = effs"
| "click (ConfirmDialog c trigger effs) (i # is) = click trigger is"
| "click _ _ = []"

section \<open>Running effects\<close>

text \<open>
  What an effect does to the console. A mutation's \<open>onSuccess\<close> runs after the hook's own, when no
  request failed; the answers are taken in the order of the requests, which does not matter for
  the outcome. Copying assumes that the clipboard accepts the text.
\<close>

fun perform :: "host \<Rightarrow> (http_request \<Rightarrow> fetch_result) \<Rightarrow> 'l eff \<Rightarrow> console \<Rightarrow> console" where
  "perform h fetch (Mutate m es) w =
     (let (ok, w1) = run_mutation h fetch [0..<length (m_calls m)] m w in
      if ok then foldl (\<lambda>v x. perform h fetch x v) w1 es else w1)"
| "perform h fetch (SetPrefs u) w = with_prefs (setPrefs h (patch_json u) (c_prefs w, c_storage w)) w"
| "perform h fetch (ShowToast t) w = show_toast t w"
| "perform h fetch (CopyText s) w = show_toast (ToastSuccess ''Copied to clipboard'') w"
| "perform h fetch InvalidateQueries w = invalidateQueries w"
| "perform h fetch ClearQueries w = clearQueries w"
| "perform h fetch ClearSession w = with_auth (clearSession h (c_auth w, c_storage w)) w"
| "perform h fetch (RunRequest c) w = snd (call_api h fetch c w)"
| "perform h fetch _ w = w"

definition perform_all :: "host \<Rightarrow> (http_request \<Rightarrow> fetch_result) \<Rightarrow> 'l eff list \<Rightarrow> console \<Rightarrow> console" where
  "perform_all h fetch es w = foldl (\<lambda>v x. perform h fetch x v) w es"

section \<open>What a page can do\<close>

text \<open>The requests an effect may cause.\<close>

fun eff_calls :: "'l eff \<Rightarrow> api_call list" where
  "eff_calls (Mutate m es) = m_calls m @ concat (map eff_calls es)"
| "eff_calls (RunRequest c) = [c]"
| "eff_calls _ = []"

text \<open>
  \<open>all_effs P Q n\<close>: every effect a handler of \<open>n\<close> can perform satisfies \<open>P\<close>, except that the effects
  behind a confirmation dialog satisfy \<open>Q\<close> of the dialog.
\<close>

fun handler_all :: "('l eff \<Rightarrow> bool) \<Rightarrow> 'l handler \<Rightarrow> bool" where
  "handler_all P (OnClick es) = list_all P es"
| "handler_all P (OnChange f) = (\<forall>v. list_all P (f v))"
| "handler_all P (OnCheckedChange f) = (\<forall>v. list_all P (f v))"
| "handler_all P (OnSubmit es) = list_all P es"

fun all_effs :: "('l eff \<Rightarrow> bool) \<Rightarrow> (confirm_props \<Rightarrow> 'l eff \<Rightarrow> bool) \<Rightarrow> 'l node \<Rightarrow> bool" where
  "all_effs P Q (Text s) = True"
| "all_effs P Q (Elem tag attrs hs kids) = (list_all (handler_all P) hs \<and> list_all (all_effs P Q) kids)"
| "all_effs P Q (ConfirmDialog c trigger effs) = (all_effs P Q trigger \<and> list_all (Q c) effs)"
| "all_effs P Q (Throw s) = True"

text \<open>Which requests change the system, and which of these cannot be undone.\<close>

fun is_write :: "api_call \<Rightarrow> bool" where
  "is_write (RetryJob _) = True"
| "is_write (RequeueJob _) = True"
| "is_write (DeleteJob _) = True"
| "is_write (PauseQueue _) = True"
| "is_write (ResumeQueue _) = True"
| "is_write (PurgeQueue _) = True"
| "is_write (RetryDlq _) = True"
| "is_write (DeleteDlq _) = True"
| "is_write PurgeDlq = True"
| "is_write (PromoteDelayed _) = True"
| "is_write (CancelDelayed _) = True"
| "is_write _ = False"

fun is_destructive :: "api_call \<Rightarrow> bool" where
  "is_destructive (DeleteJob _) = True"
| "is_destructive (PurgeQueue _) = True"
| "is_destructive (DeleteDlq _) = True"
| "is_destructive PurgeDlq = True"
| "is_destructive (CancelDelayed _) = True"
| "is_destructive _ = False"

definition calls_ok :: "(api_call \<Rightarrow> bool) \<Rightarrow> 'l eff \<Rightarrow> bool" where
  "calls_ok R x = list_all R (eff_calls x)"

text \<open>No handler makes a destructive request unless a destructive-styled dialog was confirmed.\<close>

definition guarded :: "'l node \<Rightarrow> bool" where
  "guarded n = all_effs (calls_ok (\<lambda>c. \<not> is_destructive c))
     (\<lambda>cp. calls_ok (\<lambda>c. is_destructive c \<longrightarrow> cp_destructive cp)) n"

definition read_only :: "'l node \<Rightarrow> bool" where
  "read_only n = all_effs (calls_ok (\<lambda>c. \<not> is_write c)) (\<lambda>cp. calls_ok (\<lambda>c. \<not> is_write c)) n"

text \<open>Every request a node can make satisfies \<open>R\<close>, confirmed or not.\<close>

definition only_calls :: "(api_call \<Rightarrow> bool) \<Rightarrow> 'l node \<Rightarrow> bool" where
  "only_calls R n = all_effs (calls_ok R) (\<lambda>cp. calls_ok R) n"

text \<open>A condition that the effects without requests and without navigation satisfy.\<close>

definition harmless :: "('l eff \<Rightarrow> bool) \<Rightarrow> bool" where
  "harmless P \<longleftrightarrow> P StopPropagation \<and> (\<forall>s. P (CopyText s)) \<and> (\<forall>u. P (SetPrefs u)) \<and> (\<forall>l. P (Local l))"

section \<open>Lemmas\<close>

text \<open>A node without handlers; what is below it decides.\<close>

lemma all_effs_builders [simp]:
  "all_effs P Q (el tag kids) = list_all (all_effs P Q) kids"
  "all_effs P Q (ela tag attrs kids) = list_all (all_effs P Q) kids"
  "all_effs P Q (button attrs effs kids) = (list_all P effs \<and> list_all (all_effs P Q) kids)"
  "all_effs P Q (link to attrs effs kids) =
     (list_all P effs \<and> P (Navigate to False) \<and> list_all (all_effs P Q) kids)"
  by (auto simp: node_builders)

lemma list_all_cond [simp]: "list_all P (cond b x) \<longleftrightarrow> (b \<longrightarrow> P x)"
  by (simp add: cond_def)

lemma list_all_cond_some [simp]: "list_all P (cond_some v f) \<longleftrightarrow> (\<forall>x. v = Some x \<longrightarrow> P (f x))"
  by (cases v) auto

lemma calls_ok_simps [simp]:
  "calls_ok R StopPropagation" "calls_ok R PreventDefault" "calls_ok R (Navigate p b)"
  "calls_ok R (SetPrefs u)" "calls_ok R (ShowToast t)" "calls_ok R (CopyText s)"
  "calls_ok R InvalidateQueries" "calls_ok R ClearQueries" "calls_ok R ClearSession"
  "calls_ok R (SetLocation s)" "calls_ok R RouterReset" "calls_ok R (Local l)"
  "calls_ok R (RunRequest c) = R c"
  "calls_ok R (Mutate m es) = (list_all R (m_calls m) \<and> list_all (calls_ok R) es)"
  by (auto simp: calls_ok_def list_all_iff)

lemma harmless_simps [simp]:
  "harmless P \<Longrightarrow> P StopPropagation" "harmless P \<Longrightarrow> P (CopyText s)" "harmless P \<Longrightarrow> P (SetPrefs u)"
  "harmless P \<Longrightarrow> P (Local l)"
  by (simp_all add: harmless_def)

lemma harmless_calls [simp]: "harmless (calls_ok R)"
  by (simp add: harmless_def)

lemma handler_all_mono: "(\<And>x. P x \<Longrightarrow> P' x) \<Longrightarrow> handler_all P x \<Longrightarrow> handler_all P' x"
  by (cases x) (auto simp: list_all_iff)

lemma all_effs_mono:
  assumes "\<And>x. P x \<Longrightarrow> P' x" and "\<And>c x. Q c x \<Longrightarrow> Q' c x"
  shows "all_effs P Q n \<Longrightarrow> all_effs P' Q' n"
proof (induction n)
  case (Elem tag attrs hs kids)
  then show ?case using handler_all_mono [of P P'] assms(1) by (auto simp: list_all_iff)
qed (use assms in \<open>auto simp: list_all_iff\<close>)

text \<open>A click performs effects that the handlers of the page have.\<close>

lemma click_effs_all: "list_all (handler_all P) hs \<Longrightarrow> list_all P (click_effs hs)"
  by (induction hs) (auto simp: click_effs_def split: handler.splits)

lemma click_all:
  assumes "P StopPropagation"
  shows "all_effs P (\<lambda>c. P) n \<Longrightarrow> list_all P (click n path)"
proof (induction n path rule: click.induct)
  case (2 tag attrs hs kids i "is")
  then have "i < length kids \<Longrightarrow> all_effs P (\<lambda>c. P) (kids ! i)" by (simp add: list_all_length)
  with 2 show ?case
    using assms click_effs_all [of P hs] by (auto simp: Let_def)
qed (use assms in \<open>auto simp: click_effs_all\<close>)

lemma read_only_only_calls: "read_only n = only_calls (\<lambda>c. \<not> is_write c) n"
  by (simp add: read_only_def only_calls_def)

lemma read_only_guarded: "read_only n \<Longrightarrow> guarded n"
  unfolding read_only_def guarded_def
proof (rule all_effs_mono)
  have d: "is_destructive c \<Longrightarrow> is_write c" for c by (cases c) auto
  show "calls_ok (\<lambda>c. \<not> is_write c) x \<Longrightarrow> calls_ok (\<lambda>c. \<not> is_destructive c) x" for x :: "'a eff"
    using d by (auto simp: calls_ok_def list_all_iff)
  show "calls_ok (\<lambda>c. \<not> is_write c) x \<Longrightarrow> calls_ok (\<lambda>c. is_destructive c \<longrightarrow> cp_destructive cp) x"
    for x :: "'a eff" and cp using d by (auto simp: calls_ok_def list_all_iff)
qed

end
