(* ===== verification/Shared_View.thy ===== *)
theory Shared_View
  imports View
begin

text \<open>
  The shared components: \<open>components/shared.tsx\<close>, \<open>can.tsx\<close>, \<open>toolbar.tsx\<close> and the
  confirmation dialog of \<open>confirm-dialog.tsx\<close> with its state (what was typed, whether it is open).
  An optional \<open>ReactNode\<close> prop is a list of nodes, empty when absent.
\<close>

section \<open>Status badge, headers, cards\<close>

datatype tone = TSuccess | TWarning | TDanger | TInfo | TNeutral

fun toneClass :: "tone \<Rightarrow> string" where
  "toneClass TSuccess = ''tone-success''"
| "toneClass TWarning = ''tone-warning''"
| "toneClass TDanger = ''tone-danger''"
| "toneClass TInfo = ''tone-info''"
| "toneClass TNeutral = ''tone-neutral''"

fun textTone :: "tone \<Rightarrow> string" where
  "textTone TSuccess = ''text-success''"
| "textTone TWarning = ''text-warning''"
| "textTone TDanger = ''text-destructive''"
| "textTone TInfo = ''text-info''"
| "textTone TNeutral = []"

definition STATUS_TONE :: "(string \<times> tone) list" where
  "STATUS_TONE =
     [(''pending'', TNeutral), (''processing'', TInfo), (''completed'', TSuccess), (''failed'', TDanger),
      (''retrying'', TWarning), (''delayed'', TNeutral), (''dlq'', TDanger), (''cancelled'', TNeutral),
      (''healthy'', TSuccess), (''paused'', TWarning), (''degraded'', TWarning), (''unknown'', TNeutral),
      (''idle'', TNeutral), (''busy'', TInfo), (''stale'', TWarning), (''disconnected'', TDanger)]"

definition StatusBadge :: "status \<Rightarrow> 'l node" where
  "StatusBadge st =
     ela ''span'' (case map_of STATUS_TONE (status_str st) of None \<Rightarrow> [] | Some t \<Rightarrow> cls (toneClass t))
       [ela ''span'' [(''aria-hidden'', ''true'')] [], Text (status_str st)]"

definition PageHeader :: "'l node list \<Rightarrow> 'l node list \<Rightarrow> 'l node list \<Rightarrow> 'l node list \<Rightarrow> 'l node" where
  "PageHeader title description actions meta =
     el ''header''
       ([el ''div'' ([el ''h1'' title] @ cond (description \<noteq> []) (el ''p'' description)
           @ cond (meta \<noteq> []) (el ''div'' meta))]
        @ cond (actions \<noteq> []) (el ''div'' actions))"

definition Section :: "'l node list \<Rightarrow> 'l node list \<Rightarrow> bool \<Rightarrow> 'l node list \<Rightarrow> 'l node" where
  "Section title actions flush children =
     el ''section''
       [el ''div'' ([el ''h2'' title] @ cond (actions \<noteq> []) (el ''div'' actions)),
        ela ''div'' (cls (if flush then [] else ''p-2.5'')) children]"

datatype stat_value = SvNum int | SvStr string

definition StatCard ::
  "ctx \<Rightarrow> string \<Rightarrow> stat_value option \<Rightarrow> tone option \<Rightarrow> string option \<Rightarrow> string option \<Rightarrow> 'l node" where
  "StatCard cx label val tn to hint =
     (let body = el ''div''
        ([el ''div'' [Text label],
          ela ''div'' (case tn of None \<Rightarrow> [] | Some t \<Rightarrow> cls (textTone t))
            [case val of
               None \<Rightarrow> el ''span'' []
             | Some (SvNum n) \<Rightarrow> Text (fmtNum (nf_format (cx_host cx)) n)
             | Some (SvStr s) \<Rightarrow> Text s]]
         @ cond (truthy_str hint) (el ''div'' [Text (the hint)]))
      in if truthy_str to then link (the to) [] [] [body] else body)"

section \<open>Times, ids, details\<close>

definition mid_dot :: string where
  "mid_dot = [CHR 0xC2, CHR 0xB7]"

definition ellipsis :: string where
  "ellipsis = [CHR 0xE2, CHR 0x80, CHR 0xA6]"

text \<open>\<open>useNow\<close>: the clock the component last saw, refreshed every \<open>ms\<close> milliseconds.\<close>

definition useNow :: "ctx \<Rightarrow> int" where
  "useNow cx = date_now (cx_host cx)"

definition muted_dash :: "'l node" where
  "muted_dash = el ''span'' [Text em_dash]"

text \<open>An invalid date makes \<open>formatDistanceToNowStrict\<close> throw.\<close>

definition TimeAgo :: "ctx \<Rightarrow> string option \<Rightarrow> bool \<Rightarrow> 'l node" where
  "TimeAgo cx ts future =
     (if \<not> truthy_str ts then muted_dash
      else case date_parse (the ts) of
          NaN \<Rightarrow> Throw ''RangeError''
        | Num d \<Rightarrow>
            let rel = fmt_rel (cx_host cx) (date_now (cx_host cx)) d; abst = fmt_abs (cx_host cx) d in
            el ''Tooltip''
              [ela ''time'' ((''dateTime'', the ts) # cls (if future then ''text-info'' else []))
                 [Text (if p_relativeTime (cx_prefs cx) then rel else abst)],
               el ''TooltipContent''
                 [Text (if p_relativeTime (cx_prefs cx) then abst @ '' '' @ mid_dot @ '' '' @ the ts else rel)]])"

definition Duration :: "jsnum option \<Rightarrow> 'l node" where
  "Duration ms = el ''span'' [Text (fmtDuration ms)]"

definition CopyButton :: "bool \<Rightarrow> string \<Rightarrow> string \<Rightarrow> 'l node" where
  "CopyButton copied val label =
     el ''Tooltip''
       [button [(''type'', ''button''), (''aria-label'', label)] [StopPropagation, CopyText val]
          [el (if copied then ''Check'' else ''Copy'') []],
        el ''TooltipContent'' [Text label]]"

definition JobId :: "string \<Rightarrow> bool \<Rightarrow> bool \<Rightarrow> 'l node" where
  "JobId i full lnk =
     (let txt = (if full then i else slice0 13 i) in
      el ''span''
        [if lnk then link (job_path i) [(''title'', i)] [StopPropagation] [Text txt]
         else ela ''span'' [(''title'', i)] [Text txt],
         CopyButton False i ''Copy job ID''])"

definition Mono :: "'l node list \<Rightarrow> 'l node" where
  "Mono children = el ''span'' children"

definition EmptyState :: "string \<Rightarrow> string option \<Rightarrow> 'l node" where
  "EmptyState title description =
     el ''div'' ([ela ''Icon'' [(''aria-hidden'', ''true'')] [], el ''div'' [Text title]]
       @ cond (truthy_str description) (el ''div'' [Text (the description)]))"

definition Kbd :: "'l node list \<Rightarrow> 'l node" where
  "Kbd children = el ''kbd'' children"

text \<open>A value of the list is \<open>None\<close> when it is \<open>null\<close> or \<open>undefined\<close>.\<close>

definition KV :: "(string \<times> 'l node option) list \<Rightarrow> 'l node" where
  "KV its = el ''dl'' (map (\<lambda>(k, v). el ''div'' [el ''dt'' [Text k], el ''dd'' [nullish v muted_dash]]) its)"

text \<open>\<open>[code, message, stack].filter(Boolean).join("\n")\<close>.\<close>

definition error_text_block :: "string \<Rightarrow> string option \<Rightarrow> string option \<Rightarrow> string" where
  "error_text_block message stack code =
     join_with [CHR 0x0A] (map the (filter truthy_str [code, Some message, stack]))"

definition ErrorBlock :: "string \<Rightarrow> string option \<Rightarrow> string option \<Rightarrow> 'l node" where
  "ErrorBlock message stack code =
     el ''div''
       ([el ''div''
           [el ''span'' (cond (truthy_str code) (el ''span'' [Text (the code)]) @ [Text message]),
            CopyButton False (error_text_block message stack code) ''Copy error'']]
        @ cond (truthy_str stack) (el ''pre'' [Text (the stack)]))"

section \<open>Permission gate\<close>

definition Can :: "ctx \<Rightarrow> string \<Rightarrow> 'l node list \<Rightarrow> 'l node list" where
  "Can cx perm children = (if cx_can cx perm then children else [])"

section \<open>Toolbar\<close>

definition Toolbar :: "'l node list \<Rightarrow> 'l node" where
  "Toolbar children = el ''div'' children"

definition SearchInput :: "string \<Rightarrow> (string \<Rightarrow> 'l eff list) \<Rightarrow> string \<Rightarrow> 'l node" where
  "SearchInput val onChange placeholder =
     el ''label'' [Elem ''input'' [(''value'', val), (''placeholder'', placeholder)] [OnChange onChange] []]"

definition FilterSelect :: "string \<Rightarrow> (string \<Rightarrow> 'l eff list) \<Rightarrow> string list \<Rightarrow> string \<Rightarrow> 'l node" where
  "FilterSelect val onChange options label =
     Elem ''select'' [(''aria-label'', label), (''value'', val)] [OnChange onChange]
       (ela ''option'' [(''value'', [])] [Text (label @ '': all'')]
        # map (\<lambda>o'. ela ''option'' [(''value'', o')] [Text o']) options)"

definition DensityToggle :: "ctx \<Rightarrow> 'l node" where
  "DensityToggle cx =
     (let compact = (p_density (cx_prefs cx) = Compact) in
      button [] [SetPrefs (PDensity (if compact then Comfortable else Compact))]
        [Text (if compact then ''Comfortable'' else ''Compact'')])"

section \<open>Confirmation dialog\<close>

text \<open>
  The dialog's state. \<open>onOpenChange\<close> forgets what was typed; pressing the action or the cancel
  button closes the dialog; a disabled action does nothing.
\<close>

record confirm_state =
  cf_open :: bool
  cf_typed :: string

definition confirm_init :: confirm_state where
  "confirm_init = \<lparr>cf_open = False, cf_typed = []\<rparr>"

datatype confirm_event = CfTrigger | CfType string | CfCancel | CfAction

definition confirm_disabled :: "confirm_props \<Rightarrow> confirm_state \<Rightarrow> bool" where
  "confirm_disabled c s \<longleftrightarrow> truthy_str (cp_typeToConfirm c) \<and> cf_typed s \<noteq> the (cp_typeToConfirm c)"

text \<open>The step of an event, with whether \<open>onConfirm\<close> is called; \<open>None\<close>: the event cannot happen.\<close>

definition confirm_step :: "confirm_props \<Rightarrow> confirm_state \<Rightarrow> confirm_event \<Rightarrow> (bool \<times> confirm_state) option" where
  "confirm_step c s ev =
     (case ev of
        CfTrigger \<Rightarrow> if cf_open s then None else Some (False, \<lparr>cf_open = True, cf_typed = []\<rparr>)
      | CfType v \<Rightarrow>
          if cf_open s \<and> truthy_str (cp_typeToConfirm c) then Some (False, s\<lparr>cf_typed := v\<rparr>) else None
      | CfCancel \<Rightarrow> if cf_open s then Some (False, \<lparr>cf_open = False, cf_typed = []\<rparr>) else None
      | CfAction \<Rightarrow>
          if cf_open s \<and> \<not> confirm_disabled c s then Some (True, \<lparr>cf_open = False, cf_typed = []\<rparr>) else None)"

definition confirm_view :: "confirm_props \<Rightarrow> 'l node list \<Rightarrow> (string \<Rightarrow> 'l eff list) \<Rightarrow> 'l eff list \<Rightarrow> confirm_state \<Rightarrow> 'l node" where
  "confirm_view c description setTyped onConfirm s =
     el ''AlertDialogContent''
       ([el ''AlertDialogHeader'' [el ''AlertDialogTitle'' [Text (cp_title c)], el ''AlertDialogDescription'' description]]
        @ cond (truthy_str (cp_typeToConfirm c))
            (el ''label''
               [el ''span'' [Text ''Type '', el ''code'' [Text (the (cp_typeToConfirm c))], Text '' to confirm''],
                Elem ''input'' [(''value'', cf_typed s)] [OnChange setTyped] []])
        @ [el ''AlertDialogFooter''
             [ela ''AlertDialogCancel'' [(''autoFocus'', ''true'')] [Text ''Cancel''],
              Elem ''AlertDialogAction''
                (flag ''disabled'' (confirm_disabled c s) @ flag ''destructive'' (cp_destructive c))
                [OnClick onConfirm] [Text (cp_confirmLabel c)]]])"

text \<open>Runs of the dialog from its initial state, with the number of confirmations.\<close>

inductive confirm_run :: "confirm_props \<Rightarrow> confirm_event list \<Rightarrow> confirm_state \<Rightarrow> nat \<Rightarrow> bool" for c where
  init: "confirm_run c [] confirm_init 0"
| step: "confirm_run c evs s n \<Longrightarrow> confirm_step c s ev = Some (b, s') \<Longrightarrow>
     confirm_run c (evs @ [ev]) s' (if b then Suc n else n)"

inductive_cases confirm_run_snocE: "confirm_run c (evs @ [ev]) s n"

section \<open>Lemmas\<close>

lemmas shared_defs = StatusBadge_def PageHeader_def Section_def StatCard_def TimeAgo_def Duration_def
  CopyButton_def JobId_def Mono_def EmptyState_def Kbd_def KV_def ErrorBlock_def Toolbar_def
  DensityToggle_def muted_dash_def

text \<open>The stateless components add no requests of their own.\<close>

lemma shared_inert [simp]:
  "all_effs P Q (StatusBadge st)" "all_effs P Q (TimeAgo cx ts f)" "all_effs P Q (Duration ms)"
  "all_effs P Q (EmptyState t d)" "all_effs P Q muted_dash"
  by (simp_all add: shared_defs Let_def split: option.splits jsnum.splits)

lemma shared_harmless [simp]:
  "harmless P \<Longrightarrow> all_effs P Q (CopyButton b v l)" "harmless P \<Longrightarrow> all_effs P Q (ErrorBlock m s co)"
  "harmless P \<Longrightarrow> all_effs P Q (DensityToggle cx)"
  by (simp_all add: shared_defs Let_def)

text \<open>The links among them: \<open>JobId\<close> to the job, a card to its target.\<close>

lemma shared_links [simp]:
  "harmless P \<Longrightarrow> all_effs P Q (JobId i fl lk) \<longleftrightarrow> (lk \<longrightarrow> P (Navigate (job_path i) False))"
  "all_effs P Q (StatCard cx l sv tn to hint) \<longleftrightarrow> (truthy_str to \<longrightarrow> P (Navigate (the to) False))"
  by (auto simp: JobId_def StatCard_def Let_def split: option.splits stat_value.splits)

lemma shared_transparent [simp]:
  "all_effs P Q (PageHeader t d a m) \<longleftrightarrow>
     list_all (all_effs P Q) t \<and> list_all (all_effs P Q) d \<and> list_all (all_effs P Q) a \<and> list_all (all_effs P Q) m"
  "all_effs P Q (Section t a fl ch) \<longleftrightarrow>
     list_all (all_effs P Q) t \<and> list_all (all_effs P Q) a \<and> list_all (all_effs P Q) ch"
  "all_effs P Q (Mono ch) = list_all (all_effs P Q) ch"
  "all_effs P Q (Kbd ch) = list_all (all_effs P Q) ch"
  "all_effs P Q (Toolbar ch) = list_all (all_effs P Q) ch"
  by (auto simp: shared_defs)

lemma controls_transparent [simp]:
  "all_effs P Q (SearchInput v f ph) = (\<forall>x. list_all P (f x))"
  "all_effs P Q (FilterSelect v f os l) = (\<forall>x. list_all P (f x))"
  by (auto simp: SearchInput_def FilterSelect_def list_all_iff)

lemma KV_effs [simp]: "all_effs P Q (KV its) = list_all (\<lambda>kv. pred_option (all_effs P Q) (snd kv)) its"
proof -
  have "all_effs P Q (nullish v muted_dash) = pred_option (all_effs P Q) v" for v
    by (cases v) simp_all
  then show ?thesis by (simp add: KV_def list.pred_map comp_def split_beta)
qed

lemma list_all_Can [simp]: "list_all P (Can cx perm ch) \<longleftrightarrow> (cx_can cx perm \<longrightarrow> list_all P ch)"
  by (simp add: Can_def)

lemma set_Can [simp]: "set (Can cx perm ch) = {y. cx_can cx perm \<and> y \<in> set ch}"
  by (simp add: Can_def)

lemma confirm_step_action:
  "confirm_step c s CfAction = Some r \<longleftrightarrow>
     cf_open s \<and> \<not> confirm_disabled c s \<and> r = (True, \<lparr>cf_open = False, cf_typed = []\<rparr>)"
  by (auto simp: confirm_step_def)

lemma confirm_typed_last:
  assumes "confirm_run c evs s n" and "cf_typed s = k" and "k \<noteq> []"
  shows "\<exists>pre. evs = pre @ [CfType k]"
  using assms(1)
proof cases
  case init
  then show ?thesis using assms(2,3) by (simp add: confirm_init_def)
next
  case (step evs' s0 m ev b)
  then show ?thesis using assms(2,3) by (auto simp: confirm_step_def split: confirm_event.splits if_splits)
qed

lemma confirm_openings:
  "confirm_run c evs s n \<Longrightarrow> n + (if cf_open s then 1 else 0) = count_list evs CfTrigger - count_list evs CfCancel
     \<and> count_list evs CfCancel \<le> count_list evs CfTrigger"
proof (induction rule: confirm_run.induct)
  case init
  then show ?case by (simp add: confirm_init_def)
next
  case (step evs s n ev b s')
  then show ?case by (auto simp: confirm_step_def split: confirm_event.splits if_splits)
qed

section \<open>Properties\<close>

text \<open>
  (C20) A dialog with a text to type cannot be confirmed by accident: when its action fires, the
  event right before was typing exactly that text, and it has fired exactly once for each time
  the dialog was opened and not cancelled.
\<close>

theorem confirm_requires_typing:
  assumes "confirm_run c (evs @ [CfAction]) s n" and "cp_typeToConfirm c = Some k" and "k \<noteq> []"
  shows "(\<exists>pre. evs = pre @ [CfType k]) \<and> n = count_list evs CfTrigger - count_list evs CfCancel"
proof -
  from assms(1) obtain s0 m where run: "confirm_run c evs s0 m" and act: "confirm_step c s0 CfAction = Some (True, s)"
    by (rule confirm_run_snocE) (auto simp: confirm_step_action)
  then have "cf_typed s0 = k"
    using assms(2,3) by (simp add: confirm_step_action confirm_disabled_def)
  moreover have "\<not> cf_open s" using act by (simp add: confirm_step_action)
  ultimately show ?thesis
    using confirm_typed_last [OF run _ assms(3)] confirm_openings [OF assms(1)] by simp
qed

definition sample_confirm :: confirm_props where
  "sample_confirm = \<lparr>cp_title = ''Purge'', cp_description = [], cp_confirmLabel = ''Purge'', cp_destructive = True,
     cp_typeToConfirm = Some ''dlq''\<rparr>"

lemma sample_confirm_run:
  "confirm_run sample_confirm [CfTrigger, CfType ''dlq'', CfAction] \<lparr>cf_open = False, cf_typed = []\<rparr> 1"
proof -
  have st: "confirm_step sample_confirm confirm_init CfTrigger = Some (False, \<lparr>cf_open = True, cf_typed = []\<rparr>)"
    "confirm_step sample_confirm \<lparr>cf_open = True, cf_typed = []\<rparr> (CfType ''dlq'') = Some (False, \<lparr>cf_open = True, cf_typed = ''dlq''\<rparr>)"
    "confirm_step sample_confirm \<lparr>cf_open = True, cf_typed = ''dlq''\<rparr> CfAction = Some (True, \<lparr>cf_open = False, cf_typed = []\<rparr>)"
    by code_simp+
  show ?thesis
    using confirm_run.step [OF confirm_run.step [OF confirm_run.step [OF confirm_run.init st(1)] st(2)] st(3)] by simp
qed

theorem confirm_requires_typing_witness:
  "(\<exists>pre. [CfTrigger, CfType ''dlq''] = pre @ [CfType ''dlq'']) \<and>
   1 = count_list [CfTrigger, CfType ''dlq''] CfTrigger - count_list [CfTrigger, CfType ''dlq''] CfCancel"
  using confirm_requires_typing [of sample_confirm "[CfTrigger, CfType ''dlq'']" _ 1 "''dlq''"] sample_confirm_run
  by (simp add: sample_confirm_def)

end
