(* ===== verification/App_Shell.thy ===== *)
theory App_Shell
  imports Shared_View
begin

text \<open>
  The application shell of \<open>components/app-shell.tsx\<close>: the sidebar with its permission-filtered
  navigation, the sign-out button, the top bar, the command palette and the shell's own state
  (sidebar collapsed, palette open). The fuzzy filter of the palette is the library's.
\<close>

record NavEntry =
  nv_to :: string
  nv_label :: string
  nv_perm :: "string option"

definition nav_entry :: "string \<Rightarrow> string \<Rightarrow> string option \<Rightarrow> NavEntry" where
  "nav_entry to label perm = \<lparr>nv_to = to, nv_label = label, nv_perm = perm\<rparr>"

definition NAV :: "NavEntry list" where
  "NAV =
     [nav_entry ''/'' ''Overview'' (Some ''system:read''),
      nav_entry ''/queues'' ''Queues'' (Some ''queues:read''),
      nav_entry ''/workers'' ''Workers'' (Some ''workers:read''),
      nav_entry ''/delayed'' ''Delayed / Scheduled'' (Some ''delayed:read''),
      nav_entry ''/dlq'' ''Dead Letter Queue'' (Some ''dlq:read''),
      nav_entry ''/metrics'' ''Metrics'' (Some ''metrics:read'')]"

definition SYS :: "NavEntry list" where
  "SYS = [nav_entry ''/settings'' ''Settings'' None, nav_entry ''/connection'' ''API / Connection'' None]"

definition visibleNav :: "NavEntry list \<Rightarrow> string list \<Rightarrow> NavEntry list" where
  "visibleNav its perms = filter (\<lambda>n. \<not> truthy_str (nv_perm n) \<or> List.member perms (the (nv_perm n))) its"

fun CONN_LABEL :: "conn_status \<Rightarrow> string" where
  "CONN_LABEL Connected = ''Connected''"
| "CONN_LABEL Connecting = ''Connecting''"
| "CONN_LABEL Disconnected = ''Disconnected''"
| "CONN_LABEL ConnError = ''Error''"

fun CONN_DOT :: "conn_status \<Rightarrow> string" where
  "CONN_DOT Connected = ''bg-success''"
| "CONN_DOT Connecting = ''bg-warning animate-pulse''"
| "CONN_DOT Disconnected = ''bg-muted-foreground''"
| "CONN_DOT ConnError = ''bg-destructive''"

definition ConnectionDot :: "conn_state \<Rightarrow> bool \<Rightarrow> 'l node" where
  "ConnectionDot conn withText =
     el ''span''
       ([ela ''span'' (cls (CONN_DOT (cs_status conn))) []]
        @ cond withText (el ''span'' [Text (CONN_LABEL (cs_status conn))]))"

text \<open>\<open>useThemeEffect\<close>: whether the document has the class \<open>dark\<close>.\<close>

definition dark_class :: "host \<Rightarrow> theme_pref \<Rightarrow> bool" where
  "dark_class h theme \<longleftrightarrow> theme = Dark \<or> (theme = System \<and> prefers_dark h)"

section \<open>Sidebar\<close>

definition nav_active :: "string \<Rightarrow> string \<Rightarrow> bool" where
  "nav_active to path =
     (if to = ''/'' then path = ''/''
      else starts_with path to \<or> (to = ''/queues'' \<and> starts_with path ''/jobs''))"

definition NavItem :: "string \<Rightarrow> bool \<Rightarrow> NavEntry \<Rightarrow> 'l node" where
  "NavItem path collapsed n =
     (let active = nav_active (nv_to n) path;
          lnk = link (nv_to n)
            (cls (join_with '' ''
               (cond active ''bg-sidebar-accent font-medium text-sidebar-accent-foreground''
                @ cond collapsed ''justify-center px-0''))
             @ (if active then [(''aria-current'', ''page'')] else [])) []
            ([ela ''Icon'' (cls (if active then ''text-primary'' else ''text-muted-foreground'')) []]
             @ cond (\<not> collapsed) (el ''span'' [Text (nv_label n)]))
      in if collapsed then el ''Tooltip'' [lnk, el ''TooltipContent'' [Text (nv_label n)]] else lnk)"

definition logout :: "'l eff list" where
  "logout = [ClearSession, ClearQueries]"

definition sign_out_button :: "'l node" where
  "sign_out_button = button [(''aria-label'', ''Sign out'')] logout []"

definition UserFooter :: "session option \<Rightarrow> bool \<Rightarrow> 'l node list" where
  "UserFooter sess collapsed =
     (case sess of
        None \<Rightarrow> []
      | Some s \<Rightarrow>
          let username = u_username (s_user s); roles = u_roles (s_user s) in
          [ela ''div'' (cls (if collapsed then ''justify-center px-0'' else []))
             (if \<not> collapsed
              then [el ''div'' [ela ''div'' [(''title'', username)] [Text username],
                                el ''div'' [Text (join_with '', '' roles)]],
                    el ''Tooltip'' [sign_out_button, el ''TooltipContent'' [Text ''Sign out'']]]
              else [el ''Tooltip'' [sign_out_button, el ''TooltipContent'' [Text (''Sign out ('' @ username @ '')'')]]])])"

definition session_perms :: "session option \<Rightarrow> string list" where
  "session_perms sess = (case sess of None \<Rightarrow> [] | Some s \<Rightarrow> u_permissions (s_user s))"

definition Sidebar :: "ctx \<Rightarrow> conn_state \<Rightarrow> string \<Rightarrow> bool \<Rightarrow> 'l node" where
  "Sidebar cx conn path collapsed =
     ela ''aside'' (cls (if collapsed then ''w-12'' else ''w-52''))
       ([ela ''div'' (cls (if collapsed then ''justify-center px-0'' else []))
           ([el ''Logo'' []] @ cond (\<not> collapsed) (el ''span'' [Text ''ForgeQueue''])),
         ela ''nav'' [(''aria-label'', ''Main'')]
           (map (NavItem path collapsed) (visibleNav NAV (session_perms (cx_session cx)))
            @ [el ''div'' []]
            @ cond (\<not> collapsed) (el ''div'' [Text ''System''])
            @ map (NavItem path collapsed) SYS)]
        @ UserFooter (cx_session cx) collapsed
        @ [ela ''div'' (cls (if collapsed then ''flex flex-col items-center px-0'' else []))
             (cond (\<not> collapsed) (el ''div'' [Text (env_or (env_version (cx_host cx)) ''dev'')])
              @ [ConnectionDot conn (\<not> collapsed)])])"

section \<open>Top bar\<close>

datatype shell_action = SetCollapsed bool | SetOpen bool

text \<open>\<open>apiBase.replace(/^https?:\/\//, "")\<close>.\<close>

definition strip_scheme :: "string \<Rightarrow> string" where
  "strip_scheme b =
     (if starts_with b ''http://'' then drop 7 b
      else if starts_with b ''https://'' then drop 8 b else b)"

definition env_label :: "string \<Rightarrow> string" where
  "env_label apiBase = (if starts_with apiBase ''/'' then ''local-dev'' else strip_scheme apiBase)"

text \<open>
  \<open>Math.max(0, Math.round((Date.now() - lastSuccessAt) / 1000))\<close>: \<open>Math.round\<close> takes half up, and
  halves of a thousandth of an integer are exact.
\<close>

definition updated_label :: "ctx \<Rightarrow> int option \<Rightarrow> string" where
  "updated_label cx lst =
     (case lst of
        None \<Rightarrow> em_dash
      | Some t \<Rightarrow>
          if t = 0 then em_dash
          else ''updated '' @ int_str (max 0 ((date_now (cx_host cx) - t + 500) div 1000)) @ ''s ago'')"

definition THEMES :: "(theme_pref \<times> string) list" where
  "THEMES = [(Light, ''Light''), (Dark, ''Dark''), (System, ''System'')]"

definition radio :: "bool \<Rightarrow> (string \<times> string) list \<Rightarrow> 'l eff list \<Rightarrow> 'l node list \<Rightarrow> 'l node" where
  "radio checked attrs effs kids =
     button ([(''role'', ''radio''), (''aria-checked'', if checked then ''true'' else ''false'')] @ attrs
        @ cls (if checked then ''bg-accent text-foreground'' else ''text-muted-foreground hover:text-foreground''))
       effs kids"

definition Topbar :: "ctx \<Rightarrow> conn_state \<Rightarrow> nat \<Rightarrow> bool \<Rightarrow> shell_action node" where
  "Topbar cx conn fetching collapsed =
     (let p = cx_prefs cx in
      el ''header''
        [button [(''aria-label'', ''Toggle sidebar'')] [Local (SetCollapsed (\<not> collapsed))] [],
         el ''span'' [Text (env_label (p_apiBase p))],
         button [(''type'', ''button'')] [Local (SetOpen True)]
           [Text (''Search jobs, queues, workers'' @ ellipsis), el ''span'' [Kbd [Text ([CHR 0xE2, CHR 0x8C, CHR 0x98] @ ''K'')]]],
         el ''div''
           [el ''span''
              [ela ''Activity'' (cls (if fetching > 0 then ''text-primary'' else [])) [],
               Text (updated_label cx (cs_lastSuccessAt conn))],
            el ''Tooltip''
              [button [(''aria-label'', ''Refresh now'')] [InvalidateQueries]
                 [ela ''RefreshCw'' (cls (if fetching > 0 then ''animate-spin'' else [])) []],
               el ''TooltipContent'' [Text ''Refresh now'']],
            ela ''div'' [(''role'', ''radiogroup''), (''aria-label'', ''Auto-refresh'')]
              (map (\<lambda>a. radio (p_autoRefresh p = a) [] [SetPrefs (PAutoRefresh a)] [Text (auto_refresh_str a)])
                 [Off, R5s, R10s, R30s]),
            ela ''div'' [(''role'', ''radiogroup''), (''aria-label'', ''Theme'')]
              (map (\<lambda>(v, label). radio (p_theme p = v) [(''aria-label'', label), (''title'', label)] [SetPrefs (PTheme v)] [])
                 THEMES),
            el ''span'' [ConnectionDot conn True]]])"

section \<open>Command palette\<close>

record palette_job =
  pj_id :: string
  pj_queue :: string
  pj_task :: string
  pj_status :: job_status

definition palette_jobs :: "dlq_item list \<Rightarrow> delayed_job list \<Rightarrow> palette_job list" where
  "palette_jobs dlq delayed =
     map (\<lambda>d. \<lparr>pj_id = d_jobId d, pj_queue = d_originalQueue d, pj_task = d_task d, pj_status = JsDlq\<rparr>) dlq
     @ map (\<lambda>d. \<lparr>pj_id = dj_jobId d, pj_queue = dj_queue d, pj_task = dj_task d, pj_status = dj_status d\<rparr>) delayed"

text \<open>\<open>go(() => navigate(...))\<close>: the palette closes, then the router navigates.\<close>

definition command_item :: "string \<Rightarrow> string \<Rightarrow> shell_action node list \<Rightarrow> shell_action node" where
  "command_item val path kids =
     Elem ''CommandItem'' [(''value'', val)] [OnClick [Local (SetOpen False), Navigate path False]] kids"

definition CommandPalette ::
  "ctx \<Rightarrow> queue_summary list option \<Rightarrow> worker list option \<Rightarrow> dlq_item list option \<Rightarrow> delayed_job list option
     \<Rightarrow> bool \<Rightarrow> shell_action node list" where
  "CommandPalette cx queues workers dlq delayed opened =
     cond opened
       (Elem ''CommandDialog'' [] [OnCheckedChange (\<lambda>b. [Local (SetOpen b)])]
          [ela ''CommandInput'' [(''placeholder'', ''Job ID, queue, task, worker'' @ ellipsis)] [],
           el ''CommandEmpty'' [Text ''No results''],
           ela ''CommandGroup'' [(''heading'', ''Navigate'')]
             (map (\<lambda>n. command_item (''go '' @ nv_label n) (nv_to n) [Text (nv_label n)])
                (visibleNav NAV (session_perms (cx_session cx)) @ SYS)),
           ela ''CommandGroup'' [(''heading'', ''Queues'')]
             (map (\<lambda>q. command_item (''queue '' @ q_name q) (queue_path (q_name q))
                [el ''span'' [Text (q_name q)], el ''span'' [StatusBadge (SQueue (q_status q))]]) (nullish queues [])),
           ela ''CommandGroup'' [(''heading'', ''Workers'')]
             (map (\<lambda>w. command_item (''worker '' @ w_id w @ '' '' @ w_hostname w) (worker_path (w_id w))
                [el ''span'' [Text (w_id w)], el ''span'' [Text (w_hostname w)],
                 el ''span'' [StatusBadge (SWorker (w_status w))]]) (nullish workers [])),
           ela ''CommandGroup'' [(''heading'', ''Jobs'')]
             (map (\<lambda>j. command_item (''job '' @ pj_id j @ '' '' @ pj_task j @ '' '' @ pj_queue j) (job_path (pj_id j))
                [el ''span'' [Text (slice0 13 (pj_id j))],
                 el ''span'' [Text (pj_queue j @ '' '' @ mid_dot @ '' '' @ pj_task j)],
                 el ''span'' [StatusBadge (SJob (pj_status j))]])
                (palette_jobs (nullish dlq []) (nullish delayed [])))])"

section \<open>Shell\<close>

record shell_state =
  sh_collapsed :: bool
  sh_open :: bool

definition shell_init :: shell_state where
  "shell_init = \<lparr>sh_collapsed = False, sh_open = False\<rparr>"

fun shell_update :: "shell_action \<Rightarrow> shell_state \<Rightarrow> shell_state" where
  "shell_update (SetCollapsed b) st = st\<lparr>sh_collapsed := b\<rparr>"
| "shell_update (SetOpen b) st = st\<lparr>sh_open := b\<rparr>"

text \<open>The global key handler: whether the default is prevented, and the new state.\<close>

definition shell_key :: "bool \<Rightarrow> bool \<Rightarrow> string \<Rightarrow> shell_state \<Rightarrow> bool \<times> shell_state" where
  "shell_key meta ctrl key st =
     (if (meta \<or> ctrl) \<and> to_lower key = ''k'' then (True, st\<lparr>sh_open := \<not> sh_open st\<rparr>) else (False, st))"

definition AppShell ::
  "ctx \<Rightarrow> conn_state \<Rightarrow> nat \<Rightarrow> string \<Rightarrow> queue_summary list option \<Rightarrow> worker list option \<Rightarrow> dlq_item list option
     \<Rightarrow> delayed_job list option \<Rightarrow> shell_state \<Rightarrow> shell_action node list \<Rightarrow> shell_action node" where
  "AppShell cx conn fetching path queues workers dlq delayed st children =
     el ''div''
       ([Sidebar cx conn path (sh_collapsed st),
         el ''div'' [Topbar cx conn fetching (sh_collapsed st), el ''main'' children]]
        @ CommandPalette cx queues workers dlq delayed (sh_open st))"

section \<open>Lemmas\<close>

lemma shell_parts [simp]:
  "all_effs (calls_ok R) Q (ConnectionDot conn b)" "all_effs (calls_ok R) Q (NavItem path c n)"
  "all_effs (calls_ok R) Q sign_out_button" "list_all (all_effs (calls_ok R) Q) (UserFooter s c)"
  by (auto simp: ConnectionDot_def NavItem_def sign_out_button_def logout_def UserFooter_def Let_def split: option.splits)

lemma radio_effs [simp]: "all_effs P Q (radio b a es ks) \<longleftrightarrow> list_all P es \<and> list_all (all_effs P Q) ks"
  by (simp add: radio_def)

lemma command_item_effs [simp]:
  "all_effs (calls_ok R) Q (command_item v p ks) = list_all (all_effs (calls_ok R) Q) ks"
  by (simp add: command_item_def)

lemma map_effs: "(\<And>x. all_effs P Q (f x)) \<Longrightarrow> list_all (all_effs P Q) (map f xs)"
  by (simp add: list.pred_map comp_def list.pred_True)

lemma AppShell_effs:
  "all_effs (calls_ok R) Q (AppShell cx conn fn path qs ws dq de st ch) = list_all (all_effs (calls_ok R) Q) ch"
proof -
  have "all_effs (calls_ok R) Q (Sidebar cx conn path c :: shell_action node)" for c
    by (simp add: Sidebar_def map_effs)
  moreover have "all_effs (calls_ok R) Q (Topbar cx conn fn c)" for c
    by (simp add: Topbar_def Let_def THEMES_def)
  moreover have "list_all (all_effs (calls_ok R) Q) (CommandPalette cx qs ws dq de b)" for b
    by (simp add: CommandPalette_def map_effs)
  ultimately show ?thesis by (simp add: AppShell_def)
qed

section \<open>Properties\<close>

text \<open>
  Signing out is complete: the handler of the sign-out button, run on any console state with
  usable storage, leaves no session in memory or storage, empties the query cache and notifies
  every subscriber of the session store.
\<close>

theorem logout_complete:
  assumes "available (c_storage w)"
  shows "a_state (c_auth (perform_all h fetch logout w)) = None
     \<and> items (c_storage (perform_all h fetch logout w)) AUTH_KEY = None
     \<and> c_cleared (perform_all h fetch logout w) = Suc (c_cleared w)
     \<and> a_log (c_auth (perform_all h fetch logout w)) =
         a_log (fst (auth_load h (c_auth w, c_storage w))) @ a_listeners (fst (auth_load h (c_auth w, c_storage w)))"
  using assms
  by (simp add: perform_all_def logout_def clearQueries_def with_auth_def clearSession_stored)
    (simp add: clearSession_def auth_emit_def auth_persist_def Let_def split_beta split: option.splits)

theorem logout_complete_witness:
  "a_state (c_auth (perform_all sample_host (\<lambda>r. Rejected ''offline'') (logout :: shell_action eff list) sample_console)) = None"
  by (rule conjunct1 [OF logout_complete]) (simp add: sample_console_def sample_storage_def)

text \<open>The paths an entry claims; two entries cannot both be active when these do not overlap.\<close>

definition claims :: "string \<Rightarrow> string list" where
  "claims to = (if to = ''/queues'' then [''/queues'', ''/jobs''] else [to])"

definition apart :: "string \<Rightarrow> string \<Rightarrow> bool" where
  "apart a b = list_all (\<lambda>x. list_all (\<lambda>y. \<not> prefix x y \<and> \<not> prefix y x) (claims b)) (claims a)"

lemma nav_active_claims: "to \<noteq> ''/'' \<Longrightarrow> nav_active to path \<longleftrightarrow> (\<exists>x\<in>set (claims to). starts_with path x)"
  by (auto simp: nav_active_def claims_def)

lemma nav_apart: "nav_active a path \<Longrightarrow> a \<noteq> ''/'' \<Longrightarrow> b \<noteq> ''/'' \<Longrightarrow> apart a b \<Longrightarrow> \<not> nav_active b path"
  unfolding nav_active_claims apart_def list_all_iff starts_with_prefix
  using prefix_same_cases by blast

lemma nav_root: "nav_active ''/'' path \<Longrightarrow> b \<noteq> ''/'' \<Longrightarrow> list_all (\<lambda>x. 1 < length x) (claims b) \<Longrightarrow> \<not> nav_active b path"
  unfolding nav_active_claims list_all_iff starts_with_prefix
  by (auto simp: nav_active_def dest!: prefix_length_le)

lemma filter_exclusive:
  "sorted_wrt (\<lambda>a b. P a \<longrightarrow> \<not> P b) xs \<Longrightarrow> length (filter P xs) \<le> 1"
proof (induction xs)
  case (Cons x xs)
  then show ?case by (cases "P x") (auto simp: filter_empty_conv)
qed simp

lemma nav_exclusive: "sorted_wrt (\<lambda>m n. nav_active (nv_to m) path \<longrightarrow> \<not> nav_active (nv_to n) path) (NAV @ SYS)"
  by (simp add: NAV_def SYS_def nav_entry_def nav_root claims_def)
    (intro conjI impI; erule nav_apart; simp add: apart_def claims_def)

text \<open>
  The navigation marks at most one entry as the current page, whatever the path, and the one it
  marks for a job page is the queues entry.
\<close>

theorem nav_active_unique:
  "length (filter (\<lambda>n. nav_active (nv_to n) path) (NAV @ SYS)) \<le> 1
   \<and> map nv_to (filter (\<lambda>n. nav_active (nv_to n) (job_path i)) (NAV @ SYS)) = [''/queues'']"
  using filter_exclusive [OF nav_exclusive, of path]
  by (simp add: NAV_def SYS_def nav_entry_def nav_active_def job_path_def)

end
