(* ===== verification/Login.thy ===== *)
theory Login
  imports App_Shell
begin

text \<open>
  The login page (\<open>routes/login.tsx\<close>) and the root guard (\<open>routes/__root.tsx\<close>). The page is a
  state machine: user input and the answers to its three requests (configuration, password
  login, single sign-on exchange) arrive as events in any order. A request is pending between the
  event that sends it and its answer. The query parameters of the page's URL are part of the
  state, since the page removes two of them.
\<close>

section \<open>State\<close>

record login_state =
  lg_config :: "json option"
  lg_username :: string
  lg_password :: string
  lg_showPassword :: bool
  lg_error :: "string option"
  lg_busy :: bool
  lg_exchanging :: bool
  lg_mounted :: bool
  lg_query :: "(string \<times> string) list"
  lg_nav :: "(string \<times> bool) list"         \<comment> \<open>navigations, with their replace flag\<close>
  lg_sent :: "api_call list"
  lg_configPending :: bool
  lg_loginPending :: bool
  lg_ssoPending :: bool

type_synonym login_page = "login_state \<times> console"

text \<open>The part of \<open>request\<close> before the answer: the stores are read, the call goes out.\<close>

definition send_call :: "host \<Rightarrow> api_call \<Rightarrow> login_page \<Rightarrow> login_page" where
  "send_call h c pg = ((fst pg)\<lparr>lg_sent := lg_sent (fst pg) @ [c]\<rparr>,
     snd (build_request h (api_method c) (api_path c) (api_body c) (snd pg)))"

definition default_config :: json where
  "default_config = JObj [(''password'', JBool True), (''oidc'', JBool False)]"

text \<open>\<open>clean\<close>: the one-time parameters leave the address bar.\<close>

definition clean :: "login_state \<Rightarrow> login_state" where
  "clean s = s\<lparr>lg_query := filter (\<lambda>(k, v). k \<noteq> ''code'' \<and> k \<noteq> ''error'') (lg_query s)\<rparr>"

definition go_home :: "login_state \<Rightarrow> login_state" where
  "go_home s = s\<lparr>lg_nav := lg_nav s @ [(''/'', True)]\<rparr>"

text \<open>\<open>setSession(next)\<close> of a response body; an empty body is \<open>undefined\<close>, which clears the state.\<close>

definition store_session :: "host \<Rightarrow> json option \<Rightarrow> console \<Rightarrow> console" where
  "store_session h nxt w =
     (let c = (c_auth w, c_storage w) in
      with_auth (case nxt of Some j \<Rightarrow> setSession h j c | None \<Rightarrow> clearSession h c) w)"

section \<open>Effects and handlers\<close>

text \<open>The first effect: a signed-in user has no business here.\<close>

definition session_effect :: "host \<Rightarrow> login_page \<Rightarrow> login_page" where
  "session_effect h pg =
     (let (s, c) = useSession h (c_auth (snd pg), c_storage (snd pg)) in
      (if truthy s then go_home (fst pg) else fst pg, with_auth c (snd pg)))"

definition config_effect :: "host \<Rightarrow> login_page \<Rightarrow> login_page" where
  "config_effect h pg =
     (let (s, w) = send_call h AuthConfigC pg in (s\<lparr>lg_configPending := True\<rparr>, w))"

definition config_answer :: "host \<Rightarrow> fetch_result \<Rightarrow> login_page \<Rightarrow> login_page" where
  "config_answer h res pg =
     (let (r, w) = settle h res (snd pg); s = (fst pg)\<lparr>lg_configPending := False\<rparr>;
          c = (case r of Inr d \<Rightarrow> d | Inl err \<Rightarrow> Some default_config) in
      (if lg_mounted s then s\<lparr>lg_config := c\<rparr> else s, w))"

definition sso_error_text :: "string \<Rightarrow> string" where
  "sso_error_text e =
     (if e = ''access_denied'' then ''Sign-in was cancelled.'' else ''Sign-in failed. Please try again.'')"

definition sso_effect :: "host \<Rightarrow> login_page \<Rightarrow> login_page" where
  "sso_effect h pg =
     (let s = fst pg; code = map_of (lg_query s) ''code''; ssoError = map_of (lg_query s) ''error'' in
      if \<not> truthy_str code \<and> \<not> truthy_str ssoError then pg
      else if truthy_str ssoError then (clean (s\<lparr>lg_error := Some (sso_error_text (the ssoError))\<rparr>), snd pg)
      else send_call h (ExchangeOidc (the code)) (s\<lparr>lg_exchanging := True, lg_ssoPending := True\<rparr>, snd pg))"

definition sso_answer :: "host \<Rightarrow> fetch_result \<Rightarrow> login_page \<Rightarrow> login_page" where
  "sso_answer h res pg =
     (let (r, w) = settle h res (snd pg); s = (fst pg)\<lparr>lg_ssoPending := False\<rparr> in
      case r of
        Inr d \<Rightarrow> (go_home (clean s), store_session h d w)
      | Inl err \<Rightarrow>
          ((clean (s\<lparr>lg_error := Some (if is_ApiError err then err_message err
              else ''Sign-in failed. Please try again.'')\<rparr>))\<lparr>lg_exchanging := False\<rparr>, w))"

text \<open>\<open>onSubmit\<close> up to the request, and from the answer on.\<close>

definition onSubmit :: "host \<Rightarrow> login_page \<Rightarrow> login_page" where
  "onSubmit h pg =
     (let s = fst pg in
      if lg_busy s then pg
      else send_call h (Login (js_trim (lg_username s)) (lg_password s))
        (s\<lparr>lg_busy := True, lg_error := None, lg_loginPending := True\<rparr>, snd pg))"

definition login_answer :: "host \<Rightarrow> fetch_result \<Rightarrow> login_page \<Rightarrow> login_page" where
  "login_answer h res pg =
     (let (r, w) = settle h res (snd pg); s = (fst pg)\<lparr>lg_loginPending := False, lg_busy := False\<rparr> in
      case r of
        Inr d \<Rightarrow> (go_home s, store_session h d w)
      | Inl err \<Rightarrow>
          (s\<lparr>lg_error := Some (if is_ApiError err then err_message err else ''Unable to reach the API server'')\<rparr>, w))"

definition loginReturnTarget :: "host \<Rightarrow> string" where
  "loginReturnTarget h = origin h @ ''/login''"

text \<open>\<open>startSSO\<close>: where the browser is sent; \<open>None\<close> when the base URL is unusable.\<close>

definition startSSO :: "host \<Rightarrow> console \<Rightarrow> string option" where
  "startSSO h w = map_option (\<lambda>b. b @ ''/auth/oidc/login?redirect='' @ encodeURIComponent (loginReturnTarget h))
     (fst (getApiBase h w))"

section \<open>The page as a state machine\<close>

datatype login_event =
    EvRender                          \<comment> \<open>the session effect runs\<close>
  | EvConfig fetch_result
  | EvSso fetch_result
  | EvUsername string
  | EvPassword string
  | EvToggleShow
  | EvSubmit
  | EvLogin fetch_result
  | EvUnmount

definition login_init :: "host \<Rightarrow> (string \<times> string) list \<Rightarrow> console \<Rightarrow> login_page" where
  "login_init h query w =
     sso_effect h (config_effect h (session_effect h
       (\<lparr>lg_config = None, lg_username = [], lg_password = [], lg_showPassword = False, lg_error = None,
         lg_busy = False, lg_exchanging = False, lg_mounted = True, lg_query = query, lg_nav = [],
         lg_sent = [], lg_configPending = False, lg_loginPending = False, lg_ssoPending = False\<rparr>, w)))"

inductive login_step :: "host \<Rightarrow> login_page \<Rightarrow> login_event \<Rightarrow> login_page \<Rightarrow> bool" for h where
  render: "lg_mounted s \<Longrightarrow> login_step h (s, w) EvRender (session_effect h (s, w))"
| config: "lg_configPending s \<Longrightarrow> login_step h (s, w) (EvConfig res) (config_answer h res (s, w))"
| sso: "lg_ssoPending s \<Longrightarrow> login_step h (s, w) (EvSso res) (sso_answer h res (s, w))"
| username: "lg_mounted s \<Longrightarrow> login_step h (s, w) (EvUsername v) (s\<lparr>lg_username := v\<rparr>, w)"
| password: "lg_mounted s \<Longrightarrow> login_step h (s, w) (EvPassword v) (s\<lparr>lg_password := v\<rparr>, w)"
| reveal: "lg_mounted s \<Longrightarrow> login_step h (s, w) EvToggleShow (s\<lparr>lg_showPassword := \<not> lg_showPassword s\<rparr>, w)"
| submit: "lg_mounted s \<Longrightarrow> login_step h (s, w) EvSubmit (onSubmit h (s, w))"
| login: "lg_loginPending s \<Longrightarrow> login_step h (s, w) (EvLogin res) (login_answer h res (s, w))"
| unmount: "lg_mounted s \<Longrightarrow> login_step h (s, w) EvUnmount (s\<lparr>lg_mounted := False\<rparr>, w)"

inductive_cases login_stepE: "login_step h pg ev pg'"

text \<open>The step as a function of the event.\<close>

definition login_next :: "host \<Rightarrow> login_event \<Rightarrow> login_page \<Rightarrow> login_page" where
  "login_next h ev pg =
     (case ev of
        EvRender \<Rightarrow> session_effect h pg
      | EvConfig res \<Rightarrow> config_answer h res pg
      | EvSso res \<Rightarrow> sso_answer h res pg
      | EvUsername v \<Rightarrow> ((fst pg)\<lparr>lg_username := v\<rparr>, snd pg)
      | EvPassword v \<Rightarrow> ((fst pg)\<lparr>lg_password := v\<rparr>, snd pg)
      | EvToggleShow \<Rightarrow> ((fst pg)\<lparr>lg_showPassword := \<not> lg_showPassword (fst pg)\<rparr>, snd pg)
      | EvSubmit \<Rightarrow> onSubmit h pg
      | EvLogin res \<Rightarrow> login_answer h res pg
      | EvUnmount \<Rightarrow> ((fst pg)\<lparr>lg_mounted := False\<rparr>, snd pg))"

inductive login_reach :: "host \<Rightarrow> (string \<times> string) list \<Rightarrow> console \<Rightarrow> login_event list \<Rightarrow> login_page \<Rightarrow> bool"
  for h query w where
  start: "login_reach h query w [] (login_init h query w)"
| step: "login_reach h query w evs pg \<Longrightarrow> login_step h pg ev pg' \<Longrightarrow> login_reach h query w (evs @ [ev]) pg'"

text \<open>
  An unbounded run of the page: its states and the events between them. The browser settles every
  request sooner or later, with an answer or a failure; \<open>login_settles\<close> says it of the login request.
\<close>

definition login_trace ::
  "host \<Rightarrow> (string \<times> string) list \<Rightarrow> console \<Rightarrow> (nat \<Rightarrow> login_page) \<Rightarrow> (nat \<Rightarrow> login_event) \<Rightarrow> bool" where
  "login_trace h query w pgs evs \<longleftrightarrow>
     pgs 0 = login_init h query w \<and> (\<forall>n. login_step h (pgs n) (evs n) (pgs (Suc n)))"

section \<open>View\<close>

definition Field :: "string \<Rightarrow> string \<Rightarrow> 'l node list \<Rightarrow> 'l node" where
  "Field i label children = el ''div'' [ela ''label'' [(''for'', i)] [Text label], el ''div'' children]"

definition ErrorNote :: "string \<Rightarrow> 'l node" where
  "ErrorNote message = ela ''div'' [(''role'', ''alert'')] [el ''span'' [Text message]]"

definition showOIDC :: "json option \<Rightarrow> bool" where
  "showOIDC config = truthy (opt_get config ''oidc'')"

definition passwordEnabled :: "json option \<Rightarrow> bool" where
  "passwordEnabled config = (if truthy config then truthy (opt_get config ''password'') else True)"

definition provider :: "json option \<Rightarrow> string" where
  "provider config =
     (let v = opt_get config ''provider'' in if truthy v then to_str (the v) else ''single sign-on'')"

definition submit_disabled :: "login_state \<Rightarrow> bool" where
  "submit_disabled s \<longleftrightarrow> lg_busy s \<or> lg_username s = [] \<or> lg_password s = []"

definition login_form :: "login_state \<Rightarrow> login_event node" where
  "login_form s =
     Elem ''form'' [] [OnSubmit [PreventDefault, Local EvSubmit]]
       [Field ''username'' ''Username''
          [Elem ''input'' [(''id'', ''username''), (''value'', lg_username s), (''placeholder'', ''admin'')]
             [OnChange (\<lambda>v. [Local (EvUsername v)])] []],
        Field ''password'' ''Password''
          [Elem ''input'' [(''id'', ''password''), (''type'', if lg_showPassword s then ''text'' else ''password''), (''value'', lg_password s)]
             [OnChange (\<lambda>v. [Local (EvPassword v)])] [],
           button [(''type'', ''button''), (''aria-label'', if lg_showPassword s then ''Hide password'' else ''Show password'')]
             [Local EvToggleShow] []],
        ela ''button''
          ([(''type'', ''submit''), (''variant'', if showOIDC (lg_config s) then ''outline'' else ''default'')]
           @ flag ''disabled'' (submit_disabled s))
          [Text (if lg_busy s then '' Signing in'' @ ellipsis else ''Sign in'')]]"

definition login_card :: "string option \<Rightarrow> login_state \<Rightarrow> login_event node" where
  "login_card ssoTarget s =
     (let oidc = showOIDC (lg_config s); pw = passwordEnabled (lg_config s); prov = provider (lg_config s) in
      if lg_exchanging s then el ''div'' [el ''p'' [Text (''Completing sign in'' @ ellipsis)]]
      else el ''div''
        ([el ''div''
            [el ''h1'' [Text ''Sign in''],
             el ''p'' [Text (if oidc \<and> \<not> pw then ''Continue with '' @ prov @ '' to access the console.''
                        else ''Authenticate to manage queues, workers and jobs.'')]]]
         @ cond (truthy_str (lg_error s)) (ErrorNote (the (lg_error s)))
         @ cond oidc
             (button ((''type'', ''button'') # flag ''disabled'' (lg_busy s))
                (cond_some ssoTarget SetLocation) [Text (''Continue with '' @ prov)])
         @ cond (oidc \<and> pw) (el ''div'' [el ''span'' [Text ''or'']])
         @ cond pw (login_form s)))"

definition LoginPage :: "host \<Rightarrow> string \<Rightarrow> console \<Rightarrow> login_state \<Rightarrow> login_event node" where
  "LoginPage h apiBase w s =
     el ''div''
       [el ''div'' [el ''div'' [Text ''ForgeQueue''], el ''div'' [Text ''Operational Console'']],
        el ''div''
          [login_card (startSSO h w) s,
           el ''div'' [ela ''span'' [(''title'', apiBase)] [Text (env_label apiBase)],
                       el ''span'' [Text (env_or (env_version h) ''dev'')]]],
        el ''p'' [Text (if showOIDC (lg_config s)
           then ''You'' @ [CHR 0x27] @ ''ll be redirected to '' @ provider (lg_config s) @ '' to sign in. Access is scoped by role.''
           else ''Credentials are configured on the API server. Access is scoped by role.'')]]"

section \<open>Root guard\<close>

datatype root_content = Blank | LoginOutlet | Redirecting | Shell

definition RootComponent :: "bool \<Rightarrow> string \<Rightarrow> json option \<Rightarrow> root_content" where
  "RootComponent mounted pathname sess =
     (if \<not> mounted then Blank
      else if pathname = ''/login'' then LoginOutlet
      else if \<not> truthy sess then Redirecting else Shell)"

text \<open>The effect of the redirect component.\<close>

definition redirect_effect :: "root_content \<Rightarrow> (string \<times> bool) list" where
  "redirect_effect c = (if c = Redirecting then [(''/login'', True)] else [])"

definition NotFoundComponent :: "'l node" where
  "NotFoundComponent =
     el ''div''
       [el ''h1'' [Text ''404''], el ''h2'' [Text ''Page not found''],
        el ''p'' [Text ''The page you're looking for doesn't exist or has been moved.''],
        link ''/'' [] [] [Text ''Go home'']]"

definition ErrorComponent :: "'l node" where
  "ErrorComponent =
     el ''div''
       [el ''h1'' [Text ''This page didn't load''],
        el ''p'' [Text ''Something went wrong on our end. You can try refreshing or head back home.''],
        button [] [RouterReset] [Text ''Try again''],
        Elem ''a'' [(''href'', ''/'')] [OnClick [SetLocation ''/'']] [Text ''Go home'']]"

definition root_head :: "(string \<times> string) list" where
  "root_head =
     [(''charSet'', ''utf-8''), (''viewport'', ''width=device-width, initial-scale=1''),
      (''title'', ''ForgeQueue Console''),
      (''description'', ''Operational console for the ForgeQueue distributed task queue.''),
      (''og:type'', ''website''), (''twitter:card'', ''summary'')]"

text \<open>The links of the page head; \<open>appCss\<close> is the address the build gives the style sheet.\<close>

definition root_links :: "string \<Rightarrow> (string \<times> string) list list" where
  "root_links appCss =
     [[(''rel'', ''stylesheet''), (''href'', appCss)],
      [(''rel'', ''icon''), (''href'', ''/favicon.svg''), (''type'', ''image/svg+xml'')],
      [(''rel'', ''preconnect''), (''href'', ''https://fonts.googleapis.com'')],
      [(''rel'', ''preconnect''), (''href'', ''https://fonts.gstatic.com''), (''crossOrigin'', ''anonymous'')],
      [(''rel'', ''stylesheet''),
       (''href'', ''https://fonts.googleapis.com/css2?family=Inter:wght@400;500;600&family=JetBrains+Mono:wght@400;500&display=swap'')]]"

definition RootShell :: "'l node list \<Rightarrow> 'l node" where
  "RootShell children =
     ela ''html'' [(''lang'', ''en''), (''class'', ''dark''), (''suppressHydrationWarning'', ''true'')]
       [el ''head'' [el ''HeadContent'' []], el ''body'' (children @ [el ''Scripts'' []])]"

text \<open>What the root component returns around its content.\<close>

definition root_providers :: "'l node list \<Rightarrow> 'l node" where
  "root_providers content =
     el ''QueryClientProvider''
       [ela ''TooltipProvider'' [(''delayDuration'', ''300'')]
          (content @
           [ela ''Toaster'' [(''position'', ''top-right''), (''richColors'', ''true''), (''closeButton'', ''true'')] []])]"

section \<open>Lemmas\<close>

fun is_login :: "api_call \<Rightarrow> bool" where
  "is_login (Login _ _) = True"
| "is_login _ = False"

fun is_exchange :: "api_call \<Rightarrow> bool" where
  "is_exchange (ExchangeOidc _) = True"
| "is_exchange _ = False"

fun is_login_answer :: "login_event \<Rightarrow> bool" where
  "is_login_answer (EvLogin _) = True"
| "is_login_answer _ = False"

text \<open>One login request in flight exactly while the form is busy.\<close>

definition flight_inv :: "login_event list \<Rightarrow> login_state \<Rightarrow> bool" where
  "flight_inv evs s \<longleftrightarrow> lg_busy s = lg_loginPending s \<and>
     length (filter is_login (lg_sent s)) = length (filter is_login_answer evs) + (if lg_busy s then 1 else 0)"

text \<open>A one-time code is exchanged at most once and does not stay in the address bar.\<close>

definition code_inv :: "login_state \<Rightarrow> bool" where
  "code_inv s \<longleftrightarrow> length (filter is_exchange (lg_sent s)) \<le> 1 \<and>
     (lg_ssoPending s \<or> (\<not> truthy_str (map_of (lg_query s) ''code'') \<and> \<not> truthy_str (map_of (lg_query s) ''error'')))"

lemma map_of_clean:
  "map_of (filter (\<lambda>(k, v). k \<noteq> ''code'' \<and> k \<noteq> ''error'') qs) k =
     (if k = ''code'' \<or> k = ''error'' then None else map_of qs k)"
  by (induction qs) auto

lemmas login_defs = session_effect_def config_effect_def config_answer_def sso_effect_def sso_answer_def
  onSubmit_def login_answer_def send_call_def clean_def go_home_def

lemma step_flight:
  "login_step h pg ev pg' \<Longrightarrow> flight_inv evs (fst pg) \<Longrightarrow> flight_inv (evs @ [ev]) (fst pg')"
  by (erule login_step.cases)
    (auto simp: flight_inv_def login_defs Let_def split_beta split: sum.splits)

lemma step_code: "login_step h pg ev pg' \<Longrightarrow> code_inv (fst pg) \<Longrightarrow> code_inv (fst pg')"
  by (erule login_step.cases)
    (auto simp: code_inv_def login_defs Let_def split_beta map_of_clean split: sum.splits)

lemma init_invs: "flight_inv [] (fst (login_init h q w))" "code_inv (fst (login_init h q w))"
  by (auto simp: login_init_def flight_inv_def code_inv_def login_defs Let_def split_beta map_of_clean)

lemma reach_invs:
  "login_reach h q w evs pg \<Longrightarrow> flight_inv evs (fst pg) \<and> code_inv (fst pg)"
  by (induction rule: login_reach.induct) (auto intro: step_flight step_code init_invs)

lemma settle_good:
  assumes "res_ok st" and "wf_json j"
  shows "settle h (Response st stx (stringify j)) w =
     (Inr (Some j), setConn Connected (Some (Some (date_now h))) None w)"
  using assms stringify_start [OF assms(2)]
  by (simp add: settle_def on_response_def parse_body_def json_parse_stringify)

definition login_settles :: "(nat \<Rightarrow> login_page) \<Rightarrow> (nat \<Rightarrow> login_event) \<Rightarrow> bool" where
  "login_settles pgs evs \<longleftrightarrow>
     (\<forall>n. lg_loginPending (fst (pgs n)) \<longrightarrow> (\<exists>m\<ge>n. is_login_answer (evs m)))"

lemma login_step_next: "login_step h pg ev pg' \<Longrightarrow> pg' = login_next h ev pg"
  by (erule login_step.cases) (simp_all add: login_next_def)

lemma answer_idles: "\<not> lg_busy (fst (login_answer h res pg))"
  by (simp add: login_answer_def Let_def split_beta go_home_def split: sum.splits)

lemma answer_event: "is_login_answer ev \<longleftrightarrow> (\<exists>res. ev = EvLogin res)"
  by (cases ev) simp_all

text \<open>While the answer is out the form stays busy and sends no second request.\<close>

lemma step_stays_busy:
  "login_step h pg ev pg' \<Longrightarrow> lg_busy (fst pg) \<Longrightarrow> \<not> is_login_answer ev \<Longrightarrow>
   lg_busy (fst pg') \<and> filter is_login (lg_sent (fst pg')) = filter is_login (lg_sent (fst pg))"
  by (erule login_step.cases) (auto simp: login_defs Let_def split_beta split: sum.splits)

lemma trace_reach:
  "login_trace h q w pgs evs \<Longrightarrow> login_reach h q w (map evs [0..<n]) (pgs n)"
  by (induction n) (auto simp: login_trace_def login_reach.start intro: login_reach.step)

lemma trace_stays_busy:
  assumes "login_trace h q w pgs evs" and "lg_busy (fst (pgs n))" and "\<forall>k. n \<le> k \<and> k < n + d \<longrightarrow> \<not> is_login_answer (evs k)"
  shows "lg_busy (fst (pgs (n + d)))
     \<and> filter is_login (lg_sent (fst (pgs (n + d)))) = filter is_login (lg_sent (fst (pgs n)))"
  using assms(3)
proof (induction d)
  case (Suc d)
  from assms(1) have "login_step h (pgs (n + d)) (evs (n + d)) (pgs (Suc (n + d)))"
    by (simp add: login_trace_def)
  from step_stays_busy [OF this] Suc show ?case by simp
qed (use assms(2) in simp)

section \<open>Properties\<close>

text \<open>
  However user input and answers interleave, the form never has two login requests in flight:
  the button shows ``Signing in'' exactly while one is, and pressing it again sends nothing.
\<close>

theorem login_single_flight:
  assumes "login_reach h q w evs pg"
  shows "lg_busy (fst pg) = lg_loginPending (fst pg)
     \<and> length (filter is_login (lg_sent (fst pg))) =
         length (filter is_login_answer evs) + (if lg_busy (fst pg) then 1 else 0)
     \<and> (lg_busy (fst pg) \<longrightarrow> onSubmit h pg = pg)"
  using reach_invs [OF assms] by (simp add: flight_inv_def onSubmit_def Let_def)

lemma sample_reach:
  "login_reach sample_host [] sample_console [EvSubmit] (onSubmit sample_host (login_init sample_host [] sample_console))"
proof -
  have "lg_mounted (fst (login_init h [] w))" for h w
    by (simp add: login_init_def login_defs Let_def split_beta)
  then have "login_step sample_host (login_init sample_host [] sample_console) EvSubmit
      (onSubmit sample_host (login_init sample_host [] sample_console))"
    using login_step.submit [of "fst (login_init sample_host [] sample_console)" sample_host
        "snd (login_init sample_host [] sample_console)"] by simp
  then show ?thesis using login_reach.step [OF login_reach.start] by fastforce
qed

theorem login_single_flight_witness:
  "length (filter is_login (lg_sent (fst (onSubmit sample_host (login_init sample_host [] sample_console))))) =
     (if lg_busy (fst (onSubmit sample_host (login_init sample_host [] sample_console))) then 1 else 0)"
  using login_single_flight [OF sample_reach] by simp

text \<open>
  Single sign-on codes are used once: in every reachable state at most one exchange has been
  sent, and once it has been answered, or an error was reported instead, the URL carries
  neither the code nor the error any more.
\<close>

theorem sso_code_once:
  assumes "login_reach h q w evs pg"
  shows "length (filter is_exchange (lg_sent (fst pg))) \<le> 1
     \<and> (\<not> lg_ssoPending (fst pg) \<longrightarrow>
          \<not> truthy_str (map_of (lg_query (fst pg)) ''code'') \<and> \<not> truthy_str (map_of (lg_query (fst pg)) ''error''))"
  using reach_invs [OF assms] by (auto simp: code_inv_def)

theorem sso_code_once_witness:
  "length (filter is_exchange (lg_sent (fst (login_init sample_host [(''code'', ''abc'')] sample_console)))) \<le> 1"
  using sso_code_once [OF login_reach.start [of sample_host "[(''code'', ''abc'')]" sample_console]] by blast

text \<open>
  A good login answer signs the user in: the session the server issued is in memory and in
  storage, the form is idle again, the browser goes to the overview without leaving the login
  page in its history, and the root guard then shows the application.
\<close>

theorem login_signs_in:
  assumes "res_ok st" and "available (c_storage w)"
    and "pg = login_answer h (Response st stx (stringify (session_json ss))) (s, w)"
  shows "a_state (c_auth (snd pg)) = Some (session_json ss)
     \<and> items (c_storage (snd pg)) AUTH_KEY = Some (stringify (session_json ss))
     \<and> \<not> lg_busy (fst pg) \<and> lg_nav (fst pg) = lg_nav s @ [(''/'', True)]
     \<and> RootComponent True ''/'' (a_state (c_auth (snd pg))) = Shell"
  using assms
  by (simp add: login_answer_def settle_good wf_session_json store_session_def Let_def go_home_def
      setSession_items RootComponent_def)

theorem login_signs_in_witness:
  "a_state (c_auth (snd (login_answer sample_host (Response 200 ''OK'' (stringify (session_json sample_session)))
     (login_init sample_host [] sample_console)))) = Some (session_json sample_session)"
proof -
  have "available (c_storage (snd (login_init sample_host [] sample_console)))" by code_simp
  moreover have "res_ok 200" by (simp add: res_ok_def)
  ultimately show ?thesis
    using login_signs_in [of 200 "snd (login_init sample_host [] sample_console)" _ sample_host "''OK''"
        sample_session "fst (login_init sample_host [] sample_console)"] by simp
qed

text \<open>
  A failed login loses nothing and grants nothing: what was typed stays, the page stays, the
  error shown is the server's message, or a fixed text when the server was not reached, and no
  session exists afterwards that did not exist before.
\<close>

theorem login_failure_safe:
  assumes "answer_error h res = Some err" and "pg = login_answer h res (s, w)"
  shows "lg_username (fst pg) = lg_username s \<and> lg_password (fst pg) = lg_password s \<and> lg_nav (fst pg) = lg_nav s
     \<and> lg_error (fst pg) = Some (if is_ApiError err then err_message err else ''Unable to reach the API server'')
     \<and> \<not> lg_busy (fst pg)
     \<and> (a_state (c_auth (snd pg)) = a_state (c_auth w) \<or> a_state (c_auth (snd pg)) = None)"
proof -
  have r: "fst (settle h res w) = Inl err" using assms(1) by (simp add: settle_result)
  have "a_state (c_auth (snd (settle h res w))) = a_state (c_auth w) \<or> a_state (c_auth (snd (settle h res w))) = None"
    by (auto simp: settle_def on_response_def split: fetch_result.splits sum.splits)
  then show ?thesis
    using assms(2) r by (simp add: login_answer_def split_beta Let_def)
qed

theorem login_failure_safe_witness:
  "lg_error (fst (login_answer sample_host (Rejected ''offline'') (login_init sample_host [] sample_console))) =
     Some ''Unable to reach the API server''"
  using login_failure_safe [of sample_host "Rejected ''offline''" "FetchErr ''offline''" _
      "fst (login_init sample_host [] sample_console)" "snd (login_init sample_host [] sample_console)"]
  by (simp add: answer_error_def)

text \<open>
  (C21) The form never hangs: in every run in which the browser settles each login request, with
  whatever answer or failure, a busy form becomes idle again, and until it does it stays busy and
  sends no further login request.
\<close>

theorem login_recovers:
  assumes "login_trace h q w pgs evs" and "login_settles pgs evs" and "lg_busy (fst (pgs n))"
  shows "\<exists>m>n. \<not> lg_busy (fst (pgs m)) \<and> (\<forall>k. n \<le> k \<and> k < m \<longrightarrow> lg_busy (fst (pgs k))
     \<and> filter is_login (lg_sent (fst (pgs k))) = filter is_login (lg_sent (fst (pgs n))))"
proof -
  have "lg_loginPending (fst (pgs n))"
    using reach_invs [OF trace_reach [OF assms(1)], of n] assms(3) by (simp add: flight_inv_def)
  then obtain m where m: "m \<ge> n" "is_login_answer (evs m)"
    using assms(2) by (auto simp: login_settles_def)
  define a where "a = (LEAST k. n \<le> k \<and> is_login_answer (evs k))"
  have a: "n \<le> a" "is_login_answer (evs a)"
    unfolding a_def using m by (metis (mono_tags, lifting) LeastI_ex)+
  have before: "\<not> is_login_answer (evs k)" if "n \<le> k" "k < a" for k
    using that not_less_Least [of k "\<lambda>k. n \<le> k \<and> is_login_answer (evs k)"] by (auto simp: a_def)
  have busy: "lg_busy (fst (pgs k)) \<and> filter is_login (lg_sent (fst (pgs k))) = filter is_login (lg_sent (fst (pgs n)))"
    if "n \<le> k" "k < Suc a" for k
    using trace_stays_busy [OF assms(1,3), of "k - n"] before that by simp
  obtain res where "evs a = EvLogin res" using a(2) by (auto simp: answer_event)
  moreover have "pgs (Suc a) = login_next h (evs a) (pgs a)"
    using assms(1) by (intro login_step_next) (simp add: login_trace_def)
  ultimately have "\<not> lg_busy (fst (pgs (Suc a)))" by (simp add: login_next_def answer_idles)
  moreover have "n < Suc a" using a(1) by simp
  ultimately show ?thesis using busy by blast
qed

text \<open>A run in which the login is submitted at once, the server does not answer it, and the page is then left alone.\<close>

definition lone_events :: "nat \<Rightarrow> login_event" where
  "lone_events n = (if n = 0 then EvSubmit else if n = 1 then EvLogin (Rejected ''offline'') else EvRender)"

primrec lone_pages :: "nat \<Rightarrow> login_page" where
  "lone_pages 0 = login_init sample_host [] sample_console"
| "lone_pages (Suc n) = login_next sample_host (lone_events n) (lone_pages n)"

lemma lone_mounted: "lg_mounted (fst (lone_pages n))"
  by (induction n)
    (auto simp: login_init_def lone_events_def login_next_def login_defs Let_def split_beta split: sum.splits)

lemma lone_pending: "lg_loginPending (fst (lone_pages n)) \<longleftrightarrow> n = 1"
proof (induction n)
  case 0
  show ?case by (simp add: login_init_def login_defs Let_def split_beta)
next
  case (Suc n)
  have busy: "lg_busy (fst (lone_pages 0)) = False"
    by (simp add: login_init_def login_defs Let_def split_beta)
  show ?case
  proof (cases "n = 0")
    case True
    then show ?thesis using busy by (simp add: lone_events_def login_next_def onSubmit_def send_call_def Let_def)
  next
    case False
    then show ?thesis using Suc
      by (auto simp: lone_events_def login_next_def session_effect_def login_answer_def go_home_def Let_def split_beta
          split: sum.splits)
  qed
qed

lemma lone_trace: "login_trace sample_host [] sample_console lone_pages lone_events"
proof -
  have "login_step sample_host (lone_pages n) (lone_events n) (lone_pages (Suc n))" for n
    using lone_mounted [of n] lone_pending [of n] login_step.intros [where h = sample_host and
        s = "fst (lone_pages n)" and w = "snd (lone_pages n)"]
    by (auto simp: lone_events_def login_next_def)
  then show ?thesis by (simp add: login_trace_def del: lone_pages.simps(2))
qed

theorem login_recovers_witness:
  "\<exists>m>1. \<not> lg_busy (fst (lone_pages m)) \<and> (\<forall>k. 1 \<le> k \<and> k < m \<longrightarrow> lg_busy (fst (lone_pages k))
     \<and> filter is_login (lg_sent (fst (lone_pages k))) = filter is_login (lg_sent (fst (lone_pages 1))))"
proof (rule login_recovers [OF lone_trace])
  show "login_settles lone_pages lone_events"
    by (auto simp: login_settles_def lone_pending lone_events_def)
  show "lg_busy (fst (lone_pages 1))"
    using reach_invs [OF trace_reach [OF lone_trace], of 1] lone_pending [of 1] by (simp add: flight_inv_def)
qed

end
