(* ===== verification/Data_Table.thy ===== *)
theory Data_Table
  imports Shared_View
begin

text \<open>
  The generic table of \<open>components/data-table.tsx\<close>: sorting, paging and selection of rows. The
  local state is \<open>table_state\<close>; \<open>table_action\<close> are its updates, which a page embeds into its own
  local updates with \<open>emb\<close>. A sort key is text or a number, as the columns declare it.
\<close>

datatype 'r sort_fn = SortStr "'r \<Rightarrow> string" | SortNum "'r \<Rightarrow> jsnum"

record ('r, 'l) column =
  co_key :: string
  co_header :: string
  co_cell :: "'r \<Rightarrow> 'l node list"
  co_sort :: "'r sort_fn option"
  co_className :: "string option"
  co_alignRight :: bool

datatype dir = Asc | Desc

record table_state =
  tb_sort :: "(string \<times> dir) option"
  tb_size :: nat
  tb_page :: nat

record ('r, 'l) table_props =
  tp_rows :: "'r list option"
  tp_columns :: "('r, 'l) column list"
  tp_getId :: "'r \<Rightarrow> string"
  tp_selected :: "string jsset option"
  tp_onSelectedChange :: "(string jsset \<Rightarrow> 'l eff list) option"
  tp_onRowClick :: "('r \<Rightarrow> 'l eff list) option"
  tp_rowClassName :: "('r \<Rightarrow> string option) option"
  tp_pageSizes :: "nat list"
  tp_emptyTitle :: string
  tp_emptyDescription :: "string option"
  tp_defaultSort :: "(string \<times> dir) option"
  tp_maxHeight :: string

text \<open>The props a caller leaves out.\<close>

definition table_defaults :: "'r list option \<Rightarrow> ('r, 'l) column list \<Rightarrow> ('r \<Rightarrow> string) \<Rightarrow> ('r, 'l) table_props" where
  "table_defaults rows columns getId =
     \<lparr>tp_rows = rows, tp_columns = columns, tp_getId = getId, tp_selected = None,
      tp_onSelectedChange = None, tp_onRowClick = None, tp_rowClassName = None,
      tp_pageSizes = [25, 50, 100], tp_emptyTitle = ''No rows'', tp_emptyDescription = None,
      tp_defaultSort = None, tp_maxHeight = ''70vh''\<rparr>"

definition col :: "string \<Rightarrow> string \<Rightarrow> 'r sort_fn option \<Rightarrow> ('r \<Rightarrow> 'l node list) \<Rightarrow> ('r, 'l) column" where
  "col key header srt cell = \<lparr>co_key = key, co_header = header, co_cell = cell, co_sort = srt,
     co_className = None, co_alignRight = False\<rparr>"

definition col_right :: "string \<Rightarrow> string \<Rightarrow> 'r sort_fn option \<Rightarrow> ('r \<Rightarrow> 'l node list) \<Rightarrow> ('r, 'l) column" where
  "col_right key header srt cell = (col key header srt cell)\<lparr>co_alignRight := True\<rparr>"

definition first_size :: "nat list \<Rightarrow> nat" where
  "first_size sizes = (case sizes of [] \<Rightarrow> 25 | s # _ \<Rightarrow> s)"

definition table_init :: "('r, 'l) table_props \<Rightarrow> table_state" where
  "table_init tp = \<lparr>tb_sort = tp_defaultSort tp, tb_size = first_size (tp_pageSizes tp), tb_page = 0\<rparr>"

datatype table_action = SetSort string | SetSize nat | SetPage nat

definition toggle_dir :: "(string \<times> dir) option \<Rightarrow> string \<Rightarrow> string \<times> dir" where
  "toggle_dir s key = (key, if s = Some (key, Desc) then Asc else Desc)"

text \<open>The size selector also returns to the first page.\<close>

fun table_update :: "table_action \<Rightarrow> table_state \<Rightarrow> table_state" where
  "table_update (SetSort key) st = st\<lparr>tb_sort := Some (toggle_dir (tb_sort st) key)\<rparr>"
| "table_update (SetSize n) st = st\<lparr>tb_size := n, tb_page := 0\<rparr>"
| "table_update (SetPage p) st = st\<lparr>tb_page := p\<rparr>"

section \<open>Sorting and paging\<close>

text \<open>\<open>x < y ? -1 : x > y ? 1 : 0\<close>; every comparison with \<open>NaN\<close> is false.\<close>

definition key_cmp :: "'r sort_fn \<Rightarrow> 'r \<Rightarrow> 'r \<Rightarrow> int" where
  "key_cmp f a b =
     (case f of
        SortStr g \<Rightarrow> str_cmp (g a) (g b)
      | SortNum g \<Rightarrow> if num_lt (g a) (g b) then -1 else if num_lt (g b) (g a) then 1 else 0)"

definition row_cmp :: "'r sort_fn \<Rightarrow> dir \<Rightarrow> 'r \<Rightarrow> 'r \<Rightarrow> int" where
  "row_cmp f d a b = (if d = Asc then key_cmp f a b else - key_cmp f a b)"

definition find_col :: "('r, 'l) column list \<Rightarrow> string \<Rightarrow> ('r, 'l) column option" where
  "find_col columns key = find (\<lambda>c. co_key c = key) columns"

definition sorted_rows :: "('r, 'l) table_props \<Rightarrow> table_state \<Rightarrow> 'r list" where
  "sorted_rows tp st =
     (case tp_rows tp of
        None \<Rightarrow> []
      | Some rows \<Rightarrow>
          (case tb_sort st of
             None \<Rightarrow> rows
           | Some (key, d) \<Rightarrow>
               (case Option.bind (find_col (tp_columns tp) key) co_sort of
                  None \<Rightarrow> rows
                | Some f \<Rightarrow> js_sort (row_cmp f d) rows)))"

definition ceil_div :: "nat \<Rightarrow> nat \<Rightarrow> nat" where
  "ceil_div n k = (n + k - 1) div k"

definition page_count :: "('r, 'l) table_props \<Rightarrow> table_state \<Rightarrow> nat" where
  "page_count tp st = max 1 (ceil_div (length (sorted_rows tp st)) (tb_size st))"

definition cur_page :: "('r, 'l) table_props \<Rightarrow> table_state \<Rightarrow> nat" where
  "cur_page tp st = min (tb_page st) (page_count tp st - 1)"

definition page_rows :: "nat \<Rightarrow> nat \<Rightarrow> 'r list \<Rightarrow> 'r list" where
  "page_rows sz p rows = take sz (drop (p * sz) rows)"

definition view_rows :: "('r, 'l) table_props \<Rightarrow> table_state \<Rightarrow> 'r list" where
  "view_rows tp st = page_rows (tb_size st) (cur_page tp st) (sorted_rows tp st)"

section \<open>Selection\<close>

definition sel_of :: "('r, 'l) table_props \<Rightarrow> string jsset" where
  "sel_of tp = nullish (tp_selected tp) []"

definition selectable :: "('r, 'l) table_props \<Rightarrow> bool" where
  "selectable tp \<longleftrightarrow> tp_onSelectedChange tp \<noteq> None \<and> tp_selected tp \<noteq> None"

definition allOnPage :: "('r, 'l) table_props \<Rightarrow> table_state \<Rightarrow> bool" where
  "allOnPage tp st \<longleftrightarrow> view_rows tp st \<noteq> [] \<and>
     list_all (\<lambda>r. tp_selected tp \<noteq> None \<and> set_has (sel_of tp) (tp_getId tp r)) (view_rows tp st)"

definition toggle_sel :: "string jsset \<Rightarrow> string \<Rightarrow> string jsset" where
  "toggle_sel s i = (if set_has s i then set_delete s i else set_add s i)"

definition toggle_page :: "('r, 'l) table_props \<Rightarrow> table_state \<Rightarrow> bool \<Rightarrow> string jsset" where
  "toggle_page tp st v =
     foldl (\<lambda>s r. if v then set_add s (tp_getId tp r) else set_delete s (tp_getId tp r))
       (sel_of tp) (view_rows tp st)"

section \<open>The component\<close>

definition sort_header :: "('r, 'l) column \<Rightarrow> table_state \<Rightarrow> (table_action \<Rightarrow> 'l) \<Rightarrow> 'l node" where
  "sort_header c st emb =
     ela ''th''
       ((''scope'', ''col'') #
        cls (join_with '' '' (cond (co_alignRight c) ''text-right'' @ cond_some (co_className c) id)) @
        (case tb_sort st of
           Some (k, d) \<Rightarrow> if k = co_key c then [(''aria-sort'', if d = Asc then ''ascending'' else ''descending'')] else []
         | None \<Rightarrow> []))
       [if co_sort c \<noteq> None
        then button [(''type'', ''button'')] [Local (emb (SetSort (co_key c)))]
          (Text (co_header c) #
           (case tb_sort st of
              Some (k, d) \<Rightarrow> cond (k = co_key c) (el (if d = Asc then ''ArrowUp'' else ''ArrowDown'') [])
            | None \<Rightarrow> []))
        else Text (co_header c)]"

definition table_head :: "('r, 'l) table_props \<Rightarrow> table_state \<Rightarrow> (table_action \<Rightarrow> 'l) \<Rightarrow> 'l node" where
  "table_head tp st emb =
     el ''thead''
       [el ''tr''
          (cond (selectable tp)
             (el ''th''
                [Elem ''Checkbox'' ((''aria-label'', ''Select all on page'') # flag ''checked'' (allOnPage tp st))
                   [OnCheckedChange (\<lambda>v. the (tp_onSelectedChange tp) (toggle_page tp st v))] []])
           @ map (\<lambda>c. sort_header c st emb) (tp_columns tp))]"

definition table_row :: "('r, 'l) table_props \<Rightarrow> 'r \<Rightarrow> 'l node" where
  "table_row tp r =
     (let i = tp_getId tp r in
      Elem ''tr''
        ((''key'', i) #
         cls (join_with '' ''
           (cond (tp_onRowClick tp \<noteq> None) ''cursor-pointer''
            @ cond (tp_selected tp \<noteq> None \<and> set_has (sel_of tp) i) ''bg-accent/60''
            @ (case tp_rowClassName tp of None \<Rightarrow> [] | Some f \<Rightarrow> cond_some (f r) id))))
        (cond_some (tp_onRowClick tp) (\<lambda>f. OnClick (f r)))
        (cond (selectable tp)
           (Elem ''td'' [] [OnClick [StopPropagation]]
              [Elem ''Checkbox'' ((''aria-label'', ''Select '' @ i) # flag ''checked'' (set_has (sel_of tp) i))
                 [OnCheckedChange (\<lambda>_. the (tp_onSelectedChange tp) (toggle_sel (sel_of tp) i))] []])
         @ map (\<lambda>c. ela ''td''
             (cls (join_with '' '' (cond (co_alignRight c) ''text-right'' @ cond_some (co_className c) id)))
             (co_cell c r)) (tp_columns tp)))"

definition table_body :: "('r, 'l) table_props \<Rightarrow> table_state \<Rightarrow> 'l node" where
  "table_body tp st =
     el ''tbody''
       (if tp_rows tp = None
        then replicate 6 (el ''tr'' [ela ''td''
               [(''colSpan'', nat_str (length (tp_columns tp) + (if selectable tp then 1 else 0)))] [el ''div'' []]])
        else map (table_row tp) (view_rows tp st))"

definition en_dash :: string where
  "en_dash = [CHR 0xE2, CHR 0x80, CHR 0x93]"

definition pager :: "('r, 'l) table_props \<Rightarrow> table_state \<Rightarrow> (table_action \<Rightarrow> 'l) \<Rightarrow> 'l node" where
  "pager tp st emb =
     (let p = cur_page tp st; sz = tb_size st; n = length (sorted_rows tp st) in
      el ''div''
        [el ''label''
           [Text ''Rows'',
            Elem ''select'' [(''value'', nat_str sz)] [OnChange (\<lambda>v. [Local (emb (SetSize (digits_val v)))])]
              (map (\<lambda>s. el ''option'' [Text (nat_str s)]) (tp_pageSizes tp))],
         el ''span'' [Text (nat_str (p * sz + 1) @ en_dash @ nat_str (min n ((p + 1) * sz)) @ '' of '' @ nat_str n)],
         button ((''aria-label'', ''Previous page'') # flag ''disabled'' (p = 0))
           [Local (emb (SetPage (p - 1)))] [el ''ChevronLeft'' []],
         button ((''aria-label'', ''Next page'') # flag ''disabled'' (page_count tp st - 1 \<le> p))
           [Local (emb (SetPage (p + 1)))] [el ''ChevronRight'' []]])"

definition DataTable :: "ctx \<Rightarrow> ('r, 'l) table_props \<Rightarrow> table_state \<Rightarrow> (table_action \<Rightarrow> 'l) \<Rightarrow> 'l node" where
  "DataTable cx tp st emb =
     el ''div''
       (ela ''div''
          [(''max-height'', tp_maxHeight tp),
           (''--cell-py'', if p_density (cx_prefs cx) = Compact then ''0.3rem'' else ''0.55rem'')]
          (el ''table'' [table_head tp st emb, table_body tp st]
           # cond (tp_rows tp = Some []) (EmptyState (tp_emptyTitle tp) (tp_emptyDescription tp)))
        # (case tp_rows tp of
             None \<Rightarrow> []
           | Some rows \<Rightarrow> cond (length rows > first_size (tp_pageSizes tp)) (pager tp st emb)))"

section \<open>Lemmas\<close>

subsection \<open>The comparators are consistent\<close>

lemma consistent_row_cmp:
  assumes "consistent_comparator (key_cmp f)"
  shows "consistent_comparator (row_cmp f d)"
proof -
  have swap: "(key_cmp f x y \<le> 0) = (0 \<le> key_cmp f y x)"
    and tr: "key_cmp f x y \<le> 0 \<Longrightarrow> key_cmp f y z \<le> 0 \<Longrightarrow> key_cmp f x z \<le> 0" for x y z
    using assms unfolding consistent_comparator_def by blast+
  have tr': "0 \<le> key_cmp f x y \<Longrightarrow> 0 \<le> key_cmp f y z \<Longrightarrow> 0 \<le> key_cmp f x z" for x y z
    using tr [of z y x] swap by blast
  show ?thesis
    by unfold_locales (auto simp: row_cmp_def swap intro: tr')
qed

lemma consistent_text: "consistent_comparator (key_cmp (SortStr g))"
proof
  show "(key_cmp (SortStr g) x y \<le> 0) = (0 \<le> key_cmp (SortStr g) y x)" for x y
    by (simp add: key_cmp_def string_sort.cmp_swap)
  show "key_cmp (SortStr g) x y \<le> 0 \<Longrightarrow> key_cmp (SortStr g) y z \<le> 0 \<Longrightarrow> key_cmp (SortStr g) x z \<le> 0" for x y z
    using string_sort.cmp_trans [of "g x" "g y" "g z"] by (simp add: key_cmp_def)
qed

interpretation text_column: consistent_comparator "row_cmp (SortStr g) d" for g d
  by (rule consistent_row_cmp) (rule consistent_text)

fun num_or_0 :: "jsnum \<Rightarrow> int" where
  "num_or_0 (Num n) = n"
| "num_or_0 NaN = 0"

lemma consistent_number: "consistent_comparator (key_cmp (SortNum (\<lambda>r. Num (g r))))"
  by unfold_locales (auto simp: key_cmp_def split: if_splits)

interpretation number_column: consistent_comparator "row_cmp (SortNum (\<lambda>r. Num (g r))) d" for g d
  by (rule consistent_row_cmp) (rule consistent_number)

text \<open>A key that is a number on the rows at hand; text always is usable.\<close>

fun usable_key :: "'r sort_fn \<Rightarrow> 'r \<Rightarrow> bool" where
  "usable_key (SortStr g) r = True"
| "usable_key (SortNum g) r = is_finite_num (g r)"

text \<open>On rows with usable keys the sort is that of a consistent comparator.\<close>

lemma sort_insert_cong:
  "(\<And>y. y \<in> set ys \<Longrightarrow> cmp x y = cmp' x y) \<Longrightarrow> sort_insert cmp x ys = sort_insert cmp' x ys"
  by (induction ys) auto

lemma js_sort_cong:
  "(\<And>x y. x \<in> set xs \<Longrightarrow> y \<in> set xs \<Longrightarrow> cmp x y = cmp' x y) \<Longrightarrow> js_sort cmp xs = js_sort cmp' xs"
proof (induction xs)
  case (Cons x xs)
  then have "js_sort cmp xs = js_sort cmp' xs" by simp
  moreover have "sort_insert cmp x (js_sort cmp' xs) = sort_insert cmp' x (js_sort cmp' xs)"
    by (rule sort_insert_cong) (simp add: Cons.prems)
  ultimately show ?case by (simp add: js_sort_Cons)
qed simp

definition total_key :: "'r sort_fn \<Rightarrow> 'r sort_fn" where
  "total_key f = (case f of SortStr g \<Rightarrow> f | SortNum g \<Rightarrow> SortNum (\<lambda>r. Num (num_or_0 (g r))))"

lemma consistent_total_key: "consistent_comparator (row_cmp (total_key f) d)"
  by (cases f) (simp_all add: total_key_def text_column.consistent_comparator_axioms
      number_column.consistent_comparator_axioms)

lemma row_cmp_total_key:
  "usable_key f a \<Longrightarrow> usable_key f b \<Longrightarrow> row_cmp (total_key f) d a b = row_cmp f d a b"
proof (cases f)
  case (SortNum g)
  assume "usable_key f a" "usable_key f b"
  then show ?thesis
    using SortNum by (cases "g a"; cases "g b") (simp_all add: row_cmp_def key_cmp_def total_key_def)
qed (simp add: total_key_def)

lemma sorted_rows_perm: "mset (sorted_rows tp st) = mset (nullish (tp_rows tp) [])"
  by (auto simp: sorted_rows_def split: option.splits)

lemma length_sorted_rows: "length (sorted_rows tp st) = length (nullish (tp_rows tp) [])"
  by (metis size_mset sorted_rows_perm)

subsection \<open>Pages\<close>

lemma concat_page_rows:
  "concat (map (\<lambda>p. page_rows k p xs) [0..<n]) = take (n * k) xs"
  by (induction n) (auto simp: page_rows_def take_add [symmetric] add.commute)

lemma ceil_div_covers: "0 < k \<Longrightarrow> n \<le> max 1 (ceil_div n k) * k"
proof -
  assume k: "0 < k"
  have "n + k - 1 < ceil_div n k * k + k"
    using k dividend_less_div_times [of k "n + k - 1"] by (simp add: ceil_div_def)
  then have "n \<le> ceil_div n k * k" using k by linarith
  also have "\<dots> \<le> max 1 (ceil_div n k) * k" by simp
  finally show ?thesis .
qed

lemma page_count_pos [simp]: "0 < page_count tp st"
  by (simp add: page_count_def)

lemma cur_page_less: "cur_page tp st < page_count tp st"
  using page_count_pos [of tp st] unfolding cur_page_def by linarith

lemma sort_ignores_page [simp]:
  "sorted_rows tp (st\<lparr>tb_page := p\<rparr>) = sorted_rows tp st" "page_count tp (st\<lparr>tb_page := p\<rparr>) = page_count tp st"
  by (simp_all add: sorted_rows_def page_count_def cong: option.case_cong)

lemma view_of_page:
  "p < page_count tp st \<Longrightarrow> view_rows tp (st\<lparr>tb_page := p\<rparr>) = page_rows (tb_size st) p (sorted_rows tp st)"
  by (simp add: view_rows_def cur_page_def min_absorb1)

subsection \<open>Selection\<close>

lemma set_toggle_page:
  "set (toggle_page tp st v) =
     (if v then set (sel_of tp) \<union> tp_getId tp ` set (view_rows tp st)
      else set (sel_of tp) - tp_getId tp ` set (view_rows tp st))"
proof -
  have "set (foldl (\<lambda>s r. if v then set_add s (f r) else set_delete s (f r)) s xs) =
      (if v then set s \<union> f ` set xs else set s - f ` set xs)" for s xs and f :: "'r \<Rightarrow> string"
    by (induction xs arbitrary: s) auto
  from this [of "tp_getId tp" "sel_of tp" "view_rows tp st"] show ?thesis unfolding toggle_page_def .
qed

lemma distinct_toggle_sel: "distinct s \<Longrightarrow> distinct (toggle_sel s i)"
  by (simp add: toggle_sel_def)

lemma toggle_sel_twice: "set (toggle_sel (toggle_sel s i) i) = set s"
  by (auto simp: toggle_sel_def)

subsection \<open>Effects of a table\<close>

lemma view_rows_mem: "r \<in> set (view_rows tp st) \<Longrightarrow> r \<in> set (nullish (tp_rows tp) [])"
  using sorted_rows_perm [of tp st] set_take_subset set_drop_subset
  by (metis (no_types, lifting) in_mono mset_eq_setD page_rows_def view_rows_def)

text \<open>A table does what its cells, row handler and selection handler do.\<close>

lemma DataTable_effs:
  assumes h: "harmless P"
    and "\<And>c r. c \<in> set (tp_columns tp) \<Longrightarrow> r \<in> set (nullish (tp_rows tp) []) \<Longrightarrow>
             list_all (all_effs P Q) (co_cell c r)"
    and "\<And>f s. tp_onSelectedChange tp = Some f \<Longrightarrow> list_all P (f s)"
    and "\<And>f r. tp_onRowClick tp = Some f \<Longrightarrow> r \<in> set (nullish (tp_rows tp) []) \<Longrightarrow> list_all P (f r)"
  shows "all_effs P Q (DataTable cx tp st emb)"
proof -
  have hd: "all_effs P Q (table_head tp st emb)"
    using assms(1,3) by (auto simp: table_head_def sort_header_def selectable_def list_all_iff cond_def split: option.splits)
  have row: "all_effs P Q (table_row tp r)" if "r \<in> set (view_rows tp st)" for r
    using assms view_rows_mem [OF that]
    by (cases "tp_onRowClick tp") (auto simp: table_row_def selectable_def Let_def list_all_iff cond_def)
  have "all_effs P Q (table_body tp st)"
    using row by (auto simp: table_body_def list_all_iff)
  with hd h show ?thesis
    by (auto simp: DataTable_def pager_def Let_def list_all_iff split: option.splits)
qed

section \<open>Properties\<close>

text \<open>
  (C17) Paging loses and repeats nothing: whatever the sort and the page size, the pages from first to
  last, one after the other, are the sorted rows, which are a permutation of the rows given; and
  the page shown is always one of them.
\<close>

theorem pages_partition:
  assumes "0 < tb_size st"
  shows "concat (map (\<lambda>p. view_rows tp (st\<lparr>tb_page := p\<rparr>)) [0..<page_count tp st]) = sorted_rows tp st
     \<and> mset (sorted_rows tp st) = mset (nullish (tp_rows tp) []) \<and> cur_page tp st < page_count tp st"
proof -
  have "map (\<lambda>p. view_rows tp (st\<lparr>tb_page := p\<rparr>)) [0..<page_count tp st] =
      map (\<lambda>p. page_rows (tb_size st) p (sorted_rows tp st)) [0..<page_count tp st]"
    by (simp add: view_of_page)
  moreover have "take (page_count tp st * tb_size st) (sorted_rows tp st) = sorted_rows tp st"
    using ceil_div_covers [OF assms, of "length (sorted_rows tp st)"] by (simp add: page_count_def)
  ultimately have "concat (map (\<lambda>p. view_rows tp (st\<lparr>tb_page := p\<rparr>)) [0..<page_count tp st]) = sorted_rows tp st"
    by (simp only: concat_page_rows)
  then show ?thesis by (simp add: sorted_rows_perm cur_page_less)
qed

definition sample_table :: "(int, unit) table_props" where
  "sample_table = table_defaults (Some [3, 1, 2]) [col ''n'' ''N'' (Some (SortNum Num)) (\<lambda>n. [Text (int_str n)])] int_str"

definition sample_table_state :: table_state where
  "sample_table_state = \<lparr>tb_sort = Some (''n'', Desc), tb_size = 2, tb_page = 0\<rparr>"

theorem pages_partition_witness:
  "concat (map (\<lambda>p. view_rows sample_table (sample_table_state\<lparr>tb_page := p\<rparr>)) [0..<page_count sample_table sample_table_state])
     = sorted_rows sample_table sample_table_state"
  using pages_partition [of sample_table_state sample_table] by (simp add: sample_table_state_def)

text \<open>
  Sorting by a column orders the rows by its key in the chosen direction and is stable: rows
  with equal keys keep the order they came in. The keys must be comparable, which a number that
  is \<open>NaN\<close> (an unparsable timestamp) is not.
\<close>

theorem column_sort_stable:
  assumes "tb_sort st = Some (key, d)" and "find_col (tp_columns tp) key = Some c" and "co_sort c = Some f"
    and "tp_rows tp = Some rows" and "list_all (usable_key f) rows" and "usable_key f k"
  shows "sorted_wrt (\<lambda>a b. row_cmp f d a b \<le> 0) (sorted_rows tp st)
     \<and> filter (\<lambda>r. row_cmp f d k r = 0) (sorted_rows tp st) = filter (\<lambda>r. row_cmp f d k r = 0) rows"
proof -
  let ?g = "row_cmp (total_key f) d"
  have eq: "row_cmp f d x y = ?g x y" if "usable_key f x" "usable_key f y" for x y
    using row_cmp_total_key [OF that] by simp
  have srt: "sorted_rows tp st = js_sort ?g rows"
    using assms js_sort_cong [of rows "row_cmp f d" ?g] eq by (simp add: sorted_rows_def list_all_iff)
  have ok: "usable_key f r" if "r \<in> set rows" for r using that assms(5) by (simp add: list_all_iff)
  have "sorted_wrt (\<lambda>a b. ?g a b \<le> 0) (js_sort ?g rows)"
    by (rule consistent_comparator.sorted_js_sort [OF consistent_total_key])
  then have "sorted_wrt (\<lambda>a b. row_cmp f d a b \<le> 0) (js_sort ?g rows)"
    by (rule sorted_wrt_mono_rel [rotated]) (simp add: eq ok)
  moreover have "filter (\<lambda>r. row_cmp f d k r = 0) xs = filter (\<lambda>r. ?g k r = 0) xs" if "set xs \<subseteq> set rows" for xs
    using that assms(6) eq ok by (intro filter_cong) auto
  ultimately show ?thesis
    using consistent_comparator.js_sort_stable [OF consistent_total_key, of f d k rows] srt by simp
qed

theorem column_sort_stable_witness:
  "sorted_wrt (\<lambda>a b. row_cmp (SortNum Num) Desc a b \<le> 0) (sorted_rows sample_table sample_table_state)
   \<and> filter (\<lambda>r. row_cmp (SortNum Num) Desc 1 r = 0) (sorted_rows sample_table sample_table_state) = [1]"
  using column_sort_stable [of sample_table_state "''n''" Desc sample_table
      "col ''n'' ''N'' (Some (SortNum Num)) (\<lambda>n. [Text (int_str n)])" "SortNum Num" "[3, 1, 2]" 1]
  by (simp add: sample_table_state_def sample_table_def table_defaults_def find_col_def col_def row_cmp_def key_cmp_def)

text \<open>
  Selecting is local to the page and exact: the header box adds or removes precisely the rows
  shown, leaving the selection on other pages alone, and after it the box shows the state asked
  for; a row box flips that row only; and clicking a box never counts as a click on the row.
\<close>

theorem selection_exact:
  assumes "selectable tp"
  shows "set (toggle_page tp st v) =
       (if v then set (sel_of tp) \<union> tp_getId tp ` set (view_rows tp st)
        else set (sel_of tp) - tp_getId tp ` set (view_rows tp st))
     \<and> (view_rows tp st \<noteq> [] \<longrightarrow> allOnPage (tp\<lparr>tp_selected := Some (toggle_page tp st v)\<rparr>) st = v)
     \<and> set (toggle_sel (sel_of tp) i) = (if i \<in> set (sel_of tp) then set (sel_of tp) - {i} else insert i (set (sel_of tp)))
     \<and> click (table_row tp r) [0, 0] = [StopPropagation]"
proof -
  have view: "view_rows (tp\<lparr>tp_selected := s\<rparr>) st = view_rows tp st" for s
    by (simp add: view_rows_def sorted_rows_def cur_page_def page_count_def cong: option.case_cong prod.case_cong)
  have "allOnPage (tp\<lparr>tp_selected := Some (toggle_page tp st v)\<rparr>) st = v" if "view_rows tp st \<noteq> []"
    using that by (cases "view_rows tp st") (auto simp: allOnPage_def view sel_of_def list_all_iff set_toggle_page)
  moreover have "click (table_row tp r) [0, 0] = [StopPropagation]"
    using assms by (auto simp: table_row_def Let_def click_effs_def stopped_def is_disabled_def cls_def flag_def)
  ultimately show ?thesis
    by (auto simp: set_toggle_page toggle_sel_def)
qed

definition sample_sel_table :: "(int, string jsset) table_props" where
  "sample_sel_table = (table_defaults (Some [3, 1, 2]) [] int_str)\<lparr>tp_selected := Some [''9''],
     tp_onSelectedChange := Some (\<lambda>s. [Local s]), tp_onRowClick := Some (\<lambda>r. [Navigate ''/x'' False])\<rparr>"

theorem selection_exact_witness:
  "set (toggle_page sample_sel_table sample_table_state True) =
     insert ''9'' (int_str ` set (view_rows sample_sel_table sample_table_state))
   \<and> click (table_row sample_sel_table 3) [0, 0] = [StopPropagation]"
  using selection_exact [of sample_sel_table sample_table_state True "''9''" 3]
  by (simp add: sample_sel_table_def table_defaults_def selectable_def sel_of_def)

end
