(* ===== verification/Job_Tables.thy ===== *)
theory Job_Tables
  imports Data_Table
begin

text \<open>
  The job tables of \<open>components/job-tables.tsx\<close>: the bulk action bar, the table of jobs with its
  selection, and the table of delayed jobs. \<open>JSX\<close> text and the texts of dialogs are as in the code;
  \<open>emb\<close> embeds the updates of the component's state into those of the page.
\<close>

definition BulkBar :: "nat \<Rightarrow> 'l node list \<Rightarrow> 'l eff list \<Rightarrow> 'l node list" where
  "BulkBar cnt children onClear =
     (if cnt = 0 then []
      else [el ''div'' ([el ''span'' [Text (nat_str cnt @ '' selected'')]] @ children
              @ [button [] onClear [Text ''Clear'']])])"

definition confirm :: "string \<Rightarrow> string \<Rightarrow> string \<Rightarrow> bool \<Rightarrow> string option \<Rightarrow> confirm_props" where
  "confirm title description confirmLabel destructive typeToConfirm =
     \<lparr>cp_title = title, cp_description = description, cp_confirmLabel = confirmLabel,
      cp_destructive = destructive, cp_typeToConfirm = typeToConfirm\<rparr>"

text \<open>A button that only opens a dialog: \<open>AlertDialogTrigger asChild\<close>.\<close>

definition trigger :: "string \<Rightarrow> 'l node" where
  "trigger label = ela ''button'' [] [Text label]"

section \<open>Jobs\<close>

record jobs_state =
  jt_sel :: "string jsset"
  jt_table :: table_state

datatype jobs_action = JtSel "string jsset" | JtTable table_action

fun jobs_update :: "jobs_action \<Rightarrow> jobs_state \<Rightarrow> jobs_state" where
  "jobs_update (JtSel s) st = st\<lparr>jt_sel := s\<rparr>"
| "jobs_update (JtTable a) st = st\<lparr>jt_table := table_update a (jt_table st)\<rparr>"

definition jobs_retry :: "string list \<Rightarrow> mutation" where
  "jobs_retry = useBulk RetryJob ''Retried''"

definition jobs_del :: "string list \<Rightarrow> mutation" where
  "jobs_del = useBulk DeleteJob ''Deleted''"

definition jobs_bulk :: "ctx \<Rightarrow> jobs_state \<Rightarrow> (jobs_action \<Rightarrow> 'l) \<Rightarrow> 'l node list" where
  "jobs_bulk cx st emb =
     (let n = nat_str (length (jt_sel st)); clear = Local (emb (JtSel [])) in
      BulkBar (length (jt_sel st))
        (Can cx ''jobs:write''
           [button [] [Mutate (jobs_retry (jt_sel st)) [], clear] [Text '' Retry''],
            ConfirmDialog
              (confirm (''Delete '' @ n @ '' jobs?'')
                 (''This permanently removes '' @ n @ '' jobs from Redis and PostgreSQL. This cannot be undone.'')
                 (''Delete '' @ n @ '' jobs'') True None)
              (trigger '' Delete'') [Mutate (jobs_del (jt_sel st)) [], clear]])
        [clear])"

text \<open>\<open>["failed", "retrying", "cancelled"].includes(j.status)\<close>.\<close>

definition retryable :: "job_status \<Rightarrow> bool" where
  "retryable s = List.member [''failed'', ''retrying'', ''cancelled''] (job_status_str s)"

definition jobs_columns :: "ctx \<Rightarrow> bool \<Rightarrow> (job, 'l) column list" where
  "jobs_columns cx showQueue =
     [col ''id'' ''Job ID'' None (\<lambda>j. [JobId (j_id j) False True])]
     @ cond showQueue (col ''queue'' ''Queue'' (Some (SortStr j_queue)) (\<lambda>j. [Mono [Text (j_queue j)]]))
     @ [col ''task'' ''Task'' (Some (SortStr j_task)) (\<lambda>j. [Mono [Text (j_task j)]]),
        col ''status'' ''Status'' (Some (SortStr (\<lambda>j. job_status_str (j_status j))))
          (\<lambda>j. [StatusBadge (SJob (j_status j))]),
        col_right ''att'' ''Attempts'' (Some (SortNum (\<lambda>j. Num (j_attempts j))))
          (\<lambda>j. [Text (int_str (j_attempts j) @ ''/'' @ int_str (j_maxAttempts j))]),
        col ''created'' ''Created'' (Some (SortStr j_createdAt)) (\<lambda>j. [TimeAgo cx (Some (j_createdAt j)) False]),
        col ''enq'' ''Enqueued'' (Some (SortStr (\<lambda>j. nullish (j_enqueuedAt j) [])))
          (\<lambda>j. [TimeAgo cx (j_enqueuedAt j) False]),
        col_right ''age'' ''Age'' (Some (SortNum (\<lambda>j. num_neg (date_parse (j_createdAt j)))))
          (\<lambda>j. [Text (fmtDuration (Some (num_sub (Num (date_now (cx_host cx))) (date_parse (j_createdAt j)))))]),
        col ''worker'' ''Worker'' None
          (\<lambda>j. if truthy_str (j_workerId j)
                then [link (worker_path (the (j_workerId j))) [] [StopPropagation] [Text (the (j_workerId j))]]
                else [muted_dash])]
     @ cond (cx_can cx ''jobs:write'')
         (col_right ''a'' [] None
           (\<lambda>j. if retryable (j_status j)
                 then [button [] [Mutate (jobs_retry [j_id j]) []] [Text '' Retry'']] else []))"

definition jobs_props :: "ctx \<Rightarrow> job list option \<Rightarrow> bool \<Rightarrow> jobs_state \<Rightarrow> (jobs_action \<Rightarrow> 'l) \<Rightarrow> (job, 'l) table_props" where
  "jobs_props cx jobs showQueue st emb =
     (table_defaults jobs (jobs_columns cx showQueue) j_id)
       \<lparr>tp_selected := Some (jt_sel st), tp_onSelectedChange := Some (\<lambda>s. [Local (emb (JtSel s))]),
        tp_defaultSort := Some (''created'', Desc), tp_emptyTitle := ''No jobs''\<rparr>"

definition jobs_init :: jobs_state where
  "jobs_init = \<lparr>jt_sel = [], jt_table = \<lparr>tb_sort = Some (''created'', Desc), tb_size = 25, tb_page = 0\<rparr>\<rparr>"

definition JobsTable :: "ctx \<Rightarrow> job list option \<Rightarrow> bool \<Rightarrow> jobs_state \<Rightarrow> (jobs_action \<Rightarrow> 'l) \<Rightarrow> 'l node list" where
  "JobsTable cx jobs showQueue st emb =
     jobs_bulk cx st emb @
     [DataTable cx (jobs_props cx jobs showQueue st emb) (jt_table st) (\<lambda>a. emb (JtTable a))]"

section \<open>Delayed jobs\<close>

definition promote :: "string \<Rightarrow> mutation" where
  "promote = useAction PromoteDelayed (\<lambda>i. ''Promoted '' @ slice0 8 i @ '' to pending'')"

definition cancel :: "string \<Rightarrow> mutation" where
  "cancel = useAction CancelDelayed (\<lambda>i. ''Cancelled '' @ slice0 8 i)"

definition delay_cell :: "ctx \<Rightarrow> delayed_job \<Rightarrow> 'l node" where
  "delay_cell cx d =
     (let r = num_sub (date_parse (dj_scheduledFor d)) (Num (useNow cx)) in
      ela ''span'' (cls (if num_lt r (Num 60000) then ''text-warning'' else []))
        [if num_le r (Num 0) then Text ''due'' else Duration (Some r)])"

definition delayed_actions :: "delayed_job \<Rightarrow> 'l node" where
  "delayed_actions d =
     el ''span''
       [ConfirmDialog
          (confirm ''Promote job now?''
             (''Job '' @ dj_jobId d @ '' will be moved to '' @ dj_queue d
                @ '' pending immediately, skipping its scheduled delay.'') ''Promote now'' False None)
          (trigger '' Promote'') [Mutate (promote (dj_jobId d)) []],
        ConfirmDialog
          (confirm ''Cancel scheduled job?'' (''Job '' @ dj_jobId d @ '' will be marked cancelled and never run.'')
             ''Cancel job'' True None)
          (trigger '' Cancel'') [Mutate (cancel (dj_jobId d)) []]]"

definition delayed_columns :: "ctx \<Rightarrow> bool \<Rightarrow> (delayed_job, 'l) column list" where
  "delayed_columns cx showQueue =
     [col ''id'' ''Job ID'' None (\<lambda>d. [JobId (dj_jobId d) False True])]
     @ cond showQueue (col ''queue'' ''Queue'' (Some (SortStr dj_queue)) (\<lambda>d. [Mono [Text (dj_queue d)]]))
     @ [col ''task'' ''Task'' (Some (SortStr dj_task)) (\<lambda>d. [Mono [Text (dj_task d)]]),
        col_right ''att'' ''Attempts'' None (\<lambda>d. [Text (int_str (dj_attempts d))]),
        col ''sched'' ''Scheduled for'' (Some (SortStr dj_scheduledFor))
          (\<lambda>d. [TimeAgo cx (Some (dj_scheduledFor d)) True]),
        col_right ''rem'' ''Delay remaining'' (Some (SortNum (\<lambda>d. date_parse (dj_scheduledFor d)))) (\<lambda>d. [delay_cell cx d]),
        col ''st'' ''Status'' None (\<lambda>d. [StatusBadge (SJob (dj_status d))])]
     @ cond (cx_can cx ''delayed:write'') (col_right ''a'' ''Actions'' None (\<lambda>d. [delayed_actions d]))"

definition delayed_props :: "ctx \<Rightarrow> delayed_job list option \<Rightarrow> bool \<Rightarrow> (delayed_job, 'l) table_props" where
  "delayed_props cx rows showQueue =
     (table_defaults rows (delayed_columns cx showQueue) dj_jobId)
       \<lparr>tp_defaultSort := Some (''sched'', Asc), tp_emptyTitle := ''No delayed jobs''\<rparr>"

definition DelayedTable :: "ctx \<Rightarrow> delayed_job list option \<Rightarrow> bool \<Rightarrow> table_state \<Rightarrow> (table_action \<Rightarrow> 'l) \<Rightarrow> 'l node" where
  "DelayedTable cx rows showQueue st emb = DataTable cx (delayed_props cx rows showQueue) st emb"

section \<open>Lemmas\<close>

lemma col_simps [simp]:
  "co_cell (col k h s c) = c" "co_cell (col_right k h s c) = c"
  "co_sort (col k h s c) = s" "co_sort (col_right k h s c) = s"
  "co_key (col k h s c) = k" "co_key (col_right k h s c) = k"
  by (simp_all add: col_def col_right_def)

lemma table_defaults_simps [simp]:
  "tp_rows (table_defaults r c i) = r" "tp_columns (table_defaults r c i) = c" "tp_getId (table_defaults r c i) = i"
  "tp_onSelectedChange (table_defaults r c i) = None" "tp_onRowClick (table_defaults r c i) = None"
  "tp_selected (table_defaults r c i) = None"
  by (simp_all add: table_defaults_def)

lemma bulk_calls [simp]: "m_calls (useBulk fn verb ids) = map fn ids" "m_calls (useAction f l a) = [f a]"
  by (simp_all add: useBulk_def useAction_def)

lemma confirm_simps [simp]: "cp_destructive (confirm t d l b k) = b" "cp_typeToConfirm (confirm t d l b k) = k"
  by (simp_all add: confirm_def)

lemma trigger_effs [simp]: "all_effs P Q (trigger l)"
  by (simp add: trigger_def)

lemma BulkBar_effs:
  "list_all (all_effs P Q) (BulkBar n ch es) \<longleftrightarrow> (n = 0 \<or> (list_all (all_effs P Q) ch \<and> list_all P es))"
  by (auto simp: BulkBar_def)

text \<open>What the two tables can do, in terms of the permissions of the session.\<close>

lemma JobsTable_effs:
  assumes "\<And>i. cx_can cx ''jobs:write'' \<Longrightarrow> R (RetryJob i)"
    and "\<And>c i. cx_can cx ''jobs:write'' \<Longrightarrow> cp_destructive c \<Longrightarrow> list_all (Q c) [Mutate (jobs_del i) []] \<and> (\<forall>l. Q c (Local l))"
  shows "list_all (all_effs (calls_ok R) Q) (JobsTable cx jobs sq st emb)"
proof -
  have "all_effs (calls_ok R) Q (DataTable cx (jobs_props cx jobs sq st emb) ts e)" for ts e
    using assms(1)
    by (intro DataTable_effs) (auto simp: jobs_props_def jobs_columns_def jobs_retry_def)
  moreover have "list_all (all_effs (calls_ok R) Q) (jobs_bulk cx st emb)"
    unfolding jobs_bulk_def Let_def BulkBar_effs jobs_retry_def
    using assms by (auto simp: list_all_iff)
  ultimately show ?thesis by (simp add: JobsTable_def)
qed

lemma DelayedTable_effs:
  assumes "\<And>c i. cx_can cx ''delayed:write'' \<Longrightarrow> Q c (Mutate (promote i) [])"
    and "\<And>c i. cx_can cx ''delayed:write'' \<Longrightarrow> cp_destructive c \<Longrightarrow> Q c (Mutate (cancel i) [])"
  shows "all_effs (calls_ok R) Q (DelayedTable cx rows sq st emb)"
  unfolding DelayedTable_def
  by (rule DataTable_effs)
    (use assms in \<open>auto simp: delayed_props_def delayed_columns_def delay_cell_def delayed_actions_def Let_def\<close>)

end
