(* ===== verification/Charts.thy ===== *)
theory Charts
  imports Shared_View
begin

text \<open>
  The charts of \<open>components/charts.tsx\<close>. What \<open>recharts\<close> draws is not modelled; the node has the
  series the component asks for, each with the values it selects from the points, and the axis
  and tooltip labels it formats. A series key is a numeric field of the metrics point.
\<close>

datatype series_key =
    KEnqueued | KCompleted | KFailed | KDepth | KLatencyMs | KExecMs | KRetries | KDlq | KWorkers | KLeaseExpirations

fun series_key_str :: "series_key \<Rightarrow> string" where
  "series_key_str KEnqueued = ''enqueued''"
| "series_key_str KCompleted = ''completed''"
| "series_key_str KFailed = ''failed''"
| "series_key_str KDepth = ''depth''"
| "series_key_str KLatencyMs = ''latencyMs''"
| "series_key_str KExecMs = ''execMs''"
| "series_key_str KRetries = ''retries''"
| "series_key_str KDlq = ''dlq''"
| "series_key_str KWorkers = ''workers''"
| "series_key_str KLeaseExpirations = ''leaseExpirations''"

fun series_val :: "series_key \<Rightarrow> metrics_point \<Rightarrow> int" where
  "series_val KEnqueued = mp_enqueued"
| "series_val KCompleted = mp_completed"
| "series_val KFailed = mp_failed"
| "series_val KDepth = mp_depth"
| "series_val KLatencyMs = mp_latencyMs"
| "series_val KExecMs = mp_execMs"
| "series_val KRetries = mp_retries"
| "series_val KDlq = mp_dlq"
| "series_val KWorkers = mp_workers"
| "series_val KLeaseExpirations = mp_leaseExpirations"

record SeriesDef =
  sd_key :: series_key
  sd_label :: string
  sd_color :: string

definition THROUGHPUT :: "SeriesDef list" where
  "THROUGHPUT =
     [\<lparr>sd_key = KEnqueued, sd_label = ''enqueued'', sd_color = ''var(--chart-1)''\<rparr>,
      \<lparr>sd_key = KCompleted, sd_label = ''completed'', sd_color = ''var(--chart-2)''\<rparr>,
      \<lparr>sd_key = KFailed, sd_label = ''failed'', sd_color = ''var(--chart-3)''\<rparr>]"

text \<open>The two label formatters; an invalid date makes \<open>format\<close> throw.\<close>

definition tick_label :: "ctx \<Rightarrow> string \<Rightarrow> 'l node" where
  "tick_label cx t = (case date_parse t of NaN \<Rightarrow> Throw ''RangeError'' | Num d \<Rightarrow> Text (fmt_hm (cx_host cx) t))"

definition tooltip_label :: "ctx \<Rightarrow> string \<Rightarrow> 'l node" where
  "tooltip_label cx t = (case date_parse t of NaN \<Rightarrow> Throw ''RangeError'' | Num d \<Rightarrow> Text (fmt_abs (cx_host cx) d))"

definition series_node :: "bool \<Rightarrow> metrics_point list \<Rightarrow> SeriesDef \<Rightarrow> 'l node" where
  "series_node area data s =
     ela (if area then ''Area'' else ''Line'')
       [(''dataKey'', series_key_str (sd_key s)), (''name'', sd_label s), (''stroke'', sd_color s)]
       (map (\<lambda>m. Text (int_str (series_val (sd_key s) m))) data)"

definition TimeChart :: "ctx \<Rightarrow> metrics_point list option \<Rightarrow> SeriesDef list \<Rightarrow> nat \<Rightarrow> bool \<Rightarrow> 'l node" where
  "TimeChart cx data series ht area =
     (case data of
        None \<Rightarrow> ela ''div'' [(''height'', nat_str ht)] []
      | Some ds \<Rightarrow>
          ela ''div'' [(''height'', nat_str ht)]
            [el (if area then ''AreaChart'' else ''LineChart'')
               ([ela ''XAxis'' [(''dataKey'', ''time'')] (map (\<lambda>m. tick_label cx (mp_time m)) ds),
                 el ''YAxis'' [],
                 el ''Tooltip'' (map (\<lambda>m. tooltip_label cx (mp_time m)) ds)]
                @ map (series_node area ds) series)])"

definition Legend :: "SeriesDef list \<Rightarrow> 'l node" where
  "Legend series =
     el ''div'' (map (\<lambda>s. el ''span'' [ela ''span'' [(''background'', sd_color s)] [], Text (sd_label s)]) series)"

lemma charts_no_handlers [simp]:
  "all_effs P Q (TimeChart cx data series ht area)" "all_effs P Q (Legend series)"
  by (auto simp: TimeChart_def Legend_def series_node_def tick_label_def tooltip_label_def list_all_iff
      split: option.splits jsnum.splits)

end
