(* ===== verification/Queue_Pages.thy ===== *)
theory Queue_Pages
  imports Job_Tables Charts
begin

text \<open>
  The queue pages: the overview (\<open>routes/index.tsx\<close>), the list of queues
  (\<open>routes/queues.index.tsx\<close>) and the queue detail (\<open>routes/queues.$queueName.tsx\<close>). Query results
  are arguments, \<open>None\<close> while loading; a page is the list of nodes of its fragment.
\<close>

section \<open>Page heads\<close>

definition head_meta :: "string \<Rightarrow> string \<Rightarrow> (string \<times> string) list" where
  "head_meta title description =
     (let t = title @ '' '' @ em_dash @ '' ForgeQueue Console'' in
      [(''title'', t), (''description'', description), (''og:title'', t), (''og:description'', description)])"

definition overview_head :: "(string \<times> string) list" where
  "overview_head = head_meta ''Overview''
     ''Live overview of ForgeQueue queues, workers, throughput and recent failures.''"

definition queues_head :: "(string \<times> string) list" where
  "queues_head = head_meta ''Queues'' ''All ForgeQueue queues with depth, processing, failures and rate.''"

definition queue_head :: "string \<Rightarrow> (string \<times> string) list" where
  "queue_head queueName = head_meta (''Queue '' @ queueName)
     (''Inspect jobs, delays, failures and metrics for queue '' @ queueName @ ''.'')"

section \<open>Actions on queues\<close>

definition pause_queue :: "string \<Rightarrow> mutation" where
  "pause_queue = useAction PauseQueue (\<lambda>n. ''Paused queue '' @ n)"

definition resume_queue :: "string \<Rightarrow> mutation" where
  "resume_queue = useAction ResumeQueue (\<lambda>n. ''Resumed queue '' @ n)"

definition purge_queue :: "string \<Rightarrow> mutation" where
  "purge_queue = useAction PurgeQueue (\<lambda>n. ''Purged pending jobs from '' @ n)"

abbreviation nf :: "ctx \<Rightarrow> int \<Rightarrow> string" where
  "nf cx \<equiv> fmtNum (nf_format (cx_host cx))"

text \<open>A right-aligned column of a formatted count, sorted by the count.\<close>

definition count_col :: "ctx \<Rightarrow> string \<Rightarrow> string \<Rightarrow> ('r \<Rightarrow> int) \<Rightarrow> ('r, 'l) column" where
  "count_col cx key header f = col_right key header (Some (SortNum (\<lambda>x. Num (f x)))) (\<lambda>x. [Text (nf cx (f x))])"

definition failed_cell :: "ctx \<Rightarrow> queue_summary \<Rightarrow> 'l node" where
  "failed_cell cx q = ela ''span'' (cls (if q_failed q \<noteq> 0 then ''text-destructive'' else [])) [Text (nf cx (q_failed q))]"

definition quoted :: "string \<Rightarrow> string" where
  "quoted s = [CHR 0x27] @ s @ [CHR 0x27]"

section \<open>Overview\<close>

definition overview_action_cell :: "queue_summary \<Rightarrow> 'l node" where
  "overview_action_cell q =
     Elem ''span'' [] [OnClick [StopPropagation]]
       [if q_status q = QsPaused
        then button [] [Mutate (resume_queue (q_name q)) []] [Text '' Resume'']
        else button [] [Mutate (pause_queue (q_name q)) []] [Text '' Pause'']]"

definition overview_columns :: "ctx \<Rightarrow> (queue_summary, 'l) column list" where
  "overview_columns cx =
     [col ''name'' ''Queue'' (Some (SortStr q_name)) (\<lambda>q. [Mono [Text (q_name q)]]),
      count_col cx ''pending'' ''Depth'' q_pending,
      count_col cx ''processing'' ''Processing'' q_processing,
      count_col cx ''delayed'' ''Delayed'' q_delayed,
      col_right ''failed'' ''Failed'' (Some (SortNum (\<lambda>q. Num (q_failed q)))) (\<lambda>q. [failed_cell cx q]),
      col_right ''rate'' ''Rate'' (Some (SortNum (\<lambda>q. Num (q_ratePerMin q)))) (\<lambda>q. [Text (fmtRate (q_ratePerMin q))]),
      col ''oldest'' ''Oldest'' None (\<lambda>q. [TimeAgo cx (q_oldestJobAt q) False]),
      col ''status'' ''Status'' None (\<lambda>q. [StatusBadge (SQueue (q_status q))]),
      col_right ''a'' [] None (\<lambda>q. [overview_action_cell q])]"

definition overview_queues :: "ctx \<Rightarrow> queue_summary list option \<Rightarrow> (queue_summary, 'l) table_props" where
  "overview_queues cx queues =
     (table_defaults queues (overview_columns cx) q_name)
       \<lparr>tp_onRowClick := Some (\<lambda>q. [Navigate (queue_path (q_name q)) False]),
        tp_defaultSort := Some (''pending'', Desc)\<rparr>"

text \<open>\<open>dlq?.slice().sort((a, b) => b.failedAt.localeCompare(a.failedAt)).slice(0, 8)\<close>.\<close>

definition recent_failures :: "ctx \<Rightarrow> dlq_item list option \<Rightarrow> dlq_item list option" where
  "recent_failures cx dlq =
     map_option (\<lambda>ds. take 8 (js_sort (\<lambda>a b. locale_compare (cx_host cx) (d_failedAt b) (d_failedAt a)) ds)) dlq"

definition recent_columns :: "ctx \<Rightarrow> (dlq_item, 'l) column list" where
  "recent_columns cx =
     [col ''id'' ''Job ID'' None (\<lambda>d. [JobId (d_jobId d) False True]),
      col ''q'' ''Queue'' None (\<lambda>d. [Mono [Text (d_originalQueue d)]]),
      (col ''e'' ''Error'' None (\<lambda>d. [Mono [Text (d_lastError d)]]))\<lparr>co_className := Some ''max-w-[420px] truncate''\<rparr>,
      col_right ''att'' ''Attempts'' None (\<lambda>d. [Text (int_str (d_attempts d))]),
      col ''f'' ''Failed at'' None (\<lambda>d. [TimeAgo cx (Some (d_failedAt d)) False])]"

definition recent_props :: "ctx \<Rightarrow> dlq_item list option \<Rightarrow> (dlq_item, 'l) table_props" where
  "recent_props cx dlq =
     (table_defaults (recent_failures cx dlq) (recent_columns cx) d_jobId)\<lparr>tp_emptyTitle := ''No failures''\<rparr>"

definition danger_if :: "int option \<Rightarrow> tone option" where
  "danger_if n = (case n of Some v \<Rightarrow> if v \<noteq> 0 then Some TDanger else None | None \<Rightarrow> None)"

definition overview_stats :: "ctx \<Rightarrow> system_stats option \<Rightarrow> 'l node" where
  "overview_stats cx s =
     (let v = (\<lambda>f. map_option (\<lambda>x. SvNum (f x)) s) in
      el ''div''
        [StatCard cx ''Queues'' (v ss_queues) None (Some ''/queues'') None,
         StatCard cx ''Active jobs'' (v ss_activeJobs) None None None,
         StatCard cx ''Pending'' (v ss_pending) None (Some ''/queues'') None,
         StatCard cx ''Processing'' (v ss_processing) (Some TInfo) None None,
         StatCard cx ''Failed'' (v ss_failed) (danger_if (map_option ss_failed s)) None None,
         StatCard cx ''Delayed'' (v ss_delayed) None (Some ''/delayed'') None,
         StatCard cx ''DLQ'' (v ss_dlq) (danger_if (map_option ss_dlq s)) (Some ''/dlq'') None,
         StatCard cx ''Active workers'' (v ss_activeWorkers) None (Some ''/workers'')
           (map_option (\<lambda>x. int_str (ss_staleWorkers x) @ '' stale'') s)])"

definition health_cell :: "string \<Rightarrow> int option \<Rightarrow> string \<Rightarrow> 'l node" where
  "health_cell l v c =
     el ''div'' [ela ''div'' (cls c) [Text (case v of Some n \<Rightarrow> int_str n | None \<Rightarrow> en_dash)], el ''div'' [Text l]]"

definition overview_worker :: "ctx \<Rightarrow> worker \<Rightarrow> 'l node" where
  "overview_worker cx w =
     el ''li''
       [link (worker_path (w_id w)) (cls (if w_status w = WsStale then ''bg-warning/5'' else [])) []
          [Mono [Text (w_id w)], StatusBadge (SWorker (w_status w)),
           el ''span'' [Text (int_str (w_jobsProcessing w) @ ''/'' @ int_str (w_concurrency w))],
           el ''span'' [TimeAgo cx (Some (w_lastHeartbeatAt w)) False]]]"

datatype overview_action = OvQueues table_action | OvRecent table_action

text \<open>The states of the page's two tables.\<close>

fun overview_update :: "overview_action \<Rightarrow> table_state \<times> table_state \<Rightarrow> table_state \<times> table_state" where
  "overview_update (OvQueues a) (q, r) = (table_update a q, r)"
| "overview_update (OvRecent a) (q, r) = (q, table_update a r)"

definition Overview ::
  "ctx \<Rightarrow> system_stats option \<Rightarrow> metrics_point list option \<Rightarrow> queue_summary list option \<Rightarrow> worker list option
     \<Rightarrow> dlq_item list option \<Rightarrow> table_state \<Rightarrow> table_state \<Rightarrow> overview_action node list" where
  "Overview cx s tp queues workers dlq qt rt =
     [PageHeader [Text ''Overview''] [Text ''What's happening right now across the cluster.''] [] [],
      overview_stats cx s,
      el ''div''
        [Section [Text (''Throughput '' @ mid_dot @ '' last 1h (jobs/interval)'')] [Legend THROUGHPUT] False
           [TimeChart cx tp THROUGHPUT 200 False],
         Section [Text ''Worker health''] [link ''/workers'' [] [] [Text ''All workers'']] True
           [el ''div''
              [health_cell ''Healthy'' (map_option ss_healthyWorkers s) ''text-success'',
               health_cell ''Stale'' (map_option ss_staleWorkers s) ''text-warning'',
               health_cell ''Expired leases'' (map_option ss_workersWithExpiredLeases s) ''text-destructive''],
            el ''ul'' (map (overview_worker cx) (nullish workers []))]],
      Section [Text ''Queues''] [] True [DataTable cx (overview_queues cx queues) qt OvQueues],
      Section [Text ''Recent failures (DLQ)''] [link ''/dlq'' [] [] [Text ''Open DLQ'']] True
        [DataTable cx (recent_props cx dlq) rt OvRecent]]"

section \<open>List of queues\<close>

record queues_state =
  ql_q :: string
  ql_status :: string
  ql_table :: table_state

datatype queues_action = QlQ string | QlStatus string | QlTable table_action

fun queues_update :: "queues_action \<Rightarrow> queues_state \<Rightarrow> queues_state" where
  "queues_update (QlQ v) st = st\<lparr>ql_q := v\<rparr>"
| "queues_update (QlStatus v) st = st\<lparr>ql_status := v\<rparr>"
| "queues_update (QlTable a) st = st\<lparr>ql_table := table_update a (ql_table st)\<rparr>"

definition queues_rows :: "string \<Rightarrow> string \<Rightarrow> queue_summary list \<Rightarrow> queue_summary list" where
  "queues_rows q status data =
     filter (\<lambda>x. js_includes (q_name x) q \<and> (status = [] \<or> queue_status_str (q_status x) = status)) data"

definition queues_action_cell :: "ctx \<Rightarrow> queue_summary \<Rightarrow> 'l node" where
  "queues_action_cell cx x =
     Elem ''span'' [] [OnClick [StopPropagation]]
       [if q_status x = QsPaused
        then button [] [Mutate (resume_queue (q_name x)) []] [Text '' Resume'']
        else ConfirmDialog
          (confirm (''Pause queue '' @ quoted (q_name x) @ ''?'')
             (''Workers will stop claiming new jobs. '' @ nf cx (q_pending x)
                @ '' pending jobs will wait until resumed. In-flight jobs continue.'') ''Pause queue'' False None)
          (trigger '' Pause'') [Mutate (pause_queue (q_name x)) []]]"

definition queues_columns :: "ctx \<Rightarrow> (queue_summary, 'l) column list" where
  "queues_columns cx =
     [col ''name'' ''Queue'' (Some (SortStr q_name)) (\<lambda>x. [Mono [Text (q_name x)]]),
      count_col cx ''pending'' ''Pending'' q_pending,
      count_col cx ''processing'' ''Processing'' q_processing,
      count_col cx ''delayed'' ''Delayed'' q_delayed,
      col_right ''failed'' ''Failed'' (Some (SortNum (\<lambda>x. Num (q_failed x)))) (\<lambda>x. [failed_cell cx x]),
      col_right ''workers'' ''Workers'' (Some (SortNum (\<lambda>x. Num (q_workers x)))) (\<lambda>x. [Text (int_str (q_workers x))]),
      col_right ''rate'' ''Rate'' (Some (SortNum (\<lambda>x. Num (q_ratePerMin x)))) (\<lambda>x. [Text (fmtRate (q_ratePerMin x))]),
      col ''oldest'' ''Oldest'' (Some (SortStr (\<lambda>x. nullish (q_oldestJobAt x) []))) (\<lambda>x. [TimeAgo cx (q_oldestJobAt x) False]),
      col ''status'' ''Status'' (Some (SortStr (\<lambda>x. queue_status_str (q_status x)))) (\<lambda>x. [StatusBadge (SQueue (q_status x))]),
      col_right ''actions'' ''Actions'' None (\<lambda>x. [queues_action_cell cx x])]"

definition queues_props :: "ctx \<Rightarrow> queue_summary list option \<Rightarrow> (queue_summary, 'l) table_props" where
  "queues_props cx rows =
     (table_defaults rows (queues_columns cx) q_name)
       \<lparr>tp_onRowClick := Some (\<lambda>x. [Navigate (queue_path (q_name x)) False]),
        tp_defaultSort := Some (''pending'', Desc), tp_emptyTitle := ''No queues match''\<rparr>"

definition QueuesList :: "ctx \<Rightarrow> queue_summary list option \<Rightarrow> queues_state \<Rightarrow> queues_action node list" where
  "QueuesList cx data st =
     [PageHeader [Text ''Queues'']
        [Text (case data of Some ds \<Rightarrow> nat_str (length ds) @ '' queues'' | None \<Rightarrow> ''Loading'' @ ellipsis)] [] [],
      Section [Text ''All queues''] [] True
        [Toolbar
           [SearchInput (ql_q st) (\<lambda>v. [Local (QlQ v)]) ''Filter by name'',
            FilterSelect (ql_status st) (\<lambda>v. [Local (QlStatus v)]) [''healthy'', ''paused'', ''degraded'', ''unknown''] ''Status'',
            el ''div'' [DensityToggle cx]],
         DataTable cx (queues_props cx (map_option (queues_rows (ql_q st) (ql_status st)) data)) (ql_table st) QlTable]]"

section \<open>Queue detail\<close>

text \<open>
  The tabs mount only the content of the active one: switching tabs starts the tables of the new
  tab afresh.
\<close>

datatype queue_tab = TabJobs | TabDelayed | TabFailures | TabMetrics

record queue_state =
  qd_tab :: queue_tab
  qd_jobs :: jobs_state
  qd_delayed :: table_state
  qd_failures :: jobs_state

datatype queue_action = QdTab queue_tab | QdJobs jobs_action | QdDelayed table_action | QdFailures jobs_action

definition delayed_init :: table_state where
  "delayed_init = \<lparr>tb_sort = Some (''sched'', Asc), tb_size = 25, tb_page = 0\<rparr>"

definition queue_init :: queue_state where
  "queue_init = \<lparr>qd_tab = TabJobs, qd_jobs = jobs_init, qd_delayed = delayed_init, qd_failures = jobs_init\<rparr>"

fun queue_update :: "queue_action \<Rightarrow> queue_state \<Rightarrow> queue_state" where
  "queue_update (QdTab t) st = (if t = qd_tab st then st else queue_init\<lparr>qd_tab := t\<rparr>)"
| "queue_update (QdJobs a) st = st\<lparr>qd_jobs := jobs_update a (qd_jobs st)\<rparr>"
| "queue_update (QdDelayed a) st = st\<lparr>qd_delayed := table_update a (qd_delayed st)\<rparr>"
| "queue_update (QdFailures a) st = st\<lparr>qd_failures := jobs_update a (qd_failures st)\<rparr>"

definition queue_buttons :: "ctx \<Rightarrow> string \<Rightarrow> queue_summary \<Rightarrow> 'l node list" where
  "queue_buttons cx queueName q =
     Can cx ''queues:write''
       [if q_status q = QsPaused
        then button [] [Mutate (resume_queue queueName) []] [Text '' Resume'']
        else ConfirmDialog
          (confirm (''Pause queue '' @ quoted queueName @ ''?'')
             (''Workers stop claiming. '' @ nf cx (q_pending q) @ '' pending jobs will wait.'') ''Pause queue'' False None)
          (trigger '' Pause'') [Mutate (pause_queue queueName) []],
        ConfirmDialog
          (confirm (''Purge queue '' @ quoted queueName @ ''?'')
             (''This will permanently remove '' @ nf cx (q_pending q)
                @ '' pending jobs. Processing and delayed jobs are not affected.'')
             ''Purge pending'' True (Some queueName))
          (trigger '' Purge'') [Mutate (purge_queue queueName) []]]"

definition queue_cards :: "ctx \<Rightarrow> queue_summary option \<Rightarrow> 'l node" where
  "queue_cards cx q =
     (let v = (\<lambda>f. map_option (\<lambda>x. SvNum (f x)) q) in
      el ''div''
        [StatCard cx ''Pending'' (v q_pending) None None None,
         StatCard cx ''Processing'' (v q_processing) (Some TInfo) None None,
         StatCard cx ''Delayed'' (v q_delayed) None None None,
         StatCard cx ''Failed'' (v q_failed) (danger_if (map_option q_failed q)) None None,
         StatCard cx ''Completed'' (v q_completed) (Some TSuccess) None None,
         StatCard cx ''Active workers'' (v q_workers) None None None])"

definition queue_failures :: "job list \<Rightarrow> job list" where
  "queue_failures jobs = filter (\<lambda>j. j_status j = JsFailed \<or> j_status j = JsRetrying) jobs"

definition tab_trigger :: "queue_tab \<Rightarrow> queue_tab \<Rightarrow> queue_action node list \<Rightarrow> queue_action node" where
  "tab_trigger active t kids = button (flag ''aria-selected'' (t = active)) [Local (QdTab t)] kids"

definition queue_tabs ::
  "ctx \<Rightarrow> job list option \<Rightarrow> delayed_job list option \<Rightarrow> metrics_point list option \<Rightarrow> queue_state \<Rightarrow> queue_action node" where
  "queue_tabs cx jobs delayed tp st =
     el ''Tabs''
       [el ''TabsList''
          [tab_trigger (qd_tab st) TabJobs
             ([Text ''Jobs ''] @ cond_some jobs (\<lambda>js. el ''span'' [Text (nat_str (length js))])),
           tab_trigger (qd_tab st) TabDelayed [Text ''Delayed''],
           tab_trigger (qd_tab st) TabFailures [Text ''Failures''],
           tab_trigger (qd_tab st) TabMetrics [Text ''Metrics'']],
        (case qd_tab st of
           TabJobs \<Rightarrow> Section [Text ''Jobs (sample of tracked jobs)''] [] True
             (JobsTable cx jobs False (qd_jobs st) QdJobs)
         | TabDelayed \<Rightarrow> Section [Text ''Delayed / scheduled''] [] True
             [DelayedTable cx delayed False (qd_delayed st) QdDelayed]
         | TabFailures \<Rightarrow> Section [Text ''Recent failures''] [] True
             (JobsTable cx (map_option queue_failures jobs) False (qd_failures st) QdFailures)
         | TabMetrics \<Rightarrow> Section [Text (''Throughput '' @ mid_dot @ '' last 1h'')] [Legend THROUGHPUT] False
             [TimeChart cx tp THROUGHPUT 220 False])]"

definition QueueDetail ::
  "ctx \<Rightarrow> string \<Rightarrow> req_error option \<Rightarrow> queue_summary option \<Rightarrow> job list option \<Rightarrow> delayed_job list option
     \<Rightarrow> metrics_point list option \<Rightarrow> queue_state \<Rightarrow> queue_action node list" where
  "QueueDetail cx queueName error q jobs delayed tp st =
     (case error of
        Some err \<Rightarrow> [EmptyState (''Queue '' @ quoted queueName @ '' not found'') (Some (err_message err))]
      | None \<Rightarrow>
          [el ''div'' [link ''/queues'' [] [] [Text ''Queues''], Text '' / '', Mono [Text queueName]],
           PageHeader
             ([Mono [Text queueName], Text '' ''] @ cond_some q (\<lambda>x. StatusBadge (SQueue (q_status x)))) []
             (case q of None \<Rightarrow> [] | Some x \<Rightarrow> queue_buttons cx queueName x) [],
           queue_cards cx q,
           queue_tabs cx jobs
             (map_option (filter (\<lambda>d. dj_queue d = queueName)) delayed) tp st])"

section \<open>Lemmas\<close>

lemma count_col_simps [simp]: "co_cell (count_col cx k h f) = (\<lambda>x. [Text (nf cx (f x))])"
  by (simp add: count_col_def)

lemma failed_cell_effs [simp]: "all_effs P Q (failed_cell cx q)"
  by (simp add: failed_cell_def)

lemma overview_parts [simp]:
  "all_effs (calls_ok R) Q (overview_stats cx s)" "all_effs (calls_ok R) Q (health_cell l v c)"
  "all_effs (calls_ok R) Q (overview_worker cx w)" "all_effs (calls_ok R) Q (queue_cards cx q')"
  by (simp_all add: overview_stats_def health_cell_def overview_worker_def queue_cards_def Let_def)

lemma Overview_effs:
  assumes "\<And>q. q \<in> set (nullish queues []) \<Longrightarrow> R (PauseQueue (q_name q)) \<and> R (ResumeQueue (q_name q))"
  shows "list_all (all_effs (calls_ok R) Q) (Overview cx s tp queues workers dlq qt rt)"
proof -
  have "all_effs (calls_ok R) Q (DataTable cx (overview_queues cx queues) qt OvQueues)"
    using assms
    by (intro DataTable_effs)
      (auto simp: overview_queues_def overview_columns_def overview_action_cell_def pause_queue_def resume_queue_def)
  moreover have "all_effs (calls_ok R) Q (DataTable cx (recent_props cx dlq) rt OvRecent)"
    by (intro DataTable_effs) (auto simp: recent_props_def recent_columns_def col_def)
  ultimately show ?thesis by (simp add: Overview_def list_all_iff)
qed

lemma QueuesList_effs:
  assumes "\<And>n. R (ResumeQueue n)" and "\<And>n c. Q c (Mutate (pause_queue n) [])"
  shows "list_all (all_effs (calls_ok R) Q) (QueuesList cx data st)"
proof -
  have "all_effs (calls_ok R) Q (DataTable cx (queues_props cx rows) ts QlTable)" for rows ts
    using assms
    by (intro DataTable_effs)
      (auto simp: queues_props_def queues_columns_def queues_action_cell_def resume_queue_def)
  then show ?thesis by (simp add: QueuesList_def list_all_iff)
qed

lemma QueueDetail_effs:
  assumes "\<And>n. cx_can cx ''queues:write'' \<Longrightarrow> R (ResumeQueue n)"
    and "\<And>n c. cx_can cx ''queues:write'' \<Longrightarrow> Q c (Mutate (pause_queue n) [])"
    and "\<And>n c. cx_can cx ''queues:write'' \<Longrightarrow> cp_destructive c \<Longrightarrow> Q c (Mutate (purge_queue n) [])"
    and "\<And>i. cx_can cx ''jobs:write'' \<Longrightarrow> R (RetryJob i)"
    and "\<And>c i. cx_can cx ''jobs:write'' \<Longrightarrow> cp_destructive c \<Longrightarrow> list_all (Q c) [Mutate (jobs_del i) []] \<and> (\<forall>l. Q c (Local l))"
    and "\<And>c i. cx_can cx ''delayed:write'' \<Longrightarrow> Q c (Mutate (promote i) [])"
    and "\<And>c i. cx_can cx ''delayed:write'' \<Longrightarrow> cp_destructive c \<Longrightarrow> Q c (Mutate (cancel i) [])"
  shows "list_all (all_effs (calls_ok R) Q) (QueueDetail cx n err q jobs delayed tp st)"
proof -
  have "list_all (all_effs (calls_ok R) Q) (JobsTable cx js sq ts em)" for js sq ts and em :: "jobs_action \<Rightarrow> queue_action"
    using assms(4,5) by (rule JobsTable_effs)
  moreover have "all_effs (calls_ok R) Q (DelayedTable cx rows sq ts em)" for rows sq ts and em :: "table_action \<Rightarrow> queue_action"
    using assms(6,7) by (rule DelayedTable_effs)
  ultimately have "all_effs (calls_ok R) Q (queue_tabs cx jobs d tp st)" for d
    by (auto simp: queue_tabs_def tab_trigger_def split: queue_tab.splits)
  moreover have "list_all (all_effs (calls_ok R) Q) (queue_buttons cx n x)" for x
    using assms(1-3) by (auto simp: queue_buttons_def resume_queue_def)
  ultimately show ?thesis
    by (auto simp: QueueDetail_def split: option.splits)
qed

end
