(* ===== verification/Json_Viewer.thy ===== *)
theory Json_Viewer
  imports Shared_View
begin

text \<open>
  The JSON viewer of \<open>components/json-viewer.tsx\<close>. Every \<open>Node\<close> of the tree keeps its own
  \<open>expanded\<close> flag; the viewer state holds the set of nodes, by key path, whose flag differs from its
  initial value. Collapsing a node unmounts what is below it, so the flags there are forgotten,
  and a change of the generation key \<open>gen\<close> remounts the whole tree.
\<close>

type_synonym key_path = "string list"

record jv_state =
  jv_raw :: bool
  jv_gen :: nat
  jv_allOpen :: bool
  jv_toggled :: "key_path jsset"

definition jv_init :: jv_state where
  "jv_init = \<lparr>jv_raw = False, jv_gen = 0, jv_allOpen = False, jv_toggled = []\<rparr>"

datatype jv_action = SetRaw bool | ToggleAll | ToggleNode key_path

text \<open>\<open>useState(open || depth < 2)\<close>, flipped by every press of the node's button.\<close>

definition expanded :: "jv_state \<Rightarrow> key_path \<Rightarrow> bool" where
  "expanded st path \<longleftrightarrow> ((jv_allOpen st \<or> length path < 2) \<noteq> set_has (jv_toggled st) path)"

definition flip :: "key_path jsset \<Rightarrow> key_path \<Rightarrow> key_path jsset" where
  "flip ts path = (if set_has ts path then set_delete ts path else set_add ts path)"

definition forget_below :: "key_path \<Rightarrow> key_path jsset \<Rightarrow> key_path jsset" where
  "forget_below path ts = filter (\<lambda>p. \<not> strict_prefix path p) ts"

fun jv_update :: "jv_action \<Rightarrow> jv_state \<Rightarrow> jv_state" where
  "jv_update (SetRaw b) st = st\<lparr>jv_raw := b, jv_toggled := (if b then [] else jv_toggled st)\<rparr>"
| "jv_update ToggleAll st = st\<lparr>jv_allOpen := \<not> jv_allOpen st, jv_gen := jv_gen st + 1, jv_toggled := []\<rparr>"
| "jv_update (ToggleNode path) st =
     st\<lparr>jv_toggled := (if expanded st path then forget_below path (flip (jv_toggled st) path)
                        else flip (jv_toggled st) path)\<rparr>"

fun is_obj :: "json \<Rightarrow> bool" where
  "is_obj (JArr _) = True"
| "is_obj (JObj _) = True"
| "is_obj _ = False"

fun entries :: "json \<Rightarrow> (string \<times> json) list" where
  "entries (JArr xs) = zip (map nat_str [0..<length xs]) xs"
| "entries (JObj kvs) = kvs"
| "entries _ = []"

definition brackets :: "json \<Rightarrow> string \<times> string" where
  "brackets v = (case v of JArr _ \<Rightarrow> (''['', '']'') | _ \<Rightarrow> (''{'', ''}''))"

definition value_class :: "json \<Rightarrow> string" where
  "value_class v = (case v of JStr _ \<Rightarrow> ''text-success'' | JNum _ \<Rightarrow> ''text-warning''
     | JFloat _ \<Rightarrow> ''text-warning'' | _ \<Rightarrow> ''text-muted-foreground'')"

text \<open>What the copy button of a scalar copies.\<close>

definition copy_value :: "json \<Rightarrow> string" where
  "copy_value v = (case v of JStr s \<Rightarrow> s | _ \<Rightarrow> stringify v)"

definition key_el :: "string option \<Rightarrow> 'l node list" where
  "key_el k = (case k of None \<Rightarrow> []
     | Some s \<Rightarrow> [el ''span'' [Text (''\"'' @ s @ ''\"'')], Text '': ''])"

definition indent :: "nat \<Rightarrow> (string \<times> string) list" where
  "indent n = [(''padding-left'', nat_str n)]"

definition scalar_node :: "key_path \<Rightarrow> string option \<Rightarrow> json \<Rightarrow> 'l node" where
  "scalar_node path k v =
     ela ''div'' (indent (length path * 12))
       (key_el k @
        [ela ''span'' (cls (value_class v)) [Text (stringify v)],
         el ''span'' [CopyButton False (copy_value v) ''Copy value'']])"

definition node_button :: "jv_state \<Rightarrow> (jv_action \<Rightarrow> 'l) \<Rightarrow> key_path \<Rightarrow> string option \<Rightarrow> json \<Rightarrow> 'l node" where
  "node_button st emb path k v =
     button (indent (length path * 12) @ [(''type'', ''button'')] @ flag ''aria-expanded'' (expanded st path))
       [Local (emb (ToggleNode path))]
       ([el (if expanded st path then ''ChevronDown'' else ''ChevronRight'') []] @ key_el k @
        [Text (fst (brackets v))] @
        cond (\<not> expanded st path)
          (el ''span'' [Text ('' '' @ nat_str (length (entries v)) @ '' '' @ ellipsis @ '' '' @ snd (brackets v))]))"

lemma entries_size: "(ck, cv) \<in> set (entries v) \<Longrightarrow> size cv < size v"
proof (cases v)
  case (JArr xs)
  assume "(ck, cv) \<in> set (entries v)"
  then have "cv \<in> set xs" using JArr by (auto dest: set_zip_rightD)
  then show ?thesis using JArr size_list_estimation' [of cv xs "size cv" size] by simp
next
  case (JObj kvs)
  assume "(ck, cv) \<in> set (entries v)"
  then have "(ck, cv) \<in> set kvs" using JObj by simp
  then show ?thesis
    using JObj size_list_estimation' [of "(ck, cv)" kvs "size cv" "size_prod (\<lambda>x. 0) size"] by simp
qed auto

function tree_node :: "jv_state \<Rightarrow> (jv_action \<Rightarrow> 'l) \<Rightarrow> key_path \<Rightarrow> string option \<Rightarrow> json \<Rightarrow> 'l node" where
  "tree_node st emb path k v =
     (if \<not> is_obj v then scalar_node path k v
      else el ''div''
        ([node_button st emb path k v] @
         (if expanded st path
          then map (\<lambda>(ck, cv). tree_node st emb (path @ [ck])
                      (case v of JArr _ \<Rightarrow> None | _ \<Rightarrow> Some ck) cv) (entries v)
               @ [ela ''div'' (indent (length path * 12 + 14)) [Text (snd (brackets v))]]
          else [])))"
  by pat_completeness auto
termination
  by (relation "measure (\<lambda>(st, emb, path, k, v). size v)") (auto dest: entries_size)

declare tree_node.simps [simp del]

definition JsonViewer :: "jv_state \<Rightarrow> (jv_action \<Rightarrow> 'l) \<Rightarrow> json \<Rightarrow> 'l node" where
  "JsonViewer st emb val =
     (let txt = stringify2 [] val in
      el ''div''
        [el ''div''
           (map (\<lambda>m. button
                [(''type'', ''button''),
                 (''class'', if (m = ''raw'') = jv_raw st then ''bg-accent text-foreground''
                             else ''text-muted-foreground hover:text-foreground'')]
                [Local (emb (SetRaw (m = ''raw'')))]
                [Text (if m = ''tree'' then ''Pretty'' else ''Raw'')]) [''tree'', ''raw'']
            @ cond (\<not> jv_raw st)
                (button [(''type'', ''button'')] [Local (emb ToggleAll)]
                   [Text (if jv_allOpen st then ''Collapse all'' else ''Expand all'')])
            @ [el ''span'' [Text (nat_str (length txt) @ '' B ''), CopyButton False txt ''Copy JSON'']]),
         el ''div'' [if jv_raw st then el ''pre'' [Text txt] else tree_node st emb [] None val]])"

section \<open>Lemmas\<close>

lemma viewer_effs [simp]: "harmless P \<Longrightarrow> all_effs P Q (tree_node st emb path k v)"
proof (induction st emb path k v rule: tree_node.induct)
  case (1 st emb path k v)
  then show ?case
    by (subst tree_node.simps)
      (auto simp: scalar_node_def node_button_def key_el_def list_all_iff split: option.splits)
qed

lemma JsonViewer_effs [simp]: "harmless P \<Longrightarrow> all_effs P Q (JsonViewer st emb val)"
  by (simp add: JsonViewer_def Let_def)

text \<open>The scalars of a value, in document order, and the texts a tree offers to copy.\<close>

function scalars :: "json \<Rightarrow> json list" where
  "scalars v = (if is_obj v then concat (map (\<lambda>(ck, cv). scalars cv) (entries v)) else [v])"
  by pat_completeness auto
termination by (relation "measure size") (auto dest: entries_size)

declare scalars.simps [simp del]

definition copied_by :: "'l handler \<Rightarrow> string list" where
  "copied_by x = (case x of OnClick es \<Rightarrow> concat (map (\<lambda>y. case y of CopyText s \<Rightarrow> [s] | _ \<Rightarrow> []) es) | _ \<Rightarrow> [])"

fun copies :: "'l node \<Rightarrow> string list" where
  "copies (Elem tag attrs hs kids) = concat (map copied_by hs) @ concat (map copies kids)"
| "copies (ConfirmDialog c t es) = copies t"
| "copies _ = []"

lemma copies_builders [simp]:
  "copies (el tag kids) = concat (map copies kids)" "copies (ela tag attrs kids) = concat (map copies kids)"
  "copies (button attrs es kids) = copied_by (OnClick es) @ concat (map copies kids)"
  by (simp_all add: node_builders)

lemma copies_scalar: "copies (scalar_node path k v) = [copy_value v]"
  by (auto simp: scalar_node_def CopyButton_def key_el_def copied_by_def split: option.splits)

lemma copies_node_button: "copies (node_button st emb path k v) = []"
  by (auto simp: node_button_def key_el_def copied_by_def cond_def split: option.splits)

lemma tree_all_open:
  assumes "\<And>p. expanded st p"
  shows "copies (tree_node st emb path k v) = map copy_value (scalars v)"
proof (induction v arbitrary: path k rule: scalars.induct)
  case (1 v)
  show ?case
  proof (cases "is_obj v")
    case True
    have "copies (tree_node st emb p k' cv) = map copy_value (scalars cv)" if "(ck, cv) \<in> set (entries v)" for ck cv p k'
      using 1 [OF True that refl] .
    then show ?thesis
      using True assms
      by (subst tree_node.simps, subst scalars.simps)
        (auto simp: copies_node_button map_concat comp_def intro!: arg_cong [of _ _ concat])
  next
    case False
    then show ?thesis by (simp add: tree_node.simps [of st emb path k v] scalars.simps [of v] copies_scalar)
  qed
qed

lemma expanded_all: "\<not> jv_allOpen st \<Longrightarrow> expanded (jv_update ToggleAll st) p"
  by (simp add: expanded_def)

section \<open>Properties\<close>

text \<open>
  ``Expand all'' hides nothing: from any state of the viewer with the button in that reading, one
  press makes the tree offer every scalar of the document, in document order, each with its own
  text to copy. A node that is collapsed and expanded again comes back with everything below
  it in its initial state.
\<close>

theorem expand_all_complete:
  assumes "\<not> jv_allOpen st"
  shows "copies (tree_node (jv_update ToggleAll st) emb [] None v) = map copy_value (scalars v)
     \<and> (expanded st p \<longrightarrow>
          set (jv_toggled (jv_update (ToggleNode p) (jv_update (ToggleNode p) st))) =
          {q \<in> set (jv_toggled st). \<not> strict_prefix p q})"
proof -
  have "set (jv_toggled (jv_update (ToggleNode p) (jv_update (ToggleNode p) st))) =
      {q \<in> set (jv_toggled st). \<not> strict_prefix p q}" if "expanded st p"
    using that by (auto simp: flip_def forget_below_def expanded_def)
  then show ?thesis using tree_all_open [OF expanded_all [OF assms]] by blast
qed

theorem expand_all_complete_witness:
  "copies (tree_node (jv_update ToggleAll jv_init) id [] None (JObj [(''a'', JArr [JArr [JArr [JNum 7]]])])) = [''7'']"
proof -
  have "map copy_value (scalars (JObj [(''a'', JArr [JArr [JArr [JNum 7]]])])) = [''7'']" by code_simp
  then show ?thesis using expand_all_complete [of jv_init id] by (simp add: jv_init_def)
qed

end
