(* ===== verification/Job_Pages.thy ===== *)
theory Job_Pages
  imports Queue_Pages Json_Viewer
begin

text \<open>
  The job pages: the dead letter queue (\<open>routes/dlq.tsx\<close>), the delayed jobs
  (\<open>routes/delayed.tsx\<close>) and the job detail (\<open>routes/jobs.$jobId.tsx\<close>).
\<close>

definition dlq_head :: "(string \<times> string) list" where
  "dlq_head = head_meta ''Dead Letter Queue''
     ''Jobs that exhausted retries: inspect errors, retry, re-enqueue or discard.''"

definition delayed_head :: "(string \<times> string) list" where
  "delayed_head = head_meta ''Delayed / Scheduled''
     ''Jobs waiting on a scheduled time or retry backoff, ordered by run time.''"

definition job_head :: "string \<Rightarrow> (string \<times> string) list" where
  "job_head jobId = head_meta (''Job '' @ slice0 8 jobId)
     ''Full job inspection: timeline, attempts, payload, errors, retries and lease.''"

section \<open>Dead letter queue\<close>

record dlq_state =
  dp_sel :: "string jsset"
  dp_q :: string
  dp_queue :: string
  dp_table :: table_state

datatype dlq_action = DpSel "string jsset" | DpQ string | DpQueue string | DpTable table_action

fun dlq_update :: "dlq_action \<Rightarrow> dlq_state \<Rightarrow> dlq_state" where
  "dlq_update (DpSel s) st = st\<lparr>dp_sel := s\<rparr>"
| "dlq_update (DpQ v) st = st\<lparr>dp_q := v\<rparr>"
| "dlq_update (DpQueue v) st = st\<lparr>dp_queue := v\<rparr>"
| "dlq_update (DpTable a) st = st\<lparr>dp_table := table_update a (dp_table st)\<rparr>"

definition dlq_init :: dlq_state where
  "dlq_init = \<lparr>dp_sel = [], dp_q = [], dp_queue = [],
     dp_table = \<lparr>tb_sort = Some (''f'', Desc), tb_size = 25, tb_page = 0\<rparr>\<rparr>"

definition dlq_retry :: "string list \<Rightarrow> mutation" where
  "dlq_retry = useBulk RetryDlq ''Retried''"

definition dlq_del :: "string list \<Rightarrow> mutation" where
  "dlq_del = useBulk DeleteDlq ''Deleted''"

definition dlq_purge :: mutation where
  "dlq_purge = useAction (\<lambda>_. PurgeDlq) (\<lambda>_. ''DLQ purged'') ()"

definition dlq_rows :: "string \<Rightarrow> string \<Rightarrow> dlq_item list \<Rightarrow> dlq_item list" where
  "dlq_rows q queue data =
     filter (\<lambda>d. (queue = [] \<or> d_originalQueue d = queue) \<and>
       (js_includes (d_jobId d) q \<or> js_includes (d_task d) q \<or>
        js_includes (to_lower (d_lastError d)) (to_lower q))) data"

definition failed_today :: "ctx \<Rightarrow> dlq_item list \<Rightarrow> nat" where
  "failed_today cx data = length (filter (\<lambda>d. day_of (cx_host cx) (d_failedAt d) = day_now (cx_host cx)) data)"

text \<open>\<open>[...new Set(xs)].sort()\<close>.\<close>

definition uniq_sorted :: "string list \<Rightarrow> string list" where
  "uniq_sorted xs = js_sort str_cmp (js_set xs)"

definition dlq_queues :: "dlq_item list option \<Rightarrow> string list" where
  "dlq_queues data = uniq_sorted (nullish (map_option (map d_originalQueue) data) [])"

definition dlq_purge_button :: "ctx \<Rightarrow> dlq_item list option \<Rightarrow> 'l node list" where
  "dlq_purge_button cx data =
     (let n = length (nullish data []) in
      Can cx ''dlq:write''
        [ConfirmDialog
           (confirm ''Purge entire DLQ?''
              (''This action cannot be undone. Affected: '' @ nat_str n @ '' jobs across ''
                 @ nat_str (length (dlq_queues data)) @ '' queues.'')
              ''Purge DLQ'' True (Some ''purge dlq''))
           (ela ''button'' (flag ''disabled'' (n = 0)) [Text '' Purge DLQ''])
           [Mutate dlq_purge []]])"

definition dlq_bulk :: "ctx \<Rightarrow> dlq_state \<Rightarrow> dlq_action node list" where
  "dlq_bulk cx st =
     (let n = nat_str (length (dp_sel st)); clear = Local (DpSel []) in
      BulkBar (length (dp_sel st))
        (Can cx ''dlq:write''
           [button [] [Mutate (dlq_retry (dp_sel st)) [], clear] [Text '' Retry selected'']]
         @ Can cx ''dlq:write''
           [ConfirmDialog
              (confirm (''Delete '' @ n @ '' DLQ jobs?'')
                 (''Permanently discards '' @ n @ '' jobs. They will not be retried.'') (''Delete '' @ n) True None)
              (trigger '' Delete selected'') [Mutate (dlq_del (dp_sel st)) [], clear]])
        [clear])"

definition dlq_actions :: "ctx \<Rightarrow> dlq_item \<Rightarrow> 'l node list" where
  "dlq_actions cx d =
     Can cx ''dlq:write''
       [el ''span''
          [button [(''aria-label'', ''Retry''), (''title'', ''Retry'')] [Mutate (dlq_retry [d_jobId d]) []] [],
           button [(''aria-label'', ''Re-enqueue''), (''title'', ''Re-enqueue (reset attempts)'')]
             [Mutate (dlq_retry [d_jobId d]) []] [],
           ConfirmDialog
             (confirm ''Delete DLQ job?'' (''Permanently discards '' @ d_jobId d @ ''.'') ''Delete'' True None)
             (ela ''button'' [(''aria-label'', ''Delete''), (''title'', ''Delete'')] [])
             [Mutate (dlq_del [d_jobId d]) []]]]"

definition dlq_columns :: "ctx \<Rightarrow> (dlq_item, 'l) column list" where
  "dlq_columns cx =
     [col ''id'' ''Job ID'' None (\<lambda>d. [JobId (d_jobId d) False True]),
      col ''q'' ''Original queue'' (Some (SortStr d_originalQueue)) (\<lambda>d. [Mono [Text (d_originalQueue d)]]),
      col ''t'' ''Task'' (Some (SortStr d_task)) (\<lambda>d. [Mono [Text (d_task d)]]),
      col_right ''a'' ''Attempts'' (Some (SortNum (\<lambda>d. Num (d_attempts d)))) (\<lambda>d. [Text (int_str (d_attempts d))]),
      (col ''e'' ''Last error'' None
         (\<lambda>d. [el ''Tooltip'' [el ''span'' [Text (d_lastError d)], el ''TooltipContent'' [Text (d_lastError d)]]]))
        \<lparr>co_className := Some ''max-w-[380px]''\<rparr>,
      col ''f'' ''Failed at'' (Some (SortStr d_failedAt)) (\<lambda>d. [TimeAgo cx (Some (d_failedAt d)) False]),
      col_right ''age'' ''Age'' (Some (SortNum (\<lambda>d. num_neg (date_parse (d_failedAt d)))))
        (\<lambda>d. [Text (fmtDuration (Some (num_sub (Num (date_now (cx_host cx))) (date_parse (d_failedAt d)))))]),
      col_right ''act'' ''Actions'' None (dlq_actions cx)]"

definition dlq_props :: "ctx \<Rightarrow> dlq_item list option \<Rightarrow> dlq_state \<Rightarrow> (dlq_item, dlq_action) table_props" where
  "dlq_props cx data st =
     (table_defaults (map_option (dlq_rows (dp_q st) (dp_queue st)) data) (dlq_columns cx) d_jobId)
       \<lparr>tp_selected := Some (dp_sel st), tp_onSelectedChange := Some (\<lambda>s. [Local (DpSel s)]),
        tp_defaultSort := Some (''f'', Desc), tp_emptyTitle := ''DLQ is empty'',
        tp_emptyDescription := Some ''No jobs have exhausted their retries.''\<rparr>"

definition DlqPage :: "ctx \<Rightarrow> dlq_item list option \<Rightarrow> dlq_state \<Rightarrow> dlq_action node list" where
  "DlqPage cx data st =
     (let n = map_option length data; num = (\<lambda>k. SvNum (int k)) in
      [PageHeader [Text ''Dead Letter Queue'']
         [Text ''Jobs that exhausted max attempts. Retrying moves them back to their original queue.'']
         (dlq_purge_button cx data) [],
       el ''div''
         [StatCard cx ''DLQ jobs'' (map_option num n) (danger_if (map_option int n)) None None,
          StatCard cx ''Queues affected'' (Some (num (length (dlq_queues data)))) None None None,
          StatCard cx ''Failures today'' (map_option (\<lambda>ds. num (failed_today cx ds)) data) None None None],
       Section [Text ''Dead-lettered jobs''] [] True
         ([Toolbar
             [SearchInput (dp_q st) (\<lambda>v. [Local (DpQ v)]) ''Job ID, task or error'',
              FilterSelect (dp_queue st) (\<lambda>v. [Local (DpQueue v)]) (dlq_queues data) ''Queue'']]
          @ dlq_bulk cx st
          @ [DataTable cx (dlq_props cx data st) (dp_table st) DpTable])])"

section \<open>Delayed jobs\<close>

record delayed_state =
  de_queue :: string
  de_task :: string
  de_table :: table_state

datatype delayed_action = DeQueue string | DeTask string | DeTable table_action

fun delayed_update :: "delayed_action \<Rightarrow> delayed_state \<Rightarrow> delayed_state" where
  "delayed_update (DeQueue v) st = st\<lparr>de_queue := v\<rparr>"
| "delayed_update (DeTask v) st = st\<lparr>de_task := v\<rparr>"
| "delayed_update (DeTable a) st = st\<lparr>de_table := table_update a (de_table st)\<rparr>"

definition delayed_rows :: "string \<Rightarrow> string \<Rightarrow> delayed_job list \<Rightarrow> delayed_job list" where
  "delayed_rows queue task data =
     filter (\<lambda>d. (queue = [] \<or> dj_queue d = queue) \<and> (task = [] \<or> dj_task d = task)) data"

definition delayed_uniq :: "(delayed_job \<Rightarrow> string) \<Rightarrow> delayed_job list option \<Rightarrow> string list" where
  "delayed_uniq k data = uniq_sorted (nullish (map_option (map k) data) [])"

definition DelayedPage :: "ctx \<Rightarrow> delayed_job list option \<Rightarrow> delayed_state \<Rightarrow> delayed_action node list" where
  "DelayedPage cx data st =
     [PageHeader [Text ''Delayed / Scheduled'']
        [Text (case data of
             Some ds \<Rightarrow> nat_str (length ds) @ '' jobs in the delayed ZSET, soonest first.''
           | None \<Rightarrow> ''Loading'' @ ellipsis)] [] [],
      Section [Text ''Scheduled jobs''] [] True
        [Toolbar
           [FilterSelect (de_queue st) (\<lambda>v. [Local (DeQueue v)]) (delayed_uniq dj_queue data) ''Queue'',
            FilterSelect (de_task st) (\<lambda>v. [Local (DeTask v)]) (delayed_uniq dj_task data) ''Task''],
         DelayedTable cx (map_option (delayed_rows (de_queue st) (de_task st)) data) True (de_table st) DeTable]]"

section \<open>Job detail\<close>

record timeline_step =
  tl_label :: string
  tl_at :: "string option"
  tl_tone :: "string option"
  tl_note :: "string option"

definition tl :: "string \<Rightarrow> string option \<Rightarrow> string option \<Rightarrow> string option \<Rightarrow> timeline_step" where
  "tl label at tn note = \<lparr>tl_label = label, tl_at = at, tl_tone = tn, tl_note = note\<rparr>"

definition timeline_steps :: "job \<Rightarrow> timeline_step list" where
  "timeline_steps j =
     [tl ''Created'' (Some (j_createdAt j)) None None,
      tl ''Enqueued'' (j_enqueuedAt j) None None,
      tl ''Claimed (lease acquired)'' (j_startedAt j) None (j_leaseId j)]
     @ cond (j_status j = JsProcessing)
         (tl (''Processing '' @ mid_dot @ '' heartbeat lease'') (j_leaseExpiresAt j) (Some ''bg-info'') (Some ''lease expires''))
     @ cond (truthy_str (j_completedAt j)) (tl ''Completed'' (j_completedAt j) (Some ''bg-success'') None)
     @ cond (truthy_str (j_failedAt j))
         (tl (if j_status j = JsDlq then ''Moved to DLQ'' else ''Failed'') (j_failedAt j) (Some ''bg-destructive'') None)
     @ cond (truthy_str (j_nextRetryAt j))
         (tl (if j_status j = JsDelayed then ''Scheduled run'' else ''Next retry'') (j_nextRetryAt j) (Some ''bg-warning'') None)"

definition Timeline :: "ctx \<Rightarrow> job \<Rightarrow> 'l node" where
  "Timeline cx j =
     el ''ol'' (map (\<lambda>s.
       el ''li''
         [ela ''span'' (cls (if truthy_str (tl_at s) then nullish (tl_tone s) ''bg-muted-foreground'' else ''bg-border'')) [],
          el ''div''
            ([ela ''span'' (cls (if truthy_str (tl_at s) then [] else ''text-muted-foreground'')) [Text (tl_label s)],
              TimeAgo cx (tl_at s)
                (truthy_str (tl_at s) \<and> num_lt (Num (date_now (cx_host cx))) (date_parse (the (tl_at s))))]
             @ cond (truthy_str (tl_note s)) (Mono [Text (the (tl_note s))]))]) (timeline_steps j))"

definition retry_job :: "string \<Rightarrow> mutation" where
  "retry_job = useAction RetryJob (\<lambda>_. ''Job retried'')"

definition requeue_job :: "string \<Rightarrow> mutation" where
  "requeue_job = useAction RequeueJob (\<lambda>_. ''Job re-enqueued'')"

definition delete_job :: "string \<Rightarrow> mutation" where
  "delete_job = useAction DeleteJob (\<lambda>_. ''Job deleted'')"

record job_state =
  jd_result :: jv_state
  jd_payload :: jv_state
  jd_attempts :: table_state

datatype job_action = JdResult jv_action | JdPayload jv_action | JdAttempts table_action

fun job_update :: "job_action \<Rightarrow> job_state \<Rightarrow> job_state" where
  "job_update (JdResult a) st = st\<lparr>jd_result := jv_update a (jd_result st)\<rparr>"
| "job_update (JdPayload a) st = st\<lparr>jd_payload := jv_update a (jd_payload st)\<rparr>"
| "job_update (JdAttempts a) st = st\<lparr>jd_attempts := table_update a (jd_attempts st)\<rparr>"

definition job_buttons :: "ctx \<Rightarrow> job \<Rightarrow> 'l node list" where
  "job_buttons cx j =
     Can cx ''jobs:write''
       [ConfirmDialog
          (confirm ''Retry job?'' ''Job is moved back to pending, keeping its attempt count.'' ''Retry'' False None)
          (trigger '' Retry'') [Mutate (retry_job (j_id j)) []],
        ConfirmDialog
          (confirm ''Re-enqueue job?''
             ''A fresh enqueue with attempts reset to 0. Ensure the handler is idempotent.'' ''Re-enqueue'' False None)
          (trigger '' Re-enqueue'') [Mutate (requeue_job (j_id j)) []],
        ConfirmDialog
          (confirm ''Delete job?'' (''Permanently removes '' @ j_id j @ '' from Redis and PostgreSQL.'') ''Delete job'' True None)
          (trigger '' Delete'') [Mutate (delete_job (j_id j)) [Navigate (queue_path (j_queue j)) False]]]"

definition job_overview :: "ctx \<Rightarrow> job \<Rightarrow> 'l node" where
  "job_overview cx j =
     KV [(''created_at'', Some (TimeAgo cx (Some (j_createdAt j)) False)),
         (''enqueued_at'', Some (TimeAgo cx (j_enqueuedAt j) False)),
         (''started_at'', Some (TimeAgo cx (j_startedAt j) False)),
         (''completed_at'', Some (TimeAgo cx (j_completedAt j) False)),
         (''failed_at'', Some (TimeAgo cx (j_failedAt j) False)),
         (''duration'', Some (Duration (map_option Num (j_durationMs j)))),
         (''attempts'', Some (Text (int_str (j_attempts j) @ '' / '' @ int_str (j_maxAttempts j)))),
         (''worker_id'', map_option (\<lambda>w. if w = [] then Text [] else link (worker_path w) [] [] [Text w]) (j_workerId j)),
         (''lease_id'', map_option Text (j_leaseId j)),
         (''lease_expires_at'', Some (TimeAgo cx (j_leaseExpiresAt j) True)),
         (''next_retry_at'', Some (TimeAgo cx (j_nextRetryAt j) True))]"

definition attempt_columns :: "ctx \<Rightarrow> (attempt, 'l) column list" where
  "attempt_columns cx =
     [col ''n'' ''#'' None (\<lambda>a. [Mono [Text (int_str (at_attempt a))]]),
      col ''w'' ''Worker'' None (\<lambda>a. [Mono [Text (nullish (at_workerId a) em_dash)]]),
      col ''s'' ''Started'' None (\<lambda>a. [TimeAgo cx (Some (at_startedAt a)) False]),
      col ''f'' ''Finished'' None
        (\<lambda>a. [if truthy_str (at_finishedAt a) then TimeAgo cx (at_finishedAt a) False
               else el ''span'' [Text ''running'']]),
      col_right ''d'' ''Duration'' None (\<lambda>a. [Text (fmtDuration (map_option Num (at_durationMs a)))]),
      (col ''r'' ''Outcome'' None
         (\<lambda>a. [if truthy_str (at_error a) then Mono [Text (the (at_error a))]
                else if truthy_str (at_finishedAt a) then Mono [Text ''ok''] else Text em_dash]))
        \<lparr>co_className := Some ''max-w-[360px] truncate''\<rparr>]"

definition attempt_props :: "ctx \<Rightarrow> job \<Rightarrow> (attempt, 'l) table_props" where
  "attempt_props cx j =
     (table_defaults (Some (nullish (j_attemptsHistory j) [])) (attempt_columns cx) (\<lambda>a. int_str (at_attempt a)))
       \<lparr>tp_emptyTitle := ''Not attempted yet''\<rparr>"

definition retry_info :: "ctx \<Rightarrow> job \<Rightarrow> 'l node" where
  "retry_info cx j =
     KV [(''retries'', Some (Text (int_str (max 0 (j_attempts j - 1))))),
         (''remaining'', Some (Text (int_str (max 0 (j_maxAttempts j - j_attempts j))))),
         (''backoff'', map_option (\<lambda>r. Text (backoff_str (rp_backoff r))) (j_retryPolicy j)),
         (''base / max'', map_option (\<lambda>r. Text (fmtDuration (Some (Num (rp_baseMs r))) @ '' / ''
             @ fmtDuration (Some (Num (rp_maxMs r))))) (j_retryPolicy j)),
         (''jitter'', map_option (\<lambda>r. Text (if rp_jitter r then ''true'' else ''false'')) (j_retryPolicy j)),
         (''next_retry'', Some (TimeAgo cx (j_nextRetryAt j) True))]"

text \<open>\<open>leaseRemaining\<close>: \<open>None\<close> is \<open>null\<close>.\<close>

definition leaseRemaining :: "ctx \<Rightarrow> job \<Rightarrow> jsnum option" where
  "leaseRemaining cx j =
     (if truthy_str (j_leaseExpiresAt j)
      then Some (num_sub (date_parse (the (j_leaseExpiresAt j))) (Num (useNow cx))) else None)"

definition lease_info :: "ctx \<Rightarrow> job \<Rightarrow> 'l node" where
  "lease_info cx j =
     (if truthy_str (j_leaseId j)
      then
        let i = the (j_leaseId j); r = leaseRemaining cx j in
        KV [(''worker'', map_option Text (j_workerId j)),
            (''lease_id'', Some (el ''span'' [Text i, CopyButton False i ''Copy''])),
            (''acquired'', Some (TimeAgo cx (j_startedAt j) False)),
            (''expires'', Some (TimeAgo cx (j_leaseExpiresAt j) True)),
            (''remaining'', Some (ela ''span''
               (cls (if r \<noteq> None \<and> num_lt (the r) (Num 5000) then ''text-destructive'' else []))
               [Text (if r \<noteq> None \<and> num_le (the r) (Num 0) then ''expired'' else fmtDuration r)]))]
      else el ''p'' [Text ''No active lease. Job is not currently owned by a worker.''])"

definition job_body :: "ctx \<Rightarrow> job \<Rightarrow> job_state \<Rightarrow> job_action node" where
  "job_body cx j st =
     el ''div''
       [el ''div''
          ([Section [Text ''Job overview''] [] False [job_overview cx j]]
           @ cond_some (j_error j)
               (\<lambda>er. Section [Text ''Error''] [] False [ErrorBlock (je_message er) (je_stack er) (je_code er)])
           @ cond_some (j_result j) (\<lambda>v. Section [Text ''Result''] [] False [JsonViewer (jd_result st) JdResult v])
           @ [Section [Text ''Payload''] [] False [JsonViewer (jd_payload st) JdPayload (j_payload j)],
              Section [Text (''Attempts ('' @ nat_str (length (nullish (j_attemptsHistory j) [])) @ '')'')] [] True
                [DataTable cx (attempt_props cx j) (jd_attempts st) JdAttempts]]),
        el ''div''
          [Section [Text ''Execution timeline''] [] False [Timeline cx j],
           Section [Text ''Retry information''] [] False [retry_info cx j],
           Section [Text ''Lease information''] [] False [lease_info cx j]]]"

definition JobDetail :: "ctx \<Rightarrow> req_error option \<Rightarrow> job option \<Rightarrow> bool \<Rightarrow> job_state \<Rightarrow> job_action node list" where
  "JobDetail cx error jb isLoading st =
     (case error of
        Some err \<Rightarrow> [EmptyState ''Job not found'' (Some (err_message err))]
      | None \<Rightarrow>
          (case jb of
             None \<Rightarrow> [el ''div'' []]
           | Some j \<Rightarrow>
               if isLoading then [el ''div'' []]
               else
                 [el ''div''
                    [link ''/queues'' [] [] [Text ''Queues''], Text '' / '',
                     link (queue_path (j_queue j)) [] [] [Text (j_queue j)], Text '' / job''],
                  PageHeader
                    [el ''span'' [Mono [Text (j_id j)], CopyButton False (j_id j) ''Copy job ID'', StatusBadge (SJob (j_status j))]]
                    [] (job_buttons cx j)
                    [el ''span'' [Text ''queue''], Text '' '', Mono [Text (j_queue j)],
                     el ''span'' [Text ''task''], Text '' '', Mono [Text (j_task j)]],
                  job_body cx j st]))"

section \<open>Lemmas\<close>

lemma DlqPage_effs:
  assumes "\<And>i. cx_can cx ''dlq:write'' \<Longrightarrow> R (RetryDlq i)"
    and "\<And>c i. cx_can cx ''dlq:write'' \<Longrightarrow> cp_destructive c \<Longrightarrow> Q c (Mutate (dlq_del i) [])"
    and "\<And>c i. cx_can cx ''dlq:write'' \<Longrightarrow> cp_destructive c \<Longrightarrow> Q c (Mutate dlq_purge [])"
    and "\<And>c l. Q c (Local l)"
  shows "list_all (all_effs (calls_ok R) Q) (DlqPage cx data st)"
proof -
  have "all_effs (calls_ok R) Q (DataTable cx (dlq_props cx data st) ts DpTable)" for ts
    using assms
    by (intro DataTable_effs)
      (auto simp: dlq_props_def dlq_columns_def dlq_actions_def dlq_retry_def col_def)
  moreover have "list_all (all_effs (calls_ok R) Q) (dlq_bulk cx st)"
    unfolding dlq_bulk_def Let_def BulkBar_effs dlq_retry_def using assms by (auto simp: list_all_iff)
  moreover have "list_all (all_effs (calls_ok R) Q) (dlq_purge_button cx data)"
    using assms by (auto simp: dlq_purge_button_def Let_def)
  ultimately show ?thesis by (simp add: DlqPage_def Let_def)
qed

lemma DelayedPage_effs:
  assumes "\<And>c i. cx_can cx ''delayed:write'' \<Longrightarrow> Q c (Mutate (promote i) [])"
    and "\<And>c i. cx_can cx ''delayed:write'' \<Longrightarrow> cp_destructive c \<Longrightarrow> Q c (Mutate (cancel i) [])"
  shows "list_all (all_effs (calls_ok R) Q) (DelayedPage cx data st)"
proof -
  have "all_effs (calls_ok R) Q (DelayedTable cx rows sq ts em)" for rows sq ts and em :: "table_action \<Rightarrow> delayed_action"
    using assms by (rule DelayedTable_effs)
  then show ?thesis by (simp add: DelayedPage_def)
qed

lemma Timeline_effs [simp]: "all_effs (calls_ok R) Q (Timeline cx j)"
  unfolding Timeline_def by (simp add: list.pred_map comp_def list.pred_True)

lemma job_overview_effs [simp]: "all_effs (calls_ok R) Q (job_overview cx j)"
  by (simp add: job_overview_def option.pred_map comp_def option.pred_True)

lemma retry_info_effs [simp]: "all_effs (calls_ok R) Q (retry_info cx j)"
  by (simp add: retry_info_def option.pred_map comp_def option.pred_True)

lemma lease_info_effs [simp]: "all_effs (calls_ok R) Q (lease_info cx j)"
  by (simp add: lease_info_def Let_def option.pred_map comp_def option.pred_True)

lemma JobDetail_effs:
  assumes "\<And>c i. cx_can cx ''jobs:write'' \<Longrightarrow> Q c (Mutate (retry_job i) [])"
    and "\<And>c i. cx_can cx ''jobs:write'' \<Longrightarrow> Q c (Mutate (requeue_job i) [])"
    and "\<And>c i es. cx_can cx ''jobs:write'' \<Longrightarrow> cp_destructive c \<Longrightarrow> Q c (Mutate (delete_job i) [Navigate es False])"
  shows "list_all (all_effs (calls_ok R) Q) (JobDetail cx err jb ld st)"
proof -
  have "all_effs (calls_ok R) Q (DataTable cx (attempt_props cx j) ts JdAttempts)" for j ts
    by (intro DataTable_effs) (auto simp: attempt_props_def attempt_columns_def col_def)
  moreover have "list_all (all_effs (calls_ok R) Q) (job_buttons cx j)" for j
    using assms by (auto simp: job_buttons_def)
  ultimately show ?thesis by (auto simp: JobDetail_def job_body_def split: option.splits)
qed

end
