(* ===== verification/Worker_Pages.thy ===== *)
theory Worker_Pages
  imports Queue_Pages
begin

text \<open>
  The worker pages: the pool (\<open>routes/workers.index.tsx\<close>) and the worker detail
  (\<open>routes/workers.$workerId.tsx\<close>). Neither makes a request besides its queries.
\<close>

definition workers_head :: "(string \<times> string) list" where
  "workers_head = head_meta ''Workers'' ''Worker pool health: heartbeats, leases, concurrency and versions.''"

definition worker_head :: "string \<Rightarrow> (string \<times> string) list" where
  "worker_head workerId = head_meta (''Worker '' @ workerId)
     (''Heartbeat, leases and recent jobs for worker '' @ workerId @ ''.'')"

section \<open>Pool\<close>

definition healthy_count :: "worker list \<Rightarrow> nat" where
  "healthy_count ws =
     length (filter (\<lambda>w. List.member [''healthy'', ''busy'', ''idle''] (worker_status_str (w_status w))) ws)"

definition expired_count :: "int \<Rightarrow> worker list \<Rightarrow> nat" where
  "expired_count now ws =
     length (filter (\<lambda>w. list_ex (\<lambda>l. num_lt (date_parse (l_expiresAt l)) (Num now)) (w_leases w)) ws)"

definition unhealthy :: "worker list option \<Rightarrow> int option" where
  "unhealthy data = map_option (\<lambda>ws. int (length ws) - int (healthy_count ws)) data"

definition nonzero_tone :: "tone \<Rightarrow> int option \<Rightarrow> tone option" where
  "nonzero_tone t v = (case v of None \<Rightarrow> None | Some n \<Rightarrow> if n \<noteq> 0 then Some t else None)"

definition since :: "int \<Rightarrow> string \<Rightarrow> jsnum" where
  "since now ts = num_sub (Num now) (date_parse ts)"

definition heartbeat_cell :: "int \<Rightarrow> worker \<Rightarrow> 'l node" where
  "heartbeat_cell now w =
     (let age = since now (w_lastHeartbeatAt w) in
      ela ''span'' (cls (if num_lt (Num 30000) age then ''text-warning'' else []))
        [Text (fmtDuration (Some age) @ '' ago'')])"

definition worker_columns :: "ctx \<Rightarrow> (worker, 'l) column list" where
  "worker_columns cx =
     (let now = useNow cx in
      [col ''id'' ''Worker ID'' (Some (SortStr w_id)) (\<lambda>w. [Mono [Text (w_id w)]]),
       col ''host'' ''Hostname'' (Some (SortStr w_hostname)) (\<lambda>w. [Mono [Text (w_hostname w)]]),
       col ''st'' ''Status'' (Some (SortStr (\<lambda>w. worker_status_str (w_status w)))) (\<lambda>w. [StatusBadge (SWorker (w_status w))]),
       col ''hb'' ''Last heartbeat'' (Some (SortStr w_lastHeartbeatAt)) (\<lambda>w. [heartbeat_cell now w]),
       col_right ''lc'' ''Leases'' (Some (SortNum (\<lambda>w. Num (w_leaseCount w)))) (\<lambda>w. [Text (int_str (w_leaseCount w))]),
       col_right ''jp'' ''Processing'' (Some (SortNum (\<lambda>w. Num (w_jobsProcessing w))))
         (\<lambda>w. [Text (int_str (w_jobsProcessing w) @ ''/'' @ int_str (w_concurrency w))]),
       col ''sa'' ''Started at'' (Some (SortStr w_startedAt)) (\<lambda>w. [TimeAgo cx (Some (w_startedAt w)) False]),
       col_right ''up'' ''Uptime'' (Some (SortNum (\<lambda>w. num_neg (date_parse (w_startedAt w)))))
         (\<lambda>w. [Text (fmtDuration (Some (since now (w_startedAt w))))]),
       col ''v'' ''Version'' (Some (SortStr w_version)) (\<lambda>w. [Mono [Text (w_version w)]])])"

definition workers_props :: "ctx \<Rightarrow> worker list option \<Rightarrow> (worker, 'l) table_props" where
  "workers_props cx data =
     (table_defaults data (worker_columns cx) w_id)
       \<lparr>tp_onRowClick := Some (\<lambda>w. [Navigate (worker_path (w_id w)) False]),
        tp_rowClassName := Some (\<lambda>w. if w_status w = WsStale \<or> w_status w = WsDisconnected then Some ''bg-warning/5'' else None)\<rparr>"

definition WorkersList :: "ctx \<Rightarrow> worker list option \<Rightarrow> table_state \<Rightarrow> table_action node list" where
  "WorkersList cx data st =
     (let now = useNow cx; expired = map_option (\<lambda>ws. int (expired_count now ws)) data in
      [PageHeader [Text ''Workers'']
         [Text ''Heartbeat older than 30s marks a worker stale; its leases are reclaimed on expiry.''] [] [],
       el ''div''
         [StatCard cx ''Active'' (map_option (\<lambda>ws. SvNum (int (length ws))) data) None None None,
          StatCard cx ''Healthy'' (map_option (\<lambda>ws. SvNum (int (healthy_count ws))) data) (Some TSuccess) None None,
          StatCard cx ''Unhealthy'' (map_option SvNum (unhealthy data)) (nonzero_tone TWarning (unhealthy data)) None None,
          StatCard cx ''Expired leases'' (map_option SvNum expired) (nonzero_tone TDanger expired) None None,
          StatCard cx ''Jobs processing''
            (map_option (\<lambda>ws. SvNum (foldl (\<lambda>a w. a + w_jobsProcessing w) 0 ws)) data) (Some TInfo) None None],
       Section [Text ''Worker pool''] [] True [DataTable cx (workers_props cx data) st id]])"

section \<open>Detail\<close>

datatype worker_action = WdLeases table_action | WdRecent table_action

fun worker_update :: "worker_action \<Rightarrow> table_state \<times> table_state \<Rightarrow> table_state \<times> table_state" where
  "worker_update (WdLeases a) (l, r) = (table_update a l, r)"
| "worker_update (WdRecent a) (l, r) = (l, table_update a r)"

definition lease_expiry_cell :: "int \<Rightarrow> lease \<Rightarrow> 'l node" where
  "lease_expiry_cell now l =
     (let r = num_sub (date_parse (l_expiresAt l)) (Num now) in
      if num_le r (Num 0) then el ''span'' [Text (''expired '' @ fmtDuration (Some (num_neg r)) @ '' ago'')]
      else el ''span'' [Text (''in '' @ fmtDuration (Some r))])"

definition leases_props :: "ctx \<Rightarrow> worker \<Rightarrow> (lease, 'l) table_props" where
  "leases_props cx w =
     (let now = useNow cx in
      (table_defaults (Some (w_leases w))
        [col ''j'' ''Job ID'' None (\<lambda>l. [JobId (l_jobId l) False True]),
         col ''q'' ''Queue'' None (\<lambda>l. [Mono [Text (l_queue l)]]),
         col ''t'' ''Task'' None (\<lambda>l. [Mono [Text (l_task l)]]),
         col ''l'' ''Lease ID'' None (\<lambda>l. [Mono [Text (l_leaseId l)]]),
         col ''a'' ''Acquired'' None (\<lambda>l. [TimeAgo cx (Some (l_acquiredAt l)) False]),
         col_right ''e'' ''Expires'' None (\<lambda>l. [lease_expiry_cell now l])] l_leaseId)
       \<lparr>tp_emptyTitle := ''No active leases'',
        tp_rowClassName := Some (\<lambda>l. if num_lt (date_parse (l_expiresAt l)) (Num now) then Some ''bg-destructive/5'' else None)\<rparr>)"

definition recent_jobs_props :: "ctx \<Rightarrow> worker \<Rightarrow> (recent_job, 'l) table_props" where
  "recent_jobs_props cx w =
     (table_defaults (Some (w_recentJobs w))
        [col ''j'' ''Job ID'' None (\<lambda>r. [JobId (rj_jobId r) False True]),
         col ''q'' ''Queue'' None (\<lambda>r. [Mono [Text (rj_queue r)]]),
         col ''s'' ''Status'' None (\<lambda>r. [StatusBadge (SJob (rj_status r))]),
         col_right ''d'' ''Duration'' None (\<lambda>r. [Text (fmtDuration (map_option Num (rj_durationMs r)))]),
         col ''f'' ''Finished'' None (\<lambda>r. [TimeAgo cx (rj_finishedAt r) False])] rj_jobId)
      \<lparr>tp_emptyTitle := ''No recent jobs''\<rparr>"

definition worker_info :: "ctx \<Rightarrow> worker \<Rightarrow> 'l node" where
  "worker_info cx w =
     KV [(''hostname'', Some (Text (w_hostname w))), (''version'', Some (Text (w_version w))),
         (''concurrency'', Some (Text (int_str (w_concurrency w)))),
         (''jobs_processing'', Some (Text (int_str (w_jobsProcessing w) @ '' / '' @ int_str (w_concurrency w)))),
         (''lease_count'', Some (Text (int_str (w_leaseCount w)))),
         (''started_at'', Some (TimeAgo cx (Some (w_startedAt w)) False)),
         (''uptime'', Some (Text (fmtDuration (Some (since (useNow cx) (w_startedAt w)))))),
         (''last_heartbeat_at'', Some (TimeAgo cx (Some (w_lastHeartbeatAt w)) False))]"

definition WorkerDetail ::
  "ctx \<Rightarrow> req_error option \<Rightarrow> worker option \<Rightarrow> table_state \<Rightarrow> table_state \<Rightarrow> worker_action node list" where
  "WorkerDetail cx error wk lt rt =
     (case error of
        Some err \<Rightarrow> [EmptyState ''Worker not found'' (Some (err_message err))]
      | None \<Rightarrow>
          (case wk of
             None \<Rightarrow> [el ''div'' []]
           | Some w \<Rightarrow>
               let hbAge = since (useNow cx) (w_lastHeartbeatAt w) in
               [el ''div'' [link ''/workers'' [] [] [Text ''Workers''], Text '' / '', Mono [Text (w_id w)]],
                PageHeader [Mono [Text (w_id w)], Text '' '', StatusBadge (SWorker (w_status w))] []
                  [ela ''div'' (cls (if num_lt (Num 30000) hbAge then ''tone-warning'' else ''tone-success''))
                     [el ''div'' [Text ''Since last heartbeat''], el ''div'' [Text (fmtDuration (Some hbAge))]]]
                  [Mono [Text (w_hostname w)]],
                el ''div''
                  [Section [Text ''Info''] [] False [worker_info cx w],
                   Section [Text (''Current leases ('' @ nat_str (length (w_leases w)) @ '')'')] [] True
                     [DataTable cx (leases_props cx w) lt WdLeases],
                   Section [Text ''Recent jobs''] [] True [DataTable cx (recent_jobs_props cx w) rt WdRecent]]]))"

section \<open>Lemmas\<close>

lemma WorkersList_effs: "list_all (all_effs (calls_ok R) Q) (WorkersList cx data st)"
proof -
  have "all_effs (calls_ok R) Q (DataTable cx (workers_props cx data) st id)"
    by (intro DataTable_effs) (auto simp: workers_props_def worker_columns_def heartbeat_cell_def Let_def)
  then show ?thesis by (simp add: WorkersList_def Let_def)
qed

lemma WorkerDetail_effs: "list_all (all_effs (calls_ok R) Q) (WorkerDetail cx err wk lt rt)"
proof -
  have "all_effs (calls_ok R) Q (DataTable cx (leases_props cx w) lt WdLeases)" for w
    by (intro DataTable_effs) (auto simp: leases_props_def lease_expiry_cell_def Let_def)
  moreover have "all_effs (calls_ok R) Q (DataTable cx (recent_jobs_props cx w) rt WdRecent)" for w
    by (intro DataTable_effs) (auto simp: recent_jobs_props_def)
  moreover have "all_effs (calls_ok R) Q (worker_info cx w :: worker_action node)" for w
    by (simp add: worker_info_def)
  ultimately show ?thesis by (auto simp: WorkerDetail_def Let_def split: option.splits)
qed

section \<open>Properties\<close>

text \<open>
  The health cards add up: every worker counts as healthy or unhealthy, never both, and the
  unhealthy ones are exactly those whose status is stale or disconnected.
\<close>

theorem worker_health_adds_up:
  "int (healthy_count ws) + the (unhealthy (Some ws)) = int (length ws)
   \<and> the (unhealthy (Some ws)) =
       int (length (filter (\<lambda>w. w_status w = WsStale \<or> w_status w = WsDisconnected) ws))"
proof -
  have iff: "List.member [''healthy'', ''busy'', ''idle''] (worker_status_str s) \<longleftrightarrow> \<not> (s = WsStale \<or> s = WsDisconnected)" for s
    by (cases s) simp_all
  have "length (filter (\<lambda>w. w_status w = WsStale \<or> w_status w = WsDisconnected) ws) + healthy_count ws = length ws"
    unfolding healthy_count_def iff by (rule sum_length_filter_compl)
  then show ?thesis by (simp add: unhealthy_def)
qed

end
