(* ===== verification/Rendering.thy ===== *)
theory Rendering
  imports Job_Pages Worker_Pages
begin

text \<open>
  Which pages can be rendered. A page breaks when it contains \<open>Throw\<close>: the time labels throw on a
  timestamp that is no date. The theory shows that the pages are well typed in this sense: valid
  timestamps in the data are enough, whatever else the data, the preferences and the state are.
\<close>

section \<open>Renderable nodes\<close>

fun renders :: "'l node \<Rightarrow> bool" where
  "renders (Text s) = True"
| "renders (Elem tag attrs hs kids) = list_all renders kids"
| "renders (ConfirmDialog c tr effs) = renders tr"
| "renders (Throw s) = False"

definition dated :: "string option \<Rightarrow> bool" where
  "dated ts \<longleftrightarrow> (truthy_str ts \<longrightarrow> date_parse (the ts) \<noteq> NaN)"

definition job_dated :: "job \<Rightarrow> bool" where
  "job_dated j \<longleftrightarrow>
     list_all dated [Some (j_createdAt j), j_enqueuedAt j, j_startedAt j, j_completedAt j, j_failedAt j,
       j_leaseExpiresAt j, j_nextRetryAt j]
     \<and> list_all (\<lambda>a. dated (Some (at_startedAt a)) \<and> dated (at_finishedAt a)) (nullish (j_attemptsHistory j) [])"

definition worker_dated :: "worker \<Rightarrow> bool" where
  "worker_dated w \<longleftrightarrow>
     dated (Some (w_startedAt w)) \<and> dated (Some (w_lastHeartbeatAt w))
     \<and> list_all (\<lambda>l. dated (Some (l_acquiredAt l))) (w_leases w)
     \<and> list_all (\<lambda>r. dated (rj_finishedAt r)) (w_recentJobs w)"

section \<open>Components\<close>

lemma renders_builders [simp]:
  "renders (el tag kids) = list_all renders kids"
  "renders (ela tag attrs kids) = list_all renders kids"
  "renders (button attrs effs kids) = list_all renders kids"
  "renders (link to attrs effs kids) = list_all renders kids"
  by (simp_all add: node_builders)

lemma renders_TimeAgo [simp]: "renders (TimeAgo cx ts f) = dated ts"
  by (auto simp: TimeAgo_def dated_def muted_dash_def Let_def split: jsnum.splits)

lemma renders_shared [simp]:
  "renders (StatusBadge st)" "renders (StatCard cx l sv tn to hint)" "renders (Duration ms)"
  "renders (CopyButton b v l)" "renders (JobId i fl lk)" "renders (EmptyState t d)" "renders (ErrorBlock m s co)"
  "renders muted_dash"
  by (simp_all add: shared_defs Let_def split: option.splits stat_value.splits)

lemma renders_transparent [simp]:
  "renders (PageHeader t d a m) \<longleftrightarrow>
     list_all renders t \<and> list_all renders d \<and> list_all renders a \<and> list_all renders m"
  "renders (Section t a fl ch) \<longleftrightarrow> list_all renders t \<and> list_all renders a \<and> list_all renders ch"
  "renders (Mono ch) = list_all renders ch" "renders (Toolbar ch) = list_all renders ch"
  "list_all renders (Can cx p ch) \<longleftrightarrow> (cx_can cx p \<longrightarrow> list_all renders ch)"
  by (auto simp: shared_defs Can_def)

lemma renders_controls [simp]: "renders (SearchInput v f ph)" "renders (FilterSelect v f opts l)" "renders (trigger label)"
  by (auto simp: SearchInput_def FilterSelect_def trigger_def list_all_iff)

lemma renders_KV [simp]: "renders (KV its) = list_all (\<lambda>kv. pred_option renders (snd kv)) its"
proof -
  have "renders (nullish v muted_dash) = pred_option renders v" for v :: "'a node option"
    by (cases v) simp_all
  then show ?thesis by (simp add: KV_def list_all_iff split_beta)
qed

lemma renders_BulkBar [simp]: "list_all renders (BulkBar n ch es) \<longleftrightarrow> n = 0 \<or> list_all renders ch"
  by (simp add: BulkBar_def)

lemma renders_DataTable:
  assumes "\<And>c r. c \<in> set (tp_columns tp) \<Longrightarrow> r \<in> set (nullish (tp_rows tp) []) \<Longrightarrow> list_all renders (co_cell c r)"
  shows "renders (DataTable cx tp st emb)"
proof -
  have "renders x" if "r \<in> set (view_rows tp st)" and "c \<in> set (tp_columns tp)" and "x \<in> set (co_cell c r)" for r c x
    using assms [OF that(2) view_rows_mem [OF that(1)]] that(3) by (simp add: list_all_iff)
  then have "renders (table_row tp r)" if "r \<in> set (view_rows tp st)" for r
    using that by (auto simp: table_row_def Let_def list_all_iff cond_def)
  then have "renders (table_body tp st)" by (auto simp: table_body_def list_all_iff)
  moreover have "renders (table_head tp st emb)"
    by (auto simp: table_head_def sort_header_def list_all_iff cond_def split: option.splits)
  ultimately show ?thesis
    by (auto simp: DataTable_def pager_def Let_def list_all_iff split: option.splits)
qed

lemma renders_tree [simp]: "renders (tree_node st emb path k v)"
proof (induction st emb path k v rule: tree_node.induct)
  case (1 st emb path k v)
  then show ?case
    by (subst tree_node.simps)
      (auto simp: scalar_node_def node_button_def key_el_def list_all_iff split: option.splits)
qed

lemma renders_JsonViewer [simp]: "renders (JsonViewer st emb val)"
  by (simp add: JsonViewer_def Let_def)

section \<open>Pages\<close>

lemma renders_DlqPage:
  assumes "list_all (\<lambda>d. dated (Some (d_failedAt d))) (nullish data [])"
  shows "list_all renders (DlqPage cx data st)"
proof -
  have "renders (DataTable cx (dlq_props cx data st) ts DpTable)" for ts
    using assms
    by (intro renders_DataTable; cases data)
      (auto simp: dlq_props_def dlq_columns_def dlq_actions_def dlq_rows_def list_all_iff col_def col_right_def
        split: option.splits if_splits)
  moreover have "list_all renders (dlq_bulk cx st)"
    by (simp add: dlq_bulk_def Let_def)
  ultimately show ?thesis by (simp add: DlqPage_def dlq_purge_button_def Let_def)
qed

lemma renders_DelayedPage:
  assumes "list_all (\<lambda>d. dated (Some (dj_scheduledFor d))) (nullish data [])"
  shows "list_all renders (DelayedPage cx data st)"
proof -
  have "renders (DelayedTable cx (map_option (delayed_rows q t) data) True ts DeTable)" for q t ts
    unfolding DelayedTable_def using assms
    by (intro renders_DataTable; cases data)
      (auto simp: delayed_props_def delayed_columns_def delayed_actions_def delayed_rows_def delay_cell_def Let_def
        list_all_iff split: option.splits if_splits)
  then show ?thesis by (simp add: DelayedPage_def)
qed

lemma renders_Timeline: "job_dated j \<Longrightarrow> renders (Timeline cx j)"
  by (auto simp: Timeline_def timeline_steps_def tl_def job_dated_def list_all_iff)

lemma renders_attempts:
  assumes "job_dated j"
  shows "renders (DataTable cx (attempt_props cx j) ts emb)"
  using assms
  by (intro renders_DataTable)
    (auto simp: attempt_props_def attempt_columns_def job_dated_def list_all_iff col_def col_right_def)

lemma renders_JobDetail:
  assumes "pred_option job_dated jb"
  shows "list_all renders (JobDetail cx err jb ld st)"
proof -
  have "renders (job_body cx j st)" if "job_dated j" for j
  proof -
    have "renders (job_overview cx j)" "renders (retry_info cx j)" "renders (lease_info cx j)"
      using that
      by (auto simp: job_overview_def retry_info_def lease_info_def job_dated_def Let_def option.pred_map option.pred_set)
    with that show ?thesis
      by (simp add: job_body_def renders_Timeline renders_attempts)
  qed
  with assms show ?thesis
    by (auto simp: JobDetail_def job_buttons_def split: option.splits)
qed

lemma renders_WorkersList:
  assumes "list_all worker_dated (nullish data [])"
  shows "list_all renders (WorkersList cx data st)"
proof -
  have "renders (DataTable cx (workers_props cx data) st id)"
    using assms
    by (intro renders_DataTable)
      (auto simp: workers_props_def worker_columns_def heartbeat_cell_def worker_dated_def list_all_iff Let_def)
  then show ?thesis by (simp add: WorkersList_def Let_def)
qed

lemma renders_WorkerDetail:
  assumes "pred_option worker_dated wk"
  shows "list_all renders (WorkerDetail cx err wk lt rt)"
proof -
  have "renders (DataTable cx (leases_props cx w) lt WdLeases)" if "worker_dated w" for w
    using that
    by (intro renders_DataTable)
      (auto simp: leases_props_def lease_expiry_cell_def worker_dated_def list_all_iff Let_def)
  moreover have "renders (DataTable cx (recent_jobs_props cx w) rt WdRecent)" if "worker_dated w" for w
    using that
    by (intro renders_DataTable) (auto simp: recent_jobs_props_def worker_dated_def list_all_iff)
  moreover have "renders (worker_info cx w)" if "worker_dated w" for w
    using that by (simp add: worker_info_def worker_dated_def)
  ultimately show ?thesis
    using assms by (auto simp: WorkerDetail_def Let_def split: option.splits)
qed

section \<open>Property\<close>

text \<open>
  (C22) Valid data renders: when the timestamps of the data are dates or absent, the pages of the
  dead-letter queue, the delayed jobs, a job, the workers and a worker contain no node that
  throws, in every state of the page, for every user and preference.
\<close>

theorem pages_render:
  assumes "list_all (\<lambda>d. dated (Some (d_failedAt d))) (nullish dlq [])"
    and "list_all (\<lambda>d. dated (Some (dj_scheduledFor d))) (nullish delayed [])"
    and "pred_option job_dated jb" and "list_all worker_dated (nullish workers [])" and "pred_option worker_dated wk"
  shows "list_all renders (DlqPage cx dlq st1) \<and> list_all renders (DelayedPage cx delayed st2)
     \<and> list_all renders (JobDetail cx err jb ld st3) \<and> list_all renders (WorkersList cx workers st4)
     \<and> list_all renders (WorkerDetail cx err wk st5 st6)"
  using assms
  by (simp_all add: renders_DlqPage renders_DelayedPage renders_JobDetail renders_WorkersList renders_WorkerDetail)

definition sample_ctx :: ctx where
  "sample_ctx = \<lparr>cx_host = sample_host, cx_prefs = prefs_defaults sample_host, cx_session = Some sample_session\<rparr>"

definition sample_worker :: worker where
  "sample_worker =
     \<lparr>w_id = ''w1'', w_hostname = ''host'', w_version = ''1'', w_status = WsHealthy, w_startedAt = ''1970-01-01T00:00:00Z'',
      w_lastHeartbeatAt = ''1970-01-01T00:00:10Z'', w_leaseCount = 0, w_jobsProcessing = 0, w_concurrency = 4,
      w_leases = [], w_recentJobs = []\<rparr>"

theorem pages_render_witness:
  "list_all renders (WorkersList sample_ctx (Some [sample_worker]) sample_table_state)
   \<and> list_all renders (WorkerDetail sample_ctx None (Some sample_worker) sample_table_state sample_table_state)"
proof -
  have "worker_dated sample_worker" by code_simp
  then show ?thesis
    using pages_render [where dlq = None and delayed = None and jb = None and workers = "Some [sample_worker]"
        and wk = "Some sample_worker" and cx = sample_ctx and err = None and ?st4.0 = sample_table_state
        and ?st5.0 = sample_table_state and ?st6.0 = sample_table_state]
    by simp
qed

end
