(* ===== verification/Server_Routes.thy ===== *)
theory Server_Routes
  imports Endpoints
begin

text \<open>
  The server side of the contract the console is written against: the route table of
  \<open>internal/httpapi/server.go\<close> with the permission each route requires, the \<open>require\<close>
  middleware, and the roles of \<open>internal/auth/rbac.go\<close>. Patterns are matched the way Go's
  \<open>ServeMux\<close> does: segment by segment on the escaped path, wildcards are unescaped. No two routes
  of the table match the same request, so the order of the table does not matter.
\<close>

section \<open>Roles and permissions\<close>

datatype role = RoleAdmin | RoleOperator | RoleViewer

definition viewer_permissions :: "string list" where
  "viewer_permissions =
     [''system:read'', ''queues:read'', ''jobs:read'', ''workers:read'', ''dlq:read'', ''delayed:read'', ''metrics:read'']"

definition operator_permissions :: "string list" where
  "operator_permissions =
     [''system:read'', ''queues:read'', ''queues:write'', ''jobs:read'', ''jobs:write'', ''workers:read'',
      ''dlq:read'', ''dlq:write'', ''delayed:read'', ''delayed:write'', ''metrics:read'']"

fun rolePermissions :: "role \<Rightarrow> string list" where
  "rolePermissions RoleViewer = viewer_permissions"
| "rolePermissions RoleOperator = operator_permissions"
| "rolePermissions RoleAdmin = operator_permissions"

text \<open>Flattened, without duplicates, sorted.\<close>

definition permissionsForRoles :: "role list \<Rightarrow> string list" where
  "permissionsForRoles roles = js_sort str_cmp (js_set (concat (map rolePermissions roles)))"

text \<open>The console knows exactly the permissions that some role grants.\<close>

lemma permissions_agree: "set Permission = (\<Union>r. set (rolePermissions r))"
proof
  show "set Permission \<subseteq> (\<Union>r. set (rolePermissions r))"
    by (intro subsetI UN_I [of RoleAdmin]) (simp_all add: Permission_def operator_permissions_def)
  show "(\<Union>r. set (rolePermissions r)) \<subseteq> set Permission"
  proof (intro UN_least)
    fix r show "set (rolePermissions r) \<subseteq> set Permission"
      by (cases r) (simp_all add: Permission_def operator_permissions_def viewer_permissions_def)
  qed
qed

section \<open>Routes\<close>

datatype access = Public | SignedIn | Needs string

datatype seg = Lit string | Wild

datatype server_handler =
    HLogin | HAuthConfig | HOIDCLogin | HOIDCCallback | HOIDCExchange | HMe | HVersion | HStats
  | HQueues | HQueue | HQueueJobs | HPauseQueue | HResumeQueue | HPurgeQueue
  | HJob | HRetryJob | HRequeueJob | HDeleteJob | HWorkers | HWorker
  | HDLQ | HPurgeDLQ | HRetryDLQ | HDeleteDLQ | HDelayed | HPromoteDelayed | HCancelDelayed | HThroughput

record route =
  rt_method :: string
  rt_pattern :: "seg list"
  rt_access :: access
  rt_handler :: server_handler

definition rt :: "string \<Rightarrow> seg list \<Rightarrow> access \<Rightarrow> server_handler \<Rightarrow> route" where
  "rt m p a hn = \<lparr>rt_method = m, rt_pattern = Lit ''api'' # p, rt_access = a, rt_handler = hn\<rparr>"

definition routes :: "route list" where
  "routes =
     [rt ''POST'' [Lit ''auth'', Lit ''login''] Public HLogin,
      rt ''GET'' [Lit ''auth'', Lit ''config''] Public HAuthConfig,
      rt ''GET'' [Lit ''auth'', Lit ''oidc'', Lit ''login''] Public HOIDCLogin,
      rt ''GET'' [Lit ''auth'', Lit ''oidc'', Lit ''callback''] Public HOIDCCallback,
      rt ''POST'' [Lit ''auth'', Lit ''oidc'', Lit ''exchange''] Public HOIDCExchange,
      rt ''GET'' [Lit ''auth'', Lit ''me''] SignedIn HMe,
      rt ''GET'' [Lit ''system'', Lit ''version''] (Needs ''system:read'') HVersion,
      rt ''GET'' [Lit ''system'', Lit ''stats''] (Needs ''system:read'') HStats,
      rt ''GET'' [Lit ''queues''] (Needs ''queues:read'') HQueues,
      rt ''GET'' [Lit ''queues'', Wild] (Needs ''queues:read'') HQueue,
      rt ''GET'' [Lit ''queues'', Wild, Lit ''jobs''] (Needs ''jobs:read'') HQueueJobs,
      rt ''POST'' [Lit ''queues'', Wild, Lit ''pause''] (Needs ''queues:write'') HPauseQueue,
      rt ''POST'' [Lit ''queues'', Wild, Lit ''resume''] (Needs ''queues:write'') HResumeQueue,
      rt ''POST'' [Lit ''queues'', Wild, Lit ''purge''] (Needs ''queues:write'') HPurgeQueue,
      rt ''GET'' [Lit ''jobs'', Wild] (Needs ''jobs:read'') HJob,
      rt ''POST'' [Lit ''jobs'', Wild, Lit ''retry''] (Needs ''jobs:write'') HRetryJob,
      rt ''POST'' [Lit ''jobs'', Wild, Lit ''requeue''] (Needs ''jobs:write'') HRequeueJob,
      rt ''DELETE'' [Lit ''jobs'', Wild] (Needs ''jobs:write'') HDeleteJob,
      rt ''GET'' [Lit ''workers''] (Needs ''workers:read'') HWorkers,
      rt ''GET'' [Lit ''workers'', Wild] (Needs ''workers:read'') HWorker,
      rt ''GET'' [Lit ''dlq''] (Needs ''dlq:read'') HDLQ,
      rt ''POST'' [Lit ''dlq'', Lit ''purge''] (Needs ''dlq:write'') HPurgeDLQ,
      rt ''POST'' [Lit ''dlq'', Wild, Lit ''retry''] (Needs ''dlq:write'') HRetryDLQ,
      rt ''DELETE'' [Lit ''dlq'', Wild] (Needs ''dlq:write'') HDeleteDLQ,
      rt ''GET'' [Lit ''delayed''] (Needs ''delayed:read'') HDelayed,
      rt ''POST'' [Lit ''delayed'', Wild, Lit ''promote''] (Needs ''delayed:write'') HPromoteDelayed,
      rt ''DELETE'' [Lit ''delayed'', Wild] (Needs ''delayed:write'') HCancelDelayed,
      rt ''GET'' [Lit ''metrics'', Lit ''throughput''] (Needs ''metrics:read'') HThroughput]"

section \<open>Matching\<close>

fun cut_query :: "string \<Rightarrow> string" where
  "cut_query [] = []"
| "cut_query (c # s) = (if c = CHR ''?'' then [] else c # cut_query s)"

fun segments :: "string \<Rightarrow> string list" where
  "segments [] = [[]]"
| "segments (c # s) =
     (if c = CHR ''/'' then [] # segments s
      else case segments s of [] \<Rightarrow> [[c]] | x # xs \<Rightarrow> (c # x) # xs)"

text \<open>A wildcard matches one non-empty segment; dot segments never reach the matcher.\<close>

fun match_segs :: "seg list \<Rightarrow> string list \<Rightarrow> string list option" where
  "match_segs [] [] = Some []"
| "match_segs (Lit l # ps) (s # ss) = (if s = l then match_segs ps ss else None)"
| "match_segs (Wild # ps) (s # ss) =
     (if s = [] \<or> s = ''.'' \<or> s = ''..'' then None
      else case (percent_decode s, match_segs ps ss) of
          (Some v, Some vs) \<Rightarrow> Some (v # vs)
        | _ \<Rightarrow> None)"
| "match_segs _ _ = None"

definition match_route :: "string \<Rightarrow> string \<Rightarrow> route \<Rightarrow> string list option" where
  "match_route meth path r =
     (if rt_method r \<noteq> meth then None
      else case segments (cut_query path) of
          [] # ss \<Rightarrow> match_segs (rt_pattern r) ss
        | _ \<Rightarrow> None)"

fun dispatch :: "route list \<Rightarrow> string \<Rightarrow> string \<Rightarrow> (route \<times> string list) option" where
  "dispatch [] meth path = None"
| "dispatch (r # rs) meth path =
     (case match_route meth path r of Some vs \<Rightarrow> Some (r, vs) | None \<Rightarrow> dispatch rs meth path)"

section \<open>The require middleware\<close>

text \<open>The permissions of the verified token, if any, and the status the middleware answers with.\<close>

datatype gate = Pass | Reject int string

fun require_access :: "access \<Rightarrow> string list option \<Rightarrow> gate" where
  "require_access Public ident = Pass"
| "require_access SignedIn ident = (if ident = None then Reject 401 ''authentication required'' else Pass)"
| "require_access (Needs p) ident =
     (case ident of
        None \<Rightarrow> Reject 401 ''authentication required''
      | Some perms \<Rightarrow> if List.member perms p then Pass else Reject 403 ''insufficient permissions'')"

section \<open>The console's calls on the server\<close>

fun call_handler :: "api_call \<Rightarrow> server_handler" where
  "call_handler AuthConfigC = HAuthConfig"
| "call_handler (Login _ _) = HLogin"
| "call_handler (ExchangeOidc _) = HOIDCExchange"
| "call_handler Me = HMe"
| "call_handler Stats = HStats"
| "call_handler Queues = HQueues"
| "call_handler (Queue _) = HQueue"
| "call_handler (QueueJobs _) = HQueueJobs"
| "call_handler (JobC _) = HJob"
| "call_handler (RetryJob _) = HRetryJob"
| "call_handler (RequeueJob _) = HRequeueJob"
| "call_handler (DeleteJob _) = HDeleteJob"
| "call_handler (PauseQueue _) = HPauseQueue"
| "call_handler (ResumeQueue _) = HResumeQueue"
| "call_handler (PurgeQueue _) = HPurgeQueue"
| "call_handler Workers = HWorkers"
| "call_handler (WorkerC _) = HWorker"
| "call_handler Dlq = HDLQ"
| "call_handler (RetryDlq _) = HRetryDLQ"
| "call_handler (DeleteDlq _) = HDeleteDLQ"
| "call_handler PurgeDlq = HPurgeDLQ"
| "call_handler Delayed = HDelayed"
| "call_handler (PromoteDelayed _) = HPromoteDelayed"
| "call_handler (CancelDelayed _) = HCancelDelayed"
| "call_handler (Throughput _ _) = HThroughput"
| "call_handler Version = HVersion"

text \<open>The path parameters of a call.\<close>

fun call_args :: "api_call \<Rightarrow> string list" where
  "call_args (Queue n) = [n]"
| "call_args (QueueJobs n) = [n]"
| "call_args (JobC i) = [i]"
| "call_args (RetryJob i) = [i]"
| "call_args (RequeueJob i) = [i]"
| "call_args (DeleteJob i) = [i]"
| "call_args (PauseQueue n) = [n]"
| "call_args (ResumeQueue n) = [n]"
| "call_args (PurgeQueue n) = [n]"
| "call_args (WorkerC i) = [i]"
| "call_args (RetryDlq i) = [i]"
| "call_args (DeleteDlq i) = [i]"
| "call_args (PromoteDelayed i) = [i]"
| "call_args (CancelDelayed i) = [i]"
| "call_args _ = []"

definition addressable :: "string \<Rightarrow> bool" where
  "addressable s \<longleftrightarrow> s \<noteq> [] \<and> s \<noteq> ''.'' \<and> s \<noteq> ''..''"

text \<open>What the server requires for a call, read off the table.\<close>

definition required_access :: "api_call \<Rightarrow> access" where
  "required_access c = rt_access (the (find (\<lambda>r. rt_handler r = call_handler c) routes))"

section \<open>Lemmas\<close>

lemma cut_query_plain: "CHR ''?'' \<notin> set a \<Longrightarrow> cut_query (a @ s) = a @ cut_query s"
  by (induction a) auto

lemma segments_nonempty [simp]: "segments s \<noteq> []"
  by (cases s) (auto split: list.splits)

lemma segments_plain:
  "CHR ''/'' \<notin> set a \<Longrightarrow> segments (a @ s) = (a @ hd (segments s)) # tl (segments s)"
proof (induction a)
  case Nil
  then show ?case by simp
qed (auto split: list.splits)

lemma encoded_cut: "cut_query (encodeURIComponent n @ s) = encodeURIComponent n @ cut_query s"
  "cut_query (encodeURIComponent n) = encodeURIComponent n"
  using cut_query_plain [of "encodeURIComponent n" s] cut_query_plain [of "encodeURIComponent n" "[]"] by simp_all

lemma encoded_segments:
  "segments (encodeURIComponent n @ CHR ''/'' # s) = encodeURIComponent n # segments s"
  "segments (encodeURIComponent n) = [encodeURIComponent n]"
  using segments_plain [of "encodeURIComponent n" "CHR ''/'' # s"] segments_plain [of "encodeURIComponent n" "[]"]
  by simp_all

lemma encode_dot: "encodeURIComponent ''.'' = ''.''" "encodeURIComponent ''..'' = ''..''"
  by code_simp+

lemma encode_addressable [simp]:
  "addressable n \<Longrightarrow> encodeURIComponent n \<noteq> ''.''" "addressable n \<Longrightarrow> encodeURIComponent n \<noteq> ''..''"
  "addressable n \<Longrightarrow> n \<noteq> []"
  using inj_encodeURIComponent encode_dot by (metis addressable_def)+

lemma match_encoded [simp]:
  "addressable n \<Longrightarrow> match_segs (Wild # ps) (encodeURIComponent n # ss) = map_option ((#) n) (match_segs ps ss)"
  by (auto simp: percent_decode_encode split: option.splits)

lemma dispatch_some: "dispatch rs m p = Some (r, vs) \<Longrightarrow> r \<in> set rs \<and> match_route m p r = Some vs"
  by (induction rs) (auto split: option.splits)

lemmas match_static = match_segs.simps(1,2,4-)

text \<open>Routing on the segments of the path.\<close>

fun first_match :: "route list \<Rightarrow> string \<Rightarrow> string list \<Rightarrow> (route \<times> string list) option" where
  "first_match [] meth ss = None"
| "first_match (r # rs) meth ss =
     (if rt_method r \<noteq> meth then first_match rs meth ss
      else case match_segs (rt_pattern r) ss of Some vs \<Rightarrow> Some (r, vs) | None \<Rightarrow> first_match rs meth ss)"

lemma dispatch_segments:
  "segments (cut_query path) = [] # ss \<Longrightarrow> dispatch rs meth path = first_match rs meth ss"
  by (induction rs) (auto simp: match_route_def split: option.splits)

lemma first_match_rt:
  "first_match (rt m p a hn # rs) meth (''api'' # ss) =
     (if m \<noteq> meth then first_match rs meth (''api'' # ss)
      else case match_segs p ss of Some vs \<Rightarrow> Some (rt m p a hn, vs) | None \<Rightarrow> first_match rs meth (''api'' # ss))"
  by (simp add: rt_def split: option.split)

fun call_segments :: "api_call \<Rightarrow> string list" where
  "call_segments AuthConfigC = [''auth'', ''config'']"
| "call_segments (Login _ _) = [''auth'', ''login'']"
| "call_segments (ExchangeOidc _) = [''auth'', ''oidc'', ''exchange'']"
| "call_segments Me = [''auth'', ''me'']"
| "call_segments Stats = [''system'', ''stats'']"
| "call_segments Queues = [''queues'']"
| "call_segments (Queue n) = [''queues'', encodeURIComponent n]"
| "call_segments (QueueJobs n) = [''queues'', encodeURIComponent n, ''jobs'']"
| "call_segments (JobC i) = [''jobs'', encodeURIComponent i]"
| "call_segments (RetryJob i) = [''jobs'', encodeURIComponent i, ''retry'']"
| "call_segments (RequeueJob i) = [''jobs'', encodeURIComponent i, ''requeue'']"
| "call_segments (DeleteJob i) = [''jobs'', encodeURIComponent i]"
| "call_segments (PauseQueue n) = [''queues'', encodeURIComponent n, ''pause'']"
| "call_segments (ResumeQueue n) = [''queues'', encodeURIComponent n, ''resume'']"
| "call_segments (PurgeQueue n) = [''queues'', encodeURIComponent n, ''purge'']"
| "call_segments Workers = [''workers'']"
| "call_segments (WorkerC i) = [''workers'', encodeURIComponent i]"
| "call_segments Dlq = [''dlq'']"
| "call_segments (RetryDlq i) = [''dlq'', encodeURIComponent i, ''retry'']"
| "call_segments (DeleteDlq i) = [''dlq'', encodeURIComponent i]"
| "call_segments PurgeDlq = [''dlq'', ''purge'']"
| "call_segments Delayed = [''delayed'']"
| "call_segments (PromoteDelayed i) = [''delayed'', encodeURIComponent i, ''promote'']"
| "call_segments (CancelDelayed i) = [''delayed'', encodeURIComponent i]"
| "call_segments (Throughput _ _) = [''metrics'', ''throughput'']"
| "call_segments Version = [''system'', ''version'']"

lemma segments_call: "segments (cut_query (''/api'' @ api_path c)) = [] # ''api'' # call_segments c"
  by (cases c) (simp_all add: encoded_cut encoded_segments)

lemma rt_simps [simp]: "rt_handler (rt m p a hn) = hn" "rt_access (rt m p a hn) = a"
  by (simp_all add: rt_def)

lemma encode_purge: "encodeURIComponent x = ''purge'' \<longleftrightarrow> x = ''purge''"
proof -
  have "encodeURIComponent ''purge'' = ''purge''" by code_simp
  then show ?thesis by (metis inj_encodeURIComponent)
qed

lemmas routing = routes_def first_match_rt

lemma routed_get:
  "api_method c = ''GET'' \<Longrightarrow> list_all addressable (call_args c) \<Longrightarrow>
   \<exists>r. first_match routes ''GET'' (''api'' # call_segments c) = Some (r, call_args c) \<and> rt_handler r = call_handler c"
  by (cases c) (simp_all add: routing del: first_match.simps(2) match_segs.simps(3))

lemma routed_post:
  "api_method c = ''POST'' \<Longrightarrow> list_all addressable (call_args c) \<Longrightarrow>
   \<exists>r. first_match routes ''POST'' (''api'' # call_segments c) = Some (r, call_args c) \<and> rt_handler r = call_handler c"
  by (cases c) (simp_all add: routing del: first_match.simps(2) match_segs.simps(3),
     simp add: encode_purge)

lemma routed_delete:
  "api_method c = ''DELETE'' \<Longrightarrow> list_all addressable (call_args c) \<Longrightarrow>
   \<exists>r. first_match routes ''DELETE'' (''api'' # call_segments c) = Some (r, call_args c) \<and> rt_handler r = call_handler c"
  by (cases c) (simp_all add: routing del: first_match.simps(2) match_segs.simps(3))

lemma api_methods: "api_method c = ''GET'' \<or> api_method c = ''POST'' \<or> api_method c = ''DELETE''"
  by (cases c) simp_all

lemma first_match_mem: "first_match rs m ss = Some (r, vs) \<Longrightarrow> r \<in> set rs"
  by (induction rs) (auto split: if_splits option.splits)

lemma distinct_handlers: "distinct (map rt_handler routes)"
  by (simp add: routes_def)

lemma find_distinct: "distinct (map f xs) \<Longrightarrow> x \<in> set xs \<Longrightarrow> find (\<lambda>y. f y = f x) xs = Some x"
  by (induction xs) (auto simp: rev_image_eqI)

fun call_access :: "api_call \<Rightarrow> access" where
  "call_access AuthConfigC = Public"
| "call_access (Login _ _) = Public"
| "call_access (ExchangeOidc _) = Public"
| "call_access Me = SignedIn"
| "call_access Stats = Needs ''system:read''"
| "call_access Version = Needs ''system:read''"
| "call_access Queues = Needs ''queues:read''"
| "call_access (Queue _) = Needs ''queues:read''"
| "call_access (QueueJobs _) = Needs ''jobs:read''"
| "call_access (PauseQueue _) = Needs ''queues:write''"
| "call_access (ResumeQueue _) = Needs ''queues:write''"
| "call_access (PurgeQueue _) = Needs ''queues:write''"
| "call_access (JobC _) = Needs ''jobs:read''"
| "call_access (RetryJob _) = Needs ''jobs:write''"
| "call_access (RequeueJob _) = Needs ''jobs:write''"
| "call_access (DeleteJob _) = Needs ''jobs:write''"
| "call_access Workers = Needs ''workers:read''"
| "call_access (WorkerC _) = Needs ''workers:read''"
| "call_access Dlq = Needs ''dlq:read''"
| "call_access (RetryDlq _) = Needs ''dlq:write''"
| "call_access (DeleteDlq _) = Needs ''dlq:write''"
| "call_access PurgeDlq = Needs ''dlq:write''"
| "call_access Delayed = Needs ''delayed:read''"
| "call_access (PromoteDelayed _) = Needs ''delayed:write''"
| "call_access (CancelDelayed _) = Needs ''delayed:write''"
| "call_access (Throughput _ _) = Needs ''metrics:read''"

lemma required_access_eq: "required_access c = call_access c"
  by (cases c) (simp_all add: required_access_def routes_def)

section \<open>Properties\<close>

text \<open>
  (C9) Every call of the console reaches the handler it is meant for: with names and ids that are not
  empty or dot segments, whatever other characters they contain, the server's router picks the
  route of that operation and hands it exactly the name or id the console was given.
\<close>

theorem every_call_routed:
  assumes "list_all addressable (call_args c)"
  shows "\<exists>r. dispatch routes (api_method c) (''/api'' @ api_path c) = Some (r, call_args c)
     \<and> rt_handler r = call_handler c \<and> rt_access r = required_access c"
proof -
  obtain r where r: "first_match routes (api_method c) (''api'' # call_segments c) = Some (r, call_args c)"
      "rt_handler r = call_handler c"
    using api_methods [of c] routed_get [of c] routed_post [of c] routed_delete [of c] assms by metis
  then have "required_access c = rt_access r"
    using find_distinct [OF distinct_handlers first_match_mem [OF r(1)]] by (simp add: required_access_def)
  with r show ?thesis using dispatch_segments [OF segments_call] by simp
qed

theorem every_call_routed_witness:
  "\<exists>r. dispatch routes ''POST'' (''/api'' @ api_path (PauseQueue ''a/b'')) = Some (r, [''a/b'']) \<and> rt_handler r = HPauseQueue"
  using every_call_routed [of "PauseQueue ''a/b''"] by (auto simp: addressable_def)

end
