(* ===== verification/Route_Tree.thy ===== *)
theory Route_Tree
  imports Rendering App_Shell Server_Routes
begin

text \<open>
  The route tree of the console (\<open>routeTree.gen.ts\<close>): the file routes with their paths, and the check that
  the console's own links lead somewhere. How the router matches an address is third-party; the
  theory only uses what a link is: a path of the tree with its parameters filled in. \<open>leads_to\<close> gives the
  routes a path is an instance of.
\<close>

section \<open>The tree\<close>

datatype route_page =
    IndexRoute | ConnectionRoute | DelayedRoute | DlqRoute | LoginRoute | MetricsRoute | SettingsRoute
  | JobsJobIdRoute | QueuesQueueNameRoute | WorkersWorkerIdRoute | QueuesIndexRoute | WorkersIndexRoute

text \<open>The \<open>id\<close> and \<open>path\<close> each imported route is updated with; the parent is the root route throughout.\<close>

record route_update =
  ru_id :: string
  ru_path :: string

fun update :: "route_page \<Rightarrow> route_update" where
  "update IndexRoute = \<lparr>ru_id = ''/'', ru_path = ''/''\<rparr>"
| "update ConnectionRoute = \<lparr>ru_id = ''/connection'', ru_path = ''/connection''\<rparr>"
| "update DelayedRoute = \<lparr>ru_id = ''/delayed'', ru_path = ''/delayed''\<rparr>"
| "update DlqRoute = \<lparr>ru_id = ''/dlq'', ru_path = ''/dlq''\<rparr>"
| "update LoginRoute = \<lparr>ru_id = ''/login'', ru_path = ''/login''\<rparr>"
| "update MetricsRoute = \<lparr>ru_id = ''/metrics'', ru_path = ''/metrics''\<rparr>"
| "update SettingsRoute = \<lparr>ru_id = ''/settings'', ru_path = ''/settings''\<rparr>"
| "update JobsJobIdRoute = \<lparr>ru_id = ''/jobs/$jobId'', ru_path = ''/jobs/$jobId''\<rparr>"
| "update QueuesIndexRoute = \<lparr>ru_id = ''/queues/'', ru_path = ''/queues/''\<rparr>"
| "update QueuesQueueNameRoute = \<lparr>ru_id = ''/queues/$queueName'', ru_path = ''/queues/$queueName''\<rparr>"
| "update WorkersIndexRoute = \<lparr>ru_id = ''/workers/'', ru_path = ''/workers/''\<rparr>"
| "update WorkersWorkerIdRoute = \<lparr>ru_id = ''/workers/$workerId'', ru_path = ''/workers/$workerId''\<rparr>"

definition FileRoutesByFullPath :: "(string \<times> route_page) list" where
  "FileRoutesByFullPath =
     [(''/'', IndexRoute), (''/connection'', ConnectionRoute), (''/delayed'', DelayedRoute), (''/dlq'', DlqRoute),
      (''/login'', LoginRoute), (''/metrics'', MetricsRoute), (''/settings'', SettingsRoute),
      (''/jobs/$jobId'', JobsJobIdRoute), (''/queues/$queueName'', QueuesQueueNameRoute),
      (''/workers/$workerId'', WorkersWorkerIdRoute), (''/queues/'', QueuesIndexRoute), (''/workers/'', WorkersIndexRoute)]"

definition FileRoutesByTo :: "(string \<times> route_page) list" where
  "FileRoutesByTo =
     [(''/'', IndexRoute), (''/connection'', ConnectionRoute), (''/delayed'', DelayedRoute), (''/dlq'', DlqRoute),
      (''/login'', LoginRoute), (''/metrics'', MetricsRoute), (''/settings'', SettingsRoute),
      (''/jobs/$jobId'', JobsJobIdRoute), (''/queues/$queueName'', QueuesQueueNameRoute),
      (''/workers/$workerId'', WorkersWorkerIdRoute), (''/queues'', QueuesIndexRoute), (''/workers'', WorkersIndexRoute)]"

definition rootRouteChildren :: "route_page list" where
  "rootRouteChildren =
     [IndexRoute, ConnectionRoute, DelayedRoute, DlqRoute, LoginRoute, MetricsRoute, SettingsRoute, JobsJobIdRoute,
      QueuesQueueNameRoute, WorkersWorkerIdRoute, QueuesIndexRoute, WorkersIndexRoute]"

text \<open>The table by id has the root route too, here \<open>None\<close>.\<close>

definition FileRoutesById :: "(string \<times> route_page option) list" where
  "FileRoutesById =
     [(''__root__'', None),
      (''/'', Some IndexRoute),
      (''/connection'', Some ConnectionRoute),
      (''/delayed'', Some DelayedRoute),
      (''/dlq'', Some DlqRoute),
      (''/login'', Some LoginRoute),
      (''/metrics'', Some MetricsRoute),
      (''/settings'', Some SettingsRoute),
      (''/jobs/$jobId'', Some JobsJobIdRoute),
      (''/queues/$queueName'', Some QueuesQueueNameRoute),
      (''/workers/$workerId'', Some WorkersWorkerIdRoute),
      (''/queues/'', Some QueuesIndexRoute),
      (''/workers/'', Some WorkersIndexRoute)]"

record file_route_types =
  frt_fileRoutesByFullPath :: "(string \<times> route_page) list"
  frt_fullPaths :: "string list"
  frt_fileRoutesByTo :: "(string \<times> route_page) list"
  frt_to :: "string list"
  frt_id :: "string list"
  frt_fileRoutesById :: "(string \<times> route_page option) list"

definition FileRouteTypes :: file_route_types where
  "FileRouteTypes =
     \<lparr>frt_fileRoutesByFullPath = FileRoutesByFullPath,
      frt_fullPaths = [''/'', ''/connection'', ''/delayed'', ''/dlq'', ''/login'', ''/metrics'', ''/settings'', ''/jobs/$jobId'', ''/queues/$queueName'', ''/workers/$workerId'', ''/queues/'', ''/workers/''],
      frt_fileRoutesByTo = FileRoutesByTo,
      frt_to = [''/'', ''/connection'', ''/delayed'', ''/dlq'', ''/login'', ''/metrics'', ''/settings'', ''/jobs/$jobId'', ''/queues/$queueName'', ''/workers/$workerId'', ''/queues'', ''/workers''],
      frt_id = [''__root__'', ''/'', ''/connection'', ''/delayed'', ''/dlq'', ''/login'', ''/metrics'', ''/settings'', ''/jobs/$jobId'', ''/queues/$queueName'', ''/workers/$workerId'', ''/queues/'', ''/workers/''],
      frt_fileRoutesById = FileRoutesById\<rparr>"

text \<open>What the router's module declares of each file route; the parent is the root route throughout.\<close>

record file_route_entry =
  fe_id :: string
  fe_path :: string
  fe_fullPath :: string
  fe_preLoaderRoute :: route_page

definition FileRoutesByPath :: "(string \<times> file_route_entry) list" where
  "FileRoutesByPath =
     [(''/'', \<lparr>fe_id = ''/'', fe_path = ''/'', fe_fullPath = ''/'', fe_preLoaderRoute = IndexRoute\<rparr>),
      (''/connection'', \<lparr>fe_id = ''/connection'', fe_path = ''/connection'', fe_fullPath = ''/connection'', fe_preLoaderRoute = ConnectionRoute\<rparr>),
      (''/delayed'', \<lparr>fe_id = ''/delayed'', fe_path = ''/delayed'', fe_fullPath = ''/delayed'', fe_preLoaderRoute = DelayedRoute\<rparr>),
      (''/dlq'', \<lparr>fe_id = ''/dlq'', fe_path = ''/dlq'', fe_fullPath = ''/dlq'', fe_preLoaderRoute = DlqRoute\<rparr>),
      (''/login'', \<lparr>fe_id = ''/login'', fe_path = ''/login'', fe_fullPath = ''/login'', fe_preLoaderRoute = LoginRoute\<rparr>),
      (''/metrics'', \<lparr>fe_id = ''/metrics'', fe_path = ''/metrics'', fe_fullPath = ''/metrics'', fe_preLoaderRoute = MetricsRoute\<rparr>),
      (''/settings'', \<lparr>fe_id = ''/settings'', fe_path = ''/settings'', fe_fullPath = ''/settings'', fe_preLoaderRoute = SettingsRoute\<rparr>),
      (''/jobs/$jobId'', \<lparr>fe_id = ''/jobs/$jobId'', fe_path = ''/jobs/$jobId'', fe_fullPath = ''/jobs/$jobId'', fe_preLoaderRoute = JobsJobIdRoute\<rparr>),
      (''/queues/'', \<lparr>fe_id = ''/queues/'', fe_path = ''/queues'', fe_fullPath = ''/queues/'', fe_preLoaderRoute = QueuesIndexRoute\<rparr>),
      (''/queues/$queueName'', \<lparr>fe_id = ''/queues/$queueName'', fe_path = ''/queues/$queueName'', fe_fullPath = ''/queues/$queueName'', fe_preLoaderRoute = QueuesQueueNameRoute\<rparr>),
      (''/workers/'', \<lparr>fe_id = ''/workers/'', fe_path = ''/workers'', fe_fullPath = ''/workers/'', fe_preLoaderRoute = WorkersIndexRoute\<rparr>),
      (''/workers/$workerId'', \<lparr>fe_id = ''/workers/$workerId'', fe_path = ''/workers/$workerId'', fe_fullPath = ''/workers/$workerId'', fe_preLoaderRoute = WorkersWorkerIdRoute\<rparr>)]"

text \<open>
  The tree handed to the router: the root with the children, each with the id and path of its update, and the
  declared types.
\<close>

record route_tree =
  rt_children :: "(route_page \<times> route_update) list"
  rt_types :: file_route_types

definition routeTree :: route_tree where
  "routeTree = \<lparr>rt_children = map (\<lambda>r. (r, update r)) rootRouteChildren, rt_types = FileRouteTypes\<rparr>"

section \<open>Links\<close>

definition seg_fits :: "string \<Rightarrow> string \<Rightarrow> bool" where
  "seg_fits pat s = (case pat of c # _ \<Rightarrow> if c = CHR ''$'' then s \<noteq> [] else s = pat | [] \<Rightarrow> s = [])"

definition route_fits :: "string \<Rightarrow> string \<Rightarrow> bool" where
  "route_fits pat path = list_all2 seg_fits (segments pat) (segments path)"

definition leads_to :: "string \<Rightarrow> route_page list" where
  "leads_to path = map snd (filter (\<lambda>e. route_fits (fst e) path) FileRoutesByTo)"

text \<open>Every navigation an effect can make leads to one route of the tree.\<close>

fun nav_ok :: "'l eff \<Rightarrow> bool" where
  "nav_ok (Navigate p r) = (length (leads_to p) = 1)"
| "nav_ok (Mutate m es) = list_all nav_ok es"
| "nav_ok _ = True"

definition links_ok :: "'l node \<Rightarrow> bool" where
  "links_ok = all_effs nav_ok (\<lambda>c. nav_ok)"

section \<open>Lemmas\<close>

text \<open>The tables name the same routes in the same order, and every route is a child of the root once.\<close>

lemma tables_agree:
  "map snd FileRoutesByFullPath = rootRouteChildren" "map snd FileRoutesByTo = rootRouteChildren"
  "list_all (\<lambda>(p, r). ru_path (update r) = p) FileRoutesByFullPath"
  "distinct (map fst FileRoutesByTo)" "distinct rootRouteChildren"
  by code_simp+

text \<open>
  What the types declare is what the tree holds: the unions of the types are the keys of the tables, every id and full path
  belongs to the route updated with it, and a declared path is the route's but for the slash at the end of an index route.
\<close>

lemma types_match_tree:
  "frt_fullPaths FileRouteTypes = map fst FileRoutesByFullPath" "frt_to FileRouteTypes = map fst FileRoutesByTo"
  "frt_id FileRouteTypes = map fst FileRoutesById" "map snd FileRoutesById = None # map Some (map fst (rt_children routeTree))"
  "list_all (\<lambda>(i, r). case r of None \<Rightarrow> i = ''__root__'' | Some r \<Rightarrow> ru_id (update r) = i) FileRoutesById"
  "set (map (fe_preLoaderRoute \<circ> snd) FileRoutesByPath) = set rootRouteChildren" "distinct (map fst FileRoutesByPath)"
  "list_all (\<lambda>(k, e). k = ru_path (update (fe_preLoaderRoute e)) \<and> fe_fullPath e = k \<and> fe_id e = ru_id (update (fe_preLoaderRoute e)) \<and>
     map_of FileRoutesByTo (fe_path e) = Some (fe_preLoaderRoute e)) FileRoutesByPath"
  by code_simp+

lemma leads_to_fixed:
  "leads_to ''/'' = [IndexRoute]" "leads_to ''/queues'' = [QueuesIndexRoute]" "leads_to ''/workers'' = [WorkersIndexRoute]"
  "leads_to ''/delayed'' = [DelayedRoute]" "leads_to ''/dlq'' = [DlqRoute]" "leads_to ''/metrics'' = [MetricsRoute]"
  "leads_to ''/settings'' = [SettingsRoute]" "leads_to ''/connection'' = [ConnectionRoute]"
  "leads_to ''/login'' = [LoginRoute]"
  by code_simp+

lemma leads_to_param:
  assumes "i \<noteq> []"
  shows "leads_to (job_path i) = [JobsJobIdRoute]" "leads_to (queue_path i) = [QueuesQueueNameRoute]"
    "leads_to (worker_path i) = [WorkersWorkerIdRoute]"
  using assms
  by (simp_all add: leads_to_def FileRoutesByTo_def route_fits_def seg_fits_def job_path_def queue_path_def worker_path_def
      encoded_segments)

lemma harmless_nav [simp]: "harmless nav_ok"
  by (simp add: harmless_def)

lemma nav_ok_paths [simp]:
  "i \<noteq> [] \<Longrightarrow> nav_ok (Navigate (job_path i) r)" "i \<noteq> [] \<Longrightarrow> nav_ok (Navigate (queue_path i) r)"
  "i \<noteq> [] \<Longrightarrow> nav_ok (Navigate (worker_path i) r)"
  "nav_ok (Navigate ''/queues'' r)" "nav_ok (Navigate ''/workers'' r)" "nav_ok (Navigate ''/delayed'' r)"
  "nav_ok (Navigate ''/dlq'' r)"
  by (simp_all add: leads_to_param leads_to_fixed)

lemma nav_ok_entries: "n \<in> set (NAV @ SYS) \<Longrightarrow> nav_ok (Navigate (nv_to n) r)"
  by (auto simp: NAV_def SYS_def nav_entry_def leads_to_fixed)

declare nav_ok.simps(1) [simp del]

text \<open>The parameters a page links to are present: no identifier is the empty string.\<close>

definition named :: "('a \<Rightarrow> string) \<Rightarrow> 'a list option \<Rightarrow> bool" where
  "named f data = list_all (\<lambda>x. f x \<noteq> []) (nullish data [])"

lemma named_mem: "named f data \<Longrightarrow> x \<in> set (nullish data []) \<Longrightarrow> f x \<noteq> []"
  by (simp add: named_def list_all_iff)

lemma named_filter: "named f data \<Longrightarrow> named f (map_option (filter P) data)"
  by (cases data) (auto simp: named_def list_all_iff)

section \<open>Pages\<close>

lemma links_JobsTable:
  assumes "named j_id jobs"
  shows "list_all links_ok (JobsTable cx jobs sq st emb)"
proof -
  have "links_ok (DataTable cx (jobs_props cx jobs sq st emb) ts e)" for ts e
    unfolding links_ok_def using named_mem [OF assms]
    by (intro DataTable_effs) (auto simp: jobs_props_def jobs_columns_def truthy_str_def split: option.splits)
  moreover have "list_all links_ok (jobs_bulk cx st emb)"
    unfolding links_ok_def jobs_bulk_def Let_def BulkBar_effs by auto
  ultimately show ?thesis by (simp add: JobsTable_def)
qed

lemma links_DelayedTable:
  assumes "named dj_jobId rows"
  shows "links_ok (DelayedTable cx rows sq st emb)"
  unfolding DelayedTable_def links_ok_def using named_mem [OF assms]
  by (intro DataTable_effs) (auto simp: delayed_props_def delayed_columns_def delay_cell_def delayed_actions_def Let_def)

lemma links_Overview:
  assumes "named q_name queues" "named w_id workers" "named d_jobId dlq"
  shows "list_all links_ok (Overview cx s tp queues workers dlq qt ft)"
proof -
  have sub: "named d_jobId (recent_failures cx dlq)"
    using assms(3) by (cases dlq) (auto simp: named_def recent_failures_def list_all_iff dest!: in_set_takeD)
  have "links_ok (DataTable cx (overview_queues cx queues) qt OvQueues)"
    unfolding links_ok_def using named_mem [OF assms(1)]
    by (intro DataTable_effs) (auto simp: overview_queues_def overview_columns_def overview_action_cell_def)
  moreover have "links_ok (DataTable cx (recent_props cx dlq) ft OvRecent)"
    unfolding links_ok_def using named_mem [OF sub]
    by (intro DataTable_effs) (auto simp: recent_props_def recent_columns_def col_def)
  ultimately show ?thesis
    using named_mem [OF assms(2)]
    by (auto simp: Overview_def links_ok_def overview_stats_def health_cell_def overview_worker_def Let_def list_all_iff)
qed

lemma links_QueuesList:
  assumes "named q_name data"
  shows "list_all links_ok (QueuesList cx data st)"
proof -
  have sub: "named q_name (map_option (queues_rows q s) data)" for q s
    using named_filter [OF assms] by (simp add: queues_rows_def [abs_def])
  have "links_ok (DataTable cx (queues_props cx (map_option (queues_rows q s) data)) ts QlTable)" for q s ts
    unfolding links_ok_def using named_mem [OF sub]
    by (intro DataTable_effs) (auto simp: queues_props_def queues_columns_def queues_action_cell_def)
  then show ?thesis by (simp add: QueuesList_def links_ok_def list_all_iff)
qed

lemma links_QueueDetail:
  assumes "named j_id jobs" "named dj_jobId delayed"
  shows "list_all links_ok (QueueDetail cx n err q jobs delayed tp st)"
proof -
  have "named j_id (map_option queue_failures jobs)"
    using named_filter [OF assms(1)] by (simp add: queue_failures_def [abs_def])
  then have "links_ok (queue_tabs cx jobs (map_option (filter P) delayed) tp st)" for P
    using assms named_filter [OF assms(2), of P]
    by (auto simp: queue_tabs_def tab_trigger_def links_ok_def split: queue_tab.splits
        intro!: links_JobsTable [unfolded links_ok_def] links_DelayedTable [unfolded links_ok_def])
  then show ?thesis
    by (auto simp: QueueDetail_def links_ok_def queue_buttons_def queue_cards_def Let_def split: option.splits)
qed

lemma links_DlqPage:
  assumes "named d_jobId data"
  shows "list_all links_ok (DlqPage cx data st)"
proof -
  have sub: "named d_jobId (map_option (dlq_rows q s) data)" for q s
    using named_filter [OF assms] by (simp add: dlq_rows_def [abs_def])
  have "links_ok (DataTable cx (dlq_props cx data st) ts DpTable)" for ts
    unfolding links_ok_def using named_mem [OF sub]
    by (intro DataTable_effs) (auto simp: dlq_props_def dlq_columns_def dlq_actions_def col_def)
  moreover have "list_all links_ok (dlq_bulk cx st)"
    unfolding dlq_bulk_def Let_def links_ok_def BulkBar_effs by auto
  ultimately show ?thesis
    by (simp add: DlqPage_def dlq_purge_button_def links_ok_def Let_def)
qed

lemma links_DelayedPage:
  assumes "named dj_jobId data"
  shows "list_all links_ok (DelayedPage cx data st)"
proof -
  have "named dj_jobId (map_option (delayed_rows q s) data)" for q s
    using named_filter [OF assms] by (simp add: delayed_rows_def [abs_def])
  then show ?thesis
    by (simp add: DelayedPage_def links_ok_def links_DelayedTable [unfolded links_ok_def])
qed

lemma links_JobDetail:
  assumes "pred_option (\<lambda>j. j_queue j \<noteq> []) jb"
  shows "list_all links_ok (JobDetail cx err jb ld st)"
proof -
  have "links_ok (DataTable cx (attempt_props cx j) ts JdAttempts)" for j ts
    unfolding links_ok_def by (intro DataTable_effs) (auto simp: attempt_props_def attempt_columns_def col_def)
  moreover have "links_ok (job_overview cx j :: job_action node)" for j
    by (auto simp: job_overview_def links_ok_def option.pred_set)
  moreover have "links_ok (retry_info cx j :: job_action node)" "links_ok (lease_info cx j :: job_action node)"
    "links_ok (Timeline cx j :: job_action node)" for j
    by (auto simp: retry_info_def lease_info_def Timeline_def links_ok_def option.pred_set list_all_iff Let_def)
  ultimately show ?thesis
    using assms by (auto simp: JobDetail_def job_body_def job_buttons_def links_ok_def split: option.splits)
qed

lemma links_WorkersList:
  assumes "named w_id data"
  shows "list_all links_ok (WorkersList cx data st)"
proof -
  have "links_ok (DataTable cx (workers_props cx data) st id)"
    unfolding links_ok_def using named_mem [OF assms]
    by (intro DataTable_effs) (auto simp: workers_props_def worker_columns_def heartbeat_cell_def Let_def)
  then show ?thesis by (simp add: WorkersList_def links_ok_def Let_def)
qed

lemma links_WorkerDetail:
  assumes "pred_option (\<lambda>w. named l_jobId (Some (w_leases w)) \<and> named rj_jobId (Some (w_recentJobs w))) wk"
  shows "list_all links_ok (WorkerDetail cx err wk lt ft)"
proof -
  have "links_ok (DataTable cx (leases_props cx w) lt WdLeases)" if "named l_jobId (Some (w_leases w))" for w
    unfolding links_ok_def using named_mem [OF that]
    by (intro DataTable_effs) (auto simp: leases_props_def lease_expiry_cell_def Let_def)
  moreover have "links_ok (DataTable cx (recent_jobs_props cx w) ft WdRecent)" if "named rj_jobId (Some (w_recentJobs w))" for w
    unfolding links_ok_def using named_mem [OF that]
    by (intro DataTable_effs) (auto simp: recent_jobs_props_def)
  moreover have "links_ok (worker_info cx w :: worker_action node)" for w
    by (simp add: worker_info_def links_ok_def)
  ultimately show ?thesis
    using assms by (auto simp: WorkerDetail_def links_ok_def Let_def split: option.splits)
qed

text \<open>The shell adds the navigation, the palette and what its children link to.\<close>

lemma links_NavItem: "n \<in> set (NAV @ SYS) \<Longrightarrow> links_ok (NavItem path c n)"
  using nav_ok_entries [of n] by (simp add: NavItem_def links_ok_def Let_def)

lemma visibleNav_sub: "n \<in> set (visibleNav NAV ps) \<Longrightarrow> n \<in> set (NAV @ SYS)"
  by (simp add: visibleNav_def)

lemma links_Sidebar: "links_ok (Sidebar cx conn path c)"
proof -
  have "\<forall>n\<in>set (visibleNav NAV (session_perms (cx_session cx))). links_ok (NavItem path c n :: 'a node)"
    and "\<forall>n\<in>set SYS. links_ok (NavItem path c n :: 'a node)"
    by (auto intro!: links_NavItem dest: visibleNav_sub)
  then show ?thesis
    by (auto simp: Sidebar_def links_ok_def UserFooter_def sign_out_button_def logout_def ConnectionDot_def list_all_iff
        Let_def split: option.splits)
qed

lemma links_CommandPalette:
  assumes "named q_name queues" "named w_id workers" "named d_jobId dlq" "named dj_jobId delayed"
  shows "list_all links_ok (CommandPalette cx queues workers dlq delayed op)"
proof -
  have "\<forall>j\<in>set (palette_jobs (nullish dlq []) (nullish delayed [])). pj_id j \<noteq> []"
    using named_mem [OF assms(3)] named_mem [OF assms(4)] by (auto simp: palette_jobs_def)
  then show ?thesis
    using named_mem [OF assms(1)] named_mem [OF assms(2)] nav_ok_entries [where 'a = shell_action]
    by (auto simp: CommandPalette_def links_ok_def command_item_def list_all_iff
        dest!: visibleNav_sub)
qed

lemma links_AppShell:
  assumes "named q_name queues" "named w_id workers" "named d_jobId dlq" "named dj_jobId delayed"
  shows "links_ok (AppShell cx conn fn path queues workers dlq delayed st ch) \<longleftrightarrow> list_all links_ok ch"
proof -
  have "links_ok (Topbar cx conn fn c)" for c
    by (simp add: Topbar_def links_ok_def ConnectionDot_def Let_def THEMES_def)
  then show ?thesis
    using links_CommandPalette [OF assms]
    by (simp add: AppShell_def links_ok_def links_Sidebar [unfolded links_ok_def])
qed

section \<open>Property\<close>

text \<open>
  (C28) No dead links: when no identifier in the data is empty, every navigation that any handler of the
  pages, the side bar, the palette or a confirmed dialog can make goes to a path that fits exactly
  one route of the tree.
\<close>

theorem links_lead_somewhere:
  assumes "named q_name queues" "named w_id workers" "named d_jobId dlq" "named dj_jobId delayed" "named j_id jobs"
    and "pred_option (\<lambda>j. j_queue j \<noteq> []) jb"
    and "pred_option (\<lambda>w. named l_jobId (Some (w_leases w)) \<and> named rj_jobId (Some (w_recentJobs w))) wk"
  shows "links_ok (AppShell cx conn fn path queues workers dlq delayed sh [])
     \<and> list_all links_ok (Overview cx s tp queues workers dlq t1 t2)
     \<and> list_all links_ok (QueuesList cx queues st1) \<and> list_all links_ok (QueueDetail cx n err q jobs delayed tp st2)
     \<and> list_all links_ok (JobDetail cx err jb ld st3) \<and> list_all links_ok (DlqPage cx dlq st4)
     \<and> list_all links_ok (DelayedPage cx delayed st5) \<and> list_all links_ok (WorkersList cx workers t3)
     \<and> list_all links_ok (WorkerDetail cx err wk t4 t5)"
  using assms
  by (simp add: links_AppShell links_Overview links_QueuesList links_QueueDetail links_JobDetail links_DlqPage
      links_DelayedPage links_WorkersList links_WorkerDetail)

theorem links_lead_somewhere_witness:
  "list_all links_ok (WorkersList sample_ctx (Some [sample_worker]) sample_table_state)
   \<and> list_all links_ok (WorkerDetail sample_ctx None (Some sample_worker) sample_table_state sample_table_state)"
proof -
  have "named w_id (Some [sample_worker])" "named l_jobId (Some (w_leases sample_worker))"
    "named rj_jobId (Some (w_recentJobs sample_worker))"
    by (simp_all add: named_def sample_worker_def)
  then show ?thesis
    using links_lead_somewhere [where queues = None and workers = "Some [sample_worker]" and dlq = None and delayed = None
        and jobs = None and jb = None and wk = "Some sample_worker" and cx = sample_ctx and err = None
        and ?t3.0 = sample_table_state and ?t4.0 = sample_table_state and ?t5.0 = sample_table_state]
    by (simp add: named_def)
qed

end
