(* ===== verification/System_Pages.thy ===== *)
theory System_Pages
  imports App_Shell Charts Queue_Pages
begin

text \<open>
  The settings page (\<open>routes/settings.tsx\<close>), the connection page (\<open>routes/connection.tsx\<close>) with
  its save and test actions, and the metrics page (\<open>routes/metrics.tsx\<close>).
\<close>

definition settings_head :: "(string \<times> string) list" where
  "settings_head = head_meta ''Settings''
     ''Console preferences: theme, table density, polling interval and time format.''"

definition connection_head :: "(string \<times> string) list" where
  "connection_head = head_meta ''API / Connection''
     ''Configure the ForgeQueue gRPC Gateway base URL and check connectivity.''"

definition metrics_head :: "(string \<times> string) list" where
  "metrics_head = head_meta ''Metrics''
     ''Throughput, depth, latency, retries, DLQ growth and lease expirations over time.''"

section \<open>Settings\<close>

definition Row :: "string \<Rightarrow> string option \<Rightarrow> 'l node list \<Rightarrow> 'l node" where
  "Row label hint children =
     el ''div''
       ([el ''div'' ([el ''div'' [Text label]] @ cond (truthy_str hint) (el ''div'' [Text (the hint)]))] @ children)"

text \<open>\<open>Seg\<close> for the preference with the given text and patch.\<close>

definition Seg :: "'v \<Rightarrow> ('v \<Rightarrow> string) \<Rightarrow> ('v \<Rightarrow> prefs_patch) \<Rightarrow> 'v list \<Rightarrow> 'l node" where
  "Seg current str mk options =
     ela ''div'' [(''role'', ''radiogroup'')]
       (map (\<lambda>o'. radio (current = o') [] [SetPrefs (mk o')] [Text (str o')]) options)"

definition SettingsPage :: "ctx \<Rightarrow> unit node list" where
  "SettingsPage cx =
     (let p = cx_prefs cx in
      [PageHeader [Text ''Settings''] [Text ''Stored locally in this browser.''] [] [],
       el ''div''
         [Section [Text ''Appearance''] [] False
            [Row ''Theme'' (Some ''System follows prefers-color-scheme.'')
               [Seg (p_theme p) theme_str PTheme [Light, Dark, System]],
             Row ''Table density'' None [Seg (p_density p) density_str PDensity [Compact, Comfortable]]],
          Section [Text ''Behavior''] [] False
            [Row ''Polling interval'' (Some ''Applies to all live views.'')
               [Seg (p_autoRefresh p) auto_refresh_str PAutoRefresh [Off, R5s, R10s, R30s]],
             Row ''Relative time by default'' (Some ''Hover any timestamp for the exact value.'')
               [Elem ''Switch'' (flag ''checked'' (p_relativeTime p))
                  [OnCheckedChange (\<lambda>v. [SetPrefs (PRelativeTime v)])] []]]]])"

section \<open>Connection\<close>

record conn_page =
  cn_base :: string
  cn_version :: "string option"
  cn_testing :: bool

datatype conn_action = CnBase string | CnTest

text \<open>The synchronous part of the updates: \<open>test\<close> first sets \<open>testing\<close>.\<close>

fun conn_update :: "conn_action \<Rightarrow> conn_page \<Rightarrow> conn_page" where
  "conn_update (CnBase v) st = st\<lparr>cn_base := v\<rparr>"
| "conn_update CnTest st = st\<lparr>cn_testing := True\<rparr>"

definition conn_page_init :: "ctx \<Rightarrow> conn_page" where
  "conn_page_init cx = \<lparr>cn_base = p_apiBase (cx_prefs cx), cn_version = None, cn_testing = False\<rparr>"

text \<open>The body of \<open>test\<close> after \<open>setTesting(true)\<close>, up to the \<open>finally\<close>.\<close>

definition conn_test ::
  "host \<Rightarrow> (http_request \<Rightarrow> fetch_result) \<Rightarrow> conn_page \<Rightarrow> console \<Rightarrow> conn_page \<times> console" where
  "conn_test h fetch st w =
     (let (r, w1) = call_api h fetch Version w; done = st\<lparr>cn_testing := False\<rparr>;
          fail = (\<lambda>m. (done, show_toast (ToastError (''Connection failed: '' @ m)) w1)) in
      case r of
        Inl err \<Rightarrow> fail (err_message err)
      | Inr d \<Rightarrow>
          if is_nullish d then fail (type_msg h)
          else
            let v = js_get (the d) ''version'' in
            (done\<lparr>cn_version := map_option to_str v\<rparr>,
             show_toast (ToastSuccess (''Connected '' @ mid_dot @ '' '' @ (case v of None \<Rightarrow> ''undefined'' | Some x \<Rightarrow> to_str x))) w1))"

definition conn_save :: "conn_page \<Rightarrow> 'l eff list" where
  "conn_save st = [PreventDefault, SetPrefs (PApiBase (cn_base st)), InvalidateQueries,
     ShowToast (ToastSuccess ''API base updated'')]"

definition ConnectionPage :: "ctx \<Rightarrow> conn_state \<Rightarrow> conn_page \<Rightarrow> conn_action node list" where
  "ConnectionPage cx conn st =
     [PageHeader [Text ''API / Connection''] [Text ''HTTP/JSON via the ForgeQueue gRPC Gateway.''] [] [],
      el ''div''
        [Section [Text ''Endpoint''] [] False
           [Elem ''form'' [] [OnSubmit (conn_save st)]
              [Elem ''input'' [(''value'', cn_base st), (''aria-label'', ''API base URL'')]
                 [OnChange (\<lambda>v. [Local (CnBase v)])] [],
               ela ''button'' [(''type'', ''submit'')] [Text ''Save''],
               button ((''type'', ''button'') # flag ''disabled'' (cn_testing st)) [Local CnTest]
                 [Text (if cn_testing st then ''Testing'' @ ellipsis else ''Test connection'')]],
            el ''p'' [Text ''Default from '', el ''code'' [Text ''VITE_API_BASE_URL''],
              Text ('' ('' @ env_or (env_api_base (cx_host cx)) ''/api'' @ '').'')]],
         Section [Text ''Status''] [] False
           [KV [(''status'', Some (ConnectionDot conn True)),
                (''last_successful_fetch'',
                 (case cs_lastSuccessAt conn of
                    None \<Rightarrow> None
                  | Some t \<Rightarrow> if t = 0 then None else Some (TimeAgo cx (Some (to_iso t)) False))),
                (''server_version'', map_option Text (cn_version st)),
                (''last_error'',
                 map_option (\<lambda>m. if m = [] then Text [] else el ''span'' [Text m]) (cs_lastError conn))]]]]"

section \<open>Metrics\<close>

definition RANGES :: "MetricsRange list" where
  "RANGES = [R5m, R15m, R1h, R6h, R24h, R7d]"

definition ser :: "series_key \<Rightarrow> string \<Rightarrow> string \<Rightarrow> SeriesDef" where
  "ser key label color = \<lparr>sd_key = key, sd_label = label, sd_color = color\<rparr>"

definition rarrow :: string where
  "rarrow = [CHR 0xE2, CHR 0x86, CHR 0x92]"

definition CHARTS :: "(string \<times> SeriesDef list \<times> bool) list" where
  "CHARTS =
     [(''Jobs enqueued'', [ser KEnqueued ''enqueued'' ''var(--chart-1)''], True),
      (''Jobs completed'', [ser KCompleted ''completed'' ''var(--chart-2)''], True),
      (''Jobs failed'', [ser KFailed ''failed'' ''var(--chart-3)''], True),
      (''Queue depth (total pending)'', [ser KDepth ''depth'' ''var(--chart-1)''], False),
      (''Processing latency (avg ms, enqueue'' @ rarrow @ ''claim)'', [ser KLatencyMs ''latency_ms'' ''var(--chart-4)''], False),
      (''Job execution latency (avg ms)'', [ser KExecMs ''exec_ms'' ''var(--chart-5)''], False),
      (''Retries'', [ser KRetries ''retries'' ''var(--chart-4)''], False),
      (''DLQ size'', [ser KDlq ''dlq'' ''var(--chart-3)''], False),
      (''Worker count'', [ser KWorkers ''workers'' ''var(--chart-2)''], False),
      (''Lease expirations'', [ser KLeaseExpirations ''expired'' ''var(--chart-3)''], False)]"

definition Metrics :: "ctx \<Rightarrow> metrics_point list option \<Rightarrow> MetricsRange \<Rightarrow> MetricsRange node list" where
  "Metrics cx data rng =
     [PageHeader [Text ''Metrics''] [Text ''Per-interval aggregates from the metrics endpoint.'']
        [ela ''div'' [(''role'', ''radiogroup''), (''aria-label'', ''Time range'')]
           (map (\<lambda>r. radio (rng = r) [] [Local r] [Text (range_str r)]) RANGES)] [],
      el ''div''
        (map (\<lambda>(title, series, area).
           Section [Text title] [Legend series] False [TimeChart cx data series 150 area]) CHARTS)]"

section \<open>Lemmas\<close>

lemma SettingsPage_effs: "list_all (all_effs (calls_ok R) Q) (SettingsPage cx)"
  by (simp add: SettingsPage_def Row_def Seg_def Let_def)

lemma ConnectionPage_effs: "list_all (all_effs (calls_ok R) Q) (ConnectionPage cx conn st)"
  by (auto simp: ConnectionPage_def conn_save_def option.pred_map comp_def option.pred_True split: option.splits)

lemma Metrics_effs: "list_all (all_effs (calls_ok R) Q) (Metrics cx data rng)"
  by (simp add: Metrics_def CHARTS_def map_effs)

lemma charts_cover: "set (concat (map (\<lambda>(t, ss, a). map sd_key ss) CHARTS)) = UNIV"
proof -
  have "k \<in> set (concat (map (\<lambda>(t, ss, a). map sd_key ss) CHARTS))" for k
    by (cases k) (simp_all add: CHARTS_def ser_def)
  then show ?thesis by auto
qed

lemma getApiBase_typed:
  assumes "ps_loaded (c_prefs w)" and "ps_state (c_prefs w) = prefs_json p"
  shows "fst (getApiBase h w) = Some (strip_slash (p_apiBase p))"
  using assms by (simp add: getApiBase_def getPrefs_def prefs_json_def)

section \<open>Properties\<close>

text \<open>
  Saving on the connection page takes effect at once: the next request goes to the base URL
  that was typed, less one trailing slash, every query is refetched, and a single toast is shown.
\<close>

theorem connection_save_takes_effect:
  assumes "ps_loaded (c_prefs w)" and "ps_state (c_prefs w) = prefs_json p"
    and "w' = perform_all h fetch (conn_save st :: conn_action eff list) w"
  shows "map_option rq_url (fst (build_request h m path b w')) = Some (strip_slash (cn_base st) @ path)
     \<and> c_invalidated w' = Suc (c_invalidated w)
     \<and> c_toasts w' = c_toasts w @ [ToastSuccess ''API base updated'']"
proof -
  have ctx: "ps_loaded (fst (setPrefs h (patch_json (PApiBase (cn_base st))) (c_prefs w, c_storage w)))"
    using assms(1) by (simp add: setPrefs_def Let_def split_beta)
  have "ps_state (c_prefs w') = prefs_json (p\<lparr>p_apiBase := cn_base st\<rparr>)" "ps_loaded (c_prefs w')"
    using assms setPrefs_typed(1) [of "(c_prefs w, c_storage w)" p h "PApiBase (cn_base st)"] ctx
    by (simp_all add: perform_all_def conn_save_def with_prefs_def show_toast_def invalidateQueries_def)
  from getApiBase_typed [OF this(2,1), of h]
  have "map_option rq_url (fst (build_request h m path b w')) = Some (strip_slash (cn_base st) @ path)"
    by (simp add: build_request_def split_beta Let_def)
  then show ?thesis
    using assms(3) by (simp add: perform_all_def conn_save_def with_prefs_def show_toast_def invalidateQueries_def)
qed

definition loaded_console :: console where
  "loaded_console = sample_console\<lparr>c_prefs := (prefs_init sample_host)\<lparr>ps_loaded := True\<rparr>\<rparr>"

theorem connection_save_takes_effect_witness:
  "map_option rq_url (fst (build_request sample_host ''GET'' ''/queues'' None
     (perform_all sample_host (\<lambda>r. Rejected []) (conn_save \<lparr>cn_base = ''https://fq/'', cn_version = None, cn_testing = False\<rparr>
        :: conn_action eff list) loaded_console))) = Some ''https://fq/queues''"
proof -
  have "ps_loaded (c_prefs loaded_console)" "ps_state (c_prefs loaded_console) = prefs_json (prefs_defaults sample_host)"
    by (simp_all add: loaded_console_def prefs_init_def)
  from connection_save_takes_effect [OF this refl, of sample_host "''GET''" "''/queues''" None "\<lambda>r. Rejected []"
      "\<lparr>cn_base = ''https://fq/'', cn_version = None, cn_testing = False\<rparr>"]
  show ?thesis by (simp add: strip_slash_def)
qed

end
