(* ===== verification/Redis_Store.thy ===== *)
theory Redis_Store
  imports Forge_Types
begin

text \<open>
  The part of Redis that the HTTP handlers (\<open>internal/httpapi/handlers.go\<close>), the gateway, the workers
  and the reconciler share: the task bodies, the ready list, the scheduled and in-flight sorted sets, the lease hash, the dead list, the pause key
  and the worker registry. A list has its left end first; a sorted set is a list of members with
  scores in the order of \<open>ZRANGE\<close>, a hash and the string keys are maps. Scores are instants, Unix
  seconds with a fraction in the code, here counted in microseconds, the resolution of \<open>TIME\<close>. The keys
  are pairwise different (\<open>task:\<close>, \<open>worker:\<close>, \<open>queue:\<close> and \<open>metrics:\<close> prefixes), so each structure is a
  field of its own.

  A stored body is what a JSON reader finds in it: the fields of \<open>TaskMetaData\<close>, or a text that is not a
  JSON object, which both \<open>encoding/json\<close> and the scripts' \<open>cjson\<close> reject. Every command may fail. \<open>ln_budget\<close> is the number of commands that still succeed before
  the connection is lost (\<open>None\<close>: it never is); the command that meets the loss fails, with or
  without having taken effect (\<open>ln_torn\<close>), and so do all later ones, without effect.
\<close>

section \<open>The database\<close>

record task_meta =
  tm_id :: string
  tm_type :: string
  tm_payload :: json
  tm_max :: int
  tm_attempts :: int

datatype body = Body task_meta | Corrupt string

fun unmarshal :: "body \<Rightarrow> task_meta option" where
  "unmarshal (Body tm) = Some tm"
| "unmarshal (Corrupt _) = None"

definition body_id :: "body \<Rightarrow> string option" where
  "body_id b = map_option tm_id (unmarshal b)"

record worker_meta =
  wm_id :: string
  wm_hostname :: string
  wm_version :: string
  wm_startedAt :: string
  wm_lastHeartbeat :: string
  wm_concurrency :: int

type_synonym zset = "(string \<times> int) list"

record redis =
  rd_task :: "string \<rightharpoonup> body"
  rd_immediate :: "string list"
  rd_scheduled :: zset
  rd_inflight :: zset
  rd_leases :: "string \<rightharpoonup> string"
  rd_dead :: "body list"
  rd_paused :: bool
  rd_completed :: zset
  rd_enqueued :: zset
  rd_failed :: zset
  rd_workers :: "string list"
  rd_meta :: "string \<rightharpoonup> worker_meta option"   \<comment> \<open>\<open>Some None\<close>: a text that does not parse\<close>
  rd_wleases :: "string \<Rightarrow> string list"

text \<open>The connection: commands that still succeed, whether the failing one takes effect, its message.\<close>

record link_state =
  ln_budget :: "nat option"
  ln_torn :: bool
  ln_error :: string

type_synonym db = "redis \<times> link_state"

section \<open>Commands\<close>

type_synonym 'a cmd = "redis \<Rightarrow> 'a \<times> redis"

text \<open>One command over a connection; the state is Redis here and the journal's table elsewhere.\<close>

definition run :: "('s \<Rightarrow> 'a \<times> 's) \<Rightarrow> 's \<times> link_state \<Rightarrow> (string + 'a) \<times> ('s \<times> link_state)" where
  "run f d =
     (case d of (r, l) \<Rightarrow>
        (case ln_budget l of
           None \<Rightarrow> (Inr (fst (f r)), (snd (f r), l))
         | Some (Suc n) \<Rightarrow> (Inr (fst (f r)), (snd (f r), l\<lparr>ln_budget := Some n\<rparr>))
         | Some 0 \<Rightarrow> (Inl (ln_error l), (if ln_torn l then snd (f r) else r, l\<lparr>ln_torn := False\<rparr>))))"

definition get_task :: "string \<Rightarrow> body option cmd" where
  "get_task i r = (rd_task r i, r)"

definition set_task :: "string \<Rightarrow> body \<Rightarrow> unit cmd" where
  "set_task i b r = ((), r\<lparr>rd_task := (rd_task r)(i \<mapsto> b)\<rparr>)"

definition del_task :: "string \<Rightarrow> unit cmd" where
  "del_task i r = ((), r\<lparr>rd_task := (rd_task r)(i := None)\<rparr>)"

definition lrange_dead :: "body list cmd" where
  "lrange_dead r = (rd_dead r, r)"

text \<open>\<open>LREM key 1 body\<close>: the first occurrence from the left.\<close>

definition lrem_dead :: "body \<Rightarrow> unit cmd" where
  "lrem_dead b r = ((), r\<lparr>rd_dead := remove1 b (rd_dead r)\<rparr>)"

definition zrem :: "string \<Rightarrow> zset \<Rightarrow> zset" where
  "zrem i z = filter (\<lambda>p. fst p \<noteq> i) z"

definition zscore :: "string \<Rightarrow> zset \<Rightarrow> int option" where
  "zscore i z = map_of z i"

text \<open>\<open>ZADD\<close>: one score per member, ordered by score and then by member.\<close>

definition zbefore :: "string \<times> int \<Rightarrow> string \<times> int \<Rightarrow> bool" where
  "zbefore p q \<longleftrightarrow> snd p < snd q \<or> (snd p = snd q \<and> fst p < fst q)"

definition zadd :: "string \<Rightarrow> int \<Rightarrow> zset \<Rightarrow> zset" where
  "zadd i s z =
     takeWhile (\<lambda>p. zbefore p (i, s)) (zrem i z) @ (i, s) # dropWhile (\<lambda>p. zbefore p (i, s)) (zrem i z)"

text \<open>\<open>ZRANGE key -inf now BYSCORE\<close>.\<close>

definition zrange_upto :: "int \<Rightarrow> zset \<Rightarrow> string list" where
  "zrange_upto now z = map fst (filter (\<lambda>p. snd p \<le> now) z)"

text \<open>\<open>time.Unix(int64(score), 0)\<close> in milliseconds: the conversion drops the fraction towards zero.\<close>

definition score_ms :: "int \<Rightarrow> int" where
  "score_ms s = 1000 * (if s < 0 then - ((- s) div 1000000) else s div 1000000)"

definition zrem_scheduled :: "string \<Rightarrow> unit cmd" where
  "zrem_scheduled i r = ((), r\<lparr>rd_scheduled := zrem i (rd_scheduled r)\<rparr>)"

definition zrem_inflight :: "string \<Rightarrow> unit cmd" where
  "zrem_inflight i r = ((), r\<lparr>rd_inflight := zrem i (rd_inflight r)\<rparr>)"

definition hdel_lease :: "string \<Rightarrow> unit cmd" where
  "hdel_lease i r = ((), r\<lparr>rd_leases := (rd_leases r)(i := None)\<rparr>)"

definition lpush_immediate :: "string \<Rightarrow> unit cmd" where
  "lpush_immediate i r = ((), r\<lparr>rd_immediate := i # rd_immediate r\<rparr>)"

text \<open>\<open>LREM key 0 id\<close>: every occurrence.\<close>

definition lrem_immediate :: "string \<Rightarrow> unit cmd" where
  "lrem_immediate i r = ((), r\<lparr>rd_immediate := removeAll i (rd_immediate r)\<rparr>)"

text \<open>\<open>TxPipeline\<close>: \<open>MULTI\<close> ... \<open>EXEC\<close>, one round trip, all or nothing.\<close>

fun pipeline :: "unit cmd list \<Rightarrow> unit cmd" where
  "pipeline [] r = ((), r)"
| "pipeline (f # fs) r = pipeline fs (snd (f r))"

section \<open>Lemmas\<close>

named_theorems redis_defs "the commands, unfolded"

lemmas [redis_defs] = get_task_def set_task_def del_task_def lrange_dead_def lrem_dead_def zrem_scheduled_def
  zrem_inflight_def hdel_lease_def lpush_immediate_def lrem_immediate_def

text \<open>A connection that holds, and one that is lost for good.\<close>

abbreviation up :: "link_state \<Rightarrow> bool" where
  "up l \<equiv> ln_budget l = None"

definition down :: "link_state \<Rightarrow> bool" where
  "down l \<longleftrightarrow> ln_budget l = Some 0 \<and> \<not> ln_torn l"

lemma run_up [simp]: "up l \<Longrightarrow> run f (r, l) = (Inr (fst (f r)), (snd (f r), l))"
  by (simp add: run_def)

lemma run_down [simp]: "down l \<Longrightarrow> run f (r, l) = (Inl (ln_error l), (r, l))"
  by (simp add: run_def down_def)

text \<open>A command that succeeds has had its effect; after one that failed, every command fails.\<close>

lemma run_ok: "run f (r, l) = (Inr x, (r', l')) \<Longrightarrow> x = fst (f r) \<and> r' = snd (f r)"
  by (auto simp: run_def split: option.splits nat.splits)

lemma run_fails: "run f (r, l) = (Inl e, (r', l')) \<Longrightarrow> down l'"
  by (auto simp: run_def down_def split: option.splits nat.splits)

lemma run_cases:
  obtains (ok) l' where "run f (r, l) = (Inr (fst (f r)), (snd (f r), l'))"
  | (failed) e r' l' where "run f (r, l) = (Inl e, (r', l'))" and "down l'" and "r' = r \<or> r' = snd (f r)"
  by (cases "ln_budget l"; cases "the (ln_budget l)") (auto simp: run_def down_def)

lemma map_of_zrem [simp]: "map_of (zrem i z) j = (if j = i then None else map_of z j)"
  by (induction z) (auto simp: zrem_def)

lemma zrem_members [simp]: "fst ` set (zrem i z) = fst ` set z - {i}"
  by (auto simp: zrem_def)

lemma zadd_members [simp]: "fst ` set (zadd i s z) = insert i (fst ` set z)"
proof -
  have "set (zadd i s z) = insert (i, s) (set (zrem i z))"
    unfolding zadd_def using set_append [of "takeWhile (\<lambda>p. zbefore p (i, s)) (zrem i z)" "dropWhile (\<lambda>p. zbefore p (i, s)) (zrem i z)"]
    by (simp only: takeWhile_dropWhile_id) auto
  then show ?thesis by auto
qed

lemma mset_zadd: "mset (zadd i s z) = add_mset (i, s) (mset (zrem i z))"
  unfolding zadd_def
  by (metis add_mset_add_single mset.simps(2) mset_append takeWhile_dropWhile_id union_mset_add_mset_right)

lemma mset_zrem: "i \<notin> fst ` set z \<Longrightarrow> zrem i z = z"
  by (force simp: zrem_def filter_id_conv)

lemma distinct_zrem: "distinct (map fst z) \<Longrightarrow> distinct (map fst (zrem i z))"
  by (simp add: zrem_def distinct_map_filter)

lemma distinct_zadd: "distinct (map fst z) \<Longrightarrow> distinct (map fst (zadd i s z))"
proof -
  assume "distinct (map fst z)"
  then have "distinct (map fst (zrem i z))" by (rule distinct_zrem)
  moreover have "mset (map fst (zadd i s z)) = mset (i # map fst (zrem i z))"
    by (simp add: mset_zadd)
  moreover have "i \<notin> set (map fst (zrem i z))" by simp
  ultimately show ?thesis by (metis distinct.simps(2) mset_eq_imp_distinct_iff)
qed

lemma map_of_zadd: "distinct (map fst z) \<Longrightarrow> map_of (zadd i s z) j = (if j = i then Some s else map_of z j)"
proof -
  assume d: "distinct (map fst z)"
  have "set (zadd i s z) = set ((i, s) # zrem i z)"
    using arg_cong [OF mset_zadd [of i s z], of set_mset] by simp
  then have "map_of (zadd i s z) = map_of ((i, s) # zrem i z)"
    using d by (subst map_of_inject_set) (simp_all add: distinct_zadd distinct_zrem)
  then show ?thesis by simp
qed

lemma zrange_upto_score: "distinct (map fst z) \<Longrightarrow> i \<in> set (zrange_upto now z) \<longleftrightarrow> (\<exists>s. zscore i z = Some s \<and> s \<le> now)"
  by (force simp: zrange_upto_def zscore_def map_of_eq_Some_iff)

end
