(* ===== verification/Job_Handlers.thy ===== *)
theory Job_Handlers
  imports Redis_Store Server_Routes View
begin

text \<open>
  The handlers of \<open>internal/httpapi/handlers.go\<close> that read and change jobs, on the database of
  \<open>Redis_Store\<close>. A handler takes the database and returns its reply with the database it leaves;
  an error of a Redis command is handled as the code does, by an early return, or ignored where
  the code ignores it. Instants are milliseconds; the layouts of \<open>time.Format\<close> and the text of a
  JSON error are parameters (\<open>go_env\<close>). \<open>serve\<close> runs the handler of an API call.

  The abstract specification is a job board: for every id its body and the places it is in. The
  handlers implement it step by step (\<open>board_of\<close>), and what they answer is true of the board even when
  the connection is lost in the middle.
\<close>

record go_env =
  ge_now :: int
  ge_fmt :: "int \<Rightarrow> string"
  ge_jsonerr :: "string \<Rightarrow> string"

record dlq_entry =
  de_jobId :: string
  de_originalQueue :: string
  de_entryTask :: string
  de_attempts :: int
  de_lastError :: string
  de_failedAt :: string
  de_ageMs :: int

datatype reply =
    NoContent
  | Problem int string
  | Purged nat
  | JobDoc job
  | JobsDoc "job list"
  | DlqDoc "dlq_entry list"
  | DelayedDoc "delayed_job list"
  | QueueDoc queue_summary
  | QueuesDoc "queue_summary list"
  | StatsDoc system_stats
  | WorkersDoc "worker list"
  | WorkerDoc worker

section \<open>The dead list\<close>

text \<open>The loop of \<open>takeDead\<close>: the first match is kept, every match is removed.\<close>

fun take_loop :: "string \<Rightarrow> body list \<Rightarrow> body option \<Rightarrow> db \<Rightarrow> (string + body option) \<times> db" where
  "take_loop i [] found d = (Inr found, d)"
| "take_loop i (b # bs) found d =
     (if body_id b = Some i then
        (case run (lrem_dead b) d of
           (Inl e, d') \<Rightarrow> (Inl e, d')
         | (Inr _, d') \<Rightarrow> take_loop i bs (if found = None then Some b else found) d')
      else take_loop i bs found d)"

definition takeDead :: "string \<Rightarrow> db \<Rightarrow> (string + body option) \<times> db" where
  "takeDead i d =
     (case run lrange_dead d of
        (Inl e, d') \<Rightarrow> (Inl e, d')
      | (Inr bodies, d') \<Rightarrow> take_loop i bodies None d')"

definition isDead :: "string \<Rightarrow> db \<Rightarrow> bool \<times> db" where
  "isDead i d =
     (case run lrange_dead d of
        (Inl e, d') \<Rightarrow> (False, d')
      | (Inr bodies, d') \<Rightarrow> (list_ex (\<lambda>b. body_id b = Some i) bodies, d'))"

section \<open>Requeue and delete\<close>

text \<open>The body of \<open>task:<id>\<close> is put back from the dead list when it is gone; other errors of \<open>GET\<close> are ignored.\<close>

definition restore_body :: "string \<Rightarrow> body option \<Rightarrow> db \<Rightarrow> (string + bool) \<times> db" where
  "restore_body i deadBody d =
     (case run (get_task i) d of
        (Inr None, d1) \<Rightarrow>
          (case deadBody of
             None \<Rightarrow> (Inr False, d1)
           | Some b \<Rightarrow>
               (case run (set_task i b) d1 of
                  (Inl e, d2) \<Rightarrow> (Inl e, d2)
                | (Inr _, d2) \<Rightarrow> (Inr True, d2)))
      | (_, d1) \<Rightarrow> (Inr True, d1))"

definition reset_attempts :: "string \<Rightarrow> db \<Rightarrow> db" where
  "reset_attempts i d =
     (case run (get_task i) d of
        (Inr (Some (Body tm)), d1) \<Rightarrow> snd (run (set_task i (Body (tm\<lparr>tm_attempts := 0\<rparr>))) d1)
      | (_, d1) \<Rightarrow> d1)"

definition requeue_pipe :: "string \<Rightarrow> unit cmd" where
  "requeue_pipe i = pipeline [zrem_scheduled i, zrem_inflight i, hdel_lease i, lpush_immediate i]"

definition requeue :: "string \<Rightarrow> bool \<Rightarrow> db \<Rightarrow> (string + bool) \<times> db" where
  "requeue i resetAttempts d =
     (case takeDead i d of
        (Inl e, d1) \<Rightarrow> (Inl e, d1)
      | (Inr deadBody, d1) \<Rightarrow>
          (case restore_body i deadBody d1 of
             (Inl e, d2) \<Rightarrow> (Inl e, d2)
           | (Inr False, d2) \<Rightarrow> (Inr False, d2)
           | (Inr True, d2) \<Rightarrow>
               (case run (requeue_pipe i) (if resetAttempts then reset_attempts i d2 else d2) of
                  (Inl e, d3) \<Rightarrow> (Inl e, d3)
                | (Inr _, d3) \<Rightarrow> (Inr True, d3))))"

definition delete_pipe :: "string \<Rightarrow> unit cmd" where
  "delete_pipe i = pipeline [zrem_scheduled i, zrem_inflight i, hdel_lease i, lrem_immediate i, del_task i]"

definition deleteTask :: "string \<Rightarrow> db \<Rightarrow> (string + unit) \<times> db" where
  "deleteTask i d =
     (case takeDead i d of
        (Inl e, d1) \<Rightarrow> (Inl e, d1)
      | (Inr _, d1) \<Rightarrow> run (delete_pipe i) d1)"

section \<open>Handlers that change jobs\<close>

definition reply_found :: "string \<Rightarrow> (string + bool) \<times> db \<Rightarrow> reply \<times> db" where
  "reply_found notFound p =
     (case p of
        (Inl e, d) \<Rightarrow> (Problem 500 e, d)
      | (Inr ok, d) \<Rightarrow> (if ok then NoContent else Problem 404 notFound, d))"

definition reply_done :: "(string + 'a) \<times> db \<Rightarrow> reply \<times> db" where
  "reply_done p = (case p of (Inl e, d) \<Rightarrow> (Problem 500 e, d) | (Inr _, d) \<Rightarrow> (NoContent, d))"

definition h_RetryJob :: "string \<Rightarrow> db \<Rightarrow> reply \<times> db" where
  "h_RetryJob i d = reply_found (''job '' @ i @ '' not found'') (requeue i True d)"

definition h_RequeueJob :: "string \<Rightarrow> db \<Rightarrow> reply \<times> db" where
  "h_RequeueJob i d = reply_found (''job '' @ i @ '' not found'') (requeue i False d)"

definition h_DeleteJob :: "string \<Rightarrow> db \<Rightarrow> reply \<times> db" where
  "h_DeleteJob i d = reply_done (deleteTask i d)"

definition h_PauseQueue :: "string \<Rightarrow> db \<Rightarrow> reply \<times> db" where
  "h_PauseQueue name d = reply_done (run (\<lambda>r. ((), r\<lparr>rd_paused := True\<rparr>)) d)"

definition h_ResumeQueue :: "string \<Rightarrow> db \<Rightarrow> reply \<times> db" where
  "h_ResumeQueue name d = reply_done (run (\<lambda>r. ((), r\<lparr>rd_paused := False\<rparr>)) d)"

definition h_PurgeQueue :: "string \<Rightarrow> db \<Rightarrow> reply \<times> db" where
  "h_PurgeQueue name d =
     (case run (\<lambda>r. (rd_immediate r, r)) d of
        (Inl e, d1) \<Rightarrow> (Problem 500 e, d1)
      | (Inr ids, d1) \<Rightarrow>
          (case run (pipeline (map del_task ids @ [\<lambda>r. ((), r\<lparr>rd_immediate := []\<rparr>)])) d1 of
             (Inl e, d2) \<Rightarrow> (Problem 500 e, d2)
           | (Inr _, d2) \<Rightarrow> (Purged (length ids), d2)))"

definition h_RetryDLQ :: "string \<Rightarrow> db \<Rightarrow> reply \<times> db" where
  "h_RetryDLQ i d = reply_found (''dlq entry '' @ i @ '' not found'') (requeue i True d)"

definition h_DeleteDLQ :: "string \<Rightarrow> db \<Rightarrow> reply \<times> db" where
  "h_DeleteDLQ i d = reply_done (deleteTask i d)"

definition h_PurgeDLQ :: "db \<Rightarrow> reply \<times> db" where
  "h_PurgeDLQ d =
     (case run lrange_dead d of
        (Inl e, d1) \<Rightarrow> (Problem 500 e, d1)
      | (Inr bodies, d1) \<Rightarrow>
          (case run (pipeline (map del_task (List.map_filter body_id bodies) @ [\<lambda>r. ((), r\<lparr>rd_dead := []\<rparr>)])) d1 of
             (Inl e, d2) \<Rightarrow> (Problem 500 e, d2)
           | (Inr _, d2) \<Rightarrow> (Purged (length bodies), d2)))"

definition h_PromoteDelayed :: "string \<Rightarrow> db \<Rightarrow> reply \<times> db" where
  "h_PromoteDelayed i d =
     (case run (\<lambda>r. (zscore i (rd_scheduled r), r)) d of
        (Inl e, d1) \<Rightarrow> (Problem 500 e, d1)
      | (Inr None, d1) \<Rightarrow> (Problem 404 (''delayed job '' @ i @ '' not found''), d1)
      | (Inr (Some _), d1) \<Rightarrow> reply_done (run (pipeline [zrem_scheduled i, lpush_immediate i]) d1))"

definition h_CancelDelayed :: "string \<Rightarrow> db \<Rightarrow> reply \<times> db" where
  "h_CancelDelayed i d = reply_done (deleteTask i d)"

section \<open>Handlers that read\<close>

definition no_job :: "go_env \<Rightarrow> string \<Rightarrow> task_meta \<Rightarrow> job_status \<Rightarrow> job" where
  "no_job ge i tm st =
     \<lparr>j_id = i, j_queue = ''default'', j_task = tm_type tm, j_status = st, j_attempts = tm_attempts tm,
      j_maxAttempts = tm_max tm, j_createdAt = ge_fmt ge (ge_now ge - 300000),
      j_enqueuedAt = Some (ge_fmt ge (ge_now ge - 240000)), j_startedAt = None, j_completedAt = None,
      j_failedAt = None, j_durationMs = None, j_workerId = None, j_leaseId = None, j_leaseExpiresAt = None,
      j_nextRetryAt = None, j_retryPolicy = None, j_payload = tm_payload tm, j_result = None, j_error = None,
      j_lastErrorAt = None, j_lastError = None, j_attemptsHistory = None\<rparr>"

text \<open>The status: in flight, else scheduled, else dead, else pending; a failed look-up counts as not there.\<close>

definition job_place :: "string \<Rightarrow> db \<Rightarrow> job_status \<times> db" where
  "job_place i d =
     (case run (\<lambda>r. (zscore i (rd_inflight r), r)) d of
        (Inr (Some _), d1) \<Rightarrow> (JsProcessing, d1)
      | (_, d1) \<Rightarrow>
          (case run (\<lambda>r. (zscore i (rd_scheduled r), r)) d1 of
             (Inr (Some _), d2) \<Rightarrow> (JsDelayed, d2)
           | (_, d2) \<Rightarrow> (case isDead i d2 of (dead, d3) \<Rightarrow> (if dead then JsDlq else JsPending, d3))))"

definition readTaskFull :: "go_env \<Rightarrow> string \<Rightarrow> db \<Rightarrow> (string + job option) \<times> db" where
  "readTaskFull ge i d =
     (case run (get_task i) d of
        (Inl e, d1) \<Rightarrow> (Inl e, d1)
      | (Inr None, d1) \<Rightarrow> (Inr None, d1)
      | (Inr (Some (Corrupt s)), d1) \<Rightarrow> (Inl (ge_jsonerr ge s), d1)
      | (Inr (Some (Body tm)), d1) \<Rightarrow>
          (case job_place i d1 of (st, d2) \<Rightarrow> (Inr (Some (no_job ge i tm st)), d2)))"

definition h_Job :: "go_env \<Rightarrow> string \<Rightarrow> db \<Rightarrow> reply \<times> db" where
  "h_Job ge i d =
     (case readTaskFull ge i d of
        (Inl e, d1) \<Rightarrow> (Problem 500 e, d1)
      | (Inr None, d1) \<Rightarrow> (Problem 404 (''job '' @ i @ '' not found''), d1)
      | (Inr (Some j), d1) \<Rightarrow> (JobDoc j, d1))"

definition h_QueueJobs :: "string \<Rightarrow> db \<Rightarrow> reply \<times> db" where
  "h_QueueJobs name d = (JobsDoc [], d)"

definition dlq_entry_of :: "go_env \<Rightarrow> task_meta \<Rightarrow> dlq_entry" where
  "dlq_entry_of ge tm =
     \<lparr>de_jobId = tm_id tm, de_originalQueue = ''default'', de_entryTask = tm_type tm, de_attempts = tm_attempts tm,
      de_lastError = ''task failed'', de_failedAt = ge_fmt ge (ge_now ge), de_ageMs = 0\<rparr>"

definition h_DLQ :: "go_env \<Rightarrow> db \<Rightarrow> reply \<times> db" where
  "h_DLQ ge d =
     (case run lrange_dead d of
        (Inl e, d1) \<Rightarrow> (Problem 500 e, d1)
      | (Inr bodies, d1) \<Rightarrow> (DlqDoc (map (dlq_entry_of ge) (List.map_filter unmarshal bodies)), d1))"

fun delayed_loop :: "go_env \<Rightarrow> zset \<Rightarrow> db \<Rightarrow> delayed_job list \<times> db" where
  "delayed_loop ge [] d = ([], d)"
| "delayed_loop ge ((i, score) # zs) d =
     (case readTaskFull ge i d of
        (Inr (Some j), d1) \<Rightarrow>
          (case delayed_loop ge zs d1 of (its, d2) \<Rightarrow>
             (\<lparr>dj_jobId = i, dj_queue = ''default'', dj_task = j_task j, dj_attempts = j_attempts j,
               dj_scheduledFor = ge_fmt ge (score_ms score), dj_delayMs = score_ms score - ge_now ge,
               dj_status = JsDelayed\<rparr> # its, d2))
      | (_, d1) \<Rightarrow> delayed_loop ge zs d1)"

definition h_Delayed :: "go_env \<Rightarrow> db \<Rightarrow> reply \<times> db" where
  "h_Delayed ge d =
     (case run (\<lambda>r. (rd_scheduled r, r)) d of
        (Inl e, d1) \<Rightarrow> (Problem 500 e, d1)
      | (Inr zs, d1) \<Rightarrow> (case delayed_loop ge zs d1 of (its, d2) \<Rightarrow> (DelayedDoc its, d2)))"

text \<open>\<open>.Val()\<close>: zero when the command failed.\<close>

definition val :: "(redis \<Rightarrow> int) \<Rightarrow> db \<Rightarrow> int \<times> db" where
  "val f d = (case run (\<lambda>r. (f r, r)) d of (Inl e, d1) \<Rightarrow> (0, d1) | (Inr n, d1) \<Rightarrow> (n, d1))"

definition queueStatus :: "db \<Rightarrow> queue_status \<times> db" where
  "queueStatus d =
     (case run (\<lambda>r. (rd_paused r, r)) d of
        (Inr True, d1) \<Rightarrow> (QsPaused, d1)
      | (_, d1) \<Rightarrow> (QsHealthy, d1))"

section \<open>The worker registry\<close>

fun lease_loop :: "go_env \<Rightarrow> string \<Rightarrow> string list \<Rightarrow> db \<Rightarrow> lease list \<times> db" where
  "lease_loop ge wid [] d = ([], d)"
| "lease_loop ge wid (t # ts) d =
     (case run (\<lambda>r. (rd_leases r t, r)) d of
        (Inl e, d1) \<Rightarrow> lease_loop ge wid ts d1
      | (Inr None, d1) \<Rightarrow>
          lease_loop ge wid ts
            (snd (run (\<lambda>r. ((), r\<lparr>rd_wleases := (rd_wleases r)(wid := removeAll t (rd_wleases r wid))\<rparr>)) d1))
      | (Inr (Some lid), d1) \<Rightarrow>
          (case run (get_task t) d1 of (bd, d2) \<Rightarrow>
             (case run (\<lambda>r. (zscore t (rd_inflight r), r)) d2 of (sc, d3) \<Rightarrow>
                (case lease_loop ge wid ts d3 of (ls, d4) \<Rightarrow>
                   (\<lparr>l_jobId = t, l_queue = ''default'',
                     l_task = (case bd of Inr (Some (Body tm)) \<Rightarrow> tm_type tm | _ \<Rightarrow> []), l_leaseId = lid,
                     l_acquiredAt = ge_fmt ge (ge_now ge - 10000),
                     l_expiresAt = ge_fmt ge (case sc of Inr (Some s) \<Rightarrow> score_ms s | _ \<Rightarrow> ge_now ge + 10000)\<rparr> # ls, d4)))))"

definition readWorkerLeases :: "go_env \<Rightarrow> string \<Rightarrow> db \<Rightarrow> lease list \<times> db" where
  "readWorkerLeases ge wid d =
     (case run (\<lambda>r. (rd_wleases r wid, r)) d of
        (Inl e, d1) \<Rightarrow> ([], d1)
      | (Inr ts, d1) \<Rightarrow> lease_loop ge wid ts d1)"

definition worker_health :: "go_env \<Rightarrow> string \<Rightarrow> worker_status" where
  "worker_health ge hb = (case date_parse hb of Num t \<Rightarrow> if ge_now ge - t > 25000 then WsStale else WsHealthy | NaN \<Rightarrow> WsHealthy)"

fun worker_loop :: "go_env \<Rightarrow> string list \<Rightarrow> db \<Rightarrow> worker list \<times> db" where
  "worker_loop ge [] d = ([], d)"
| "worker_loop ge (i # is) d =
     (case run (\<lambda>r. (rd_meta r i, r)) d of
        (Inl e, d1) \<Rightarrow> worker_loop ge is d1
      | (Inr None, d1) \<Rightarrow> worker_loop ge is (snd (run (\<lambda>r. ((), r\<lparr>rd_workers := removeAll i (rd_workers r)\<rparr>)) d1))
      | (Inr (Some None), d1) \<Rightarrow> worker_loop ge is d1
      | (Inr (Some (Some m)), d1) \<Rightarrow>
          (case readWorkerLeases ge i d1 of (ls, d2) \<Rightarrow>
             (case worker_loop ge is d2 of (ws, d3) \<Rightarrow>
                (\<lparr>w_id = wm_id m, w_hostname = wm_hostname m, w_version = wm_version m,
                  w_status = worker_health ge (wm_lastHeartbeat m), w_startedAt = wm_startedAt m,
                  w_lastHeartbeatAt = wm_lastHeartbeat m, w_leaseCount = int (length ls),
                  w_jobsProcessing = int (length ls), w_concurrency = wm_concurrency m, w_leases = ls,
                  w_recentJobs = []\<rparr> # ws, d3))))"

definition readWorkers :: "go_env \<Rightarrow> db \<Rightarrow> worker list \<times> db" where
  "readWorkers ge d =
     (case run (\<lambda>r. (rd_workers r, r)) d of
        (Inl e, d1) \<Rightarrow> ([], d1)
      | (Inr ids, d1) \<Rightarrow> worker_loop ge ids d1)"

definition h_Workers :: "go_env \<Rightarrow> db \<Rightarrow> reply \<times> db" where
  "h_Workers ge d = (case readWorkers ge d of (ws, d1) \<Rightarrow> (WorkersDoc ws, d1))"

definition h_Worker :: "go_env \<Rightarrow> string \<Rightarrow> db \<Rightarrow> reply \<times> db" where
  "h_Worker ge i d =
     (case readWorkers ge d of (ws, d1) \<Rightarrow>
        (case find (\<lambda>w. w_id w = i) ws of
           Some w \<Rightarrow> (WorkerDoc w, d1)
         | None \<Rightarrow> (Problem 404 (''worker '' @ i @ '' not found''), d1)))"

definition workerCounts :: "go_env \<Rightarrow> db \<Rightarrow> (int \<times> int) \<times> db" where
  "workerCounts ge d =
     (case readWorkers ge d of (ws, d1) \<Rightarrow>
        ((int (length (filter (\<lambda>w. w_status w = WsHealthy) ws)),
          int (length (filter (\<lambda>w. w_status w \<noteq> WsHealthy) ws))), d1))"

section \<open>Summaries\<close>

definition h_Stats :: "go_env \<Rightarrow> db \<Rightarrow> reply \<times> db" where
  "h_Stats ge d =
     (case val (\<lambda>r. int (length (rd_immediate r))) d of (pending, d1) \<Rightarrow>
      case val (\<lambda>r. int (length (rd_inflight r))) d1 of (processing, d2) \<Rightarrow>
      case val (\<lambda>r. int (length (rd_scheduled r))) d2 of (delayed, d3) \<Rightarrow>
      case val (\<lambda>r. int (length (rd_dead r))) d3 of (dlq, d4) \<Rightarrow>
      case val (\<lambda>r. int (length (rd_completed r))) d4 of (completed, d5) \<Rightarrow>
      case workerCounts ge d5 of ((healthy, stale), d6) \<Rightarrow>
        (StatsDoc \<lparr>ss_queues = 1, ss_activeJobs = pending + processing, ss_pending = pending,
           ss_processing = processing, ss_failed = dlq, ss_delayed = delayed, ss_dlq = dlq,
           ss_activeWorkers = healthy + stale, ss_healthyWorkers = healthy, ss_staleWorkers = stale,
           ss_workersWithExpiredLeases = 0\<rparr>, d6))"

definition queue_doc :: "go_env \<Rightarrow> string \<Rightarrow> db \<Rightarrow> queue_summary \<times> db" where
  "queue_doc ge name d =
     (case val (\<lambda>r. int (length (rd_immediate r))) d of (pending, d1) \<Rightarrow>
      case val (\<lambda>r. int (length (rd_inflight r))) d1 of (processing, d2) \<Rightarrow>
      case val (\<lambda>r. int (length (rd_scheduled r))) d2 of (delayed, d3) \<Rightarrow>
      case val (\<lambda>r. int (length (rd_dead r))) d3 of (dlq, d4) \<Rightarrow>
      case val (\<lambda>r. int (length (rd_completed r))) d4 of (completed, d5) \<Rightarrow>
      case readWorkers ge d5 of (ws, d6) \<Rightarrow>
      case queueStatus d6 of (st, d7) \<Rightarrow>
        (\<lparr>q_name = name, q_pending = pending, q_processing = processing, q_delayed = delayed, q_failed = dlq,
          q_completed = completed, q_workers = int (length ws), q_ratePerMin = 0, q_oldestJobAt = None,
          q_status = st\<rparr>, d7))"

definition h_Queues :: "go_env \<Rightarrow> db \<Rightarrow> reply \<times> db" where
  "h_Queues ge d = (case queue_doc ge ''default'' d of (s, d1) \<Rightarrow> (QueuesDoc [s], d1))"

definition h_Queue :: "go_env \<Rightarrow> string \<Rightarrow> db \<Rightarrow> reply \<times> db" where
  "h_Queue ge name d = (case queue_doc ge name d of (s, d1) \<Rightarrow> (QueueDoc s, d1))"

section \<open>Dispatch\<close>

text \<open>The handlers that work on jobs, by the route they serve; the others belong to authentication and metrics.\<close>

fun serve :: "go_env \<Rightarrow> api_call \<Rightarrow> db \<Rightarrow> (reply \<times> db) option" where
  "serve ge Stats d = Some (h_Stats ge d)"
| "serve ge Queues d = Some (h_Queues ge d)"
| "serve ge (Queue n) d = Some (h_Queue ge n d)"
| "serve ge (QueueJobs n) d = Some (h_QueueJobs n d)"
| "serve ge (JobC i) d = Some (h_Job ge i d)"
| "serve ge (RetryJob i) d = Some (h_RetryJob i d)"
| "serve ge (RequeueJob i) d = Some (h_RequeueJob i d)"
| "serve ge (DeleteJob i) d = Some (h_DeleteJob i d)"
| "serve ge (PauseQueue n) d = Some (h_PauseQueue n d)"
| "serve ge (ResumeQueue n) d = Some (h_ResumeQueue n d)"
| "serve ge (PurgeQueue n) d = Some (h_PurgeQueue n d)"
| "serve ge Workers d = Some (h_Workers ge d)"
| "serve ge (WorkerC i) d = Some (h_Worker ge i d)"
| "serve ge Dlq d = Some (h_DLQ ge d)"
| "serve ge (RetryDlq i) d = Some (h_RetryDLQ i d)"
| "serve ge (DeleteDlq i) d = Some (h_DeleteDLQ i d)"
| "serve ge PurgeDlq d = Some (h_PurgeDLQ d)"
| "serve ge Delayed d = Some (h_Delayed ge d)"
| "serve ge (PromoteDelayed i) d = Some (h_PromoteDelayed i d)"
| "serve ge (CancelDelayed i) d = Some (h_CancelDelayed i d)"
| "serve ge _ d = None"

section \<open>The job board\<close>

text \<open>Everything the database knows of one id; the board is the abstract state.\<close>

record job_card =
  jc_body :: "body option"
  jc_pending :: nat
  jc_scheduled :: "int option"
  jc_inflight :: "int option"
  jc_lease :: "string option"
  jc_dead :: "body list"

record board =
  bd_jobs :: "string \<Rightarrow> job_card"
  bd_paused :: bool

definition board_of :: "redis \<Rightarrow> board" where
  "board_of r =
     \<lparr>bd_jobs = (\<lambda>i. \<lparr>jc_body = rd_task r i, jc_pending = count_list (rd_immediate r) i,
         jc_scheduled = zscore i (rd_scheduled r), jc_inflight = zscore i (rd_inflight r),
         jc_lease = rd_leases r i, jc_dead = filter (\<lambda>b. body_id b = Some i) (rd_dead r)\<rparr>),
      bd_paused = rd_paused r\<rparr>"

definition no_card :: job_card where
  "no_card = \<lparr>jc_body = None, jc_pending = 0, jc_scheduled = None, jc_inflight = None, jc_lease = None, jc_dead = []\<rparr>"

fun zero_attempts :: "body \<Rightarrow> body" where
  "zero_attempts (Body tm) = Body (tm\<lparr>tm_attempts := 0\<rparr>)"
| "zero_attempts (Corrupt s) = Corrupt s"

definition card_known :: "job_card \<Rightarrow> bool" where
  "card_known c \<longleftrightarrow> jc_body c \<noteq> None \<or> jc_dead c \<noteq> []"

definition requeued :: "bool \<Rightarrow> job_card \<Rightarrow> job_card" where
  "requeued reset c =
     no_card\<lparr>jc_body := Some ((if reset then zero_attempts else id) (case jc_body c of Some b \<Rightarrow> b | None \<Rightarrow> hd (jc_dead c))),
             jc_pending := Suc (jc_pending c)\<rparr>"

definition on_card :: "string \<Rightarrow> (job_card \<Rightarrow> job_card) \<Rightarrow> board \<Rightarrow> board" where
  "on_card i f B = B\<lparr>bd_jobs := (bd_jobs B)(i := f (bd_jobs B i))\<rparr>"

definition on_cards :: "(job_card \<Rightarrow> job_card) \<Rightarrow> board \<Rightarrow> board" where
  "on_cards f B = B\<lparr>bd_jobs := f \<circ> bd_jobs B\<rparr>"

definition requeue_card :: "bool \<Rightarrow> job_card \<Rightarrow> job_card" where
  "requeue_card reset c = (if card_known c then requeued reset c else c)"

definition promote_card :: "job_card \<Rightarrow> job_card" where
  "promote_card c = (if jc_scheduled c = None then c else c\<lparr>jc_scheduled := None, jc_pending := Suc (jc_pending c)\<rparr>)"

text \<open>What each call means for the board.\<close>

fun spec :: "api_call \<Rightarrow> board \<Rightarrow> board" where
  "spec (RetryJob i) B = on_card i (requeue_card True) B"
| "spec (RequeueJob i) B = on_card i (requeue_card False) B"
| "spec (RetryDlq i) B = on_card i (requeue_card True) B"
| "spec (DeleteJob i) B = on_card i (\<lambda>c. no_card) B"
| "spec (DeleteDlq i) B = on_card i (\<lambda>c. no_card) B"
| "spec (CancelDelayed i) B = on_card i (\<lambda>c. no_card) B"
| "spec (PromoteDelayed i) B = on_card i promote_card B"
| "spec (PauseQueue n) B = B\<lparr>bd_paused := True\<rparr>"
| "spec (ResumeQueue n) B = B\<lparr>bd_paused := False\<rparr>"
| "spec (PurgeQueue n) B = on_cards (\<lambda>c. if jc_pending c = 0 then c else c\<lparr>jc_body := None, jc_pending := 0\<rparr>) B"
| "spec PurgeDlq B = on_cards (\<lambda>c. if jc_dead c = [] then c else c\<lparr>jc_body := None, jc_dead := []\<rparr>) B"
| "spec _ B = B"

section \<open>Commands on the board\<close>

lemma fold_remove1_filter:
  "list_all (\<lambda>y. \<not> P y) ys \<Longrightarrow> fold remove1 (filter P xs) (ys @ xs) = ys @ filter (\<lambda>x. \<not> P x) xs"
proof (induction xs arbitrary: ys)
  case (Cons x xs)
  show ?case
  proof (cases "P x")
    case True
    with Cons.prems have "x \<notin> set ys" by (auto simp: list_all_iff)
    with True Cons.IH [OF Cons.prems] show ?thesis by (simp add: remove1_append)
  next
    case False
    with Cons.prems have "list_all (\<lambda>y. \<not> P y) (ys @ [x])" by simp
    from Cons.IH [OF this] False show ?thesis by simp
  qed
qed simp

lemma take_loop_ok:
  "take_loop i bs found (r, l) = (Inr res, (r', l')) \<Longrightarrow>
     r' = r\<lparr>rd_dead := fold remove1 (filter (\<lambda>b. body_id b = Some i) bs) (rd_dead r)\<rparr>
     \<and> res = (case found of Some b \<Rightarrow> Some b | None \<Rightarrow> find (\<lambda>b. body_id b = Some i) bs)"
proof (induction bs arbitrary: found r l)
  case (Cons b bs)
  show ?case
  proof (cases "body_id b = Some i")
    case True
    show ?thesis
    proof (rule run_cases [of "lrem_dead b" r l])
      fix l1 assume ok: "run (lrem_dead b) (r, l) = (Inr (fst (lrem_dead b r)), (snd (lrem_dead b r), l1))"
      with Cons.prems True
      have "take_loop i bs (if found = None then Some b else found) (r\<lparr>rd_dead := remove1 b (rd_dead r)\<rparr>, l1) =
          (Inr res, (r', l'))"
        by (simp add: lrem_dead_def)
      from Cons.IH [OF this] True show ?thesis by (auto split: option.splits if_splits)
    next
      fix e r1 l1 assume "run (lrem_dead b) (r, l) = (Inl e, (r1, l1))"
      with Cons.prems True show ?thesis by simp
    qed
  next
    case False
    with Cons.prems have "take_loop i bs found (r, l) = (Inr res, (r', l'))" by simp
    from Cons.IH [OF this] False show ?thesis by (cases found) auto
  qed
qed (auto split: option.splits)

lemma takeDead_ok:
  assumes "takeDead i (r, l) = (Inr res, (r', l'))"
  shows "r' = r\<lparr>rd_dead := filter (\<lambda>b. body_id b \<noteq> Some i) (rd_dead r)\<rparr>
     \<and> res = find (\<lambda>b. body_id b = Some i) (rd_dead r)"
proof (rule run_cases [of lrange_dead r l])
  fix l1 assume "run lrange_dead (r, l) = (Inr (fst (lrange_dead r)), (snd (lrange_dead r), l1))"
  with assms have "take_loop i (rd_dead r) None (r, l1) = (Inr res, (r', l'))"
    by (simp add: takeDead_def lrange_dead_def)
  from take_loop_ok [OF this] show ?thesis
    using fold_remove1_filter [of "\<lambda>b. body_id b = Some i" "[]" "rd_dead r"] by simp
next
  fix e r1 l1 assume "run lrange_dead (r, l) = (Inl e, (r1, l1))"
  with assms show ?thesis by (simp add: takeDead_def)
qed

lemma restore_ok:
  assumes "restore_body i b (r, l) = (Inr ok, (r', l'))"
  shows "down l' \<and> ok
     \<or> (ok = (rd_task r i \<noteq> None \<or> b \<noteq> None)
        \<and> r' = (if rd_task r i = None then case b of None \<Rightarrow> r | Some x \<Rightarrow> r\<lparr>rd_task := (rd_task r)(i \<mapsto> x)\<rparr> else r))"
proof (rule run_cases [of "get_task i" r l])
  fix l1 assume g: "run (get_task i) (r, l) = (Inr (fst (get_task i r)), (snd (get_task i r), l1))"
  show ?thesis
  proof (cases "rd_task r i = None \<and> b \<noteq> None")
    case True
    then obtain x where x: "b = Some x" by blast
    show ?thesis
      by (rule run_cases [of "set_task i x" r l1])
        (use assms g True x in \<open>auto simp: restore_body_def get_task_def set_task_def\<close>)
  next
    case False
    with assms g show ?thesis by (auto simp: restore_body_def get_task_def split: option.splits)
  qed
next
  fix e r1 l1 assume "run (get_task i) (r, l) = (Inl e, (r1, l1))" "down l1"
  with assms show ?thesis by (simp add: restore_body_def)
qed

lemma reset_ok:
  assumes "reset_attempts i (r, l) = (r', l')"
  shows "down l' \<or> r' = r\<lparr>rd_task := (rd_task r)(i := map_option zero_attempts (rd_task r i))\<rparr>"
proof (rule run_cases [of "get_task i" r l])
  fix l1 assume g: "run (get_task i) (r, l) = (Inr (fst (get_task i r)), (snd (get_task i r), l1))"
  show ?thesis
  proof (cases "\<exists>tm. rd_task r i = Some (Body tm)")
    case True
    then obtain tm where tm: "rd_task r i = Some (Body tm)" by blast
    show ?thesis
      by (rule run_cases [of "set_task i (Body (tm\<lparr>tm_attempts := 0\<rparr>))" r l1])
        (use assms g tm in \<open>auto simp: reset_attempts_def get_task_def set_task_def\<close>)
  next
    case False
    then have "map_option zero_attempts (rd_task r i) = rd_task r i"
      by (cases "rd_task r i"; cases "the (rd_task r i)") auto
    then have id: "(rd_task r)(i := map_option zero_attempts (rd_task r i)) = rd_task r"
      by (simp add: fun_upd_idem)
    from False assms g show ?thesis
      unfolding id by (auto simp: reset_attempts_def get_task_def split: option.splits body.splits)
  qed
next
  fix e r1 l1 assume "run (get_task i) (r, l) = (Inl e, (r1, l1))" "down l1"
  with assms show ?thesis by (simp add: reset_attempts_def)
qed

lemma find_filter: "find P xs = (case filter P xs of [] \<Rightarrow> None | x # _ \<Rightarrow> Some x)"
  by (induction xs) auto

text \<open>The board after the pipelines.\<close>

lemma filter_other:
  "j \<noteq> i \<Longrightarrow> filter (\<lambda>b. body_id b \<noteq> Some i \<and> body_id b = Some j) bs = filter (\<lambda>b. body_id b = Some j) bs"
  by (auto intro!: filter_cong)

lemma count_removeAll: "count_list (removeAll i xs) j = (if j = i then 0 else count_list xs j)"
  by (induction xs) auto

lemma board_of_delete:
  "board_of (snd (delete_pipe i (r\<lparr>rd_dead := filter (\<lambda>b. body_id b \<noteq> Some i) (rd_dead r)\<rparr>))) = on_card i (\<lambda>c. no_card) (board_of r)"
  by (auto simp: board_of_def on_card_def no_card_def delete_pipe_def redis_defs zscore_def count_removeAll filter_other
      intro!: ext)

lemma board_of_requeue:
  assumes "rd_task r i = Some b"
  shows "board_of (snd (requeue_pipe i (r\<lparr>rd_dead := filter (\<lambda>b. body_id b \<noteq> Some i) (rd_dead r)\<rparr>))) =
     on_card i (\<lambda>c. no_card\<lparr>jc_body := Some b, jc_pending := Suc (jc_pending c)\<rparr>) (board_of r)"
  using assms
  by (auto simp: board_of_def on_card_def no_card_def requeue_pipe_def redis_defs zscore_def filter_other intro!: ext)

lemma board_of_task_upd:
  "on_card i f (board_of (r\<lparr>rd_task := (rd_task r)(i := b)\<rparr>)) = on_card i (\<lambda>c. f (c\<lparr>jc_body := b\<rparr>)) (board_of r)"
  by (auto simp: board_of_def on_card_def intro!: ext)

lemma on_card_cong: "f (bd_jobs B i) = g (bd_jobs B i) \<Longrightarrow> on_card i f B = on_card i g B"
  by (simp add: on_card_def)

lemma on_card_id [simp]: "on_card i (\<lambda>c. c) B = B"
  by (simp add: on_card_def)

lemma deleteTask_ok:
  assumes "deleteTask i (r, l) = (Inr u, (r', l'))"
  shows "board_of r' = on_card i (\<lambda>c. no_card) (board_of r)"
proof -
  obtain res r1 l1 where td: "takeDead i (r, l) = (res, (r1, l1))" by (metis surj_pair)
  with assms obtain x where x: "res = Inr x" by (cases res) (auto simp: deleteTask_def)
  from takeDead_ok [OF td [unfolded x]] assms td x run_ok [of "delete_pipe i" r1 l1 u r' l']
  show ?thesis by (simp add: deleteTask_def board_of_delete)
qed

text \<open>What \<open>requeue\<close> leaves of the body: the stored one, or the first dead copy.\<close>

lemma restored_then_reset:
  assumes "restore_body i d (r1, l1) = (Inr True, (r2, l2))"
    and "(if reset then reset_attempts i (r2, l2) else (r2, l2)) = (r3, l3)" and "\<not> down l3"
  shows "(rd_task r1 i \<noteq> None \<or> d \<noteq> None)
     \<and> r3 = r1\<lparr>rd_task := (rd_task r1)(i := Some ((if reset then zero_attempts else id)
         (case rd_task r1 i of Some b \<Rightarrow> b | None \<Rightarrow> the d)))\<rparr>"
proof -
  from assms(2,3) have "\<not> down l2" by (auto simp: reset_attempts_def split: if_splits)
  with restore_ok [OF assms(1)]
  have "rd_task r1 i \<noteq> None \<or> d \<noteq> None"
    and "r2 = r1\<lparr>rd_task := (rd_task r1)(i := Some (case rd_task r1 i of Some b \<Rightarrow> b | None \<Rightarrow> the d))\<rparr>"
    by (auto split: option.splits if_splits simp: fun_upd_idem)
  with reset_ok [of i r2 l2 r3 l3] assms(2,3) show ?thesis by (auto split: if_splits)
qed

lemma requeue_unknown:
  assumes "takeDead i (r, l) = (Inr d, (r1, l1))" and "restore_body i d (r1, l1) = (Inr False, (r2, l2))"
  shows "r2 = r \<and> \<not> card_known (bd_jobs (board_of r) i)"
proof -
  from takeDead_ok [OF assms(1)] restore_ok [OF assms(2)]
  have "rd_task r i = None" "filter (\<lambda>b. body_id b = Some i) (rd_dead r) = []" "r2 = r1"
    and "r1 = r\<lparr>rd_dead := filter (\<lambda>b. body_id b \<noteq> Some i) (rd_dead r)\<rparr>"
    by (auto simp: find_filter split: list.splits)
  then show ?thesis by (auto simp: card_known_def board_of_def filter_empty_conv filter_id_conv)
qed

lemma requeue_known:
  assumes "takeDead i (r, l) = (Inr d, (r1, l1))" and "restore_body i d (r1, l1) = (Inr True, (r2, l2))"
    and "(if reset then reset_attempts i (r2, l2) else (r2, l2)) = (r3, l3)" and "\<not> down l3"
  shows "board_of (snd (requeue_pipe i r3)) = on_card i (requeue_card reset) (board_of r)
     \<and> card_known (bd_jobs (board_of r) i)"
proof -
  let ?x = "(if reset then zero_attempts else id) (case rd_task r i of Some b \<Rightarrow> b | None \<Rightarrow> the d)"
  let ?dead = "filter (\<lambda>b. body_id b = Some i) (rd_dead r)"
  from takeDead_ok [OF assms(1)] have r1: "r1 = r\<lparr>rd_dead := filter (\<lambda>b. body_id b \<noteq> Some i) (rd_dead r)\<rparr>"
    and d: "d = (case ?dead of [] \<Rightarrow> None | x # _ \<Rightarrow> Some x)" by (simp_all add: find_filter)
  from restored_then_reset [OF assms(2-4)] r1
  have known: "rd_task r i \<noteq> None \<or> d \<noteq> None"
    and r3: "r3 = (r\<lparr>rd_task := (rd_task r)(i := Some ?x)\<rparr>)\<lparr>rd_dead := filter (\<lambda>b. body_id b \<noteq> Some i) (rd_dead r)\<rparr>"
    by simp_all
  from known d have card: "card_known (bd_jobs (board_of r) i)"
    by (auto simp: board_of_def card_known_def split: list.splits)
  from r3 board_of_requeue [of "r\<lparr>rd_task := (rd_task r)(i := Some ?x)\<rparr>" i ?x]
  have "board_of (snd (requeue_pipe i r3)) =
      on_card i (\<lambda>c. no_card\<lparr>jc_body := Some ?x, jc_pending := Suc (jc_pending c)\<rparr>) (board_of r)"
    by (simp add: board_of_task_upd)
  also have "\<dots> = on_card i (requeue_card reset) (board_of r)"
    using card known d
    by (intro on_card_cong) (auto simp: requeue_card_def requeued_def board_of_def split: option.splits list.splits)
  finally show ?thesis using card by simp
qed

lemma requeue_ok:
  assumes "requeue i reset (r, l) = (Inr ok, (r', l'))"
  shows "board_of r' = on_card i (requeue_card reset) (board_of r) \<and> ok = card_known (bd_jobs (board_of r) i)"
proof -
  obtain res r1 l1 where td: "takeDead i (r, l) = (res, (r1, l1))" by (metis surj_pair)
  with assms obtain d where d: "res = Inr d" by (cases res) (auto simp: requeue_def)
  obtain res2 r2 l2 where rb: "restore_body i d (r1, l1) = (res2, (r2, l2))" by (metis surj_pair)
  with assms td d obtain found where f: "res2 = Inr found" by (cases res2) (auto simp: requeue_def)
  show ?thesis
  proof (cases found)
    case False
    with requeue_unknown [OF td [unfolded d]] rb f assms td d show ?thesis
      by (simp add: requeue_def requeue_card_def on_card_def)
  next
    case True
    obtain r3 l3 where r3: "(if reset then reset_attempts i (r2, l2) else (r2, l2)) = (r3, l3)" by (metis surj_pair)
    with assms td d rb f True
    have pipe: "(case run (requeue_pipe i) (r3, l3) of (Inl e, x) \<Rightarrow> (Inl e, x) | (Inr _, x) \<Rightarrow> (Inr True, x)) = (Inr ok, (r', l'))"
      by (simp add: requeue_def)
    then have "\<not> down l3" and "ok" and "r' = snd (requeue_pipe i r3)"
      by (auto simp: run_ok split: sum.splits prod.splits)
    moreover from rb f True have "restore_body i d (r1, l1) = (Inr True, (r2, l2))" by simp
    ultimately show ?thesis using requeue_known [OF td [unfolded d] _ r3] by simp
  qed
qed

section \<open>Every handler implements the board\<close>

lemma pipeline_append: "snd (pipeline (fs @ gs) r) = snd (pipeline gs (snd (pipeline fs r)))"
  by (induction fs arbitrary: r) auto

lemma pipeline_del_tasks:
  "snd (pipeline (map del_task is) r) = r\<lparr>rd_task := fold (\<lambda>i m. m(i := None)) is (rd_task r)\<rparr>"
  by (induction "is" arbitrary: r) (simp_all add: del_task_def)

lemma fold_del: "fold (\<lambda>i m. m(i := None)) is m j = (if j \<in> set is then None else m j)"
  by (induction "is" arbitrary: m) simp_all

lemma count_list_0: "count_list xs i = 0 \<longleftrightarrow> i \<notin> set xs"
  by (induction xs) auto

lemma purge_queue_ok:
  assumes "h_PurgeQueue n (r, l) = (rep, (r', l'))" and "\<And>e. rep \<noteq> Problem 500 e"
  shows "board_of r' = spec (PurgeQueue n) (board_of r)"
proof (rule run_cases [of "\<lambda>r. (rd_immediate r, r)" r l])
  let ?p = "pipeline (map del_task (rd_immediate r) @ [\<lambda>r. ((), r\<lparr>rd_immediate := []\<rparr>)])"
  fix l1 assume "run (\<lambda>r. (rd_immediate r, r)) (r, l) = (Inr (fst (rd_immediate r, r)), (snd (rd_immediate r, r), l1))"
  with assms have "r' = snd (?p r)"
    by (rule_tac run_cases [of ?p r l1]) (auto simp: h_PurgeQueue_def)
  then show ?thesis
    by (auto simp: pipeline_append pipeline_del_tasks board_of_def on_cards_def count_list_0 fold_del intro!: ext)
qed (use assms in \<open>auto simp: h_PurgeQueue_def\<close>)

lemma map_filter_ids: "i \<in> set (List.map_filter body_id bs) \<longleftrightarrow> filter (\<lambda>b. body_id b = Some i) bs \<noteq> []"
  by (induction bs) (auto simp: List.map_filter_def)

lemma purge_dlq_ok:
  assumes "h_PurgeDLQ (r, l) = (rep, (r', l'))" and "\<And>e. rep \<noteq> Problem 500 e"
  shows "board_of r' = spec PurgeDlq (board_of r)"
proof (rule run_cases [of lrange_dead r l])
  let ?p = "pipeline (map del_task (List.map_filter body_id (rd_dead r)) @ [\<lambda>r. ((), r\<lparr>rd_dead := []\<rparr>)])"
  fix l1 assume "run lrange_dead (r, l) = (Inr (fst (lrange_dead r)), (snd (lrange_dead r), l1))"
  with assms have "r' = snd (?p r)"
    by (rule_tac run_cases [of ?p r l1]) (auto simp: h_PurgeDLQ_def lrange_dead_def)
  then show ?thesis
    by (auto simp: pipeline_append pipeline_del_tasks board_of_def on_cards_def map_filter_ids fold_del intro!: ext)
qed (use assms in \<open>auto simp: h_PurgeDLQ_def\<close>)

lemma promote_ok:
  assumes "h_PromoteDelayed i (r, l) = (rep, (r', l'))" and "\<And>e. rep \<noteq> Problem 500 e"
  shows "board_of r' = spec (PromoteDelayed i) (board_of r)"
proof (rule run_cases [of "\<lambda>r. (zscore i (rd_scheduled r), r)" r l])
  let ?p = "pipeline [zrem_scheduled i, lpush_immediate i]"
  fix l1 assume z: "run (\<lambda>r. (zscore i (rd_scheduled r), r)) (r, l) =
    (Inr (fst (zscore i (rd_scheduled r), r)), (snd (zscore i (rd_scheduled r), r), l1))"
  show ?thesis
  proof (cases "zscore i (rd_scheduled r)")
    case None
    with z assms show ?thesis
      by (auto simp: h_PromoteDelayed_def promote_card_def board_of_def on_card_def intro!: ext)
  next
    case (Some s)
    with z assms have "r' = snd (?p r)"
      by (rule_tac run_cases [of ?p r l1]) (auto simp: h_PromoteDelayed_def reply_done_def)
    with Some show ?thesis
      by (auto simp: board_of_def on_card_def promote_card_def redis_defs zscore_def intro!: ext)
  qed
qed (use assms in \<open>auto simp: h_PromoteDelayed_def\<close>)

lemma reply_found_ok:
  assumes "reply_found s p = (rep, d)" and "\<And>e. rep \<noteq> Problem 500 e"
  obtains ok where "p = (Inr ok, d)"
  using assms by (auto simp: reply_found_def split: prod.splits sum.splits)

lemma reply_done_ok:
  assumes "reply_done p = (rep, d)" and "\<And>e. rep \<noteq> Problem 500 e"
  obtains u where "p = (Inr u, d)"
  using assms by (auto simp: reply_done_def split: prod.splits sum.splits)

text \<open>
  What a handler does to the database is the composition of its commands. \<open>keeps R r p\<close>: the database of \<open>p\<close> is
  one that \<open>R\<close> allows after \<open>r\<close>. For a transitive \<open>R\<close> that allows what the registry does, the handlers that read
  keep it, whatever the connection does; the rest is left to each relation.
\<close>

definition keeps :: "(redis \<Rightarrow> redis \<Rightarrow> bool) \<Rightarrow> redis \<Rightarrow> 'a \<times> db \<Rightarrow> bool" where
  "keeps R r p \<longleftrightarrow> R r (fst (snd p))"

definition allowed :: "(redis \<Rightarrow> redis \<Rightarrow> bool) \<Rightarrow> 'a cmd \<Rightarrow> bool" where
  "allowed R f \<longleftrightarrow> (\<forall>r. R r (snd (f r)))"

lemma keeps_pair [simp]: "keeps R r (x, d) \<longleftrightarrow> R r (fst d)"
  by (simp add: keeps_def)

lemma keeps_bind [intro]:
  assumes "keeps R r p" and "\<And>x d1. R r (fst d1) \<Longrightarrow> keeps R r (k x d1)"
  shows "keeps R r (case p of (x, d1) \<Rightarrow> k x d1)"
  using assms by (cases p) simp

locale command_frame =
  fixes R :: "redis \<Rightarrow> redis \<Rightarrow> bool"
  assumes R_refl: "R r r"
    and R_trans: "R r r1 \<Longrightarrow> R r1 r2 \<Longrightarrow> R r r2"
    and R_workers: "R r (r\<lparr>rd_workers := ws\<rparr>)"
    and R_wleases: "R r (r\<lparr>rd_wleases := wl\<rparr>)"
begin

lemma allowed_read: "allowed R (\<lambda>r. (f r, r))" "allowed R (get_task i)" "allowed R lrange_dead"
  by (simp_all add: allowed_def redis_defs R_refl)

lemma allowed_registry: "allowed R (\<lambda>r. (u, r\<lparr>rd_workers := f r\<rparr>))" "allowed R (\<lambda>r. (u, r\<lparr>rd_wleases := g r\<rparr>))"
  by (simp_all add: allowed_def R_workers R_wleases)

lemma keeps_run: "allowed R f \<Longrightarrow> R r (fst d) \<Longrightarrow> keeps R r (run f d)"
  using R_trans [of r "fst d" "snd (f (fst d))"]
  by (auto simp: keeps_def run_def allowed_def split: prod.splits option.splits nat.splits)

lemma keeps_run_snd: "allowed R f \<Longrightarrow> R r (fst d) \<Longrightarrow> R r (fst (snd (run f d)))"
  using keeps_run [of f r d] by (simp add: keeps_def)

lemmas keeps_rules = keeps_bind keeps_run keeps_run_snd allowed_read allowed_registry

lemma isDead_keeps: "R r (fst d) \<Longrightarrow> keeps R r (isDead i d)"
  unfolding isDead_def by (intro keeps_rules) (auto split: sum.splits)

lemma job_place_keeps: "R r (fst d) \<Longrightarrow> keeps R r (job_place i d)"
  unfolding job_place_def
  by (intro keeps_rules) (auto intro!: keeps_rules isDead_keeps split: sum.splits option.splits)

lemma readTaskFull_keeps: "R r (fst d) \<Longrightarrow> keeps R r (readTaskFull ge i d)"
  unfolding readTaskFull_def
  by (intro keeps_rules) (auto intro!: keeps_rules job_place_keeps split: sum.splits option.splits body.splits)

lemma delayed_loop_keeps: "R r (fst d) \<Longrightarrow> keeps R r (delayed_loop ge zs d)"
proof (induction zs arbitrary: d)
  case (Cons z zs)
  obtain i score where z: "z = (i, score)" by (cases z)
  show ?case
    unfolding z delayed_loop.simps
    by (rule keeps_bind [OF readTaskFull_keeps [OF Cons.prems]])
      (auto intro!: keeps_bind Cons.IH split: sum.splits option.splits)
qed simp

lemma lease_loop_keeps: "R r (fst d) \<Longrightarrow> keeps R r (lease_loop ge wid ts d)"
proof (induction ts arbitrary: d)
  case (Cons t ts)
  show ?case
    unfolding lease_loop.simps
    by (rule keeps_bind, rule keeps_run, rule allowed_read, rule Cons.prems)
      (auto intro!: keeps_rules Cons.IH split: sum.splits option.splits)
qed simp

lemma readWorkerLeases_keeps: "R r (fst d) \<Longrightarrow> keeps R r (readWorkerLeases ge wid d)"
  unfolding readWorkerLeases_def by (intro keeps_rules) (auto intro!: lease_loop_keeps split: sum.splits)

lemma worker_loop_keeps: "R r (fst d) \<Longrightarrow> keeps R r (worker_loop ge is d)"
proof (induction "is" arbitrary: d)
  case (Cons i "is")
  show ?case
    unfolding worker_loop.simps
    by (rule keeps_bind, rule keeps_run, rule allowed_read, rule Cons.prems)
      (auto intro!: keeps_rules Cons.IH readWorkerLeases_keeps split: sum.splits option.splits)
qed simp

lemma readWorkers_keeps: "R r (fst d) \<Longrightarrow> keeps R r (readWorkers ge d)"
  unfolding readWorkers_def by (intro keeps_rules) (auto intro!: worker_loop_keeps split: sum.splits)

lemma val_keeps: "R r (fst d) \<Longrightarrow> keeps R r (val f d)"
  unfolding val_def by (intro keeps_rules) (auto split: sum.splits)

lemma queueStatus_keeps: "R r (fst d) \<Longrightarrow> keeps R r (queueStatus d)"
  unfolding queueStatus_def by (intro keeps_rules) (auto split: sum.splits bool.splits)

lemma queue_doc_keeps: "R r (fst d) \<Longrightarrow> keeps R r (queue_doc ge n d)"
  unfolding queue_doc_def
  by (intro keeps_bind val_keeps readWorkers_keeps queueStatus_keeps; simp)

lemma workerCounts_keeps: "R r (fst d) \<Longrightarrow> keeps R r (workerCounts ge d)"
  unfolding workerCounts_def by (intro keeps_bind readWorkers_keeps) simp_all

lemma reads_keep:
  assumes "R r (fst d)"
  shows "keeps R r (h_Stats ge d)" "keeps R r (h_Queues ge d)" "keeps R r (h_Queue ge n d)"
    "keeps R r (h_QueueJobs n d)" "keeps R r (h_Job ge i d)" "keeps R r (h_Workers ge d)"
    "keeps R r (h_Worker ge i d)" "keeps R r (h_DLQ ge d)" "keeps R r (h_Delayed ge d)"
  using assms
  unfolding h_Stats_def h_Queues_def h_Queue_def h_QueueJobs_def h_Job_def h_Workers_def h_Worker_def h_DLQ_def
    h_Delayed_def
  by (auto intro!: keeps_rules val_keeps workerCounts_keeps queue_doc_keeps readTaskFull_keeps readWorkers_keeps
      delayed_loop_keeps split: sum.splits option.splits)

end

interpretation board_frame: command_frame "\<lambda>r r'. board_of r' = board_of r"
  by unfold_locales (simp_all add: board_of_def)

lemmas board_reads_keep = board_frame.reads_keep [OF refl, unfolded keeps_def]

section \<open>The service\<close>

definition failed_reply :: "reply option \<Rightarrow> bool" where
  "failed_reply rep \<longleftrightarrow> (\<exists>e. rep = Some (Problem 500 e))"

lemma failed_reply_code [code]:
  "failed_reply rep = (case rep of Some (Problem st e) \<Rightarrow> st = 500 | _ \<Rightarrow> False)"
  by (auto simp: failed_reply_def split: option.splits reply.splits)

text \<open>One call; the calls that \<open>serve\<close> does not cover leave the database alone.\<close>

definition serve_call :: "go_env \<Rightarrow> api_call \<Rightarrow> db \<Rightarrow> reply option \<times> db" where
  "serve_call ge c d = (case serve ge c d of None \<Rightarrow> (None, d) | Some (rep, d') \<Rightarrow> (Some rep, d'))"

lemma toggle_paused_ok:
  assumes "reply_done (run (\<lambda>r. ((), r\<lparr>rd_paused := b\<rparr>)) (r, l)) = (rep, (r', l'))" and "\<And>e. rep \<noteq> Problem 500 e"
  shows "board_of r' = (board_of r)\<lparr>bd_paused := b\<rparr>"
  using assms by (elim reply_done_ok) (auto dest!: run_ok simp: board_of_def)

lemma serve_accepted:
  assumes "serve ge c (r, l) = Some (rep, (r', l'))" and ok: "\<And>e. rep \<noteq> Problem 500 e"
  shows "board_of r' = spec c (board_of r)"
proof (cases c)
  case (RetryJob i)
  with assms show ?thesis
    by (auto simp: h_RetryJob_def dest!: requeue_ok elim!: reply_found_ok)
next
  case (RequeueJob i)
  with assms show ?thesis
    by (auto simp: h_RequeueJob_def dest!: requeue_ok elim!: reply_found_ok)
next
  case (RetryDlq i)
  with assms show ?thesis
    by (auto simp: h_RetryDLQ_def dest!: requeue_ok elim!: reply_found_ok)
next
  case (DeleteJob i)
  with assms show ?thesis by (auto simp: h_DeleteJob_def dest!: deleteTask_ok elim!: reply_done_ok)
next
  case (DeleteDlq i)
  with assms show ?thesis by (auto simp: h_DeleteDLQ_def dest!: deleteTask_ok elim!: reply_done_ok)
next
  case (CancelDelayed i)
  with assms show ?thesis by (auto simp: h_CancelDelayed_def dest!: deleteTask_ok elim!: reply_done_ok)
next
  case (PauseQueue n)
  with assms toggle_paused_ok [of True] show ?thesis by (simp add: h_PauseQueue_def)
next
  case (ResumeQueue n)
  with assms toggle_paused_ok [of False] show ?thesis by (simp add: h_ResumeQueue_def)
next
  case (PurgeQueue n)
  with assms purge_queue_ok show ?thesis by simp
next
  case PurgeDlq
  with assms purge_dlq_ok show ?thesis by simp
next
  case (PromoteDelayed i)
  with assms promote_ok show ?thesis by simp
qed (use assms(1) in \<open>auto simp: board_reads_keep dest!: arg_cong [where f = "\<lambda>p. board_of (fst (snd p))"]\<close>)

lemma serve_None: "serve ge c d = None \<Longrightarrow> spec c B = B"
  by (cases c) simp_all

interpretation job_service: service_refinement "serve_call ge" "\<lambda>rep. \<not> failed_reply rep" "\<lambda>d. board_of (fst d)" spec for ge
proof unfold_locales
  fix c :: api_call and d d' :: db and rep
  assume s: "serve_call ge c d = (rep, d')" and ok: "\<not> failed_reply rep"
  show "board_of (fst d') = spec c (board_of (fst d))"
  proof (cases "serve ge c d")
    case None
    with s serve_None show ?thesis by (auto simp: serve_call_def)
  next
    case (Some p)
    with s ok serve_accepted [of ge c "fst d" "snd d" "the rep" "fst d'" "snd d'"] show ?thesis
      by (auto simp: serve_call_def failed_reply_def split: prod.splits)
  qed
qed

text \<open>With a connection that holds, no call that changes jobs fails.\<close>

lemma take_loop_up: "up l \<Longrightarrow> \<exists>x r'. take_loop i bs found (r, l) = (Inr x, (r', l))"
  by (induction bs arbitrary: found r) auto

lemma takeDead_up: "up l \<Longrightarrow> \<exists>x r'. takeDead i (r, l) = (Inr x, (r', l))"
  using take_loop_up by (simp add: takeDead_def)

lemma requeue_up: "up l \<Longrightarrow> \<exists>ok r'. requeue i reset (r, l) = (Inr ok, (r', l))"
  using takeDead_up [of l i r]
  by (auto simp: requeue_def restore_body_def reset_attempts_def get_task_def split: option.splits body.splits)

text \<open>A job with a stored body is found, and its body stays, with its attempts or with none.\<close>

lemma requeue_stored:
  assumes "rd_task r i = Some b" and "up l"
  shows "\<exists>r'. requeue i reset (r, l) = (Inr True, (r', l)) \<and> rd_task r' i = Some ((if reset then zero_attempts else id) b)"
proof -
  obtain ok r' where q: "requeue i reset (r, l) = (Inr ok, (r', l))" using requeue_up [OF assms(2)] by blast
  have known: "jc_body (bd_jobs (board_of r) i) = Some b" using assms(1) by (simp add: board_of_def)
  from requeue_ok [OF q] known have ok: "ok" and b: "board_of r' = on_card i (requeue_card reset) (board_of r)"
    by (simp_all add: card_known_def)
  have "rd_task r' i = jc_body (bd_jobs (board_of r') i)" by (simp add: board_of_def)
  also have "\<dots> = Some ((if reset then zero_attempts else id) b)"
    using known by (simp add: b on_card_def requeue_card_def card_known_def requeued_def)
  finally show ?thesis using q ok by auto
qed

lemma deleteTask_up: "up l \<Longrightarrow> \<exists>r'. deleteTask i (r, l) = (Inr (), (r', l))"
  using takeDead_up [of l i r] by (auto simp: deleteTask_def)

lemma requeue_reply_up: "up l \<Longrightarrow> fst (reply_found s (requeue i reset (r, l))) \<noteq> Problem 500 e"
  using requeue_up [of l i reset r] by (auto simp: reply_found_def split: if_splits)

lemma delete_reply_up: "up l \<Longrightarrow> fst (reply_done (deleteTask i (r, l))) \<noteq> Problem 500 e"
  using deleteTask_up [of l i r] by (auto simp: reply_done_def)

lemma reply_done_Inr [simp]: "reply_done (Inr u, d) = (NoContent, d)"
  by (simp add: reply_done_def)

lemma write_reply_up:
  assumes "up l" and "is_write c" and "serve ge c (r, l) = Some p"
  shows "\<forall>e. fst p \<noteq> Problem 500 e"
proof (cases c)
  case (PurgeQueue n)
  with assms show ?thesis by (auto simp: h_PurgeQueue_def)
next
  case PurgeDlq
  with assms show ?thesis by (auto simp: h_PurgeDLQ_def)
next
  case (PromoteDelayed i)
  with assms show ?thesis by (auto simp: h_PromoteDelayed_def reply_done_def split: option.splits)
qed (use assms in \<open>auto simp: h_RetryJob_def h_RequeueJob_def h_RetryDLQ_def h_DeleteJob_def h_DeleteDLQ_def
    h_CancelDelayed_def h_PauseQueue_def h_ResumeQueue_def requeue_reply_up delete_reply_up\<close>)

section \<open>Properties\<close>


definition sample_task :: task_meta where
  "sample_task = \<lparr>tm_id = ''j1'', tm_type = ''email'', tm_payload = JNull, tm_max = 3, tm_attempts = 2\<rparr>"

definition sample_redis :: redis where
  "sample_redis = \<lparr>rd_task = Map.empty, rd_immediate = [''j0''], rd_scheduled = [], rd_inflight = [], rd_leases = Map.empty,
     rd_dead = [Body sample_task, Corrupt ''x''], rd_paused = False, rd_completed = [], rd_enqueued = [], rd_failed = [], rd_workers = [],
     rd_meta = Map.empty, rd_wleases = (\<lambda>w. [])\<rparr>"

definition sample_link :: "nat option \<Rightarrow> link_state" where
  "sample_link n = \<lparr>ln_budget = n, ln_torn = False, ln_error = ''EOF''\<rparr>"

definition sample_env :: go_env where
  "sample_env = \<lparr>ge_now = 0, ge_fmt = to_iso, ge_jsonerr = (\<lambda>s. ''invalid'')\<rparr>"

lemmas sample_defs = sample_task_def sample_redis_def sample_link_def sample_env_def

lemma sample_retry:
  "run_service (serve_call sample_env) [RetryDlq ''j1''] (sample_redis, sample_link None) =
     ([Some NoContent], (sample_redis\<lparr>rd_task := [''j1'' \<mapsto> Body (sample_task\<lparr>tm_attempts := 0\<rparr>)],
        rd_immediate := [''j1'', ''j0''], rd_dead := [Corrupt ''x'']\<rparr>, sample_link None))"
  by (simp add: serve_call_def h_RetryDLQ_def requeue_def takeDead_def restore_body_def reset_attempts_def
      requeue_pipe_def reply_found_def redis_defs body_id_def zrem_def sample_defs run_def)


lemma dlq_listed:
  "i \<in> de_jobId ` set (map (dlq_entry_of ge) (List.map_filter unmarshal bs)) \<Longrightarrow> filter (\<lambda>b. body_id b = Some i) bs \<noteq> []"
  by (force simp: List.map_filter_def dlq_entry_of_def body_id_def filter_empty_conv)

text \<open>
  Deleting is complete and touches nothing else: once a delete has been answered with 204, the
  job cannot be found, listed among the dead letters or the delayed jobs, or retried, and the
  card of every other job is as it was.
\<close>

theorem deleted_job_gone:
  assumes "h_DeleteJob i d = (NoContent, d')" and "up (snd d')"
  shows "fst (h_Job ge i d') = Problem 404 (''job '' @ i @ '' not found'')
     \<and> (\<forall>es. fst (h_DLQ ge d') = DlqDoc es \<longrightarrow> i \<notin> de_jobId ` set es)
     \<and> zscore i (rd_scheduled (fst d')) = None
     \<and> fst (h_RetryJob i d') = Problem 404 (''job '' @ i @ '' not found'')
     \<and> (\<forall>j. j \<noteq> i \<longrightarrow> bd_jobs (board_of (fst d')) j = bd_jobs (board_of (fst d)) j)"
proof -
  obtain r l r' l' where d: "d = (r, l)" "d' = (r', l')" by (metis surj_pair)
  from assms(1) obtain u where "deleteTask i (r, l) = (Inr u, (r', l'))"
    unfolding h_DeleteJob_def d by (rule reply_done_ok) auto
  then have b: "board_of r' = on_card i (\<lambda>c. no_card) (board_of r)" by (rule deleteTask_ok)
  then have card: "bd_jobs (board_of r') i = no_card"
    and other: "\<And>j. j \<noteq> i \<Longrightarrow> bd_jobs (board_of r') j = bd_jobs (board_of r) j"
    by (simp_all add: on_card_def)
  from card have gone: "rd_task r' i = None" "zscore i (rd_scheduled r') = None"
      "filter (\<lambda>b. body_id b = Some i) (rd_dead r') = []"
    by (simp_all add: board_of_def no_card_def)
  have dead: "\<forall>es. fst (h_DLQ ge d') = DlqDoc es \<longrightarrow> i \<notin> de_jobId ` set es"
    using dlq_listed [of i ge "rd_dead r'"] gone(3) assms(2) d by (auto simp: h_DLQ_def lrange_dead_def)
  from assms(2) d obtain ok r2 where q: "requeue i True (r', l') = (Inr ok, (r2, l'))"
    using requeue_up by (metis snd_conv)
  from requeue_ok [OF q] card have "\<not> ok" by (simp add: card_known_def no_card_def)
  with q gone(1,2) dead other assms(2) d show ?thesis
    by (simp add: h_Job_def readTaskFull_def get_task_def h_RetryJob_def reply_found_def)
qed

lemma sample_delete:
  "h_DeleteJob ''j1'' (sample_redis, sample_link None) =
     (NoContent, (sample_redis\<lparr>rd_dead := [Corrupt ''x'']\<rparr>, sample_link None))"
  by (simp add: h_DeleteJob_def deleteTask_def takeDead_def delete_pipe_def redis_defs body_id_def zrem_def sample_defs run_def)

theorem deleted_job_gone_witness:
  "fst (h_RetryJob ''j1'' (sample_redis\<lparr>rd_dead := [Corrupt ''x'']\<rparr>, sample_link None)) = Problem 404 ''job j1 not found''"
  using deleted_job_gone [OF sample_delete] by (simp add: sample_link_def)

lemma take_loop_budget:
  "ln_budget l = Some (length (filter (\<lambda>b. body_id b = Some i) bs) + n) \<Longrightarrow>
     \<exists>x r'. take_loop i bs found (r, l) = (Inr x, (r', l\<lparr>ln_budget := Some n\<rparr>))"
proof (induction bs arbitrary: found r l)
  case (Cons b bs)
  show ?case
  proof (cases "body_id b = Some i")
    case True
    with Cons.prems have "run (lrem_dead b) (r, l) =
        (Inr (), (snd (lrem_dead b r), l\<lparr>ln_budget := Some (length (filter (\<lambda>b. body_id b = Some i) bs) + n)\<rparr>))"
      by (simp add: run_def)
    with True Cons.IH [of "l\<lparr>ln_budget := Some (length (filter (\<lambda>b. body_id b = Some i) bs) + n)\<rparr>"] show ?thesis by simp
  qed (use Cons in simp)
qed (metis add.left_neutral filter.simps(1) link_state.surjective link_state.update_convs(1) list.size(3) take_loop.simps(1))

lemma unknown_retry:
  assumes "\<not> card_known (bd_jobs (board_of r) i)" and "up l"
  shows "fst (h_RetryDLQ i (r, l)) = Problem 404 (''dlq entry '' @ i @ '' not found'')"
proof -
  obtain ok r2 where q: "requeue i True (r, l) = (Inr ok, (r2, l))" using requeue_up [OF assms(2)] by blast
  with requeue_ok [OF q] assms(1) show ?thesis by (simp add: h_RetryDLQ_def reply_found_def)
qed

text \<open>
  (C29) A retry is not atomic and can lose a job: when a dead letter has no stored body and the connection
  drops after it has been taken off the dead list, the call answers 500 and the job exists nowhere
  any more; no later retry finds it.
\<close>

theorem retry_can_lose_job:
  assumes "rd_task r i = None" and "filter (\<lambda>b. body_id b = Some i) (rd_dead r) \<noteq> []" and "\<not> ln_torn l"
    and "ln_budget l = Some (Suc (length (filter (\<lambda>b. body_id b = Some i) (rd_dead r)) + 1))"
    and "(rep, (r', l')) = h_RetryDLQ i (r, l)" and "up l2"
  shows "card_known (bd_jobs (board_of r) i) \<and> rep = Problem 500 (ln_error l)
     \<and> \<not> card_known (bd_jobs (board_of r') i)
     \<and> fst (h_RetryDLQ i (r', l2)) = Problem 404 (''dlq entry '' @ i @ '' not found'')"
proof -
  let ?l = "\<lambda>n. l\<lparr>ln_budget := Some n\<rparr>"
  have "run lrange_dead (r, l) = (Inr (rd_dead r), (r, ?l (length (filter (\<lambda>b. body_id b = Some i) (rd_dead r)) + 1)))"
    using assms(4) by (simp add: run_def lrange_dead_def)
  with take_loop_budget [of "?l (length (filter (\<lambda>b. body_id b = Some i) (rd_dead r)) + 1)" i "rd_dead r" 1 None r]
  obtain x r1 where td: "takeDead i (r, l) = (Inr x, (r1, ?l 1))" by (auto simp: takeDead_def)
  from takeDead_ok [OF td] assms(2)
  have r1: "r1 = r\<lparr>rd_dead := filter (\<lambda>b. body_id b \<noteq> Some i) (rd_dead r)\<rparr>" and x: "x \<noteq> None"
    by (auto simp: find_filter split: list.splits)
  from x obtain b where b: "x = Some b" by blast
  have "restore_body i x (r1, ?l 1) = (Inl (ln_error l), (r1, (?l 0)\<lparr>ln_torn := False\<rparr>))"
    using assms(1,3) r1 b by (simp add: restore_body_def run_def get_task_def)
  with td assms(5) have rep: "rep = Problem 500 (ln_error l)" and r': "r' = r1"
    by (simp_all add: h_RetryDLQ_def requeue_def reply_found_def)
  have gone: "\<not> card_known (bd_jobs (board_of r') i)"
    using assms(1) by (simp add: r' r1 card_known_def board_of_def)
  show ?thesis
    using assms(2) rep gone unknown_retry [OF gone assms(6)] by (simp add: card_known_def board_of_def)
qed

theorem retry_can_lose_job_witness:
  "fst (h_RetryDLQ ''j1'' (sample_redis, sample_link (Some 3))) = Problem 500 ''EOF''
   \<and> fst (h_RetryDLQ ''j1'' (fst (snd (h_RetryDLQ ''j1'' (sample_redis, sample_link (Some 3)))), sample_link None)) =
       Problem 404 ''dlq entry j1 not found''"
  using retry_can_lose_job [of sample_redis "''j1''" "sample_link (Some 3)"
      "fst (h_RetryDLQ ''j1'' (sample_redis, sample_link (Some 3)))"
      "fst (snd (h_RetryDLQ ''j1'' (sample_redis, sample_link (Some 3))))"
      "snd (snd (h_RetryDLQ ''j1'' (sample_redis, sample_link (Some 3))))" "sample_link None"]
  by (simp add: sample_redis_def sample_link_def body_id_def sample_task_def)

end
