(* ===== verification/Task_Queue.thy ===== *)
theory Task_Queue
  imports Redis_Store
begin

text \<open>
  The queue engine, one operation at a time: the scripts and loops of a worker pool
  (\<open>internal/worker/worker.go\<close>). A Lua script runs atomically in Redis, so it is one command of \<open>Redis_Store\<close>;
  the Go function around it runs it over a connection that may be lost. Instants are microseconds, durations
  nanoseconds as in Go. \<open>Queue_Engine\<close> puts the operations together.
\<close>

section \<open>The pool\<close>

record pool =
  wp_id :: string
  wp_hostname :: string
  wp_version :: string
  wp_startedAt :: string
  wp_concurrency :: int
  wp_leaseDuration :: int
  wp_backoffBase :: int
  wp_backoffCap :: int
  wp_batchSize :: int
  wp_drainTimeout :: int
  wp_recoveryInterval :: int

definition second :: int where
  "second = 1000000000"

definition NewWorkerPool :: "string \<Rightarrow> string \<Rightarrow> string \<Rightarrow> string \<Rightarrow> int \<Rightarrow> pool" where
  "NewWorkerPool uuid hostname version startedAt concurrencyLimit =
     \<lparr>wp_id = uuid, wp_hostname = hostname, wp_version = version, wp_startedAt = startedAt,
      wp_concurrency = concurrencyLimit, wp_leaseDuration = 10 * second, wp_backoffBase = 1 * second,
      wp_backoffCap = 60 * second, wp_batchSize = 1, wp_drainTimeout = 30 * second,
      wp_recoveryInterval = 1 * second\<rparr>"

definition WithBatchSize :: "int \<Rightarrow> pool \<Rightarrow> pool" where
  "WithBatchSize n wp = wp\<lparr>wp_batchSize := (if n < 1 then 1 else n)\<rparr>"

definition WithDrainTimeout :: "int \<Rightarrow> pool \<Rightarrow> pool" where
  "WithDrainTimeout d wp = (if d > 0 then wp\<lparr>wp_drainTimeout := d\<rparr> else wp)"

text \<open>A duration as a script's argument: \<open>d.Seconds()\<close>, in the unit of scores.\<close>

definition micros :: "int \<Rightarrow> int" where
  "micros d = d div 1000"

section \<open>Claiming\<close>

record task_claim =
  tc_id :: string
  tc_lease :: string
  tc_body :: "body option"

text \<open>The loop of the script: pop, put in flight, store the lease, once per lease id while there are tasks.\<close>

fun claim_loop :: "int \<Rightarrow> string list \<Rightarrow> string list cmd" where
  "claim_loop expiry [] r = ([], r)"
| "claim_loop expiry (l # ls) r =
     (case rd_immediate r of
        [] \<Rightarrow> ([], r)
      | i # is \<Rightarrow>
          (case claim_loop expiry ls
              (r\<lparr>rd_immediate := is, rd_inflight := zadd i expiry (rd_inflight r), rd_leases := (rd_leases r)(i \<mapsto> l)\<rparr>)
           of (ids, r') \<Rightarrow> (i # ids, r')))"

definition claim_script :: "int \<Rightarrow> string list \<Rightarrow> (string \<times> body option) list cmd" where
  "claim_script expiry ls r =
     (if rd_paused r then ([], r)
      else case claim_loop expiry ls r of (ids, r') \<Rightarrow> (map (\<lambda>i. (i, rd_task r' i)) ids, r'))"

definition batch_of :: "pool \<Rightarrow> nat" where
  "batch_of wp = nat (if wp_batchSize wp < 1 then 1 else wp_batchSize wp)"

definition claimBatch :: "pool \<Rightarrow> int \<Rightarrow> (nat \<Rightarrow> string) \<Rightarrow> db \<Rightarrow> (string + task_claim list) \<times> db" where
  "claimBatch wp now uuid d =
     (let leaseIDs = map uuid [0..<batch_of wp] in
      case run (claim_script (now + micros (wp_leaseDuration wp)) leaseIDs) d of
        (Inl e, d1) \<Rightarrow> (Inl e, d1)
      | (Inr its, d1) \<Rightarrow>
          (Inr (map (\<lambda>((i, b), l). \<lparr>tc_id = i, tc_lease = l, tc_body = b\<rparr>) (zip its leaseIDs)), d1))"

section \<open>Releasing: retry, dead letter, acknowledge\<close>

datatype rq_status = RqFenced | RqGone | RqRenewed | RqNoBody | RqDead | RqScheduled

text \<open>The script's doubling loop; multiplying a double by two is exact, so integers do.\<close>

function lua_double :: "int \<Rightarrow> int \<Rightarrow> int \<Rightarrow> int" where
  "lua_double i attempts delay = (if i \<le> attempts then lua_double (i + 1) attempts (delay * 2) else delay)"
  by pat_completeness auto
termination
  by (relation "measure (\<lambda>(i, attempts, _). nat (attempts + 1 - i))") auto

declare lua_double.simps [simp del]

definition lua_backoff :: "int \<Rightarrow> int \<Rightarrow> int \<Rightarrow> int" where
  "lua_backoff base cap attempts =
     (let delay = lua_double 2 attempts base in if delay > cap then cap else delay)"

definition release :: "string \<Rightarrow> redis \<Rightarrow> redis" where
  "release i r = r\<lparr>rd_inflight := zrem i (rd_inflight r), rd_leases := (rd_leases r)(i := None)\<rparr>"

definition count_attempt :: "int \<Rightarrow> int \<Rightarrow> int \<Rightarrow> string \<Rightarrow> rq_status cmd" where
  "count_attempt base cap now i r =
     (case rd_task r i of
        None \<Rightarrow> (RqNoBody, r)
      | Some (Corrupt s) \<Rightarrow> (RqDead, r\<lparr>rd_dead := Corrupt s # rd_dead r\<rparr>)
      | Some (Body tm) \<Rightarrow>
          let attempts = tm_attempts tm + 1;
              newBody = Body (tm\<lparr>tm_attempts := attempts\<rparr>);
              r1 = r\<lparr>rd_task := (rd_task r)(i \<mapsto> newBody)\<rparr>
          in if tm_max tm > 0 \<and> attempts \<ge> tm_max tm then (RqDead, r1\<lparr>rd_dead := newBody # rd_dead r1\<rparr>)
             else (RqScheduled, r1\<lparr>rd_scheduled := zadd i (now + lua_backoff base cap attempts) (rd_scheduled r1)\<rparr>))"

text \<open>\<open>leaseID\<close> empty: called by recovery.\<close>

definition requeue_script :: "int \<Rightarrow> int \<Rightarrow> int \<Rightarrow> string \<Rightarrow> string \<Rightarrow> rq_status cmd" where
  "requeue_script base cap now i leaseID r =
     (if leaseID \<noteq> [] then
        if rd_leases r i \<noteq> Some leaseID then (RqFenced, r) else count_attempt base cap now i (release i r)
      else
        (case zscore i (rd_inflight r) of
           None \<Rightarrow> (RqGone, r)
         | Some expiry \<Rightarrow>
             if expiry > now then (RqRenewed, r) else count_attempt base cap now i (release i r)))"

definition requeueOrDead :: "pool \<Rightarrow> int \<Rightarrow> string \<Rightarrow> string \<Rightarrow> db \<Rightarrow> (string + rq_status) \<times> db" where
  "requeueOrDead wp now i leaseID =
     run (requeue_script (micros (wp_backoffBase wp)) (micros (wp_backoffCap wp)) now i leaseID)"

fun ack_script :: "(string \<times> string) list \<Rightarrow> string list cmd" where
  "ack_script [] r = ([], r)"
| "ack_script ((i, l) # ps) r =
     (if rd_leases r i = Some l then
        (case ack_script ps ((release i r)\<lparr>rd_task := (rd_task r)(i := None)\<rparr>) of (is, r') \<Rightarrow> (i # is, r'))
      else ack_script ps r)"

definition ackBatch :: "(string \<times> string) list \<Rightarrow> db \<Rightarrow> (string + string list) \<times> db" where
  "ackBatch ps = run (ack_script ps)"

section \<open>Heartbeat\<close>

definition beat_script :: "int \<Rightarrow> int \<Rightarrow> string \<Rightarrow> string \<Rightarrow> bool cmd" where
  "beat_script lease now i l r =
     (if rd_leases r i \<noteq> Some l then (False, r)
      else (True, r\<lparr>rd_inflight := zadd i (now + lease) (rd_inflight r)\<rparr>))"

datatype beat_error = ErrLeaseLost | ErrTransport string

definition heartbeat :: "pool \<Rightarrow> int \<Rightarrow> string \<Rightarrow> string \<Rightarrow> db \<Rightarrow> beat_error option \<times> db" where
  "heartbeat wp now i l d =
     (case run (beat_script (micros (wp_leaseDuration wp)) now i l) d of
        (Inl e, d1) \<Rightarrow> (Some (ErrTransport e), d1)
      | (Inr ok, d1) \<Rightarrow> (if ok then None else Some ErrLeaseLost, d1))"

text \<open>
  One tick of \<open>heartbeatLoop\<close>; \<open>stopped\<close>: the worker has stopped this heartbeat meanwhile. Any error ends the
  loop, and one that is not such a race cancels the handler.
\<close>

datatype beat_next = KeepBeating | StopQuietly | CancelTask

definition heartbeat_tick :: "pool \<Rightarrow> int \<Rightarrow> bool \<Rightarrow> string \<Rightarrow> string \<Rightarrow> db \<Rightarrow> beat_next \<times> db" where
  "heartbeat_tick wp now stopped i l d =
     (case heartbeat wp now i l d of
        (None, d1) \<Rightarrow> (KeepBeating, d1)
      | (Some e, d1) \<Rightarrow> (if stopped then StopQuietly else CancelTask, d1))"

section \<open>Recovery and promotion\<close>

definition findExpiredTasks :: "int \<Rightarrow> db \<Rightarrow> (string + string list) \<times> db" where
  "findExpiredTasks now = run (\<lambda>r. (zrange_upto now (rd_inflight r), r))"

definition findDueTasks :: "int \<Rightarrow> db \<Rightarrow> (string + string list) \<times> db" where
  "findDueTasks now = run (\<lambda>r. (zrange_upto now (rd_scheduled r), r))"

definition promote_script :: "int \<Rightarrow> string \<Rightarrow> bool cmd" where
  "promote_script now i r =
     (case zscore i (rd_scheduled r) of
        None \<Rightarrow> (False, r)
      | Some score \<Rightarrow>
          if score > now then (False, r)
          else (True, r\<lparr>rd_scheduled := zrem i (rd_scheduled r), rd_immediate := i # rd_immediate r\<rparr>))"

definition promoteTask :: "int \<Rightarrow> string \<Rightarrow> db \<Rightarrow> (string + bool) \<times> db" where
  "promoteTask now i = run (promote_script now i)"

text \<open>One tick of the promotion loop; \<open>clock\<close> is what \<open>TIME\<close> answers to each script in turn.\<close>

fun promote_each :: "(nat \<Rightarrow> int) \<Rightarrow> string list \<Rightarrow> db \<Rightarrow> db" where
  "promote_each clock [] d = d"
| "promote_each clock (i # is) d = promote_each (\<lambda>n. clock (Suc n)) is (snd (promoteTask (clock 0) i d))"

definition promotion_tick :: "int \<Rightarrow> (nat \<Rightarrow> int) \<Rightarrow> db \<Rightarrow> db" where
  "promotion_tick now clock d =
     (case findDueTasks now d of
        (Inl e, d1) \<Rightarrow> d1
      | (Inr is, d1) \<Rightarrow> promote_each clock is d1)"

end
