(* ===== verification/Queue_Engine.thy ===== *)
theory Queue_Engine
  imports Task_Queue
begin

text \<open>
  The engine as a whole: the gateway, any number of workers with their heartbeats, and the recovery and
  promotion loops of every pool, interleaved at the granularity of Redis commands. A worker may crash
  between any two steps, which also covers a command whose reply is lost. Task ids and lease ids are
  drawn fresh (\<open>uuid.New\<close>). \<open>en_accepted\<close> and \<open>en_acked\<close> are history: the tasks that reached Redis, and those
  an acknowledgement took out.
\<close>

section \<open>The state\<close>

text \<open>One goroutine of \<open>workerLoop\<close>: the rest of its batch, \<open>ackIDs\<close> with \<open>ackLeases\<close>, and the running heartbeats.\<close>

record wstate =
  ws_todo :: "task_claim list"
  ws_acks :: "(string \<times> string) list"
  ws_beats :: "(string \<times> string) list"

record engine =
  en_redis :: redis
  en_workers :: "nat \<Rightarrow> wstate"
  en_staged :: "string set"     \<comment> \<open>body written, id not yet queued\<close>
  en_ids :: "string set"
  en_issued :: "string set"
  en_accepted :: "string list"
  en_acked :: "string list"

definition idle :: wstate where
  "idle = \<lparr>ws_todo = [], ws_acks = [], ws_beats = []\<rparr>"

definition empty_redis :: redis where
  "empty_redis = \<lparr>rd_task = Map.empty, rd_immediate = [], rd_scheduled = [], rd_inflight = [], rd_leases = Map.empty,
     rd_dead = [], rd_paused = False, rd_completed = [], rd_enqueued = [], rd_failed = [], rd_workers = [],
     rd_meta = Map.empty, rd_wleases = (\<lambda>w. [])\<rparr>"

definition engine_init :: engine where
  "engine_init = \<lparr>en_redis = empty_redis, en_workers = (\<lambda>w. idle), en_staged = {}, en_ids = {}, en_issued = {},
     en_accepted = [], en_acked = []\<rparr>"

text \<open>A claim the loop skips: no id, no body, a body that does not parse, or a type without a handler.\<close>

definition unusable :: "(string \<Rightarrow> bool) \<Rightarrow> task_claim \<Rightarrow> bool" where
  "unusable registered c \<longleftrightarrow>
     tc_id c = [] \<or> (case tc_body c of Some (Body tm) \<Rightarrow> \<not> registered (tm_type tm) | _ \<Rightarrow> True)"

definition stop_task :: "string \<Rightarrow> (string \<times> string) list \<Rightarrow> (string \<times> string) list" where
  "stop_task i bs = filter (\<lambda>b. fst b \<noteq> i) bs"

definition claims_of :: "string list \<Rightarrow> (string \<times> body option) list \<Rightarrow> task_claim list" where
  "claims_of ls its = map (\<lambda>((i, b), l). \<lparr>tc_id = i, tc_lease = l, tc_body = b\<rparr>) (zip its ls)"

abbreviation with_worker :: "nat \<Rightarrow> wstate \<Rightarrow> engine \<Rightarrow> engine" where
  "with_worker w v s \<equiv> s\<lparr>en_workers := (en_workers s)(w := v)\<rparr>"

text \<open>The database without its bookkeeping: metrics and the registry of workers decide nothing.\<close>

definition core :: "redis \<Rightarrow> (string \<rightharpoonup> body) \<times> string list \<times> zset \<times> zset \<times> (string \<rightharpoonup> string) \<times> body list \<times> bool" where
  "core r = (rd_task r, rd_immediate r, rd_scheduled r, rd_inflight r, rd_leases r, rd_dead r, rd_paused r)"

section \<open>The steps\<close>

inductive qstep :: "engine \<Rightarrow> engine \<Rightarrow> bool" where
  stage: "i \<notin> en_ids s \<Longrightarrow> i \<noteq> [] \<Longrightarrow> tm_id tm = i \<Longrightarrow> tm_attempts tm = 0 \<Longrightarrow>
     qstep s (s\<lparr>en_redis := snd (set_task i (Body tm) (en_redis s)), en_staged := insert i (en_staged s),
       en_ids := insert i (en_ids s)\<rparr>)"
| push: "i \<in> en_staged s \<Longrightarrow>
     qstep s (s\<lparr>en_redis := snd (lpush_immediate i (en_redis s)), en_staged := en_staged s - {i},
       en_accepted := i # en_accepted s\<rparr>)"
| schedule: "i \<in> en_staged s \<Longrightarrow>
     qstep s (s\<lparr>en_redis := (en_redis s)\<lparr>rd_scheduled := zadd i t (rd_scheduled (en_redis s))\<rparr>,
       en_staged := en_staged s - {i}, en_accepted := i # en_accepted s\<rparr>)"
| claim: "en_workers s w = idle \<Longrightarrow> distinct ls \<Longrightarrow> set ls \<inter> en_issued s = {} \<Longrightarrow> [] \<notin> set ls \<Longrightarrow>
     claim_script expiry ls (en_redis s) = (its, r') \<Longrightarrow>
     qstep s (with_worker w \<lparr>ws_todo = claims_of ls its, ws_acks = [],
         ws_beats = map (\<lambda>c. (tc_id c, tc_lease c)) (claims_of ls its)\<rparr> s
       \<lparr>en_redis := r', en_issued := en_issued s \<union> set ls\<rparr>)"
| skip: "ws_todo (en_workers s w) = c # cs \<Longrightarrow> unusable registered c \<Longrightarrow>
     qstep s (with_worker w ((en_workers s w)\<lparr>ws_todo := cs, ws_beats := stop_task (tc_id c) (ws_beats (en_workers s w))\<rparr>) s)"
| succeed: "ws_todo (en_workers s w) = c # cs \<Longrightarrow> \<not> unusable registered c \<Longrightarrow>
     qstep s (with_worker w ((en_workers s w)\<lparr>ws_todo := cs, ws_acks := ws_acks (en_workers s w) @ [(tc_id c, tc_lease c)]\<rparr>) s)"
| fail: "ws_todo (en_workers s w) = c # cs \<Longrightarrow> \<not> unusable registered c \<Longrightarrow> tc_body c = Some (Body tm) \<Longrightarrow>
     requeue_script base cap now (tm_id tm) (tc_lease c) (en_redis s) = (st, r') \<Longrightarrow>
     qstep s (with_worker w ((en_workers s w)\<lparr>ws_todo := cs, ws_beats := stop_task (tm_id tm) (ws_beats (en_workers s w))\<rparr>) s
       \<lparr>en_redis := r'\<rparr>)"
| fail_lost: "ws_todo (en_workers s w) = c # cs \<Longrightarrow> \<not> unusable registered c \<Longrightarrow> tc_body c = Some (Body tm) \<Longrightarrow>
     r' = en_redis s \<or> r' = snd (requeue_script base cap now (tm_id tm) (tc_lease c) (en_redis s)) \<Longrightarrow>
     qstep s (with_worker w ((en_workers s w)\<lparr>ws_todo := cs\<rparr>) s\<lparr>en_redis := r'\<rparr>)"
| ack: "ws_todo (en_workers s w) = [] \<Longrightarrow> ack_script (ws_acks (en_workers s w)) (en_redis s) = (ids, r') \<Longrightarrow>
     qstep s (with_worker w idle s\<lparr>en_redis := r', en_acked := en_acked s @ ids\<rparr>)"
| beat: "(i, l) \<in> set (ws_beats (en_workers s w)) \<Longrightarrow> beat_script lease now i l (en_redis s) = (ok, r') \<Longrightarrow>
     qstep s (s\<lparr>en_redis := r'\<rparr>)"
| crash: "qstep s (with_worker w idle s)"
| recover: "requeue_script base cap now i [] (en_redis s) = (st, r') \<Longrightarrow> qstep s (s\<lparr>en_redis := r'\<rparr>)"
| promote: "promote_script now i (en_redis s) = (ok, r') \<Longrightarrow> qstep s (s\<lparr>en_redis := r'\<rparr>)"
| book: "core r' = core (en_redis s) \<Longrightarrow> qstep s (s\<lparr>en_redis := r'\<rparr>)"
| pause: "qstep s (s\<lparr>en_redis := (en_redis s)\<lparr>rd_paused := b\<rparr>\<rparr>)"

abbreviation reachable :: "engine \<Rightarrow> bool" where
  "reachable s \<equiv> qstep\<^sup>*\<^sup>* engine_init s"

section \<open>Where a task is\<close>

text \<open>In how many places an id is, and when the database is in order.\<close>

definition places :: "redis \<Rightarrow> string \<Rightarrow> nat" where
  "places r i = count_list (rd_immediate r) i + count_list (map fst (rd_scheduled r)) i
     + count_list (map fst (rd_inflight r)) i + count_list (List.map_filter body_id (rd_dead r)) i"

definition live :: "redis \<Rightarrow> string set" where
  "live r = set (rd_immediate r) \<union> fst ` set (rd_scheduled r) \<union> fst ` set (rd_inflight r)"

definition in_budget :: "task_meta \<Rightarrow> bool" where
  "in_budget tm \<longleftrightarrow> 0 \<le> tm_attempts tm \<and> (tm_max tm > 0 \<longrightarrow> tm_attempts tm < tm_max tm)"

definition has_body :: "redis \<Rightarrow> string \<Rightarrow> bool" where
  "has_body r i \<longleftrightarrow> (\<exists>tm. rd_task r i = Some (Body tm) \<and> tm_id tm = i \<and> in_budget tm)"

definition spent :: "redis \<Rightarrow> body \<Rightarrow> bool" where
  "spent r b \<longleftrightarrow> (\<exists>tm. b = Body tm \<and> tm_max tm > 0 \<and> tm_attempts tm = tm_max tm \<and> rd_task r (tm_id tm) = Some b)"

definition redis_ok :: "redis \<Rightarrow> bool" where
  "redis_ok r \<longleftrightarrow>
     (\<forall>i. places r i \<le> 1) \<and> dom (rd_leases r) = fst ` set (rd_inflight r)
     \<and> (\<forall>i\<in>live r. has_body r i) \<and> list_all (spent r) (rd_dead r)"

lemma redis_okD:
  assumes "redis_ok r"
  shows "places r j \<le> 1" "dom (rd_leases r) = fst ` set (rd_inflight r)" "j \<in> live r \<Longrightarrow> has_body r j"
    "list_all (spent r) (rd_dead r)"
  using assms by (auto simp: redis_ok_def)

lemma count_list_zrem: "count_list (map fst (zrem i z)) j = (if j = i then 0 else count_list (map fst z) j)"
  by (induction z) (auto simp: zrem_def)

lemma count_list_mset: "count_list xs x = count (mset xs) x"
  by (induction xs) auto

lemma count_list_zadd: "count_list (map fst (zadd i s z)) j = (if j = i then 1 else count_list (map fst z) j)"
  using count_list_zrem [of i z j] by (auto simp: count_list_mset mset_zadd)

lemma count_list_pos: "0 < count_list xs x \<longleftrightarrow> x \<in> set xs"
  by (induction xs) auto

lemma count_list_0_iff: "count_list xs x = 0 \<longleftrightarrow> x \<notin> set xs"
  by (induction xs) auto

lemmas place_counts = places_def count_list_zrem count_list_zadd

lemma live_count: "i \<in> live r \<longleftrightarrow>
    0 < count_list (rd_immediate r) i + count_list (map fst (rd_scheduled r)) i + count_list (map fst (rd_inflight r)) i"
  by (auto simp: live_def count_list_pos simp flip: set_map)

section \<open>What the scripts keep\<close>

text \<open>A claim moves ids from the ready list to the in-flight set.\<close>

lemma claim_step_ok:
  assumes ok: "redis_ok r" and imm: "rd_immediate r = i # is"
    and r': "r' = r\<lparr>rd_immediate := is, rd_inflight := zadd i e (rd_inflight r), rd_leases := (rd_leases r)(i \<mapsto> l)\<rparr>"
  shows "redis_ok r' \<and> places r' = places r \<and> rd_task r' = rd_task r"
proof -
  note one = redis_okD(1) [OF ok] and dom = redis_okD(2) [OF ok] and bodies = redis_okD(3) [OF ok]
    and dead = redis_okD(4) [OF ok]
  from one [of i] imm have pl: "places r' = places r"
    by (intro ext) (auto simp: r' place_counts)
  have "live r' = live r" using imm by (auto simp: r' live_def)
  moreover have "spent r' = spent r" "has_body r' = has_body r" by (auto simp: r' spent_def has_body_def intro!: ext)
  moreover have "dom (rd_leases r') = fst ` set (rd_inflight r')" using dom by (simp add: r')
  ultimately show ?thesis using pl one bodies dead by (simp add: redis_ok_def r')
qed

lemma claim_loop_ok:
  "redis_ok r \<Longrightarrow> claim_loop e ls r = (ids, r') \<Longrightarrow>
     redis_ok r' \<and> places r' = places r \<and> rd_task r' = rd_task r \<and> set ids \<subseteq> set (rd_immediate r)"
proof (induction ls arbitrary: r ids r')
  case (Cons l ls)
  show ?case
  proof (cases "rd_immediate r")
    case (Cons i "is")
    let ?r = "r\<lparr>rd_immediate := is, rd_inflight := zadd i e (rd_inflight r), rd_leases := (rd_leases r)(i \<mapsto> l)\<rparr>"
    obtain ids' r2 where loop: "claim_loop e ls ?r = (ids', r2)" by (metis surj_pair)
    from claim_step_ok [OF Cons.prems(1) Cons refl, of l e]
    have r: "redis_ok ?r" "places ?r = places r" by simp_all
    from Cons.IH [OF r(1) loop] r(2) Cons Cons.prems(2) loop show ?thesis by auto
  qed (use Cons in simp)
qed simp

text \<open>Counting an attempt of a task in flight: it is scheduled again or, its budget spent, a dead letter.\<close>

lemma release_attempt_ok:
  assumes ok: "redis_ok r" and i: "i \<in> fst ` set (rd_inflight r)"
    and res: "count_attempt base cap now i (release i r) = (st, r')"
  shows "redis_ok r' \<and> places r' = places r \<and> (\<forall>j. j \<noteq> i \<longrightarrow> rd_task r' j = rd_task r j)"
proof -
  note one = redis_okD(1) [OF ok] and dom = redis_okD(2) [OF ok] and bodies = redis_okD(3) [OF ok]
    and dead = redis_okD(4) [OF ok]
  from i have ci: "0 < count_list (map fst (rd_inflight r)) i" by (auto simp: count_list_pos)
  with one [of i] have alone: "count_list (rd_immediate r) i = 0" "count_list (map fst (rd_scheduled r)) i = 0"
    "count_list (map fst (rd_inflight r)) i = 1" "count_list (List.map_filter body_id (rd_dead r)) i = 0"
    unfolding places_def by linarith+
  from i have "i \<in> live r" by (simp add: live_def)
  with bodies obtain tm where tm: "rd_task r i = Some (Body tm)" "tm_id tm = i" "in_budget tm"
    unfolding has_body_def by blast
  let ?b = "Body (tm\<lparr>tm_attempts := tm_attempts tm + 1\<rparr>)"
  have notdead: "tm_id t \<noteq> i" if "Body t \<in> set (rd_dead r)" for t
    using alone(4) that by (force simp: count_list_0_iff List.map_filter_def body_id_def)
  have others: "spent r'' b" if "b \<in> set (rd_dead r)" "rd_task r'' = (rd_task r)(i \<mapsto> ?b)" for r'' b
    using dead that notdead by (fastforce simp: list_all_iff spent_def)
  have lv: "j \<in> live r" if "j \<in> live (release i r)" for j using that by (auto simp: live_def release_def)
  consider (dead) "tm_max tm > 0" "tm_attempts tm + 1 \<ge> tm_max tm" | (live) "\<not> (tm_max tm > 0 \<and> tm_attempts tm + 1 \<ge> tm_max tm)"
    by blast
  then show ?thesis
  proof cases
    case dead
    with res tm have r': "r' = (release i r)\<lparr>rd_task := (rd_task r)(i \<mapsto> ?b), rd_dead := ?b # rd_dead r\<rparr>"
      by (auto simp: count_attempt_def release_def Let_def)
    have "places r' = places r"
      using alone tm(2) by (intro ext) (auto simp: r' place_counts release_def List.map_filter_simps body_id_def)
    moreover have "spent r' ?b" using dead tm by (simp add: spent_def r' in_budget_def)
    moreover have "has_body r' j" if "j \<in> live r'" for j
    proof -
      from that alone have "j \<noteq> i" "j \<in> live r" by (auto simp: r' live_count release_def count_list_zrem split: if_splits)
      with bodies show ?thesis by (simp add: has_body_def r')
    qed
    ultimately show ?thesis using one dom others by (simp add: redis_ok_def list_all_iff r' release_def)
  next
    case live
    let ?z = "zadd i (now + lua_backoff base cap (tm_attempts tm + 1)) (rd_scheduled r)"
    from res tm live have r': "r' = (release i r)\<lparr>rd_task := (rd_task r)(i \<mapsto> ?b), rd_scheduled := ?z\<rparr>"
      by (auto simp: count_attempt_def release_def Let_def)
    have "places r' = places r"
      using alone by (intro ext) (auto simp: r' place_counts release_def)
    moreover have "has_body r' j" if "j \<in> live r'" for j
    proof (cases "j = i")
      case True
      then show ?thesis using tm live by (auto simp: has_body_def r' in_budget_def)
    next
      case False
      with that have "j \<in> live r" by (auto simp: r' live_def release_def)
      with bodies False show ?thesis by (simp add: has_body_def r')
    qed
    ultimately show ?thesis using one dom others by (simp add: redis_ok_def list_all_iff r' release_def)
  qed
qed

lemma requeue_script_ok:
  assumes "redis_ok r" and "requeue_script base cap now i l r = (st, r')"
  shows "redis_ok r' \<and> places r' = places r \<and> (\<forall>j. j \<notin> live r \<longrightarrow> rd_task r' j = rd_task r j)"
proof -
  have lease: "i \<in> fst ` set (rd_inflight r)" if "rd_leases r i = Some l'" for l'
    using redis_okD(2) [OF assms(1)] that by blast
  have zs: "i \<in> fst ` set (rd_inflight r)" if "zscore i (rd_inflight r) = Some e" for e
    using that by (force simp: zscore_def dest: map_of_SomeD)
  have "r' = r \<or> (i \<in> fst ` set (rd_inflight r) \<and> count_attempt base cap now i (release i r) = (st, r'))"
    using assms(2) lease zs by (auto simp: requeue_script_def split: if_splits option.splits)
  with release_attempt_ok [OF assms(1), of i base cap now st r'] assms(1) show ?thesis
    unfolding live_def by blast
qed

lemma ack_one_ok:
  assumes ok: "redis_ok r" and l: "rd_leases r i = Some l"
    and r': "r' = (release i r)\<lparr>rd_task := (rd_task r)(i := None)\<rparr>"
  shows "redis_ok r' \<and> places r' = (places r)(i := 0) \<and> places r i = 1 \<and> live r' = live r - {i}"
proof -
  note one = redis_okD(1) [OF ok] and dom = redis_okD(2) [OF ok] and bodies = redis_okD(3) [OF ok]
    and dead = redis_okD(4) [OF ok]
  from l dom have "i \<in> fst ` set (rd_inflight r)" by blast
  then have "0 < count_list (map fst (rd_inflight r)) i" by (auto simp: count_list_pos)
  with one [of i] have alone: "count_list (rd_immediate r) i = 0" "count_list (map fst (rd_scheduled r)) i = 0"
    "count_list (map fst (rd_inflight r)) i = 1" "count_list (List.map_filter body_id (rd_dead r)) i = 0"
    unfolding places_def by linarith+
  have notdead: "tm_id t \<noteq> i" if "Body t \<in> set (rd_dead r)" for t
    using alone(4) that by (force simp: count_list_0_iff List.map_filter_def body_id_def)
  have pl: "places r' = (places r)(i := 0)" and pi: "places r i = 1"
    using alone by (auto simp: r' place_counts release_def intro!: ext)
  have lv: "live r' = live r - {i}"
    using alone by (auto simp: r' live_def release_def count_list_0_iff)
  have "spent r' b" if "b \<in> set (rd_dead r)" for b
    using dead that notdead by (fastforce simp: list_all_iff spent_def r')
  moreover have "has_body r' j" if "j \<in> live r'" for j
    using that lv bodies [of j] by (simp add: has_body_def r')
  ultimately show ?thesis
    using one dom pl pi lv by (simp add: redis_ok_def list_all_iff r' release_def)
qed

lemma ack_script_ok:
  "redis_ok r \<Longrightarrow> ack_script ps r = (ids, r') \<Longrightarrow>
     redis_ok r' \<and> (\<forall>j. places r' j + count_list ids j = places r j) \<and> live r' = live r - set ids
     \<and> (\<forall>j. j \<notin> live r \<longrightarrow> rd_task r' j = rd_task r j)"
proof (induction ps arbitrary: r ids)
  case (Cons p ps)
  obtain i l where p: "p = (i, l)" by (cases p)
  show ?case
  proof (cases "rd_leases r i = Some l")
    case True
    let ?r = "(release i r)\<lparr>rd_task := (rd_task r)(i := None)\<rparr>"
    obtain ids' r2 where more: "ack_script ps ?r = (ids', r2)" by (metis surj_pair)
    from Cons.prems(2) True p more have res: "ids = i # ids'" "r' = r2" by simp_all
    note one = ack_one_ok [OF Cons.prems(1) True refl]
    from redis_okD(2) [OF Cons.prems(1)] True have il: "i \<in> live r" by (auto simp: live_def)
    from one Cons.IH [of ?r ids'] more res have *: "redis_ok r'" "\<forall>j. places r' j + count_list ids' j = places ?r j"
      "live r' = live ?r - set ids'" "\<forall>j. j \<notin> live ?r \<longrightarrow> rd_task r' j = rd_task ?r j" by simp_all
    have "places r' j + count_list ids j = places r j" for j
      using *(2) one res by (auto simp: fun_eq_iff split: if_splits)
    with * one res il show ?thesis by auto
  qed (use Cons p in simp)
qed simp

lemma beat_script_ok:
  assumes ok: "redis_ok r" and "beat_script lease now i l r = (b, r')"
  shows "redis_ok r' \<and> places r' = places r \<and> live r' = live r \<and> rd_task r' = rd_task r"
proof (cases "rd_leases r i = Some l")
  case True
  with assms have r': "r' = r\<lparr>rd_inflight := zadd i (now + lease) (rd_inflight r)\<rparr>" by (simp add: beat_script_def)
  from redis_okD(2) [OF ok] True have i: "i \<in> fst ` set (rd_inflight r)" by blast
  then have "0 < count_list (map fst (rd_inflight r)) i" by (auto simp: count_list_pos)
  with redis_okD(1) [OF ok, of i] have "count_list (map fst (rd_inflight r)) i = 1"
    unfolding places_def by linarith
  then have "places r' = places r" by (intro ext) (auto simp: r' place_counts)
  moreover have "live r' = live r" using i by (auto simp: r' live_def)
  moreover have "spent r' = spent r" "has_body r' = has_body r" by (auto simp: r' spent_def has_body_def intro!: ext)
  ultimately show ?thesis using ok i by (auto simp: redis_ok_def r')
qed (use assms in \<open>auto simp: beat_script_def\<close>)

lemma promote_script_ok:
  assumes ok: "redis_ok r" and "promote_script now i r = (b, r')"
  shows "redis_ok r' \<and> places r' = places r \<and> live r' = live r \<and> rd_task r' = rd_task r"
proof (cases "r' = r")
  case False
  with assms obtain s where s: "zscore i (rd_scheduled r) = Some s"
    and r': "r' = r\<lparr>rd_scheduled := zrem i (rd_scheduled r), rd_immediate := i # rd_immediate r\<rparr>"
    by (auto simp: promote_script_def split: option.splits if_splits)
  from s have i: "i \<in> fst ` set (rd_scheduled r)" by (force simp: zscore_def dest: map_of_SomeD)
  then have "0 < count_list (map fst (rd_scheduled r)) i" by (auto simp: count_list_pos)
  with redis_okD(1) [OF ok, of i] have "count_list (map fst (rd_scheduled r)) i = 1" "count_list (rd_immediate r) i = 0"
    unfolding places_def by linarith+
  then have "places r' = places r" by (intro ext) (auto simp: r' place_counts)
  moreover have "live r' = live r" using i by (auto simp: r' live_def)
  moreover have "spent r' = spent r" "has_body r' = has_body r" by (auto simp: r' spent_def has_body_def intro!: ext)
  ultimately show ?thesis using ok by (auto simp: redis_ok_def r')
qed (use ok in simp)

section \<open>The invariant\<close>

definition engine_inv :: "engine \<Rightarrow> bool" where
  "engine_inv s \<longleftrightarrow>
     redis_ok (en_redis s)
     \<and> (\<forall>i. places (en_redis s) i + count_list (en_acked s) i = (if i \<in> set (en_accepted s) then 1 else 0))
     \<and> distinct (en_accepted s) \<and> en_staged s \<inter> set (en_accepted s) = {}
     \<and> en_staged s \<union> set (en_accepted s) \<subseteq> en_ids s \<and> (\<forall>i\<in>en_staged s. has_body (en_redis s) i)"

lemma not_live: "places r i = 0 \<Longrightarrow> i \<notin> live r"
  by (simp add: live_count places_def)

lemma staged_nowhere: "engine_inv s \<Longrightarrow> i \<notin> set (en_accepted s) \<Longrightarrow> places (en_redis s) i = 0"
  unfolding engine_inv_def by (metis add_is_0)

text \<open>A step that only moves tasks between places.\<close>

lemma engine_inv_move:
  assumes "engine_inv s" and "redis_ok r'"
    and "\<And>j. places r' j + count_list ids j = places (en_redis s) j"
    and "\<And>j. j \<notin> live (en_redis s) \<Longrightarrow> rd_task r' j = rd_task (en_redis s) j"
    and "en_redis s' = r'" "en_acked s' = en_acked s @ ids" "en_accepted s' = en_accepted s" "en_staged s' = en_staged s"
      "en_ids s' = en_ids s"
  shows "engine_inv s'"
proof -
  have "has_body r' i" if "i \<in> en_staged s" for i
  proof -
    from assms(1) that have "i \<notin> set (en_accepted s)" "has_body (en_redis s) i" by (auto simp: engine_inv_def)
    with assms(4) [OF not_live [OF staged_nowhere [OF assms(1)]]] show ?thesis by (simp add: has_body_def)
  qed
  moreover have "places r' i + count_list (en_acked s @ ids) i = (if i \<in> set (en_accepted s) then 1 else 0)" for i
    using assms(1) assms(3) [of i] unfolding engine_inv_def count_list_append
    by (metis add.assoc add.commute)
  ultimately show ?thesis using assms by (simp add: engine_inv_def)
qed

lemma stage_ok:
  assumes "redis_ok r" and "places r i = 0"
  shows "redis_ok (snd (set_task i b r)) \<and> places (snd (set_task i b r)) = places r"
proof -
  let ?r = "snd (set_task i b r)"
  have notdead: "tm_id t \<noteq> i" if "Body t \<in> set (rd_dead r)" for t
    using assms(2) that by (force simp: places_def count_list_0_iff List.map_filter_def body_id_def)
  have "spent ?r x" if "x \<in> set (rd_dead r)" for x
    using redis_okD(4) [OF assms(1)] that notdead by (fastforce simp: list_all_iff spent_def set_task_def)
  moreover have "has_body ?r j" if "j \<in> live r" for j
    using redis_okD(3) [OF assms(1) that] not_live [OF assms(2)] that by (auto simp: has_body_def set_task_def)
  moreover have "places ?r = places r" "live ?r = live r" by (auto simp: places_def live_def set_task_def intro!: ext)
  ultimately show ?thesis using assms(1) by (simp add: redis_ok_def list_all_iff) (simp add: set_task_def)
qed

text \<open>An id that is nowhere and has a body enters the ready list or the schedule.\<close>

lemma enter_ok:
  assumes "redis_ok r" and "places r i = 0" and "has_body r i"
    and "r' = snd (lpush_immediate i r) \<or> r' = r\<lparr>rd_scheduled := zadd i t (rd_scheduled r)\<rparr>"
  shows "redis_ok r' \<and> places r' = (places r)(i := 1) \<and> rd_task r' = rd_task r"
proof -
  from assms(2) have z: "count_list (rd_immediate r) i = 0" "count_list (map fst (rd_scheduled r)) i = 0"
    "count_list (map fst (rd_inflight r)) i = 0" "count_list (List.map_filter body_id (rd_dead r)) i = 0"
    by (simp_all add: places_def)
  have pl: "places r' = (places r)(i := 1)"
    using assms(4) z by (auto simp: place_counts lpush_immediate_def intro!: ext)
  have rest: "rd_task r' = rd_task r" "rd_inflight r' = rd_inflight r" "rd_leases r' = rd_leases r" "rd_dead r' = rd_dead r"
    "live r' = insert i (live r)"
    using assms(4) by (elim disjE; simp add: lpush_immediate_def live_def)+
  then have "spent r' = spent r" "has_body r' = has_body r" by (auto simp: spent_def has_body_def intro!: ext)
  with pl rest assms(1,3) show ?thesis by (auto simp: redis_ok_def)
qed

lemma engine_inv_enter:
  assumes inv: "engine_inv s" and i: "i \<in> en_staged s"
    and "r' = snd (lpush_immediate i (en_redis s)) \<or> r' = (en_redis s)\<lparr>rd_scheduled := zadd i t (rd_scheduled (en_redis s))\<rparr>"
  shows "engine_inv (s\<lparr>en_redis := r', en_staged := en_staged s - {i}, en_accepted := i # en_accepted s\<rparr>)"
proof -
  from inv i have na: "i \<notin> set (en_accepted s)" "has_body (en_redis s) i" "redis_ok (en_redis s)" by (auto simp: engine_inv_def)
  from enter_ok [OF na(3) staged_nowhere [OF inv na(1)] na(2) assms(3)]
  have r': "redis_ok r'" "places r' = (places (en_redis s))(i := 1)" "rd_task r' = rd_task (en_redis s)" by simp_all
  from inv na(1) have "count_list (en_acked s) i = 0" by (auto simp: engine_inv_def split: if_splits)
  with inv i r' na show ?thesis by (auto simp: engine_inv_def has_body_def)
qed

lemma core_eq:
  assumes "core r' = core r"
  shows "rd_task r' = rd_task r" "rd_immediate r' = rd_immediate r" "rd_scheduled r' = rd_scheduled r"
    "rd_inflight r' = rd_inflight r" "rd_leases r' = rd_leases r" "rd_dead r' = rd_dead r" "rd_paused r' = rd_paused r"
  using assms by (simp_all add: core_def)

lemma engine_inv_step: "qstep s s' \<Longrightarrow> engine_inv s \<Longrightarrow> engine_inv s'"
proof (induction rule: qstep.induct)
  case (stage i s tm)
  from stage have nw: "places (en_redis s) i = 0" by (intro staged_nowhere) (auto simp: engine_inv_def)
  from stage.prems have "redis_ok (en_redis s)" by (simp add: engine_inv_def)
  from stage_ok [OF this nw, of "Body tm"] stage show ?case
    by (auto simp: engine_inv_def has_body_def set_task_def in_budget_def)
next
  case (push i s)
  then show ?case by (intro engine_inv_enter) auto
next
  case (schedule i s t)
  then show ?case by (intro engine_inv_enter) auto
next
  case (claim s w ls expiry its r')
  then have ok: "redis_ok (en_redis s)" by (simp add: engine_inv_def)
  have "redis_ok r' \<and> places r' = places (en_redis s) \<and> rd_task r' = rd_task (en_redis s)"
    using claim.hyps(5) claim_loop_ok [OF ok] ok
    by (auto simp: claim_script_def split: if_splits prod.splits)
  then show ?case by (intro engine_inv_move [OF claim.prems, where ids = "[]"]) auto
next
  case (fail s w c cs registered tm base cap now st r')
  then have "redis_ok (en_redis s)" by (simp add: engine_inv_def)
  from requeue_script_ok [OF this fail.hyps(4)] show ?case
    by (intro engine_inv_move [OF fail.prems, where ids = "[]"]) auto
next
  case (fail_lost s w c cs registered tm r' base cap now)
  then have ok: "redis_ok (en_redis s)" by (simp add: engine_inv_def)
  obtain st r2 where q: "requeue_script base cap now (tm_id tm) (tc_lease c) (en_redis s) = (st, r2)" by (metis surj_pair)
  from requeue_script_ok [OF ok q] fail_lost.hyps(4) q ok show ?case
    by (intro engine_inv_move [OF fail_lost.prems, where ids = "[]"]) auto
next
  case (ack s w ids r')
  then have "redis_ok (en_redis s)" by (simp add: engine_inv_def)
  from ack_script_ok [OF this ack.hyps(2)] show ?case
    by (intro engine_inv_move [OF ack.prems, where ids = ids]) auto
next
  case (beat i l s w lease now ok r')
  then have "redis_ok (en_redis s)" by (simp add: engine_inv_def)
  from beat_script_ok [OF this beat.hyps(2)] show ?case
    by (intro engine_inv_move [OF beat.prems, where ids = "[]"]) auto
next
  case (recover base cap now i s st r')
  then have "redis_ok (en_redis s)" by (simp add: engine_inv_def)
  from requeue_script_ok [OF this recover.hyps(1)] show ?case
    by (intro engine_inv_move [OF recover.prems, where ids = "[]"]) auto
next
  case (promote now i s ok r')
  then have "redis_ok (en_redis s)" by (simp add: engine_inv_def)
  from promote_script_ok [OF this promote.hyps(1)] show ?case
    by (intro engine_inv_move [OF promote.prems, where ids = "[]"]) auto
next
  case (book r' s)
  from core_eq [OF book.hyps] book.prems show ?case
    by (simp add: engine_inv_def redis_ok_def places_def live_def has_body_def spent_def [abs_def])
next
  case (pause s b)
  then show ?case by (simp add: engine_inv_def redis_ok_def places_def live_def has_body_def spent_def [abs_def])
qed (simp_all add: engine_inv_def)

lemma engine_inv_init: "engine_inv engine_init"
  by (simp add: engine_inv_def engine_init_def empty_redis_def redis_ok_def places_def live_def List.map_filter_simps)

lemma reach_invariant:
  assumes "R\<^sup>*\<^sup>* a s" and "I a" and "\<And>s s'. R s s' \<Longrightarrow> I s \<Longrightarrow> I s'"
  shows "I s"
  using assms by (induction rule: rtranclp_induct) auto

lemma engine_inv_reachable: "reachable s \<Longrightarrow> engine_inv s"
  by (erule reach_invariant) (simp_all add: engine_inv_init engine_inv_step)

section \<open>Leases\<close>

text \<open>
  What the engine relies on of other programs on the same database: they may take leases away but never
  hand one out. \<open>estep\<close> interleaves the engine with anything of this kind.
\<close>

definition lease_rely :: "redis \<Rightarrow> redis \<Rightarrow> bool" where
  "lease_rely r r' \<longleftrightarrow> (\<forall>i. rd_leases r' i = rd_leases r i \<or> rd_leases r' i = None)"

inductive estep :: "engine \<Rightarrow> engine \<Rightarrow> bool" where
  own: "qstep s s' \<Longrightarrow> estep s s'"
| other: "lease_rely (en_redis s) r' \<Longrightarrow> estep s (s\<lparr>en_redis := r'\<rparr>)"

lemma claim_loop_leases:
  "claim_loop e ls r = (ids, r') \<Longrightarrow> rd_leases r' i = rd_leases r i \<or> (\<exists>l\<in>set ls. rd_leases r' i = Some l)"
proof (induction ls arbitrary: r ids r')
  case (Cons l ls)
  show ?case
  proof (cases "rd_immediate r")
    case (Cons j js)
    let ?r = "r\<lparr>rd_immediate := js, rd_inflight := zadd j e (rd_inflight r), rd_leases := (rd_leases r)(j \<mapsto> l)\<rparr>"
    obtain ids' r2 where loop: "claim_loop e ls ?r = (ids', r2)" by (metis surj_pair)
    from Cons.IH [OF loop] Cons Cons.prems loop show ?thesis by (auto split: if_splits)
  qed (use Cons in simp)
qed simp

lemma claim_leases:
  "claim_script e ls r = (its, r') \<Longrightarrow> rd_leases r' i = rd_leases r i \<or> (\<exists>l\<in>set ls. rd_leases r' i = Some l)"
  using claim_loop_leases [of e ls r] by (auto simp: claim_script_def split: if_splits prod.splits)

lemma rely_refl [simp]: "lease_rely r r"
  by (simp add: lease_rely_def)

lemma rely_trans: "lease_rely r r1 \<Longrightarrow> lease_rely r1 r2 \<Longrightarrow> lease_rely r r2"
  unfolding lease_rely_def by metis

lemma rely_release: "rd_leases r' = (rd_leases r)(i := None) \<Longrightarrow> lease_rely r r'"
  by (simp add: lease_rely_def)

lemma rely_same: "rd_leases r' = rd_leases r \<Longrightarrow> lease_rely r r'"
  by (simp add: lease_rely_def)

lemma rely_requeue: "lease_rely r (snd (requeue_script base cap now i l r))"
proof -
  have "lease_rely r (snd (count_attempt base cap now i (release i r)))"
    by (rule rely_release [of _ _ i])
      (auto simp: count_attempt_def release_def Let_def split: option.splits body.splits)
  then show ?thesis by (auto simp: requeue_script_def split: option.splits)
qed

lemma rely_ack: "ack_script ps r = (ids, r') \<Longrightarrow> lease_rely r r'"
proof (induction ps arbitrary: r ids r')
  case (Cons p ps)
  obtain i l where p: "p = (i, l)" by (cases p)
  show ?case
  proof (cases "rd_leases r i = Some l")
    case True
    let ?r = "(release i r)\<lparr>rd_task := (rd_task r)(i := None)\<rparr>"
    have "lease_rely r ?r" by (rule rely_release [of _ _ i]) (simp add: release_def)
    moreover obtain ids' r2 where more: "ack_script ps ?r = (ids', r2)" by (metis surj_pair)
    ultimately show ?thesis using Cons.IH [OF more] Cons.prems True p more rely_trans by auto
  qed (use Cons p in simp)
qed simp

text \<open>Every step but a claim only takes leases away; a claim hands out fresh ones.\<close>

lemma rely_leases: "lease_rely r r' \<Longrightarrow> rd_leases r' i = Some l \<Longrightarrow> rd_leases r i = Some l"
  unfolding lease_rely_def by (metis option.distinct(1))

lemma qstep_leases:
  assumes "qstep s s'"
  obtains "lease_rely (en_redis s) (en_redis s')" "en_issued s' = en_issued s"
  | ls expiry its where "claim_script expiry ls (en_redis s) = (its, en_redis s')" "set ls \<inter> en_issued s = {}"
      "en_issued s' = en_issued s \<union> set ls"
  using assms
proof cases
  case (fail w c cs registered tm base cap now st r')
  with rely_requeue [of "en_redis s" base cap now "tm_id tm" "tc_lease c"] show ?thesis by (intro that(1)) auto
next
  case (fail_lost w c cs registered tm r' base cap now)
  with rely_requeue [of "en_redis s" base cap now "tm_id tm" "tc_lease c"] show ?thesis by (intro that(1)) auto
next
  case (ack w ids r')
  with rely_ack [OF ack(3)] show ?thesis by (intro that(1)) auto
next
  case (recover base cap now i st r')
  with rely_requeue [of "en_redis s" base cap now i "[]"] show ?thesis by (intro that(1)) auto
next
  case (book r')
  with core_eq(5) [OF book(2)] show ?thesis by (intro that(1) rely_same) auto
next
  case (claim w ls expiry its r')
  then show ?thesis by (intro that(2) [of expiry ls its]) auto
qed (auto intro!: that(1) rely_same simp: set_task_def lpush_immediate_def beat_script_def promote_script_def
    split: if_splits option.splits)

lemma estep_leases:
  assumes "estep s s'" and "l \<in> en_issued s" and "rd_leases (en_redis s') i = Some l"
  shows "rd_leases (en_redis s) i = Some l"
  using assms(1)
proof cases
  case own
  then show ?thesis
  proof (cases rule: qstep_leases)
    case (2 ls expiry its)
    with claim_leases [OF 2(1), of i] assms(2,3) show ?thesis by auto
  qed (use rely_leases assms(3) in blast)
qed (use rely_leases assms(3) in auto)

lemma estep_issued: "estep s s' \<Longrightarrow> en_issued s \<subseteq> en_issued s'"
  by (erule estep.cases) (auto elim!: qstep_leases)

definition held :: "engine \<Rightarrow> nat \<Rightarrow> string \<Rightarrow> string \<Rightarrow> bool" where
  "held s w i l \<longleftrightarrow> (i, l) \<in> set (ws_acks (en_workers s w)) \<or> (i, l) \<in> set (ws_beats (en_workers s w))
     \<or> (\<exists>c\<in>set (ws_todo (en_workers s w)). tc_id c = i \<and> tc_lease c = l)"

definition leases_of :: "wstate \<Rightarrow> string set" where
  "leases_of v = snd ` set (ws_acks v) \<union> snd ` set (ws_beats v) \<union> tc_lease ` set (ws_todo v)"

definition held_inv :: "engine \<Rightarrow> bool" where
  "held_inv s \<longleftrightarrow> [] \<notin> en_issued s \<and> (\<forall>w. leases_of (en_workers s w) \<subseteq> en_issued s)"

lemma claims_of_lease: "c \<in> set (claims_of ls its) \<Longrightarrow> tc_lease c \<in> set ls"
  by (auto simp: claims_of_def dest: set_zip_rightD)

lemma held_lease: "held s w i l \<Longrightarrow> l \<in> leases_of (en_workers s w)"
  by (force simp: held_def leases_of_def)

lemma held_inv_worker:
  assumes "held_inv s" and "leases_of v \<subseteq> en_issued s \<union> L" and "[] \<notin> L"
    and "en_workers s' = (en_workers s)(w := v)" and "en_issued s' = en_issued s \<union> L"
  shows "held_inv s'"
  using assms by (auto simp: held_inv_def)

lemma held_inv_step: "estep s s' \<Longrightarrow> held_inv s \<Longrightarrow> held_inv s'"
proof (induction rule: estep.induct)
  case (own s s')
  have sub: "leases_of (en_workers s w) \<subseteq> en_issued s" for w using own.prems by (simp add: held_inv_def)
  from own.hyps own.prems show ?case
  proof cases
    case (claim w ls expiry its r')
    with own.prems show ?thesis
      by (intro held_inv_worker [where s' = s' and L = "set ls" and w = w]) (auto simp: leases_of_def claims_of_lease)
  next
    case (skip w c cs registered)
    with own.prems sub [of w] show ?thesis
      by (intro held_inv_worker [where s' = s' and L = "{}" and w = w]) (auto simp: leases_of_def stop_task_def)
  next
    case (succeed w c cs registered)
    with own.prems sub [of w] show ?thesis
      by (intro held_inv_worker [where s' = s' and L = "{}" and w = w]) (auto simp: leases_of_def)
  next
    case (fail w c cs registered tm base cap now st r')
    with own.prems sub [of w] show ?thesis
      by (intro held_inv_worker [where s' = s' and L = "{}" and w = w]) (auto simp: leases_of_def stop_task_def)
  next
    case (fail_lost w c cs registered tm r' base cap now)
    with own.prems sub [of w] show ?thesis
      by (intro held_inv_worker [where s' = s' and L = "{}" and w = w]) (auto simp: leases_of_def)
  next
    case (ack w ids r')
    with own.prems show ?thesis
      by (intro held_inv_worker [where s' = s' and L = "{}" and w = w]) (auto simp: leases_of_def idle_def)
  next
    case (crash w)
    with own.prems show ?thesis
      by (intro held_inv_worker [where s' = s' and L = "{}" and w = w]) (auto simp: leases_of_def idle_def)
  qed (simp_all add: held_inv_def)
qed (simp add: held_inv_def)

lemma held_inv_init: "held_inv engine_init"
  by (simp add: held_inv_def leases_of_def engine_init_def idle_def)

lemma held_inv_reach: "estep\<^sup>*\<^sup>* engine_init s \<Longrightarrow> held_inv s"
  by (erule reach_invariant) (simp_all add: held_inv_init held_inv_step)

lemma lost_stays_lost:
  assumes "estep\<^sup>*\<^sup>* s t" and "l \<in> en_issued s" and "rd_leases (en_redis s) i \<noteq> Some l"
  shows "rd_leases (en_redis t) i \<noteq> Some l"
proof -
  have "l \<in> en_issued t \<and> rd_leases (en_redis t) i \<noteq> Some l"
    using assms by (induction rule: rtranclp_induct) (use estep_leases estep_issued in blast)+
  then show ?thesis by blast
qed

text \<open>A run: a task with one attempt is enqueued, claimed, and its lease expires.\<close>

definition demo_task :: task_meta where
  "demo_task = \<lparr>tm_id = ''t1'', tm_type = ''echo'', tm_payload = JNull, tm_max = 1, tm_attempts = 0\<rparr>"

definition demo_ready :: engine where
  "demo_ready = engine_init\<lparr>en_redis := empty_redis\<lparr>rd_task := [''t1'' \<mapsto> Body demo_task], rd_immediate := [''t1'']\<rparr>,
     en_ids := {''t1''}, en_accepted := [''t1'']\<rparr>"

definition demo_claimed :: engine where
  "demo_claimed = with_worker 0 \<lparr>ws_todo = [\<lparr>tc_id = ''t1'', tc_lease = ''l1'', tc_body = Some (Body demo_task)\<rparr>], ws_acks = [],
       ws_beats = [(''t1'', ''l1'')]\<rparr> demo_ready
     \<lparr>en_redis := empty_redis\<lparr>rd_task := [''t1'' \<mapsto> Body demo_task], rd_inflight := [(''t1'', 10)], rd_leases := [''t1'' \<mapsto> ''l1'']\<rparr>,
      en_issued := {''l1''}\<rparr>"

definition demo_dead :: engine where
  "demo_dead = demo_claimed\<lparr>en_redis := empty_redis\<lparr>rd_task := [''t1'' \<mapsto> Body (demo_task\<lparr>tm_attempts := 1\<rparr>)],
     rd_dead := [Body (demo_task\<lparr>tm_attempts := 1\<rparr>)]\<rparr>\<rparr>"

lemmas demo_defs = demo_ready_def demo_claimed_def demo_dead_def demo_task_def engine_init_def empty_redis_def

lemma demo_claimed_reachable: "reachable demo_claimed"
proof -
  let ?s1 = "engine_init\<lparr>en_redis := empty_redis\<lparr>rd_task := [''t1'' \<mapsto> Body demo_task]\<rparr>, en_staged := {''t1''}, en_ids := {''t1''}\<rparr>"
  have a: "qstep engine_init ?s1"
    using qstep.stage [of "''t1''" engine_init demo_task] by (simp add: demo_defs set_task_def)
  have b: "qstep ?s1 demo_ready"
    using qstep.push [of "''t1''" ?s1] by (simp add: demo_defs lpush_immediate_def)
  have c: "qstep demo_ready demo_claimed"
    using qstep.claim [of demo_ready 0 "[''l1'']" 10]
    by (simp add: demo_defs claim_script_def claims_of_def zadd_def zrem_def)
  from a b have "qstep\<^sup>*\<^sup>* engine_init demo_ready" by (meson r_into_rtranclp rtranclp_trans)
  with c show ?thesis by (rule rtranclp.rtrancl_into_rtrancl [rotated])
qed

lemma demo_reachable: "reachable demo_dead"
proof -
  have "qstep demo_claimed demo_dead"
    using qstep.recover [of 1 60 20 "''t1''" demo_claimed]
    by (simp add: demo_defs requeue_script_def zscore_def count_attempt_def release_def zrem_def Let_def)
  with demo_claimed_reachable show ?thesis by (rule rtranclp.rtrancl_into_rtrancl)
qed

lemma reachable_estep: "reachable s \<Longrightarrow> estep\<^sup>*\<^sup>* engine_init s"
  by (rule rtranclp_mono [THEN predicate2D, rotated]) (auto intro: estep.own)

section \<open>Properties\<close>

text \<open>
  (C2) No task is lost and none is duplicated. However the gateway, the workers, their heartbeats, recovery
  and promotion interleave and wherever workers crash: every accepted task is at exactly one place, ready,
  scheduled, in flight, dead-lettered or acknowledged once, no other task is anywhere, a lease exists
  exactly for the tasks in flight, and every task that can still run has its body.
\<close>

theorem queue_conserves:
  assumes "reachable s"
  shows "distinct (en_accepted s)
     \<and> (\<forall>i. places (en_redis s) i + count_list (en_acked s) i = (if i \<in> set (en_accepted s) then 1 else 0))
     \<and> dom (rd_leases (en_redis s)) = fst ` set (rd_inflight (en_redis s))
     \<and> (\<forall>i\<in>live (en_redis s). \<exists>tm. rd_task (en_redis s) i = Some (Body tm) \<and> tm_id tm = i)"
  using engine_inv_reachable [OF assms] unfolding engine_inv_def redis_ok_def has_body_def by blast

theorem queue_conserves_witness:
  "places (en_redis demo_dead) ''t1'' + count_list (en_acked demo_dead) ''t1'' = 1
   \<and> places (en_redis demo_dead) ''t2'' + count_list (en_acked demo_dead) ''t2'' = 0"
proof -
  have "set (en_accepted demo_dead) = {''t1''}" by (simp add: demo_defs)
  with queue_conserves [OF demo_reachable] show ?thesis by simp
qed



text \<open>
  (C5) A stale worker can do nothing: once a worker's lease on a task is no longer the one in the database,
  because recovery, a later claim or another program took it, then at every later moment, whatever
  happens in between, its acknowledgement, its retry and its heartbeat for that task are rejected and leave
  the database as it is.
\<close>

theorem stale_worker_fenced:
  assumes "estep\<^sup>*\<^sup>* engine_init s" and "held s w i l" and "rd_leases (en_redis s) i \<noteq> Some l" and "estep\<^sup>*\<^sup>* s t"
  shows "ack_script [(i, l)] (en_redis t) = ([], en_redis t)
     \<and> requeue_script base cap now i l (en_redis t) = (RqFenced, en_redis t)
     \<and> beat_script lease now i l (en_redis t) = (False, en_redis t)"
proof -
  from held_inv_reach [OF assms(1)] held_lease [OF assms(2)] have l: "l \<in> en_issued s" "l \<noteq> []"
    by (auto simp: held_inv_def)
  from lost_stays_lost [OF assms(4) l(1) assms(3)] l(2) show ?thesis
    by (simp add: requeue_script_def beat_script_def)
qed

theorem stale_worker_fenced_witness:
  "requeue_script 1 60 20 ''t1'' ''l1'' (en_redis demo_dead) = (RqFenced, en_redis demo_dead)"
proof -
  note reachable_estep [OF demo_reachable]
  moreover have "held demo_dead 0 ''t1'' ''l1''" by (simp add: held_def demo_defs)
  moreover have "rd_leases (en_redis demo_dead) ''t1'' \<noteq> Some ''l1''" by (simp add: demo_defs)
  ultimately show ?thesis using stale_worker_fenced [of demo_dead 0 "''t1''" "''l1''" demo_dead 1 60 20] by simp
qed

end
