(* ===== verification/Journal.thy ===== *)
theory Journal
  imports Queue_Engine
begin

text \<open>
  The durable journal (\<open>internal/durable\<close>): the table of \<open>postgres.go\<close>, one row per task, with the statements
  of the store, and the reconciler that rebuilds Redis from it (\<open>reconciler.go\<close>). Statements run over a
  connection that may be lost, as the commands of \<open>Redis_Store\<close> do. A table is a list of rows; \<open>Active\<close> sorts.
\<close>

section \<open>The table\<close>

datatype jstate = StateEnqueued | StateProcessing | StateRetrying | StateSucceeded | StateDead

record journal_row =
  jr_id :: string
  jr_type :: string
  jr_payload :: body
  jr_max :: int
  jr_attempts :: int
  jr_state :: jstate
  jr_schedule :: "int option"    \<comment> \<open>NULL: immediate\<close>
  jr_pending :: bool
  jr_created :: int

type_synonym jdb = "journal_row list \<times> link_state"

text \<open>\<open>durable.Task\<close> as the gateway fills it in; its zero \<open>ScheduleAt\<close> is \<open>None\<close> (\<open>nullableTime\<close>).\<close>

record durable_task =
  dt_id :: string
  dt_type :: string
  dt_payload :: body
  dt_max :: int
  dt_attempts :: int
  dt_state :: jstate
  dt_schedule :: "int option"

definition on_row :: "string \<Rightarrow> (journal_row \<Rightarrow> journal_row) \<Rightarrow> journal_row list \<Rightarrow> journal_row list" where
  "on_row i f rows = map (\<lambda>x. if jr_id x = i then f x else x) rows"

text \<open>\<open>INSERT ... ON CONFLICT (id) DO UPDATE\<close>: a new row gets the time of creation, an old one keeps its own.\<close>

definition upsert :: "int \<Rightarrow> durable_task \<Rightarrow> journal_row list \<Rightarrow> journal_row list" where
  "upsert now t rows =
     (let fill = (\<lambda>c. \<lparr>jr_id = dt_id t, jr_type = dt_type t, jr_payload = dt_payload t, jr_max = dt_max t,
        jr_attempts = dt_attempts t, jr_state = dt_state t, jr_schedule = dt_schedule t, jr_pending = True,
        jr_created = c\<rparr>)
      in if dt_id t \<in> jr_id ` set rows then on_row (dt_id t) (\<lambda>x. fill (jr_created x)) rows
         else rows @ [fill now])"

definition pg_Enqueue :: "int \<Rightarrow> durable_task \<Rightarrow> jdb \<Rightarrow> (string + unit) \<times> jdb" where
  "pg_Enqueue now t = run (\<lambda>rows. ((), upsert now t rows))"

definition set_state :: "jstate \<Rightarrow> int \<Rightarrow> int option \<Rightarrow> journal_row \<Rightarrow> journal_row" where
  "set_state st attempts sched x =
     x\<lparr>jr_state := st, jr_attempts := (if attempts \<ge> 0 then attempts else jr_attempts x),
       jr_schedule := (case sched of None \<Rightarrow> jr_schedule x | Some t \<Rightarrow> Some t), jr_pending := False\<rparr>"

definition setState :: "string \<Rightarrow> jstate \<Rightarrow> int \<Rightarrow> int option \<Rightarrow> jdb \<Rightarrow> (string + unit) \<times> jdb" where
  "setState i st attempts sched = run (\<lambda>rows. ((), on_row i (set_state st attempts sched) rows))"

definition pg_Processing :: "string \<Rightarrow> jdb \<Rightarrow> (string + unit) \<times> jdb" where
  "pg_Processing i = setState i StateProcessing (-1) None"

definition pg_Succeeded :: "string \<Rightarrow> jdb \<Rightarrow> (string + unit) \<times> jdb" where
  "pg_Succeeded i = setState i StateSucceeded (-1) None"

definition pg_Dead :: "string \<Rightarrow> int \<Rightarrow> jdb \<Rightarrow> (string + unit) \<times> jdb" where
  "pg_Dead i attempts = setState i StateDead attempts None"

definition pg_Retrying :: "string \<Rightarrow> int \<Rightarrow> int \<Rightarrow> jdb \<Rightarrow> (string + unit) \<times> jdb" where
  "pg_Retrying i attempts due = setState i StateRetrying attempts (Some due)"

definition pg_Materialized :: "string \<Rightarrow> jdb \<Rightarrow> (string + unit) \<times> jdb" where
  "pg_Materialized i = run (\<lambda>rows. ((), on_row i (\<lambda>x. x\<lparr>jr_pending := False\<rparr>) rows))"

section \<open>Paging\<close>

type_synonym cursor = "int \<times> string"

text \<open>The zero \<open>time.Time\<close>, the first of January of the year 1, in Unix microseconds.\<close>

definition zero_cursor :: cursor where
  "zero_cursor = (-62135596800000000, [])"

definition is_active :: "journal_row \<Rightarrow> bool" where
  "is_active x \<longleftrightarrow> jr_state x = StateEnqueued \<or> jr_state x = StateProcessing \<or> jr_state x = StateRetrying"

definition row_key :: "journal_row \<Rightarrow> cursor" where
  "row_key x = (jr_created x, jr_id x)"

definition cursor_cmp :: "cursor \<Rightarrow> cursor \<Rightarrow> int" where
  "cursor_cmp a b = (if fst a < fst b then -1 else if fst b < fst a then 1 else str_cmp (snd a) (snd b))"

definition sweep_cmp :: "journal_row \<Rightarrow> journal_row \<Rightarrow> int" where
  "sweep_cmp x y = cursor_cmp (row_key x) (row_key y)"

definition active_rows :: "cursor \<Rightarrow> nat \<Rightarrow> journal_row list \<Rightarrow> journal_row list" where
  "active_rows after limit rows =
     take (if limit = 0 then 1000 else limit)
       (js_sort sweep_cmp (filter (\<lambda>x. is_active x \<and> cursor_cmp after (row_key x) < 0) rows))"

definition pg_Active :: "cursor \<Rightarrow> nat \<Rightarrow> jdb \<Rightarrow> (string + journal_row list) \<times> jdb" where
  "pg_Active after limit = run (\<lambda>rows. (active_rows after limit rows, rows))"

section \<open>Reconciling\<close>

definition materialize_script :: "string \<Rightarrow> int option \<Rightarrow> body \<Rightarrow> bool cmd" where
  "materialize_script i score payload r =
     (if i \<in> set (rd_immediate r) \<or> zscore i (rd_inflight r) \<noteq> None \<or> zscore i (rd_scheduled r) \<noteq> None then (False, r)
      else
        let r1 = r\<lparr>rd_task := (rd_task r)(i \<mapsto> payload)\<rparr> in
        (True, case score of
                 None \<Rightarrow> r1\<lparr>rd_immediate := i # rd_immediate r1\<rparr>
               | Some s \<Rightarrow> r1\<lparr>rd_scheduled := zadd i s (rd_scheduled r1)\<rparr>))"

text \<open>\<open>strconv.FormatInt(t.Unix(), 10)\<close>: whole seconds.\<close>

definition unix_score :: "int \<Rightarrow> int" where
  "unix_score t = 1000000 * (t div 1000000)"

definition row_score :: "int \<Rightarrow> journal_row \<Rightarrow> int option" where
  "row_score now x =
     (case jr_state x of
        StateProcessing \<Rightarrow> Some (unix_score now)
      | StateEnqueued \<Rightarrow> map_option unix_score (jr_schedule x)
      | StateRetrying \<Rightarrow> map_option unix_score (jr_schedule x)
      | _ \<Rightarrow> None)"

definition materialize :: "int \<Rightarrow> journal_row \<Rightarrow> db \<Rightarrow> (string + bool) \<times> db" where
  "materialize now x = run (materialize_script (jr_id x) (row_score now x) (jr_payload x))"

text \<open>The loop of \<open>ReconcileOnce\<close>; errors of a row are logged and the loop goes on.\<close>

fun reconcile_rows :: "(nat \<Rightarrow> int) \<Rightarrow> journal_row list \<Rightarrow> nat \<Rightarrow> cursor \<Rightarrow> db \<Rightarrow> jdb \<Rightarrow> nat \<times> cursor \<times> db \<times> jdb" where
  "reconcile_rows clock [] repaired nxt d j = (repaired, nxt, d, j)"
| "reconcile_rows clock (x # xs) repaired nxt d j =
     (case materialize (clock 0) x d of (res, d1) \<Rightarrow>
        reconcile_rows (\<lambda>k. clock (Suc k)) xs (if res = Inr True then Suc repaired else repaired) (row_key x) d1
          (snd (pg_Materialized (jr_id x) j)))"

definition reconcilePageSize :: nat where
  "reconcilePageSize = 1000"

definition ReconcileOnce :: "(nat \<Rightarrow> int) \<Rightarrow> cursor \<Rightarrow> db \<Rightarrow> jdb \<Rightarrow> (nat \<times> cursor \<times> bool \<times> string option) \<times> db \<times> jdb" where
  "ReconcileOnce clock cursor d j =
     (case pg_Active cursor reconcilePageSize j of
        (Inl e, j1) \<Rightarrow> ((0, cursor, True, Some e), d, j1)
      | (Inr page, j1) \<Rightarrow>
          (case reconcile_rows clock page 0 cursor d j1 of (repaired, nxt, d1, j2) \<Rightarrow>
             ((repaired, nxt, length page < reconcilePageSize, None), d1, j2)))"

text \<open>One tick of \<open>ReconcileLoop\<close>, and a number of them; \<open>clock k\<close> is what \<open>time.Now\<close> answers for the \<open>k\<close>-th row.\<close>

definition reconcile_tick :: "(nat \<Rightarrow> int) \<Rightarrow> cursor \<times> db \<times> jdb \<Rightarrow> cursor \<times> db \<times> jdb" where
  "reconcile_tick clock s =
     (case s of (cursor, d, j) \<Rightarrow>
        (case ReconcileOnce clock cursor d j of
           ((_, nxt, finished, _), d1, j1) \<Rightarrow> (if finished then zero_cursor else nxt, d1, j1)))"

fun reconcile_ticks :: "(nat \<Rightarrow> nat \<Rightarrow> int) \<Rightarrow> nat \<Rightarrow> cursor \<times> db \<times> jdb \<Rightarrow> cursor \<times> db \<times> jdb" where
  "reconcile_ticks clocks 0 s = s"
| "reconcile_ticks clocks (Suc n) s = reconcile_ticks (\<lambda>k. clocks (Suc k)) n (reconcile_tick (clocks 0) s)"

section \<open>Pages partition the active rows\<close>

context consistent_comparator
begin

lemma sort_insert_least: "\<forall>y\<in>set ys. cmp x y \<le> 0 \<Longrightarrow> sort_insert cmp x ys = x # ys"
  by (cases ys) auto

lemma filter_insert:
  "sorted_wrt (\<lambda>a b. cmp a b \<le> 0) ys \<Longrightarrow>
     filter P (sort_insert cmp x ys) = (if P x then sort_insert cmp x (filter P ys) else filter P ys)"
proof (induction ys)
  case (Cons y ys)
  show ?case
  proof (cases "cmp x y \<le> 0")
    case True
    with Cons.prems have "\<forall>z\<in>set (filter P (y # ys)). cmp x z \<le> 0" by (auto intro: cmp_trans)
    from sort_insert_least [OF this] True show ?thesis by simp
  qed (use Cons in auto)
qed simp

lemma filter_js_sort: "filter P (js_sort cmp xs) = js_sort cmp (filter P xs)"
  by (induction xs) (simp_all add: js_sort_Cons filter_insert sorted_js_sort)

end

lemma cursor_cmp_swap: "(cursor_cmp a b \<le> 0) = (0 \<le> cursor_cmp b a)"
  using string_sort.cmp_swap by (auto simp: cursor_cmp_def)

lemma cursor_cmp_trans: "cursor_cmp a b \<le> 0 \<Longrightarrow> cursor_cmp b c \<le> 0 \<Longrightarrow> cursor_cmp a c \<le> 0"
  using string_sort.cmp_trans by (auto simp: cursor_cmp_def split: if_splits)

interpretation row_order: consistent_comparator sweep_cmp
  unfolding sweep_cmp_def by unfold_locales (rule cursor_cmp_swap, rule cursor_cmp_trans)

lemma cursor_cmp_eq: "cursor_cmp a b = 0 \<longleftrightarrow> a = b"
  by (auto simp: cursor_cmp_def str_cmp_def prod_eq_iff)

text \<open>The active rows in the order of the sweep.\<close>

definition all_active :: "journal_row list \<Rightarrow> journal_row list" where
  "all_active rows = js_sort sweep_cmp (filter is_active rows)"

lemma active_rows_filter:
  "n \<noteq> 0 \<Longrightarrow> active_rows c n rows = take n (filter (\<lambda>x. cursor_cmp c (row_key x) < 0) (all_active rows))"
  by (simp add: active_rows_def all_active_def row_order.filter_js_sort)

lemma all_active_strict:
  assumes "distinct (map jr_id rows)"
  shows "sorted_wrt (\<lambda>x y. sweep_cmp x y < 0) (all_active rows) \<and> distinct (map jr_id (all_active rows))"
proof -
  have "mset (map jr_id (all_active rows)) = mset (map jr_id (filter is_active rows))"
    by (simp add: all_active_def)
  with assms have d: "distinct (map jr_id (all_active rows))"
    using distinct_map_filter mset_eq_imp_distinct_iff by metis
  have "sorted_wrt (\<lambda>x y. sweep_cmp x y \<le> 0) xs \<Longrightarrow> distinct (map jr_id xs) \<Longrightarrow> sorted_wrt (\<lambda>x y. sweep_cmp x y < 0) xs" for xs
  proof (induction xs)
    case (Cons x xs)
    have "sweep_cmp x y \<noteq> 0" if "y \<in> set xs" for y
      using Cons.prems(2) that by (force simp: sweep_cmp_def cursor_cmp_eq row_key_def)
    with Cons show ?case by (auto simp: order_less_le)
  qed simp
  with d show ?thesis using row_order.sorted_js_sort by (simp add: all_active_def)
qed

lemma after_last:
  assumes "sorted_wrt (\<lambda>x y. sweep_cmp x y < 0) (xs @ ys)" and "xs \<noteq> []"
  shows "filter (\<lambda>x. cursor_cmp (row_key (last xs)) (row_key x) < 0) (xs @ ys) = ys"
proof -
  obtain zs z where xs: "xs = zs @ [z]" using assms(2) by (metis rev_exhaust)
  have "\<not> sweep_cmp z x < 0" if "x \<in> set xs" for x
  proof (cases "x = z")
    case True
    then show ?thesis using cursor_cmp_eq [of "row_key z" "row_key z"] by (simp add: sweep_cmp_def)
  next
    case False
    with that assms(1) xs have "sweep_cmp x z < 0" by (auto simp: sorted_wrt_append)
    then show ?thesis using row_order.cmp_swap [of x z] by linarith
  qed
  moreover have "sweep_cmp z y < 0" if "y \<in> set ys" for y using assms(1) that xs by (auto simp: sorted_wrt_append)
  ultimately show ?thesis using xs by (simp add: sweep_cmp_def [symmetric] filter_empty_conv filter_id_conv)
qed

text \<open>Only \<open>redis_pending\<close> changes during a sweep, and nothing the sweep does depends on it.\<close>

definition strip :: "journal_row \<Rightarrow> journal_row" where
  "strip x = x\<lparr>jr_pending := False\<rparr>"

lemma strip_simps [simp]:
  "jr_id (strip x) = jr_id x" "jr_state (strip x) = jr_state x" "jr_payload (strip x) = jr_payload x"
  "jr_schedule (strip x) = jr_schedule x" "jr_created (strip x) = jr_created x" "row_key (strip x) = row_key x"
  "is_active (strip x) = is_active x" "row_score now (strip x) = row_score now x" "strip (strip x) = strip x"
  by (simp_all add: strip_def row_key_def is_active_def row_score_def split: jstate.splits)

lemma js_sort_map: "(\<And>x y. cmp (f x) (f y) = cmp x y) \<Longrightarrow> js_sort cmp (map f xs) = map f (js_sort cmp xs)"
proof -
  assume inv: "\<And>x y. cmp (f x) (f y) = cmp x y"
  have ins: "sort_insert cmp (f x) (map f ys) = map f (sort_insert cmp x ys)" for x ys
    by (induction ys) (simp_all add: inv)
  show ?thesis by (induction xs) (simp_all add: js_sort_Cons ins)
qed

lemma all_active_strip: "all_active (map strip rows) = map strip (all_active rows)"
  unfolding all_active_def
  by (simp add: filter_map comp_def js_sort_map sweep_cmp_def)

lemma active_rows_strip:
  "n \<noteq> 0 \<Longrightarrow> map strip (active_rows c n rows) =
     take n (filter (\<lambda>x. cursor_cmp c (row_key x) < 0) (all_active (map strip rows)))"
  by (simp add: active_rows_filter all_active_strip take_map filter_map comp_def)

lemma strip_materialized: "map strip (on_row i (\<lambda>x. x\<lparr>jr_pending := False\<rparr>) rows) = map strip rows"
  by (auto simp: on_row_def strip_def)

text \<open>Rows materialized one after the other, at any instants.\<close>

inductive mats :: "journal_row list \<Rightarrow> redis \<Rightarrow> redis \<Rightarrow> bool" where
  none: "mats [] r r"
| one: "mats xs (snd (materialize_script (jr_id x) (row_score now x) (jr_payload x) r)) r' \<Longrightarrow> mats (x # xs) r r'"

inductive_cases mats_ConsE: "mats (x # xs) r r'"
inductive_cases mats_NilE: "mats [] r r'"

lemma mats_append: "mats xs r r1 \<Longrightarrow> mats ys r1 r2 \<Longrightarrow> mats (xs @ ys) r r2"
  by (induction rule: mats.induct) (auto intro: mats.one)

lemma mats_strip: "mats (map strip xs) r r' \<longleftrightarrow> mats xs r r'"
  by (induction xs arbitrary: r) (auto elim!: mats_ConsE mats_NilE intro: mats.intros)

lemma reconcile_rows_up:
  assumes "up l" and "up lj"
  shows "\<exists>rep r' rows'. reconcile_rows clock xs n nxt (r, l) (rows, lj) =
      (rep, if xs = [] then nxt else row_key (last xs), (r', l), (rows', lj)) \<and> mats xs r r' \<and> map strip rows' = map strip rows"
proof (induction xs arbitrary: clock n nxt r rows)
  case (Cons x xs)
  let ?r = "snd (materialize_script (jr_id x) (row_score (clock 0) x) (jr_payload x) r)"
  let ?rows = "on_row (jr_id x) (\<lambda>x. x\<lparr>jr_pending := False\<rparr>) rows"
  from Cons.IH [of "\<lambda>k. clock (Suc k)" _ "row_key x" ?r ?rows] show ?case
    using assms
    by (fastforce simp: materialize_def pg_Materialized_def strip_materialized intro: mats.one)
qed (auto intro: mats.none)

lemma tick_up:
  assumes "up l" and "up lj" and act: "all_active (map strip rows) = xs @ ys"
    and strict: "sorted_wrt (\<lambda>x y. sweep_cmp x y < 0) (xs @ ys)"
    and c: "c = (if xs = [] then zero_cursor else row_key (last xs))"
    and born: "\<And>x. x \<in> set ys \<Longrightarrow> cursor_cmp zero_cursor (row_key x) < 0"
  shows "\<exists>r' rows'. reconcile_tick clock (c, (r, l), (rows, lj)) =
      (if length ys < reconcilePageSize then zero_cursor else row_key (last (take reconcilePageSize ys)), (r', l), (rows', lj))
     \<and> mats (take reconcilePageSize ys) r r' \<and> map strip rows' = map strip rows"
proof -
  let ?page = "active_rows c reconcilePageSize rows"
  have "filter (\<lambda>x. cursor_cmp c (row_key x) < 0) (xs @ ys) = ys"
  proof (cases "xs = []")
    case True
    with born c show ?thesis by (simp add: filter_id_conv)
  next
    case False
    with after_last [OF strict False] c show ?thesis by simp
  qed
  with act have page: "map strip ?page = take reconcilePageSize ys"
    by (simp add: active_rows_strip reconcilePageSize_def)
  from reconcile_rows_up [OF assms(1,2), of clock ?page 0 c r rows] obtain rep r' rows' where
    rr: "reconcile_rows clock ?page 0 c (r, l) (rows, lj) =
      (rep, if ?page = [] then c else row_key (last ?page), (r', l), (rows', lj))" and m: "mats ?page r r'"
    and st: "map strip rows' = map strip rows" by blast
  have len: "length ?page = min reconcilePageSize (length ys)"
    using arg_cong [OF page, of length] by simp
  have "row_key (last ?page) = row_key (last (take reconcilePageSize ys))" if "?page \<noteq> []"
    using that by (simp add: last_map flip: page)
  moreover have "?page \<noteq> []" if "\<not> length ys < reconcilePageSize"
    using len that by (auto simp: reconcilePageSize_def)
  moreover have "mats (take reconcilePageSize ys) r r'" using m by (simp add: mats_strip flip: page)
  ultimately show ?thesis
    using rr st assms(2) len by (auto simp: reconcile_tick_def ReconcileOnce_def pg_Active_def)
qed

lemma sweep_up:
  assumes "up l" and "up lj"
  shows "all_active (map strip rows) = xs @ ys \<Longrightarrow> sorted_wrt (\<lambda>x y. sweep_cmp x y < 0) (xs @ ys) \<Longrightarrow>
     c = (if xs = [] then zero_cursor else row_key (last xs)) \<Longrightarrow>
     (\<And>x. x \<in> set ys \<Longrightarrow> cursor_cmp zero_cursor (row_key x) < 0) \<Longrightarrow>
     \<exists>r' rows'. reconcile_ticks clocks (Suc (length ys div reconcilePageSize)) (c, (r, l), (rows, lj)) =
         (zero_cursor, (r', l), (rows', lj)) \<and> mats ys r r' \<and> map strip rows' = map strip rows"
proof (induction "length ys div reconcilePageSize" arbitrary: xs ys c clocks r rows)
  case 0
  then have small: "length ys < reconcilePageSize" by (simp add: reconcilePageSize_def div_eq_0_iff)
  from tick_up [OF assms 0(2-5), where clock = "clocks 0" and r = r] small "0.hyps" show ?case by auto
next
  case (Suc m)
  let ?p = "take reconcilePageSize ys" and ?q = "drop reconcilePageSize ys"
  from Suc.hyps(2) have big: "\<not> length ys < reconcilePageSize" by auto
  from tick_up [OF assms Suc.prems, where clock = "clocks 0" and r = r] big obtain r1 rows1 where
    t: "reconcile_tick (clocks 0) (c, (r, l), (rows, lj)) = (row_key (last ?p), (r1, l), (rows1, lj))"
    and m: "mats ?p r r1" and st: "map strip rows1 = map strip rows" by auto
  have p: "?p \<noteq> []" using big by (auto simp: reconcilePageSize_def)
  have len: "m = length ?q div reconcilePageSize"
    using Suc.hyps(2) big by (simp add: reconcilePageSize_def le_div_geq)
  have "\<exists>r' rows'. reconcile_ticks (\<lambda>k. clocks (Suc k)) (Suc (length ?q div reconcilePageSize)) (row_key (last ?p), (r1, l), (rows1, lj)) =
      (zero_cursor, (r', l), (rows', lj)) \<and> mats ?q r1 r' \<and> map strip rows' = map strip rows1"
  proof (rule Suc.hyps(1) [OF len, where xs = "xs @ ?p"])
    show "all_active (map strip rows1) = (xs @ ?p) @ ?q" using Suc.prems(1) st by simp
    show "sorted_wrt (\<lambda>x y. sweep_cmp x y < 0) ((xs @ ?p) @ ?q)" using Suc.prems(2) by simp
    show "row_key (last ?p) = (if xs @ ?p = [] then zero_cursor else row_key (last (xs @ ?p)))" using p by simp
    show "cursor_cmp zero_cursor (row_key x) < 0" if "x \<in> set ?q" for x using Suc.prems(4) that in_set_dropD by fast
  qed
  then obtain r' rows' where
    "reconcile_ticks (\<lambda>k. clocks (Suc k)) (Suc m) (row_key (last ?p), (r1, l), (rows1, lj)) = (zero_cursor, (r', l), (rows', lj))"
    "mats ?q r1 r'" "map strip rows' = map strip rows1" unfolding len by blast
  with t m st mats_append [of ?p r r1 ?q r'] Suc.hyps(2) [symmetric] show ?case
    by (simp del: reconcile_ticks.simps add: reconcile_ticks.simps(2) [of clocks])
qed

section \<open>What materializing does\<close>

text \<open>Where a row without hot state belongs.\<close>

definition to_ready :: "journal_row \<Rightarrow> bool" where
  "to_ready x \<longleftrightarrow> jr_state x \<noteq> StateProcessing \<and> jr_schedule x = None"

lemma to_ready_score: "is_active x \<Longrightarrow> to_ready x \<longleftrightarrow> row_score now x = None"
  by (cases "jr_state x") (simp_all add: to_ready_def row_score_def is_active_def)

lemma zscore_live: "zscore i z \<noteq> None \<longleftrightarrow> i \<in> fst ` set z"
  by (simp add: zscore_def map_of_eq_None_iff)

lemma present_live:
  "i \<in> set (rd_immediate r) \<or> zscore i (rd_inflight r) \<noteq> None \<or> zscore i (rd_scheduled r) \<noteq> None \<longleftrightarrow> i \<in> live r"
  unfolding zscore_live live_def by blast

lemma materialize_cases:
  assumes "r' = snd (materialize_script i sc b r)"
  shows "if i \<in> live r then r' = r
    else rd_task r' = (rd_task r)(i \<mapsto> b) \<and> live r' = insert i (live r) \<and> places r' = (places r)(i := Suc (places r i))
      \<and> set (rd_immediate r') = (if sc = None then insert i (set (rd_immediate r)) else set (rd_immediate r))"
proof (cases "i \<in> live r")
  case True
  with assms show ?thesis by (simp only: materialize_script_def present_live) simp
next
  case False
  then have z: "count_list (map fst (rd_scheduled r)) i = 0" by (simp add: count_list_0_iff live_def)
  show ?thesis
  proof (cases sc)
    case None
    with assms False have "r' = r\<lparr>rd_task := (rd_task r)(i \<mapsto> b), rd_immediate := i # rd_immediate r\<rparr>"
      by (simp only: materialize_script_def present_live) simp
    with False None show ?thesis by (auto simp: live_def places_def intro!: ext)
  next
    case (Some t)
    with assms False have "r' = r\<lparr>rd_task := (rd_task r)(i \<mapsto> b), rd_scheduled := zadd i t (rd_scheduled r)\<rparr>"
      by (simp only: materialize_script_def present_live) simp
    with False Some z show ?thesis by (simp add: live_def) (auto simp: place_counts intro!: ext)
  qed
qed

definition healed :: "redis \<Rightarrow> redis \<Rightarrow> journal_row \<Rightarrow> bool" where
  "healed r r' x \<longleftrightarrow> jr_id x \<in> live r' \<and> (jr_id x \<notin> live r \<longrightarrow>
     rd_task r' (jr_id x) = Some (jr_payload x) \<and> places r' (jr_id x) = Suc (places r (jr_id x))
     \<and> (jr_id x \<in> set (rd_immediate r') \<longleftrightarrow> to_ready x))"

definition untouched :: "redis \<Rightarrow> redis \<Rightarrow> string \<Rightarrow> bool" where
  "untouched r r' i \<longleftrightarrow> rd_task r' i = rd_task r i \<and> (i \<in> live r' \<longleftrightarrow> i \<in> live r) \<and> places r' i = places r i
     \<and> (i \<in> set (rd_immediate r') \<longleftrightarrow> i \<in> set (rd_immediate r))"

lemma untouched_trans: "untouched r r1 i \<Longrightarrow> untouched r1 r2 i \<Longrightarrow> untouched r r2 i"
  by (simp add: untouched_def)

lemma untouched_live: "untouched r r' i \<Longrightarrow> i \<in> live r' \<longleftrightarrow> i \<in> live r"
  by (simp add: untouched_def)

lemma healed_before: "untouched r r1 (jr_id x) \<Longrightarrow> healed r1 r2 x \<Longrightarrow> healed r r2 x"
  by (simp add: untouched_def healed_def)

lemma healed_after: "healed r r1 x \<Longrightarrow> untouched r1 r2 (jr_id x) \<Longrightarrow> healed r r2 x"
  by (simp add: untouched_def healed_def)

lemma mats_effect:
  "mats xs r r' \<Longrightarrow> distinct (map jr_id xs) \<Longrightarrow> list_all is_active xs \<Longrightarrow>
     list_all (healed r r') xs \<and> (\<forall>i. i \<notin> jr_id ` set xs \<or> i \<in> live r \<longrightarrow> untouched r r' i)"
proof (induction rule: mats.induct)
  case (one xs x now r r')
  let ?i = "jr_id x" and ?r = "snd (materialize_script (jr_id x) (row_score now x) (jr_payload x) r)"
  note c = materialize_cases [of ?r ?i "row_score now x" "jr_payload x" r, OF refl]
  from one.IH one.prems have ih: "list_all (healed ?r r') xs"
    and fr: "\<And>i. i \<notin> jr_id ` set xs \<or> i \<in> live ?r \<Longrightarrow> untouched ?r r' i" by auto
  from one.prems have i: "?i \<notin> jr_id ` set xs" by auto
  have fst_step: "untouched r ?r j" if "j \<noteq> ?i \<or> j \<in> live r" for j
    using c that by (cases "?i \<in> live r") (auto simp: untouched_def)
  have "untouched r r' j" if "j \<notin> jr_id ` set (x # xs) \<or> j \<in> live r" for j
  proof (rule untouched_trans)
    show u: "untouched r ?r j" using that by (intro fst_step) auto
    show "untouched ?r r' j" using that untouched_live [OF u] by (intro fr) auto
  qed
  moreover have "healed r ?r x"
    using c to_ready_score [of x now] one.prems(2) by (cases "?i \<in> live r") (auto simp: healed_def live_def)
  then have "healed r r' x" using fr [OF disjI1 [OF i]] by (rule healed_after)
  moreover have "healed r r' y" if "y \<in> set xs" for y
  proof -
    from that i have "jr_id y \<noteq> ?i" by (metis imageI)
    then have "untouched r ?r (jr_id y)" by (intro fst_step) simp
    then show ?thesis by (rule healed_before) (use ih that in \<open>simp add: list_all_iff\<close>)
  qed
  ultimately show ?case by (simp add: list_all_iff)
qed (simp add: untouched_def)

lemma sweep_heals:
  assumes "up l" and "up lj" and "distinct (map jr_id rows)" and "list_all (\<lambda>x. fst zero_cursor < jr_created x) rows"
  shows "\<exists>r' rows'. reconcile_ticks clocks (Suc (length (filter is_active rows) div reconcilePageSize)) (zero_cursor, (r, l), (rows, lj)) =
      (zero_cursor, (r', l), (rows', lj))
     \<and> (\<forall>x\<in>set rows. is_active x \<longrightarrow> healed r r' x)
     \<and> (\<forall>i. (\<forall>x\<in>set rows. is_active x \<longrightarrow> jr_id x \<noteq> i) \<or> i \<in> live r \<longrightarrow> untouched r r' i)"
proof -
  let ?R = "map strip rows"
  have strict: "sorted_wrt (\<lambda>x y. sweep_cmp x y < 0) ([] @ all_active ?R)" and dist: "distinct (map jr_id (all_active ?R))"
    using all_active_strict [of ?R] assms(3) by (simp_all add: comp_def)
  have mem: "set (all_active ?R) = strip ` {x \<in> set rows. is_active x}" by (auto simp: all_active_def)
  have ids: "jr_id ` set (all_active ?R) = jr_id ` {x \<in> set rows. is_active x}" by (simp add: mem image_image)
  have len: "length (all_active ?R) = length (filter is_active rows)"
    by (simp add: all_active_strip) (simp add: all_active_def)
  have born: "cursor_cmp zero_cursor (row_key x) < 0" if "x \<in> set (all_active ?R)" for x
    using assms(4) that mem by (auto simp: list_all_iff cursor_cmp_def row_key_def)
  from sweep_up [OF assms(1,2) _ strict _ born, where c = zero_cursor and rows = rows and clocks = clocks and r = r]
  obtain r' rows' where s: "reconcile_ticks clocks (Suc (length (filter is_active rows) div reconcilePageSize)) (zero_cursor, (r, l), (rows, lj)) =
      (zero_cursor, (r', l), (rows', lj))" and m: "mats (all_active ?R) r r'" by (auto simp: len)
  from mats_effect [OF m dist] have eff: "\<forall>x\<in>set (all_active ?R). healed r r' x"
      "\<forall>i. i \<notin> jr_id ` set (all_active ?R) \<or> i \<in> live r \<longrightarrow> untouched r r' i"
    by (auto simp: mem list_all_iff)
  have "healed r r' x" if "x \<in> set rows" "is_active x" for x
    using eff(1) that by (auto simp: mem healed_def to_ready_def)
  moreover have "untouched r r' i" if "(\<forall>x\<in>set rows. is_active x \<longrightarrow> jr_id x \<noteq> i) \<or> i \<in> live r" for i
  proof -
    from that have "i \<notin> jr_id ` {x \<in> set rows. is_active x} \<or> i \<in> live r" by auto
    with eff(2) [rule_format, of i] ids show ?thesis by simp
  qed
  ultimately show ?thesis using s by (intro exI conjI) auto
qed

section \<open>Properties\<close>

text \<open>
  (C7) The reconciler heals Redis: whatever Redis has lost, after as many ticks as the active rows have pages,
  with both stores reachable, every task the journal holds as not finished is in Redis again; one that was
  missing has the journalled body and is at exactly one more place, ready if it was due at once and
  scheduled otherwise; every task that was there is left alone, and the sweep is back at its beginning.
\<close>

theorem reconcile_heals:
  assumes "up l" and "up lj" and "distinct (map jr_id rows)" and "list_all (\<lambda>x. fst zero_cursor < jr_created x) rows"
  shows "\<exists>r' rows'. reconcile_ticks clocks (Suc (length (filter is_active rows) div reconcilePageSize)) (zero_cursor, (r, l), (rows, lj)) =
      (zero_cursor, (r', l), (rows', lj))
     \<and> (\<forall>x\<in>set rows. is_active x \<longrightarrow> healed r r' x)
     \<and> (\<forall>i. (\<forall>x\<in>set rows. is_active x \<longrightarrow> jr_id x \<noteq> i) \<or> i \<in> live r \<longrightarrow> untouched r r' i)"
  using assms by (rule sweep_heals)

definition lost_row :: journal_row where
  "lost_row = \<lparr>jr_id = ''t1'', jr_type = ''echo'', jr_payload = Body demo_task, jr_max = 1, jr_attempts = 0, jr_state = StateEnqueued,
     jr_schedule = None, jr_pending = True, jr_created = 5\<rparr>"

theorem reconcile_heals_witness:
  "\<exists>r' rows'. reconcile_ticks (\<lambda>_ _. 9) 1 (zero_cursor, (empty_redis, \<lparr>ln_budget = None, ln_torn = False, ln_error = []\<rparr>),
       ([lost_row], \<lparr>ln_budget = None, ln_torn = False, ln_error = []\<rparr>)) =
     (zero_cursor, (r', \<lparr>ln_budget = None, ln_torn = False, ln_error = []\<rparr>), (rows', \<lparr>ln_budget = None, ln_torn = False, ln_error = []\<rparr>))
   \<and> rd_task r' ''t1'' = Some (Body demo_task) \<and> places r' ''t1'' = 1 \<and> ''t1'' \<in> set (rd_immediate r')"
proof -
  let ?l = "\<lparr>ln_budget = None, ln_torn = False, ln_error = []\<rparr>"
  have h: "up ?l" "up ?l" "distinct (map jr_id [lost_row])" "list_all (\<lambda>x. fst zero_cursor < jr_created x) [lost_row]"
    by (simp_all add: lost_row_def zero_cursor_def)
  have n: "Suc (length (filter is_active [lost_row]) div reconcilePageSize) = 1"
    by (simp add: reconcilePageSize_def lost_row_def is_active_def)
  have e: "''t1'' \<notin> live empty_redis" "places empty_redis ''t1'' = 0" by (simp_all add: live_def places_def empty_redis_def)
  from reconcile_heals [OF h, where clocks = "\<lambda>_ _. 9" and r = empty_redis] n e show ?thesis
    by (auto simp: healed_def to_ready_def lost_row_def is_active_def)
qed

end
