(* ===== verification/Worker_Loop.thy ===== *)
theory Worker_Loop
  imports Journal "HOL-Library.Word"
begin

text \<open>
  The loops of a worker pool over Redis and the journal (\<open>internal/worker\<close>), and the gateway's enqueue
  (\<open>internal/gateway\<close>). \<open>world\<close> is both stores with their connections, the journal missing when the pool runs
  without one (\<open>durable.Nop\<close>), and the number of clock readings so far; \<open>clk\<close> answers them, Go's clock and the
  \<open>TIME\<close> of Redis alike. What the handlers of the tasks do is a parameter. Telemetry is left out.
\<close>

section \<open>The world\<close>

record world =
  wo_db :: db
  wo_pg :: "jdb option"
  wo_reads :: nat

definition now_of :: "(nat \<Rightarrow> int) \<Rightarrow> world \<Rightarrow> int \<times> world" where
  "now_of clk w = (clk (wo_reads w), w\<lparr>wo_reads := Suc (wo_reads w)\<rparr>)"

definition on_db :: "(db \<Rightarrow> 'a \<times> db) \<Rightarrow> world \<Rightarrow> 'a \<times> world" where
  "on_db f w = (case f (wo_db w) of (x, d) \<Rightarrow> (x, w\<lparr>wo_db := d\<rparr>))"

definition on_pg :: "(jdb \<Rightarrow> (string + unit) \<times> jdb) \<Rightarrow> world \<Rightarrow> (string + unit) \<times> world" where
  "on_pg f w = (case wo_pg w of None \<Rightarrow> (Inr (), w) | Some j \<Rightarrow> (case f j of (x, j') \<Rightarrow> (x, w\<lparr>wo_pg := Some j'\<rparr>)))"

section \<open>The registry\<close>

definition markLeases :: "pool \<Rightarrow> string list \<Rightarrow> db \<Rightarrow> unit \<times> db" where
  "markLeases wp ids d =
     ((), if ids = [] then d
          else snd (run (\<lambda>r. ((), r\<lparr>rd_wleases := (rd_wleases r)(wp_id wp := remdups (ids @ rd_wleases r (wp_id wp)))\<rparr>)) d))"

definition clearLeases :: "pool \<Rightarrow> string list \<Rightarrow> db \<Rightarrow> unit \<times> db" where
  "clearLeases wp ids d =
     ((), if ids = [] then d
          else snd (run (\<lambda>r. ((), r\<lparr>rd_wleases := (rd_wleases r)(wp_id wp := filter (\<lambda>i. i \<notin> set ids) (rd_wleases r (wp_id wp)))\<rparr>)) d))"

definition publishMeta :: "pool \<Rightarrow> string \<Rightarrow> db \<Rightarrow> unit \<times> db" where
  "publishMeta wp now d =
     ((), snd (run (pipeline
        [\<lambda>r. ((), r\<lparr>rd_workers := List.insert (wp_id wp) (rd_workers r)\<rparr>),
         \<lambda>r. ((), r\<lparr>rd_meta := (rd_meta r)(wp_id wp \<mapsto> Some \<lparr>wm_id = wp_id wp, wm_hostname = wp_hostname wp,
            wm_version = wp_version wp, wm_startedAt = wp_startedAt wp, wm_lastHeartbeat = now,
            wm_concurrency = wp_concurrency wp\<rparr>)\<rparr>)]) d))"

definition deregister :: "pool \<Rightarrow> db \<Rightarrow> unit \<times> db" where
  "deregister wp d =
     ((), snd (run (pipeline
        [\<lambda>r. ((), r\<lparr>rd_workers := removeAll (wp_id wp) (rd_workers r)\<rparr>),
         \<lambda>r. ((), r\<lparr>rd_meta := (rd_meta r)(wp_id wp := None)\<rparr>),
         \<lambda>r. ((), r\<lparr>rd_wleases := (rd_wleases r)(wp_id wp := [])\<rparr>)]) d))"

section \<open>Reporting to the journal\<close>

text \<open>\<open>backoffDelay\<close>: durations are 64-bit integers, so the doubling wraps around.\<close>

function go_double :: "int \<Rightarrow> int \<Rightarrow> 64 word \<Rightarrow> 64 word" where
  "go_double i attempts delay = (if i \<le> attempts then go_double (i + 1) attempts (delay * 2) else delay)"
  by pat_completeness auto
termination
  by (relation "measure (\<lambda>(i, attempts, _). nat (attempts + 1 - i))") auto

declare go_double.simps [simp del]

definition backoffDelay :: "int \<Rightarrow> 64 word \<Rightarrow> 64 word \<Rightarrow> 64 word" where
  "backoffDelay attempts base cap =
     (let delay = go_double 2 attempts base in if sint delay > sint cap then cap else delay)"

definition readTaskForJournal :: "string \<Rightarrow> world \<Rightarrow> task_meta option \<times> world" where
  "readTaskForJournal i w =
     (case on_db (run (get_task i)) w of
        (Inr (Some (Body tm)), w1) \<Rightarrow> (Some tm, w1)
      | (_, w1) \<Rightarrow> (None, w1))"

definition reportRetry :: "pool \<Rightarrow> (nat \<Rightarrow> int) \<Rightarrow> string \<Rightarrow> world \<Rightarrow> world" where
  "reportRetry wp clk i w =
     (case readTaskForJournal i w of
        (None, w1) \<Rightarrow> w1
      | (Some tm, w1) \<Rightarrow>
          (case now_of clk w1 of (now, w2) \<Rightarrow>
             snd (on_pg (pg_Retrying i (tm_attempts tm)
               (now + sint (backoffDelay (tm_attempts tm) (word_of_int (wp_backoffBase wp)) (word_of_int (wp_backoffCap wp))) div 1000)) w2)))"

definition reportDead :: "string \<Rightarrow> world \<Rightarrow> world" where
  "reportDead i w =
     (case readTaskForJournal i w of
        (None, w1) \<Rightarrow> w1
      | (Some tm, w1) \<Rightarrow> snd (on_pg (pg_Dead i (tm_attempts tm)) w1))"

text \<open>The switch on the status, shared by the worker and the recovery loop.\<close>

definition report :: "pool \<Rightarrow> (nat \<Rightarrow> int) \<Rightarrow> string \<Rightarrow> rq_status \<Rightarrow> world \<Rightarrow> world" where
  "report wp clk i st w =
     (case st of
        RqScheduled \<Rightarrow> reportRetry wp clk i w
      | RqDead \<Rightarrow>
          (case now_of clk (reportDead i w) of (now, w1) \<Rightarrow>
             snd (on_db (run (\<lambda>r. ((), r\<lparr>rd_failed := zadd i (unix_score now) (rd_failed r)\<rparr>))) w1))
      | _ \<Rightarrow> w)"

section \<open>The recovery loop\<close>

fun recover_each :: "pool \<Rightarrow> (nat \<Rightarrow> int) \<Rightarrow> string list \<Rightarrow> world \<Rightarrow> world" where
  "recover_each wp clk [] w = w"
| "recover_each wp clk (i # is) w =
     (case now_of clk w of (now, w1) \<Rightarrow>
        (case on_db (requeueOrDead wp now i []) w1 of
           (Inl e, w2) \<Rightarrow> recover_each wp clk is w2
         | (Inr st, w2) \<Rightarrow> recover_each wp clk is (report wp clk i st w2)))"

definition recovery_tick :: "pool \<Rightarrow> (nat \<Rightarrow> int) \<Rightarrow> world \<Rightarrow> world" where
  "recovery_tick wp clk w =
     (case now_of clk w of (now, w1) \<Rightarrow>
        (case on_db (findExpiredTasks now) w1 of
           (Inl e, w2) \<Rightarrow> w2
         | (Inr is, w2) \<Rightarrow> recover_each wp clk is w2))"

section \<open>The worker loop\<close>

text \<open>\<open>outcome c\<close>: whether the handler of the claim returns without an error.\<close>

fun process_claims ::
  "pool \<Rightarrow> (nat \<Rightarrow> int) \<Rightarrow> (string \<Rightarrow> bool) \<Rightarrow> (task_claim \<Rightarrow> bool) \<Rightarrow> task_claim list \<Rightarrow> (string \<times> string) list \<Rightarrow> world
     \<Rightarrow> (string \<times> string) list \<times> world" where
  "process_claims wp clk registered outcome [] acks w = (acks, w)"
| "process_claims wp clk registered outcome (c # cs) acks w =
     (if tc_id c = [] then process_claims wp clk registered outcome cs acks w
      else
        (case tc_body c of
           Some (Body tm) \<Rightarrow>
             if \<not> registered (tm_type tm) then process_claims wp clk registered outcome cs acks w
             else
               (case snd (on_pg (pg_Processing (tc_id c)) w) of w1 \<Rightarrow>
                  if outcome c then process_claims wp clk registered outcome cs (acks @ [(tc_id c, tc_lease c)]) w1
                  else
                    (case now_of clk w1 of (now, w2) \<Rightarrow>
                       (case on_db (requeueOrDead wp now (tm_id tm) (tc_lease c)) w2 of
                          (Inl e, w3) \<Rightarrow> process_claims wp clk registered outcome cs acks w3
                        | (Inr st, w3) \<Rightarrow> process_claims wp clk registered outcome cs acks (report wp clk (tm_id tm) st w3))))
         | _ \<Rightarrow> process_claims wp clk registered outcome cs acks w))"

fun record_acked :: "int \<Rightarrow> string list \<Rightarrow> world \<Rightarrow> world" where
  "record_acked now [] w = w"
| "record_acked now (i # is) w =
     record_acked now is
       (snd (on_db (run (\<lambda>r. ((), r\<lparr>rd_completed := zadd i (unix_score now) (rd_completed r)\<rparr>)))
          (snd (on_pg (pg_Succeeded i) w))))"

definition finish_batch :: "(nat \<Rightarrow> int) \<Rightarrow> (string \<times> string) list \<Rightarrow> world \<Rightarrow> world" where
  "finish_batch clk acks w =
     (if acks = [] then w
      else
        (case on_db (ackBatch acks) w of
           (Inl e, w1) \<Rightarrow> w1
         | (Inr ids, w1) \<Rightarrow> (case now_of clk w1 of (now, w2) \<Rightarrow> record_acked now ids w2)))"

text \<open>One iteration of \<open>workerLoop\<close>; a failed claim has no claims and is handled like an empty queue.\<close>

definition work_iteration ::
  "pool \<Rightarrow> (nat \<Rightarrow> int) \<Rightarrow> (nat \<Rightarrow> string) \<Rightarrow> (string \<Rightarrow> bool) \<Rightarrow> (task_claim \<Rightarrow> bool) \<Rightarrow> world \<Rightarrow> world" where
  "work_iteration wp clk uuid registered outcome w =
     (case now_of clk w of (now, w1) \<Rightarrow>
        (case on_db (claimBatch wp now uuid) w1 of
           (Inl e, w2) \<Rightarrow> w2
         | (Inr cs, w2) \<Rightarrow>
             if cs = [] then w2
             else
               let claimedIDs = filter (\<lambda>i. i \<noteq> []) (map tc_id cs);
                   w3 = snd (on_db (markLeases wp claimedIDs) w2)
               in
                 (case process_claims wp clk registered outcome cs [] w3 of
                    (acks, w4) \<Rightarrow> snd (on_db (clearLeases wp claimedIDs) (finish_batch clk acks w4)))))"

section \<open>The gateway\<close>

definition stored_meta :: "string \<Rightarrow> string \<Rightarrow> json \<Rightarrow> int \<Rightarrow> task_meta" where
  "stored_meta i taskType payload maxRetries =
     \<lparr>tm_id = i, tm_type = taskType, tm_payload = payload, tm_max = maxRetries, tm_attempts = 0\<rparr>"

text \<open>Journal, body, queue, journal; the first error ends it.\<close>

definition enqueue_steps ::
  "int \<Rightarrow> durable_task \<Rightarrow> body \<Rightarrow> unit cmd \<Rightarrow> (nat \<Rightarrow> int) \<Rightarrow> world \<Rightarrow> (string + unit) \<times> world" where
  "enqueue_steps created t b queue clk w =
     (case on_pg (pg_Enqueue created t) w of
        (Inl e, w1) \<Rightarrow> (Inl e, w1)
      | (Inr _, w1) \<Rightarrow>
          (case on_db (run (set_task (dt_id t) b)) w1 of
             (Inl e, w2) \<Rightarrow> (Inl e, w2)
           | (Inr _, w2) \<Rightarrow>
               (case on_db (run queue) w2 of
                  (Inl e, w3) \<Rightarrow> (Inl e, w3)
                | (Inr _, w3) \<Rightarrow>
                    (case on_pg (pg_Materialized (dt_id t)) w3 of
                       (Inl e, w4) \<Rightarrow> (Inl e, w4)
                     | (Inr _, w4) \<Rightarrow>
                         (case now_of clk w4 of (now, w5) \<Rightarrow>
                            (Inr (), snd (on_db (run (\<lambda>r. ((), r\<lparr>rd_enqueued := zadd (dt_id t) (unix_score now) (rd_enqueued r)\<rparr>))) w5)))))))"

definition RouteTask ::
  "(nat \<Rightarrow> int) \<Rightarrow> string \<Rightarrow> string \<Rightarrow> json \<Rightarrow> int \<Rightarrow> int \<Rightarrow> world \<Rightarrow> (string + unit) \<times> world" where
  "RouteTask clk i taskType payload maxRetries delaySeconds w =
     (let b = Body (stored_meta i taskType payload maxRetries);
          t = \<lparr>dt_id = i, dt_type = taskType, dt_payload = b, dt_max = maxRetries, dt_attempts = 0, dt_state = StateEnqueued,
               dt_schedule = None\<rparr>
      in case now_of clk w of (now, w1) \<Rightarrow>
           if delaySeconds > 0 then
             (let target = unix_score now + 1000000 * delaySeconds in
              enqueue_steps now (t\<lparr>dt_schedule := Some target\<rparr>) b
                (\<lambda>r. ((), r\<lparr>rd_scheduled := zadd i target (rd_scheduled r)\<rparr>)) clk w1)
           else enqueue_steps now t b (lpush_immediate i) clk w1)"

datatype grpc_code = InvalidArgument | Internal | Unauthenticated | PermissionDenied

definition EnqueueTask ::
  "(nat \<Rightarrow> int) \<Rightarrow> string \<Rightarrow> string \<Rightarrow> json \<Rightarrow> int \<Rightarrow> int \<Rightarrow> world \<Rightarrow> (grpc_code + string) \<times> world" where
  "EnqueueTask clk uuid taskType payload maxRetries delaySeconds w =
     (if taskType = [] then (Inl InvalidArgument, w)
      else
        (case RouteTask clk uuid taskType payload maxRetries delaySeconds w of
           (Inl e, w1) \<Rightarrow> (Inl Internal, w1)
         | (Inr _, w1) \<Rightarrow> (Inr uuid, w1)))"

section \<open>An iteration is a run of the engine\<close>

abbreviation redis_of :: "world \<Rightarrow> redis" where
  "redis_of w \<equiv> fst (wo_db w)"

lemma redis_of_now [simp]: "redis_of (snd (now_of clk w)) = redis_of w"
  by (simp add: now_of_def)

lemma redis_of_pg [simp]: "redis_of (snd (on_pg f w)) = redis_of w"
  by (simp add: on_pg_def split: option.splits prod.splits)

text \<open>A command on the world has its effect, or the connection is lost with or without it.\<close>

lemma on_db_run:
  obtains (ok) w' where "on_db (run f) w = (Inr (fst (f (redis_of w))), w')" "redis_of w' = snd (f (redis_of w))"
  | (lost) e w' where "on_db (run f) w = (Inl e, w')" "redis_of w' = redis_of w \<or> redis_of w' = snd (f (redis_of w))"
proof (rule run_cases [of f "redis_of w" "snd (wo_db w)"])
  fix l' assume "run f (redis_of w, snd (wo_db w)) = (Inr (fst (f (redis_of w))), (snd (f (redis_of w)), l'))"
  then show thesis by (intro ok) (auto simp: on_db_def)
next
  fix e r' l' assume "run f (redis_of w, snd (wo_db w)) = (Inl e, (r', l'))" "r' = redis_of w \<or> r' = snd (f (redis_of w))"
  then show thesis by (intro lost) (auto simp: on_db_def)
qed

lemma on_db_core:
  assumes "\<And>r. core (snd (f r)) = core r"
  shows "core (redis_of (snd (on_db (run f) w))) = core (redis_of w)"
  by (rule on_db_run [of f w]) (use assms in auto)

lemma read_core: "core (redis_of (snd (readTaskForJournal i w))) = core (redis_of w)"
proof -
  have "snd (readTaskForJournal i w) = snd (on_db (run (get_task i)) w)"
    by (auto simp: readTaskForJournal_def split: sum.splits option.splits body.splits prod.splits)
  then show ?thesis by (simp add: on_db_core get_task_def)
qed

lemma reportRetry_core: "core (redis_of (reportRetry wp clk i w)) = core (redis_of w)"
  using read_core [of i w]
  by (auto simp: reportRetry_def split_beta split: prod.splits option.splits)

lemma reportDead_core: "core (redis_of (reportDead i w)) = core (redis_of w)"
  using read_core [of i w] by (auto simp: reportDead_def split: prod.splits option.splits)

lemma report_core: "core (redis_of (report wp clk i st w)) = core (redis_of w)"
proof (cases st)
  case RqDead
  let ?f = "\<lambda>now r. ((), r\<lparr>rd_failed := zadd i (unix_score now) (rd_failed r)\<rparr>)"
  have "core (redis_of (snd (on_db (run (?f now)) w'))) = core (redis_of w')" for now w'
    by (rule on_db_core) (simp add: core_def)
  then show ?thesis
    using RqDead by (simp add: report_def split_beta reportDead_core)
qed (simp_all add: report_def reportRetry_core)

lemma record_acked_core: "core (redis_of (record_acked now is w)) = core (redis_of w)"
proof (induction "is" arbitrary: w)
  case (Cons i "is")
  let ?f = "\<lambda>r. ((), r\<lparr>rd_completed := zadd i (unix_score now) (rd_completed r)\<rparr>)"
  have "core (redis_of (snd (on_db (run ?f) w'))) = core (redis_of w')" for w'
    by (rule on_db_core) (simp add: core_def)
  with Cons show ?case by simp
qed simp

lemma run_core:
  assumes "\<And>r. core (snd (f r)) = core r"
  shows "core (fst (snd (run f d))) = core (fst d)"
  by (rule run_cases [of f "fst d" "snd d"]) (use assms in auto)

lemma leases_core:
  "core (redis_of (snd (on_db (markLeases wp ids) w))) = core (redis_of w)"
  "core (redis_of (snd (on_db (clearLeases wp ids) w))) = core (redis_of w)"
proof -
  have u: "core (fst (snd (run (\<lambda>r. ((), r\<lparr>rd_wleases := g r\<rparr>)) d))) = core (fst d)" for g d
    by (rule run_core) (simp add: core_def)
  show "core (redis_of (snd (on_db (markLeases wp ids) w))) = core (redis_of w)"
    by (simp add: on_db_def markLeases_def u)
  show "core (redis_of (snd (on_db (clearLeases wp ids) w))) = core (redis_of w)"
    by (simp add: on_db_def clearLeases_def u)
qed

text \<open>The engine follows a worker: same database, same local state.\<close>

definition tracks :: "nat \<Rightarrow> engine \<Rightarrow> world \<Rightarrow> task_claim list \<Rightarrow> (string \<times> string) list \<Rightarrow> bool" where
  "tracks k s w cs acks \<longleftrightarrow> en_redis s = redis_of w \<and> ws_todo (en_workers s k) = cs \<and> ws_acks (en_workers s k) = acks"

lemma follow_book:
  assumes "tracks k s w cs acks" and "core (redis_of w') = core (redis_of w)"
  shows "\<exists>s'. qstep s s' \<and> tracks k s' w' cs acks"
  using qstep.book [of "redis_of w'" s] assms by (force simp: tracks_def)

text \<open>The retry of a failed claim with its report; without an answer the worker goes on to the next claim.\<close>

lemma follow_failure:
  assumes "tracks k s w (c # cs) acks" and "\<not> unusable registered c" and "tc_body c = Some (Body tm)"
    and "redis_of w2 = redis_of w" and "on_db (requeueOrDead wp now (tm_id tm) (tc_lease c)) w2 = (res, w3)"
  shows "\<exists>s'. qstep\<^sup>*\<^sup>* s s' \<and> tracks k s' (case res of Inl e \<Rightarrow> w3 | Inr st \<Rightarrow> report wp clk (tm_id tm) st w3) cs acks"
proof -
  note todo = assms(1) [unfolded tracks_def]
  let ?q = "requeue_script (micros (wp_backoffBase wp)) (micros (wp_backoffCap wp)) now (tm_id tm) (tc_lease c)"
  from assms(5) have q: "on_db (run ?q) w2 = (res, w3)" by (simp add: requeueOrDead_def)
  show ?thesis
  proof (rule on_db_run [of ?q w2])
    fix w' assume "on_db (run ?q) w2 = (Inr (fst (?q (redis_of w2))), w')" "redis_of w' = snd (?q (redis_of w2))"
    with q have r: "res = Inr (fst (?q (redis_of w2)))" "redis_of w3 = snd (?q (redis_of w2))" by auto
    obtain s1 where s1: "qstep s s1" "tracks k s1 w3 cs acks"
      using qstep.fail [of s k c cs registered tm _ _ now "fst (?q (redis_of w2))" "redis_of w3"] todo assms(2,3) r(2) assms(4)
      by (force simp: tracks_def)
    from follow_book [OF s1(2) report_core] obtain s2
      where "qstep s1 s2" "tracks k s2 (report wp clk (tm_id tm) (fst (?q (redis_of w2))) w3) cs acks" by blast
    with s1(1) r(1) show ?thesis by (intro exI [of _ s2]) auto
  next
    fix e w' assume "on_db (run ?q) w2 = (Inl e, w')" "redis_of w' = redis_of w2 \<or> redis_of w' = snd (?q (redis_of w2))"
    with q have r: "res = Inl e" "redis_of w3 = redis_of w2 \<or> redis_of w3 = snd (?q (redis_of w2))" by auto
    from qstep.fail_lost [of s k c cs registered tm "redis_of w3"] todo assms(2,3) r(2) assms(4)
    have "qstep\<^sup>*\<^sup>* s (with_worker k ((en_workers s k)\<lparr>ws_todo := cs\<rparr>) s\<lparr>en_redis := redis_of w3\<rparr>)" by auto
    moreover have "tracks k (with_worker k ((en_workers s k)\<lparr>ws_todo := cs\<rparr>) s\<lparr>en_redis := redis_of w3\<rparr>) w3 cs acks"
      using todo by (simp add: tracks_def)
    ultimately show ?thesis using r(1) by auto
  qed
qed

lemma follow_claims:
  assumes "process_claims wp clk registered outcome cs acks w = (acks', w')" and "tracks k s w cs acks"
  shows "\<exists>s'. qstep\<^sup>*\<^sup>* s s' \<and> tracks k s' w' [] acks'"
  using assms
proof (induction cs arbitrary: acks w s)
  case (Cons c cs)
  note todo = Cons.prems(2) [unfolded tracks_def]
  have go: ?case if "qstep\<^sup>*\<^sup>* s t" "tracks k t v cs b" "process_claims wp clk registered outcome cs b v = (acks', w')" for t v b
    using Cons.IH [OF that(3,2)] that(1) by (meson rtranclp_trans)
  show ?case
  proof (cases "unusable registered c")
    case True
    from qstep.skip [of s k c cs registered] todo True
    have "qstep\<^sup>*\<^sup>* s (with_worker k ((en_workers s k)\<lparr>ws_todo := cs, ws_beats := stop_task (tc_id c) (ws_beats (en_workers s k))\<rparr>) s)"
      by simp
    then show ?thesis
      by (rule go [where v = w and b = acks])
        (use True Cons.prems in \<open>auto simp: tracks_def unusable_def split: option.splits body.splits if_splits\<close>)
  next
    case False
    then obtain tm where tm: "tc_id c \<noteq> []" "tc_body c = Some (Body tm)" "registered (tm_type tm)"
      by (auto simp: unusable_def split: option.splits body.splits)
    let ?w1 = "snd (on_pg (pg_Processing (tc_id c)) w)"
    show ?thesis
    proof (cases "outcome c")
      case True
      from qstep.succeed [of s k c cs registered] todo False
      have "qstep\<^sup>*\<^sup>* s (with_worker k ((en_workers s k)\<lparr>ws_todo := cs, ws_acks := ws_acks (en_workers s k) @ [(tc_id c, tc_lease c)]\<rparr>) s)"
        by simp
      then show ?thesis
        by (rule go [where v = ?w1 and b = "acks @ [(tc_id c, tc_lease c)]"])
          (use True tm Cons.prems in \<open>auto simp: tracks_def\<close>)
    next
      case bad: False
      obtain now w2 where now: "now_of clk ?w1 = (now, w2)" and w2: "redis_of w2 = redis_of w"
        by (metis redis_of_now redis_of_pg snd_conv surj_pair)
      obtain res w3 where r: "on_db (requeueOrDead wp now (tm_id tm) (tc_lease c)) w2 = (res, w3)" by fastforce
      from follow_failure [OF Cons.prems(2) False tm(2) w2 r] obtain t
        where "qstep\<^sup>*\<^sup>* s t" "tracks k t (case res of Inl e \<Rightarrow> w3 | Inr st \<Rightarrow> report wp clk (tm_id tm) st w3) cs acks" by blast
      then show ?thesis
        by (rule go) (use Cons.prems(1) tm bad now r in \<open>auto split: sum.splits\<close>)
    qed
  qed
qed auto

text \<open>The acknowledgement ends the batch; without anything to acknowledge, or without an answer, the worker just starts over.\<close>

lemma follow_finish:
  assumes "tracks k s w [] acks"
  shows "\<exists>s'. qstep\<^sup>*\<^sup>* s s' \<and> tracks k s' (finish_batch clk acks w) [] [] \<and> en_workers s' k = idle"
proof -
  note same = assms [unfolded tracks_def]
  have over: "qstep\<^sup>*\<^sup>* s (with_worker k idle s)" using qstep.crash by blast
  have acked: "qstep\<^sup>*\<^sup>* s (with_worker k idle s\<lparr>en_redis := snd (ack_script acks (redis_of w)), en_acked := en_acked s @ fst (ack_script acks (redis_of w))\<rparr>)"
    using qstep.ack [of s k] same by (auto intro!: r_into_rtranclp)
  show ?thesis
  proof (cases "acks = []")
    case True
    with over same show ?thesis by (intro exI [of _ "with_worker k idle s"]) (auto simp: tracks_def idle_def finish_batch_def)
  next
    case False
    show ?thesis
    proof (rule on_db_run [of "ack_script acks" w])
      fix w1 assume r: "on_db (run (ack_script acks)) w = (Inr (fst (ack_script acks (redis_of w))), w1)" "redis_of w1 = snd (ack_script acks (redis_of w))"
      let ?s1 = "with_worker k idle s\<lparr>en_redis := snd (ack_script acks (redis_of w)), en_acked := en_acked s @ fst (ack_script acks (redis_of w))\<rparr>"
      have "core (redis_of (finish_batch clk acks w)) = core (redis_of w1)"
        using False r(1) by (simp add: finish_batch_def ackBatch_def split_beta record_acked_core)
      with qstep.book [of "redis_of (finish_batch clk acks w)" ?s1] r(2)
      have "qstep ?s1 (?s1\<lparr>en_redis := redis_of (finish_batch clk acks w)\<rparr>)" by simp
      with acked have "qstep\<^sup>*\<^sup>* s (?s1\<lparr>en_redis := redis_of (finish_batch clk acks w)\<rparr>)" by (rule rtranclp.rtrancl_into_rtrancl)
      then show ?thesis by (intro exI conjI) (auto simp: tracks_def idle_def)
    next
      fix e w1 assume r: "on_db (run (ack_script acks)) w = (Inl e, w1)" "redis_of w1 = redis_of w \<or> redis_of w1 = snd (ack_script acks (redis_of w))"
      have w1: "finish_batch clk acks w = w1" using False r(1) by (simp add: finish_batch_def ackBatch_def)
      from r(2) show ?thesis
      proof
        assume "redis_of w1 = redis_of w"
        with over same w1 show ?thesis by (intro exI [of _ "with_worker k idle s"]) (auto simp: tracks_def idle_def)
      next
        assume "redis_of w1 = snd (ack_script acks (redis_of w))"
        with acked w1 show ?thesis by (intro exI conjI) (auto simp: tracks_def idle_def)
      qed
    qed
  qed
qed

lemma follow_iteration:
  assumes "en_redis s = redis_of w" and "en_workers s k = idle" and "distinct (map uuid [0..<batch_of wp])"
    and "set (map uuid [0..<batch_of wp]) \<inter> en_issued s = {}" and "[] \<notin> set (map uuid [0..<batch_of wp])"
  shows "\<exists>s'. qstep\<^sup>*\<^sup>* s s' \<and> en_redis s' = redis_of (work_iteration wp clk uuid registered outcome w) \<and> en_workers s' k = idle"
proof -
  let ?ls = "map uuid [0..<batch_of wp]"
  obtain now w1 where now: "now_of clk w = (now, w1)" and w1: "redis_of w1 = redis_of w"
    by (metis redis_of_now snd_conv surj_pair)
  let ?q = "claim_script (now + micros (wp_leaseDuration wp)) ?ls"
  obtain its r1 where q: "?q (en_redis s) = (its, r1)" by fastforce
  let ?cs = "claims_of ?ls its"
  let ?s1 = "with_worker k \<lparr>ws_todo = ?cs, ws_acks = [], ws_beats = map (\<lambda>c. (tc_id c, tc_lease c)) ?cs\<rparr> s
    \<lparr>en_redis := r1, en_issued := en_issued s \<union> set ?ls\<rparr>"
  have s1: "qstep s ?s1" by (rule qstep.claim [OF assms(2-5) q])
  have undo: "qstep\<^sup>*\<^sup>* s (with_worker k idle ?s1)" using s1 qstep.crash by (meson r_into_rtranclp rtranclp.rtrancl_into_rtrancl)
  have cb: "on_db (claimBatch wp now uuid) w1 = (case on_db (run ?q) w1 of (Inl e, w2) \<Rightarrow> (Inl e, w2) | (Inr is, w2) \<Rightarrow> (Inr (claims_of ?ls is), w2))"
    by (simp add: on_db_def claimBatch_def claims_of_def split: prod.splits sum.splits)
  show ?thesis
  proof (rule on_db_run [of ?q w1])
    fix w2 assume "on_db (run ?q) w1 = (Inr (fst (?q (redis_of w1))), w2)" "redis_of w2 = snd (?q (redis_of w1))"
    with cb q w1 assms(1) have r: "on_db (claimBatch wp now uuid) w1 = (Inr ?cs, w2)" "redis_of w2 = r1" by simp_all
    show ?thesis
    proof (cases "?cs = []")
      case True
      with now r have "work_iteration wp clk uuid registered outcome w = w2" by (simp add: work_iteration_def)
      with undo r(2) show ?thesis by (intro exI conjI) auto
    next
      case False
      let ?ids = "filter (\<lambda>i. i \<noteq> []) (map tc_id ?cs)"
      let ?w3 = "snd (on_db (markLeases wp ?ids) w2)"
      obtain acks w4 where p: "process_claims wp clk registered outcome ?cs [] ?w3 = (acks, w4)" by fastforce
      have it: "work_iteration wp clk uuid registered outcome w = snd (on_db (clearLeases wp ?ids) (finish_batch clk acks w4))"
        using False now r(1) p by (simp add: work_iteration_def Let_def)
      have "tracks k ?s1 w2 ?cs []" using r(2) by (simp add: tracks_def)
      from follow_book [OF this leases_core(1)] obtain s2 where s2: "qstep ?s1 s2" "tracks k s2 ?w3 ?cs []" by blast
      from follow_claims [OF p s2(2)] obtain s3 where s3: "qstep\<^sup>*\<^sup>* s2 s3" "tracks k s3 w4 [] acks" by blast
      from follow_finish [OF s3(2)] obtain s4 where s4: "qstep\<^sup>*\<^sup>* s3 s4" "tracks k s4 (finish_batch clk acks w4) [] []"
        "en_workers s4 k = idle" by blast
      let ?s5 = "s4\<lparr>en_redis := redis_of (work_iteration wp clk uuid registered outcome w)\<rparr>"
      have "qstep s4 ?s5" using s4(2) by (intro qstep.book) (simp add: it leases_core tracks_def)
      with s1 s2(1) s3(1) s4(1) have "qstep\<^sup>*\<^sup>* s ?s5"
        by (meson converse_rtranclp_into_rtranclp rtranclp.rtrancl_into_rtrancl rtranclp_trans)
      then show ?thesis using s4(3) by (intro exI [of _ ?s5]) simp
    qed
  next
    fix e w2 assume "on_db (run ?q) w1 = (Inl e, w2)" "redis_of w2 = redis_of w1 \<or> redis_of w2 = snd (?q (redis_of w1))"
    with cb q w1 assms(1) now
    have "work_iteration wp clk uuid registered outcome w = w2" "redis_of w2 = en_redis s \<or> redis_of w2 = r1"
      by (auto simp: work_iteration_def)
    then show ?thesis using exI [of _ s] exI [of _ "with_worker k idle ?s1"] undo assms(2) by fastforce
  qed
qed

text \<open>Recovery, promotion and the gateway, likewise.\<close>

lemma follow_lost: "qstep s (s\<lparr>en_redis := r\<rparr>) \<Longrightarrow> r' = en_redis s \<or> r' = r \<Longrightarrow> qstep\<^sup>*\<^sup>* s (s\<lparr>en_redis := r'\<rparr>)"
  by auto

lemma follow_recover_each: "en_redis s = redis_of w \<Longrightarrow>
    \<exists>s'. qstep\<^sup>*\<^sup>* s s' \<and> en_redis s' = redis_of (recover_each wp clk is w)"
proof (induction "is" arbitrary: w s)
  case (Cons i "is")
  obtain now w1 where now: "now_of clk w = (now, w1)" and w1: "redis_of w1 = redis_of w"
    by (metis redis_of_now snd_conv surj_pair)
  let ?q = "requeue_script (micros (wp_backoffBase wp)) (micros (wp_backoffCap wp)) now i []"
  let ?s1 = "s\<lparr>en_redis := snd (?q (en_redis s))\<rparr>"
  have s1: "qstep s ?s1" by (rule qstep.recover [where st = "fst (?q (en_redis s))"]) simp
  show ?case
  proof (rule on_db_run [of ?q w1])
    fix w2 assume r: "on_db (run ?q) w1 = (Inr (fst (?q (redis_of w1))), w2)" "redis_of w2 = snd (?q (redis_of w1))"
    let ?w3 = "report wp clk i (fst (?q (redis_of w1))) w2"
    have "qstep ?s1 (?s1\<lparr>en_redis := redis_of ?w3\<rparr>)"
      using r(2) w1 Cons.prems by (intro qstep.book) (simp add: report_core)
    moreover obtain s' where "qstep\<^sup>*\<^sup>* (?s1\<lparr>en_redis := redis_of ?w3\<rparr>) s'" "en_redis s' = redis_of (recover_each wp clk is ?w3)"
      using Cons.IH by force
    moreover have "recover_each wp clk (i # is) w = recover_each wp clk is ?w3"
      using now r(1) by (simp add: requeueOrDead_def)
    ultimately show ?thesis using s1 by (metis converse_rtranclp_into_rtranclp)
  next
    fix e w2 assume r: "on_db (run ?q) w1 = (Inl e, w2)" "redis_of w2 = redis_of w1 \<or> redis_of w2 = snd (?q (redis_of w1))"
    with follow_lost [OF s1, of "redis_of w2"] w1 Cons.prems have "qstep\<^sup>*\<^sup>* s (s\<lparr>en_redis := redis_of w2\<rparr>)" by simp
    moreover obtain s' where "qstep\<^sup>*\<^sup>* (s\<lparr>en_redis := redis_of w2\<rparr>) s'" "en_redis s' = redis_of (recover_each wp clk is w2)"
      using Cons.IH by force
    moreover have "recover_each wp clk (i # is) w = recover_each wp clk is w2"
      using now r(1) by (simp add: requeueOrDead_def)
    ultimately show ?thesis by (metis rtranclp_trans)
  qed
qed auto

lemma follow_recovery:
  assumes "en_redis s = redis_of w"
  shows "\<exists>s'. qstep\<^sup>*\<^sup>* s s' \<and> en_redis s' = redis_of (recovery_tick wp clk w)"
proof -
  obtain now w1 where now: "now_of clk w = (now, w1)" and w1: "redis_of w1 = redis_of w"
    by (metis redis_of_now snd_conv surj_pair)
  show ?thesis
    by (rule on_db_run [of "\<lambda>r. (zrange_upto now (rd_inflight r), r)" w1])
      (use follow_recover_each assms w1 now in \<open>auto simp: recovery_tick_def findExpiredTasks_def\<close>)
qed

lemma follow_promote_each: "en_redis s = fst d \<Longrightarrow> \<exists>s'. qstep\<^sup>*\<^sup>* s s' \<and> en_redis s' = fst (promote_each clock is d)"
proof (induction "is" arbitrary: d s clock)
  case (Cons i "is")
  let ?q = "promote_script (clock 0) i"
  have s1: "qstep s (s\<lparr>en_redis := snd (?q (fst d))\<rparr>)"
    using Cons.prems by (intro qstep.promote [where ok = "fst (?q (fst d))"]) simp
  have "fst (snd (run ?q d)) = fst d \<or> fst (snd (run ?q d)) = snd (?q (fst d))"
    by (rule run_cases [of ?q "fst d" "snd d"]) auto
  with follow_lost [OF s1] Cons.prems have "qstep\<^sup>*\<^sup>* s (s\<lparr>en_redis := fst (snd (promoteTask (clock 0) i d))\<rparr>)"
    by (simp add: promoteTask_def)
  moreover obtain s' where "qstep\<^sup>*\<^sup>* (s\<lparr>en_redis := fst (snd (promoteTask (clock 0) i d))\<rparr>) s'"
      "en_redis s' = fst (promote_each (\<lambda>n. clock (Suc n)) is (snd (promoteTask (clock 0) i d)))"
    using Cons.IH [of "s\<lparr>en_redis := fst (snd (promoteTask (clock 0) i d))\<rparr>" "snd (promoteTask (clock 0) i d)" "\<lambda>n. clock (Suc n)"]
    by auto
  ultimately show ?case by (metis promote_each.simps(2) rtranclp_trans)
qed auto

lemma follow_promotion:
  assumes "en_redis s = fst d"
  shows "\<exists>s'. qstep\<^sup>*\<^sup>* s s' \<and> en_redis s' = fst (promotion_tick now clock d)"
  by (rule run_cases [of "\<lambda>r. (zrange_upto now (rd_scheduled r), r)" "fst d" "snd d"])
    (use follow_promote_each assms in \<open>auto simp: promotion_tick_def findDueTasks_def\<close>)

lemma follow_beat:
  assumes "en_redis s = fst d" and "(i, l) \<in> set (ws_beats (en_workers s k))"
  shows "\<exists>s'. qstep\<^sup>*\<^sup>* s s' \<and> en_redis s' = fst (snd (heartbeat_tick wp now stopped i l d))"
proof -
  let ?q = "beat_script (micros (wp_leaseDuration wp)) now i l"
  have "fst (snd (run ?q d)) = fst d \<or> fst (snd (run ?q d)) = snd (?q (fst d))"
    by (rule run_cases [of ?q "fst d" "snd d"]) auto
  moreover have "snd (heartbeat_tick wp now stopped i l d) = snd (run ?q d)"
    by (simp add: heartbeat_tick_def heartbeat_def split: prod.splits sum.splits)
  moreover have "qstep s (s\<lparr>en_redis := snd (?q (fst d))\<rparr>)"
    using assms by (intro qstep.beat [where ok = "fst (?q (fst d))"]) auto
  ultimately show ?thesis
    using assms(1) follow_lost [of s "snd (?q (fst d))" "fst (snd (run ?q d))"]
    by (intro exI [of _ "s\<lparr>en_redis := fst (snd (run ?q d))\<rparr>"]) auto
qed

text \<open>\<open>queued i queue\<close>: the command by which the gateway queues a staged task.\<close>

definition queued :: "string \<Rightarrow> unit cmd \<Rightarrow> bool" where
  "queued i queue \<longleftrightarrow> (\<forall>s. i \<in> en_staged s \<longrightarrow> qstep s (s\<lparr>en_redis := snd (queue (en_redis s)), en_staged := en_staged s - {i},
     en_accepted := i # en_accepted s\<rparr>))"

lemma queued_push: "queued i (lpush_immediate i)"
  by (simp add: queued_def qstep.push)

lemma queued_schedule: "queued i (\<lambda>r. ((), r\<lparr>rd_scheduled := zadd i t (rd_scheduled r)\<rparr>))"
  by (simp add: queued_def qstep.schedule)

text \<open>
  How far an enqueue gets: not into the journal, or into the journal and then through none, one or both of
  the commands on Redis.
\<close>

lemma enqueue_cases:
  assumes "enqueue_steps created t b queue clk w = (res, w')"
  obtains (refused) e where "on_pg (pg_Enqueue created t) w = (Inl e, w')" "res = Inl e"
  | (journalled) w1 where "on_pg (pg_Enqueue created t) w = (Inr (), w1)"
      "wo_pg w' = wo_pg w1 \<or> wo_pg w' = wo_pg (snd (on_pg (pg_Materialized (dt_id t)) w1))"
      "core (redis_of w') = core (snd (queue (snd (set_task (dt_id t) b (redis_of w)))))
        \<or> res \<noteq> Inr () \<and> core (redis_of w') \<in> {core (redis_of w), core (snd (set_task (dt_id t) b (redis_of w)))}"
proof -
  let ?i = "dt_id t"
  obtain x w1 where pg: "on_pg (pg_Enqueue created t) w = (x, w1)" and w1: "redis_of w1 = redis_of w"
    by (metis redis_of_pg snd_conv surj_pair)
  have keep: "wo_pg (snd (on_db f v)) = wo_pg v" for f :: "db \<Rightarrow> 'a \<times> db" and v
    by (simp add: on_db_def split: prod.splits)
  have keep': "wo_pg v' = wo_pg v" if "on_db f v = (y, v')" for f :: "db \<Rightarrow> 'a \<times> db" and v y v'
    using keep [of f v] that by simp
  have pgcong: "wo_pg (snd (on_pg f v)) = wo_pg (snd (on_pg f v'))" if "wo_pg v = wo_pg v'" for f v v'
    using that by (simp add: on_pg_def split: option.splits prod.splits)
  show thesis
  proof (cases x)
    case (Inl e)
    with assms pg show thesis by (intro refused [of e]) (auto simp: enqueue_steps_def)
  next
    case (Inr u)
    with pg have pg1: "on_pg (pg_Enqueue created t) w = (Inr (), w1)" by simp
    note unfold = assms [unfolded enqueue_steps_def pg1, simplified]
    show thesis
    proof (rule on_db_run [of "set_task ?i b" w1])
      fix e w2 assume r: "on_db (run (set_task ?i b)) w1 = (Inl e, w2)" "redis_of w2 = redis_of w1 \<or> redis_of w2 = snd (set_task ?i b (redis_of w1))"
      with unfold have "res = Inl e" "w' = w2" by auto
      with r w1 show thesis by (intro journalled [OF pg1]) (auto dest: keep')
    next
      fix w2 assume r2: "on_db (run (set_task ?i b)) w1 = (Inr (fst (set_task ?i b (redis_of w1))), w2)" "redis_of w2 = snd (set_task ?i b (redis_of w1))"
      show thesis
      proof (rule on_db_run [of queue w2])
        fix e w3 assume r: "on_db (run queue) w2 = (Inl e, w3)" "redis_of w3 = redis_of w2 \<or> redis_of w3 = snd (queue (redis_of w2))"
        with unfold r2(1) have "res = Inl e" "w' = w3" by auto
        with r r2 w1 show thesis by (intro journalled [OF pg1]) (auto dest!: keep')
      next
        fix w3 assume r3: "on_db (run queue) w2 = (Inr (fst (queue (redis_of w2))), w3)" "redis_of w3 = snd (queue (redis_of w2))"
        have metric: "core (redis_of (snd (on_db (run (\<lambda>r. ((), r\<lparr>rd_enqueued := g r\<rparr>))) v))) = core (redis_of v)" for g v
          by (rule on_db_core) (simp add: core_def)
        obtain y w4 where pg4: "on_pg (pg_Materialized ?i) w3 = (y, w4)" and w4: "redis_of w4 = redis_of w3"
          by (metis redis_of_pg snd_conv surj_pair)
        have "wo_pg w3 = wo_pg w1" using keep' [OF r2(1)] keep' [OF r3(1)] by simp
        from pgcong [OF this] pg4 have p: "wo_pg w4 = wo_pg (snd (on_pg (pg_Materialized ?i) w1))" by (metis snd_conv)
        have "core (redis_of w') = core (redis_of w3) \<and> wo_pg w' = wo_pg w4"
          using unfold r2(1) r3(1) pg4 w4 metric
          by (auto simp: now_of_def keep split: sum.splits)
        with p r2 r3 w1 show thesis by (intro journalled [OF pg1]) auto
      qed
    qed
  qed
qed

lemma follow_enqueue:
  assumes "enqueue_steps created t b queue clk w = (res, w')" and "en_redis s = redis_of w" and "queued (dt_id t) queue"
    and "dt_id t \<notin> en_ids s" and "dt_id t \<noteq> []" and "b = Body tm" "tm_id tm = dt_id t" "tm_attempts tm = 0"
  shows "\<exists>s'. qstep\<^sup>*\<^sup>* s s' \<and> en_redis s' = redis_of w' \<and> (res = Inr () \<longrightarrow> dt_id t \<in> set (en_accepted s'))"
proof -
  let ?i = "dt_id t"
  let ?s1 = "s\<lparr>en_redis := snd (set_task ?i b (en_redis s)), en_staged := insert ?i (en_staged s), en_ids := insert ?i (en_ids s)\<rparr>"
  let ?s2 = "?s1\<lparr>en_redis := snd (queue (en_redis ?s1)), en_staged := en_staged ?s1 - {?i}, en_accepted := ?i # en_accepted ?s1\<rparr>"
  have s1: "qstep\<^sup>*\<^sup>* s ?s1" using qstep.stage [of ?i s tm] assms by auto
  have "qstep ?s1 ?s2" by (rule assms(3) [unfolded queued_def, rule_format]) simp
  with s1 have s2: "qstep\<^sup>*\<^sup>* s ?s2" by (rule rtranclp.rtrancl_into_rtrancl)
  have stop: ?thesis if "qstep\<^sup>*\<^sup>* s u" "core (redis_of w') = core (en_redis u)" "res = Inr () \<longrightarrow> ?i \<in> set (en_accepted u)" for u
    using that qstep.book [OF that(2)] by (intro exI [of _ "u\<lparr>en_redis := redis_of w'\<rparr>"]) (auto intro: rtranclp.rtrancl_into_rtrancl)
  from assms(1) show ?thesis
  proof (cases rule: enqueue_cases)
    case (refused e)
    with redis_of_pg [of "pg_Enqueue created t" w] assms(2) show ?thesis by (intro stop [of s]) auto
  next
    case (journalled w1)
    then show ?thesis using stop [of s] stop [OF s1] stop [OF s2] assms(2) by auto
  qed
qed

lemma follow_route:
  assumes "en_redis s = redis_of w" and "i \<notin> en_ids s" and "i \<noteq> []"
    and "RouteTask clk i taskType payload maxRetries delaySeconds w = (res, w')"
  shows "\<exists>s'. qstep\<^sup>*\<^sup>* s s' \<and> en_redis s' = redis_of w' \<and> (res = Inr () \<longrightarrow> i \<in> set (en_accepted s'))"
proof -
  obtain now w1 where now: "now_of clk w = (now, w1)" and w1: "redis_of w1 = redis_of w"
    by (metis redis_of_now snd_conv surj_pair)
  let ?tm = "stored_meta i taskType payload maxRetries"
  let ?t = "\<lparr>dt_id = i, dt_type = taskType, dt_payload = Body ?tm, dt_max = maxRetries, dt_attempts = 0, dt_state = StateEnqueued,
    dt_schedule = None\<rparr>"
  have tm: "tm_id ?tm = i" "tm_attempts ?tm = 0" by (simp_all add: stored_meta_def)
  obtain t queue where e: "enqueue_steps now t (Body ?tm) queue clk w1 = (res, w')" "dt_id t = i" "queued i queue"
    using assms(4) now queued_push queued_schedule
    by (force simp: RouteTask_def Let_def split: if_splits)
  from follow_enqueue [OF e(1)] e(2,3) assms(1,2,3) w1 tm show ?thesis by simp
qed

section \<open>An enqueue and the journal\<close>

lemma on_pg_run:
  assumes "wo_pg w = Some (rows, lj)" and "on_pg (run (\<lambda>rows. ((), f rows))) w = (x, w')"
  shows "\<exists>lj'. wo_pg w' = Some (f rows, lj') \<or> (\<exists>e. x = Inl e) \<and> wo_pg w' = Some (rows, lj')"
  by (rule run_cases [of "\<lambda>rows. ((), f rows)" rows lj]) (use assms in \<open>auto simp: on_pg_def\<close>)

text \<open>The row of a new task, and Redis with the task at no place or, with its body, at one.\<close>

definition row_of :: "string \<Rightarrow> body \<Rightarrow> int \<Rightarrow> journal_row \<Rightarrow> bool" where
  "row_of i b now x \<longleftrightarrow> jr_id x = i \<and> jr_payload x = b \<and> is_active x \<and> jr_created x = now"

definition placed :: "string \<Rightarrow> body \<Rightarrow> redis \<Rightarrow> bool" where
  "placed i b r \<longleftrightarrow> (if i \<in> live r then rd_task r i = Some b \<and> places r i = 1 else places r i = 0)"

lemma placed_core: "core r' = core r \<Longrightarrow> placed i b r' = placed i b r"
  using core_eq [of r' r] by (simp add: placed_def live_def places_def)

lemma placed_none: "places r i = 0 \<Longrightarrow> placed i b r"
  using live_count [of i r] by (simp add: placed_def places_def)

lemma on_row_other: "i \<notin> jr_id ` set rows \<Longrightarrow> on_row i f rows = rows"
  unfolding on_row_def by (rule map_idI) auto

lemma enqueue_journal:
  assumes "enqueue_steps now t b queue clk w = (res, w')" and "wo_pg w = Some (rows, lj)" and "dt_id t \<notin> jr_id ` set rows"
    and "places (redis_of w) (dt_id t) = 0" and "dt_payload t = b" and "dt_state t = StateEnqueued"
    and "placed (dt_id t) b (snd (queue (snd (set_task (dt_id t) b (redis_of w)))))"
  shows "placed (dt_id t) b (redis_of w')
     \<and> (\<exists>rows' lj'. wo_pg w' = Some (rows', lj') \<and> (res \<noteq> Inr () \<and> rows' = rows \<or> (\<exists>x. rows' = rows @ [x] \<and> row_of (dt_id t) b now x)))"
  using assms(1)
proof (cases rule: enqueue_cases)
  case (refused e)
  from on_pg_run [OF assms(2) refused(1) [unfolded pg_Enqueue_def]] refused(2)
  have "\<exists>lj'. wo_pg w' = Some (upsert now t rows, lj') \<or> wo_pg w' = Some (rows, lj')" by blast
  moreover have "redis_of w' = redis_of w" using redis_of_pg [of "pg_Enqueue now t" w] refused(1) by simp
  ultimately show ?thesis
    using refused(2) assms(3-6) by (auto simp: upsert_def Let_def placed_none row_of_def is_active_def)
next
  case (journalled w1)
  let ?i = "dt_id t"
  obtain lj1 where up: "wo_pg w1 = Some (upsert now t rows, lj1)"
    using on_pg_run [OF assms(2) journalled(1) [unfolded pg_Enqueue_def]] by auto
  obtain x where x: "upsert now t rows = rows @ [x]" "row_of ?i b now x"
    using assms(3,5,6) by (simp add: upsert_def Let_def row_of_def is_active_def)
  have "on_row ?i (\<lambda>x. x\<lparr>jr_pending := False\<rparr>) (rows @ [x]) = rows @ [strip x]" "row_of ?i b now (strip x)"
    using x(2) on_row_other [OF assms(3)] by (auto simp: on_row_def row_of_def strip_def is_active_def)
  with on_pg_run [OF up prod.collapse [symmetric], of "on_row ?i (\<lambda>x. x\<lparr>jr_pending := False\<rparr>)"] journalled(2) up x
  have "\<exists>rows' lj'. wo_pg w' = Some (rows', lj') \<and> (\<exists>x. rows' = rows @ [x] \<and> row_of ?i b now x)"
    by (auto simp: pg_Materialized_def)
  moreover have "placed ?i b (snd (set_task ?i b (redis_of w)))"
    by (rule placed_none) (use assms(4) in \<open>simp add: places_def set_task_def\<close>)
  then have "placed ?i b (redis_of w')"
    using journalled(3) assms(7) placed_none [OF assms(4), of b] placed_core [of "redis_of w'" _ ?i b] by blast
  ultimately show ?thesis by blast
qed

lemma route_journal:
  assumes "RouteTask clk i taskType payload maxRetries delaySeconds w = (res, w')" and "wo_pg w = Some (rows, lj)"
    and "i \<notin> jr_id ` set rows" and "places (redis_of w) i = 0" and "b = Body (stored_meta i taskType payload maxRetries)"
  shows "placed i b (redis_of w')
     \<and> (\<exists>rows' lj'. wo_pg w' = Some (rows', lj')
          \<and> (res \<noteq> Inr () \<and> rows' = rows \<or> (\<exists>x. rows' = rows @ [x] \<and> row_of i b (clk (wo_reads w)) x)))"
proof -
  let ?w1 = "w\<lparr>wo_reads := Suc (wo_reads w)\<rparr>"
  have z: "i \<notin> set (rd_immediate (redis_of w))" "i \<notin> fst ` set (rd_scheduled (redis_of w))" "places (redis_of ?w1) i = 0"
    using assms(4) by (auto simp: places_def count_list_0_iff)
  have push: "placed i b (snd (lpush_immediate i (snd (set_task i b (redis_of ?w1)))))"
    using assms(4) by (simp add: placed_def live_def places_def lpush_immediate_def set_task_def)
  have sched: "placed i b (snd ((\<lambda>r. ((), r\<lparr>rd_scheduled := zadd i c (rd_scheduled r)\<rparr>)) (snd (set_task i b (redis_of ?w1)))))" for c
    using assms(4) by (simp add: placed_def live_def) (simp add: place_counts set_task_def)
  obtain t queue where e: "enqueue_steps (clk (wo_reads w)) t b queue clk ?w1 = (res, w')" "dt_id t = i" "dt_payload t = b"
    "dt_state t = StateEnqueued" "placed i b (snd (queue (snd (set_task i b (redis_of ?w1)))))"
  proof (cases "delaySeconds > 0")
    case True
    with assms(1) sched show thesis by (intro that) (auto simp: RouteTask_def Let_def now_of_def assms(5))
  next
    case False
    with assms(1) push show thesis by (intro that) (auto simp: RouteTask_def Let_def now_of_def assms(5))
  qed
  from enqueue_journal [OF e(1) _ _ _ e(3,4)] e(2,5) assms(2,3,4) show ?thesis by simp
qed

section \<open>Backoff\<close>

lemma lua_double_power: "lua_double i a d = d * 2 ^ nat (a + 1 - i)"
proof (induction i a d rule: lua_double.induct)
  case (1 i a d)
  have "nat (a + 1 - i) = Suc (nat (a + 1 - (i + 1)))" if "i \<le> a" using that by simp
  with 1 show ?case by (subst lua_double.simps) (simp del: Suc_nat_eq_nat_zadd1)
qed

lemma go_double_power: "go_double i a d = d * 2 ^ nat (a + 1 - i)"
proof (induction i a d rule: go_double.induct)
  case (1 i a d)
  have "nat (a + 1 - i) = Suc (nat (a + 1 - (i + 1)))" if "i \<le> a" using that by simp
  with 1 show ?case by (subst go_double.simps) (simp del: Suc_nat_eq_nat_zadd1)
qed

lemma sint_small: "- (2 ^ 63) \<le> x \<Longrightarrow> x < 2 ^ 63 \<Longrightarrow> sint (word_of_int x :: 64 word) = x"
  by (simp add: signed_of_int signed_take_bit_int_eq_self)

lemma go_backoff_exact:
  assumes "0 \<le> base" and "base * 2 ^ nat (a - 1) < 2 ^ 63" and "0 \<le> cap" "cap < 2 ^ 63"
  shows "sint (backoffDelay a (word_of_int base) (word_of_int cap)) = min cap (base * 2 ^ nat (a - 1))"
proof -
  have "go_double 2 a (word_of_int base) = (word_of_int (base * 2 ^ nat (a - 1)) :: 64 word)"
    by (simp add: go_double_power)
  moreover have "sint (word_of_int (base * 2 ^ nat (a - 1)) :: 64 word) = base * 2 ^ nat (a - 1)"
    by (rule sint_small) (use assms in \<open>auto intro: order_trans [of _ 0]\<close>)
  moreover have "sint (word_of_int cap :: 64 word) = cap" using assms by (intro sint_small) auto
  ultimately show ?thesis by (auto simp: backoffDelay_def Let_def min_def simp del: of_int_mult)
qed

section \<open>Properties\<close>

text \<open>
  (C3) The Go code refines the engine: from any state of the engine, whatever the handlers do, the clocks
  show and wherever connections are lost, an iteration of a worker's loop, a tick of the recovery loop, of the
  promotion loop and of a running heartbeat, and the routing of a new task each change Redis as a sequence of the
  engine's steps does, and a task the gateway reports as routed is among the accepted ones. So what holds of all
  runs of the engine holds of the code.
\<close>

theorem pool_refines_engine:
  assumes "en_redis s = redis_of w" and "en_workers s k = idle" and "distinct (map uuid [0..<batch_of wp])"
    and "set (map uuid [0..<batch_of wp]) \<inter> en_issued s = {}" and "[] \<notin> set (map uuid [0..<batch_of wp])"
    and "i \<notin> en_ids s" and "i \<noteq> []"
  shows "(\<exists>s'. qstep\<^sup>*\<^sup>* s s' \<and> en_redis s' = redis_of (work_iteration wp clk uuid registered outcome w) \<and> en_workers s' k = idle)
     \<and> (\<exists>s'. qstep\<^sup>*\<^sup>* s s' \<and> en_redis s' = redis_of (recovery_tick wp clk w))
     \<and> (\<exists>s'. qstep\<^sup>*\<^sup>* s s' \<and> en_redis s' = fst (promotion_tick now clock (wo_db w)))
     \<and> ((j, l) \<in> set (ws_beats (en_workers s v)) \<longrightarrow>
          (\<exists>s'. qstep\<^sup>*\<^sup>* s s' \<and> en_redis s' = fst (snd (heartbeat_tick wp now stopped j l (wo_db w)))))
     \<and> (\<exists>s'. qstep\<^sup>*\<^sup>* s s' \<and> en_redis s' = redis_of (snd (RouteTask clk i taskType payload maxRetries delaySeconds w))
          \<and> (fst (RouteTask clk i taskType payload maxRetries delaySeconds w) = Inr () \<longrightarrow> i \<in> set (en_accepted s')))"
  using follow_iteration [OF assms(1-5)] follow_recovery [OF assms(1)] follow_promotion [OF assms(1)]
    follow_beat [OF assms(1)] follow_route [OF assms(1,6,7) prod.collapse [symmetric]]
  by (intro conjI impI)

definition sample_pool :: pool where
  "sample_pool = WithBatchSize 2 (NewWorkerPool ''w'' ''h'' ''v'' ''t'' 4)"

definition sample_world :: world where
  "sample_world = \<lparr>wo_db = (en_redis demo_ready, \<lparr>ln_budget = None, ln_torn = False, ln_error = []\<rparr>), wo_pg = None, wo_reads = 0\<rparr>"

theorem pool_refines_engine_witness:
  "\<exists>s'. qstep\<^sup>*\<^sup>* demo_ready s' \<and> en_workers s' 0 = idle
     \<and> en_redis s' = redis_of (work_iteration sample_pool int (\<lambda>n. if n = 0 then ''a'' else ''b'') (\<lambda>_. True) (\<lambda>_. True) sample_world)
     \<and> rd_task (en_redis s') ''t1'' = None \<and> places (en_redis s') ''t1'' = 0"
proof -
  have b: "[0..<batch_of sample_pool] = [0, 1]"
    by (simp add: batch_of_def sample_pool_def WithBatchSize_def NewWorkerPool_def eval_nat_numeral)
  let ?u = "\<lambda>n::nat. if n = 0 then ''a'' else ''b''"
  have h: "en_redis demo_ready = redis_of sample_world" "en_workers demo_ready 0 = idle" "distinct (map ?u [0..<batch_of sample_pool])"
    "set (map ?u [0..<batch_of sample_pool]) \<inter> en_issued demo_ready = {}" "[] \<notin> set (map ?u [0..<batch_of sample_pool])"
    "''t2'' \<notin> en_ids demo_ready" "''t2'' \<noteq> []"
    unfolding b by (simp_all add: demo_defs sample_world_def)
  obtain s' where "qstep\<^sup>*\<^sup>* demo_ready s'" "en_redis s' = redis_of (work_iteration sample_pool int ?u (\<lambda>_. True) (\<lambda>_. True) sample_world)"
      "en_workers s' 0 = idle"
    using pool_refines_engine [of demo_ready sample_world 0 ?u sample_pool "''t2''", OF h, THEN conjunct1] by blast
  moreover have "rd_task (redis_of (work_iteration sample_pool int ?u (\<lambda>_. True) (\<lambda>_. True) sample_world)) ''t1'' = None
    \<and> places (redis_of (work_iteration sample_pool int ?u (\<lambda>_. True) (\<lambda>_. True) sample_world)) ''t1'' = 0"
    by (simp add: b work_iteration_def now_of_def on_db_def on_pg_def claimBatch_def sample_world_def demo_defs claim_script_def
        markLeases_def clearLeases_def finish_batch_def ackBatch_def release_def places_def)
  ultimately show ?thesis by auto
qed

text \<open>
  (C32) The delay that the worker writes to the journal is the one its script schedules in Redis, for a pool with
  the default backoff and up to 34 attempts. From the 35th on the doubling overflows a 64-bit duration: the
  journal first gets a time in the past, and from the 56th attempt on the delay is zero, where the script
  keeps to the cap.
\<close>

theorem backoff_agrees:
  assumes "wp = NewWorkerPool uuid hostname version startedAt limit"
    and "go = (\<lambda>a. sint (backoffDelay a (word_of_int (wp_backoffBase wp)) (word_of_int (wp_backoffCap wp))))"
    and "script = (\<lambda>a. lua_backoff (micros (wp_backoffBase wp)) (micros (wp_backoffCap wp)) a)"
  shows "(a \<le> 34 \<longrightarrow> go a = 1000 * script a)
     \<and> go 35 = - 1266874889709551616 \<and> (a \<ge> 56 \<longrightarrow> go a = 0) \<and> (a \<ge> 7 \<longrightarrow> script a = micros (60 * second))"
proof (intro conjI impI)
  note defs = assms NewWorkerPool_def second_def micros_def lua_backoff_def lua_double_power
  have le: "(2::int) ^ m \<le> 2 ^ n" if "m \<le> n" for m n :: nat using that by simp
  show "go a = 1000 * script a" if "a \<le> 34"
  proof -
    have "(2::int) ^ nat (a - 1) \<le> 2 ^ 33" using that by (intro le) simp
    then have "1000000000 * (2::int) ^ nat (a - 1) < 2 ^ 63" by simp
    with go_backoff_exact [of 1000000000 a 60000000000] show ?thesis
      by (simp add: defs min_def Let_def)
  qed
  show "go 35 = - 1266874889709551616"
    by (simp add: defs backoffDelay_def go_double_power Let_def)
  show "go a = 0" if "a \<ge> 56"
  proof -
    have "(1000000000 :: 64 word) * 2 ^ nat (a - 1) = 1953125 * 2 ^ 9 * 2 ^ nat (a - 1)" by simp
    also have "\<dots> = 1953125 * 2 ^ (9 + nat (a - 1))" by (simp add: power_add)
    also have "2 ^ (9 + nat (a - 1)) = (0 :: 64 word)" using that by (subst exp_eq_zero_iff) simp
    finally show ?thesis by (simp add: defs backoffDelay_def go_double_power Let_def)
  qed
  show "script a = micros (60 * second)" if "a \<ge> 7"
  proof -
    have "(2::int) ^ 6 \<le> 2 ^ nat (a - 1)" using that by (intro le) simp
    then show ?thesis by (simp add: defs Let_def)
  qed
qed

theorem backoff_agrees_witness:
  "sint (backoffDelay 3 (word_of_int (1 * second)) (word_of_int (60 * second))) = 1000 * lua_backoff (micros (1 * second)) (micros (60 * second)) 3"
  using backoff_agrees [of _ "''u''" "''h''" "''v''" "''t''" 4 _ _ 3, OF refl refl refl] by (simp add: NewWorkerPool_def)

text \<open>
  (C8) An enqueue is durable. Whatever the gateway reports and wherever the connections to the journal and to
  Redis are lost: if the task was reported as routed, the journal has it, and once the journal has it, the next
  full sweep over reachable stores leaves it in Redis with its body and at exactly one place; this is so whether
  Redis is as the enqueue left it or has lost everything.
\<close>

theorem enqueue_survives:
  assumes "RouteTask clk i taskType payload maxRetries delaySeconds w = (res, w')"
    and "wo_pg w = Some (rows, lj)" and "i \<notin> jr_id ` set rows" and "places (redis_of w) i = 0"
    and "distinct (map jr_id rows)" and "list_all (\<lambda>x. fst zero_cursor < jr_created x) rows"
    and "fst zero_cursor < clk (wo_reads w)" and "up l1" and "up l2"
    and "r = redis_of w' \<or> r = empty_redis"
  shows "\<exists>rows' lj'. wo_pg w' = Some (rows', lj') \<and> (res = Inr () \<longrightarrow> i \<in> jr_id ` set rows')
     \<and> (i \<in> jr_id ` set rows' \<longrightarrow>
          (\<exists>r' rows''. reconcile_ticks clocks (Suc (length (filter is_active rows') div reconcilePageSize)) (zero_cursor, (r, l1), (rows', l2)) =
              (zero_cursor, (r', l1), (rows'', l2))
            \<and> rd_task r' i = Some (Body (stored_meta i taskType payload maxRetries)) \<and> places r' i = 1 \<and> i \<in> live r'))"
proof -
  let ?b = "Body (stored_meta i taskType payload maxRetries)"
  from route_journal [OF assms(1-4) refl] obtain rows' lj' where p: "placed i ?b (redis_of w')" and j: "wo_pg w' = Some (rows', lj')"
    and c: "res \<noteq> Inr () \<and> rows' = rows \<or> (\<exists>x. rows' = rows @ [x] \<and> row_of i ?b (clk (wo_reads w)) x)" by blast
  have pr: "placed i ?b r" using assms(10) p by (auto intro: placed_none simp: places_def empty_redis_def)
  have "\<exists>r' rows''. reconcile_ticks clocks (Suc (length (filter is_active rows') div reconcilePageSize)) (zero_cursor, (r, l1), (rows', l2)) =
      (zero_cursor, (r', l1), (rows'', l2)) \<and> rd_task r' i = Some ?b \<and> places r' i = 1 \<and> i \<in> live r'" if "i \<in> jr_id ` set rows'"
  proof -
    from that c assms(3) obtain x where x: "rows' = rows @ [x]" "row_of i ?b (clk (wo_reads w)) x" by auto
    have "distinct (map jr_id rows')" "list_all (\<lambda>x. fst zero_cursor < jr_created x) rows'"
      using x assms(3,5,6,7) by (auto simp: row_of_def)
    from sweep_heals [OF assms(8,9) this, of clocks r] obtain r' rows'' where
      s: "reconcile_ticks clocks (Suc (length (filter is_active rows') div reconcilePageSize)) (zero_cursor, (r, l1), (rows', l2)) =
        (zero_cursor, (r', l1), (rows'', l2))" "healed r r' x" "i \<in> live r \<longrightarrow> untouched r r' i"
      using x by (auto simp: row_of_def)
    have "rd_task r' i = Some ?b \<and> places r' i = 1 \<and> i \<in> live r'"
      using s(2,3) x(2) pr by (cases "i \<in> live r") (auto simp: healed_def untouched_def placed_def row_of_def)
    with s(1) show ?thesis by blast
  qed
  moreover have "i \<in> jr_id ` set rows'" if "res = Inr ()" using c that by (auto simp: row_of_def)
  ultimately show ?thesis using j by blast
qed

text \<open>The journal is reachable; the connection to Redis is lost when the body has been written.\<close>

definition torn_world :: world where
  "torn_world = \<lparr>wo_db = (empty_redis, \<lparr>ln_budget = Some 1, ln_torn = False, ln_error = ''EOF''\<rparr>),
     wo_pg = Some ([], \<lparr>ln_budget = None, ln_torn = False, ln_error = []\<rparr>), wo_reads = 0\<rparr>"

theorem enqueue_survives_witness:
  "fst (RouteTask int ''t9'' ''echo'' JNull 3 0 torn_world) = Inl ''EOF''
   \<and> (\<exists>rows' lj' r' rows''. wo_pg (snd (RouteTask int ''t9'' ''echo'' JNull 3 0 torn_world)) = Some (rows', lj')
        \<and> reconcile_ticks (\<lambda>_ _. 9) (Suc (length (filter is_active rows') div reconcilePageSize))
            (zero_cursor, (redis_of (snd (RouteTask int ''t9'' ''echo'' JNull 3 0 torn_world)), \<lparr>ln_budget = None, ln_torn = False, ln_error = []\<rparr>),
             (rows', \<lparr>ln_budget = None, ln_torn = False, ln_error = []\<rparr>)) =
            (zero_cursor, (r', \<lparr>ln_budget = None, ln_torn = False, ln_error = []\<rparr>), (rows'', \<lparr>ln_budget = None, ln_torn = False, ln_error = []\<rparr>))
        \<and> rd_task r' ''t9'' = Some (Body (stored_meta ''t9'' ''echo'' JNull 3)) \<and> places r' ''t9'' = 1)"
proof -
  let ?l = "\<lparr>ln_budget = None, ln_torn = False, ln_error = []\<rparr>"
  let ?R = "RouteTask int ''t9'' ''echo'' JNull 3 0 torn_world"
  have h: "wo_pg torn_world = Some ([], ?l)" "''t9'' \<notin> jr_id ` set []" "places (redis_of torn_world) ''t9'' = 0"
    "distinct (map jr_id [])" "list_all (\<lambda>x. fst zero_cursor < jr_created x) []" "fst zero_cursor < int (wo_reads torn_world)" "up ?l" "up ?l"
    by (simp_all add: torn_world_def places_def empty_redis_def zero_cursor_def)
  have ev: "fst ?R = Inl ''EOF''" "\<exists>rows' lj'. wo_pg (snd ?R) = Some (rows', lj') \<and> ''t9'' \<in> jr_id ` set rows'"
    by (simp_all add: RouteTask_def now_of_def torn_world_def enqueue_steps_def on_pg_def on_db_def pg_Enqueue_def run_def upsert_def Let_def)
  from enqueue_survives [of int "''t9''" "''echo''" JNull 3 0 torn_world "fst ?R" "snd ?R" "[]" ?l ?l ?l "redis_of (snd ?R)" "\<lambda>_ _. 9",
      OF prod.collapse [symmetric] h disjI1 [OF refl]] ev show ?thesis by auto
qed

end
