(* ===== verification/Engine_Api.thy ===== *)
theory Engine_Api
  imports Job_Handlers Worker_Loop
begin

text \<open>
  The HTTP handlers on the database that the workers use. \<open>write_frame\<close> extends the contract of \<open>Job_Handlers\<close> from
  the handlers that read to all of them; interpreted on \<open>lease_rely\<close> it says that every call, interrupted
  wherever the connection is lost, is a step that the engine's theorems allow to other programs. The rest is
  about operators acting on jobs that workers hold.
\<close>

section \<open>Every call is a step of another program\<close>

locale write_frame = command_frame +
  assumes R_set: "R r (snd (set_task i b r))" and R_del: "R r (snd (del_task i r))"
    and R_lrem: "R r (snd (lrem_dead b r))" and R_zrems: "R r (snd (zrem_scheduled i r))"
    and R_zremi: "R r (snd (zrem_inflight i r))" and R_hdel: "R r (snd (hdel_lease i r))"
    and R_push: "R r (snd (lpush_immediate i r))" and R_lremi: "R r (snd (lrem_immediate i r))"
    and R_pause: "R r (r\<lparr>rd_paused := p\<rparr>)" and R_clear: "R r (r\<lparr>rd_immediate := []\<rparr>)" "R r (r\<lparr>rd_dead := []\<rparr>)"
begin

lemma allowed_pipeline: "list_all (allowed R) fs \<Longrightarrow> allowed R (pipeline fs)"
proof (induction fs)
  case (Cons f fs)
  then show ?case by (auto simp: allowed_def intro: R_trans)
qed (simp add: allowed_def R_refl)

lemma allowed_writes:
  "allowed R (set_task i b)" "allowed R (del_task i)" "allowed R (lrem_dead b)" "allowed R (zrem_scheduled i)"
  "allowed R (zrem_inflight i)" "allowed R (hdel_lease i)" "allowed R (lpush_immediate i)" "allowed R (lrem_immediate i)"
  "allowed R (\<lambda>r. (u, r\<lparr>rd_paused := p\<rparr>))" "allowed R (\<lambda>r. (u, r\<lparr>rd_immediate := []\<rparr>))" "allowed R (\<lambda>r. (u, r\<lparr>rd_dead := []\<rparr>))"
  by (simp_all add: allowed_def R_set R_del R_lrem R_zrems R_zremi R_hdel R_push R_lremi R_pause R_clear)

lemma allowed_pipes:
  "allowed R (requeue_pipe i)" "allowed R (delete_pipe i)" "allowed R (pipeline [zrem_scheduled i, lpush_immediate i])"
  "allowed R (pipeline (map del_task ids @ [\<lambda>r. ((), r\<lparr>rd_immediate := []\<rparr>)]))"
  "allowed R (pipeline (map del_task ids @ [\<lambda>r. ((), r\<lparr>rd_dead := []\<rparr>)]))"
  unfolding requeue_pipe_def delete_pipe_def
  by (rule allowed_pipeline, simp add: allowed_writes list_all_iff)+

lemmas write_rules = keeps_rules allowed_writes allowed_pipes

lemma take_loop_keeps: "R r (fst d) \<Longrightarrow> keeps R r (take_loop i bs found d)"
proof (induction bs arbitrary: found d)
  case (Cons b bs)
  have "keeps R r (run (lrem_dead b) d)" by (intro write_rules Cons.prems)
  then show ?case using Cons by (auto split: prod.splits sum.splits)
qed simp

lemma takeDead_keeps: "R r (fst d) \<Longrightarrow> keeps R r (takeDead i d)"
  unfolding takeDead_def by (intro write_rules) (auto intro!: take_loop_keeps split: sum.splits)

lemma restore_body_keeps: "R r (fst d) \<Longrightarrow> keeps R r (restore_body i b d)"
  unfolding restore_body_def
  by (intro keeps_bind keeps_run allowed_read) (auto intro!: write_rules split: sum.splits option.splits)

lemma reset_attempts_keeps: "R r (fst d) \<Longrightarrow> R r (fst (reset_attempts i d))"
  using keeps_run [OF allowed_read(2), of r d i] keeps_run_snd [OF allowed_writes(1), of r]
  by (auto simp: reset_attempts_def split: prod.splits sum.splits option.splits body.splits)

lemma requeue_keeps: "R r (fst d) \<Longrightarrow> keeps R r (requeue i reset d)"
  unfolding requeue_def
  by (intro keeps_bind takeDead_keeps)
    (auto intro!: keeps_bind restore_body_keeps keeps_run allowed_pipes reset_attempts_keeps split: sum.splits bool.splits)

lemma deleteTask_keeps: "R r (fst d) \<Longrightarrow> keeps R r (deleteTask i d)"
  unfolding deleteTask_def
  by (intro keeps_bind takeDead_keeps) (auto intro!: write_rules split: sum.splits)

lemma reply_keeps: "keeps R r p \<Longrightarrow> keeps R r (reply_found m p)" "keeps R r q \<Longrightarrow> keeps R r (reply_done q)"
  by (auto simp: reply_found_def reply_done_def keeps_def split: prod.splits sum.splits)

lemma writes_keep:
  assumes "R r (fst d)"
  shows "keeps R r (h_RetryJob i d)" "keeps R r (h_RequeueJob i d)" "keeps R r (h_DeleteJob i d)" "keeps R r (h_PauseQueue n d)"
    "keeps R r (h_ResumeQueue n d)" "keeps R r (h_PurgeQueue n d)" "keeps R r (h_RetryDLQ i d)" "keeps R r (h_DeleteDLQ i d)"
    "keeps R r (h_PurgeDLQ d)" "keeps R r (h_PromoteDelayed i d)" "keeps R r (h_CancelDelayed i d)"
  using assms
  unfolding h_RetryJob_def h_RequeueJob_def h_DeleteJob_def h_PauseQueue_def h_ResumeQueue_def h_PurgeQueue_def h_RetryDLQ_def
    h_DeleteDLQ_def h_PurgeDLQ_def h_PromoteDelayed_def h_CancelDelayed_def
  by (auto intro!: write_rules reply_keeps requeue_keeps deleteTask_keeps split: sum.splits option.splits)

lemma serve_keeps: "keeps R (fst d) (serve_call ge c d)"
  using writes_keep [OF R_refl, of d] reads_keep [OF R_refl, of d]
  by (cases c) (simp_all add: serve_call_def keeps_def R_refl split_beta)

end

interpretation leases_frame: write_frame lease_rely
  proof unfold_locales
  show "lease_rely r r2" if "lease_rely r r1" "lease_rely r1 r2" for r r1 r2 using that by (rule rely_trans)
qed (auto simp: lease_rely_def redis_defs)

lemma api_step: "estep s (s\<lparr>en_redis := fst (snd (serve_call ge c (en_redis s, l)))\<rparr>)"
  using leases_frame.serve_keeps [of "(en_redis s, l)" ge c] by (intro estep.other) (simp add: keeps_def)

section \<open>Jobs that are gone\<close>

definition absent :: "string \<Rightarrow> redis \<Rightarrow> bool" where
  "absent i r \<longleftrightarrow> rd_task r i = None \<and> rd_leases r i = None \<and> i \<notin> set (rd_immediate r) \<and> i \<notin> fst ` set (rd_scheduled r)
     \<and> i \<notin> fst ` set (rd_inflight r) \<and> (\<forall>b\<in>set (rd_dead r). body_id b \<noteq> Some i)"

text \<open>Bodies are stored under their own id.\<close>

definition keyed :: "redis \<Rightarrow> bool" where
  "keyed r \<longleftrightarrow> (\<forall>j tm. rd_task r j = Some (Body tm) \<longrightarrow> tm_id tm = j)"

definition wiped :: "string \<Rightarrow> redis \<Rightarrow> bool" where
  "wiped i r \<longleftrightarrow> keyed r \<and> absent i r"

lemma absent_card: "absent i r \<longleftrightarrow> bd_jobs (board_of r) i = no_card"
  by (auto simp: absent_def board_of_def no_card_def count_list_0_iff zscore_def map_of_eq_None_iff filter_empty_conv)

lemma keyed_card: "keyed r \<longleftrightarrow> (\<forall>j tm. jc_body (bd_jobs (board_of r) j) = Some (Body tm) \<longrightarrow> tm_id tm = j)"
  by (simp add: keyed_def board_of_def)

lemma wiped_core: "core r' = core r \<Longrightarrow> wiped i r' \<longleftrightarrow> wiped i r"
  using core_eq [of r' r] by (simp add: wiped_def keyed_def absent_def)

lemma wiped_release: "wiped i r \<Longrightarrow> wiped i (release j r)"
  by (auto simp: wiped_def keyed_def absent_def release_def)

lemma wiped_forget: "wiped i r \<Longrightarrow> wiped i (r\<lparr>rd_task := (rd_task r)(j := None)\<rparr>)"
  by (simp add: wiped_def keyed_def absent_def)

lemma wiped_attempt: "wiped i r \<Longrightarrow> j \<noteq> i \<Longrightarrow> wiped i (snd (count_attempt base cap now j r))"
  by (cases "rd_task r j"; cases "the (rd_task r j)")
    (auto simp: wiped_def keyed_def absent_def count_attempt_def Let_def body_id_def)

text \<open>No script brings back what is gone: it is not in the sets they look in, and nobody holds its lease.\<close>

lemma wiped_requeue: "wiped i r \<Longrightarrow> wiped i (snd (requeue_script base cap now j l r))"
proof (cases "j = i")
  case True
  assume "wiped i r"
  then have "rd_leases r i = None" "zscore i (rd_inflight r) = None"
    by (simp_all add: wiped_def absent_def zscore_def map_of_eq_None_iff)
  with True \<open>wiped i r\<close> show ?thesis by (simp add: requeue_script_def)
next
  case False
  assume w: "wiped i r"
  from wiped_attempt [OF wiped_release [OF w] False] w show ?thesis by (auto simp: requeue_script_def split: option.splits)
qed

lemma wiped_ack: "wiped i r \<Longrightarrow> wiped i (snd (ack_script ps r))"
proof (induction ps r rule: ack_script.induct)
  case (2 j l ps r)
  have "wiped i ((release j r)\<lparr>rd_task := (rd_task r)(j := None)\<rparr>)"
    using wiped_forget [OF wiped_release [OF "2.prems", of j], of j] by (simp add: release_def)
  with 2 show ?case by (cases "rd_leases r j = Some l") (simp_all add: split_beta)
qed simp

lemma wiped_claim_loop: "wiped i r \<Longrightarrow> wiped i (snd (claim_loop e ls r))"
proof (induction e ls r rule: claim_loop.induct)
  case (2 e l ls r)
  show ?case
  proof (cases "rd_immediate r")
    case (Cons j js)
    have "wiped i (r\<lparr>rd_immediate := js, rd_inflight := zadd j e (rd_inflight r), rd_leases := (rd_leases r)(j \<mapsto> l)\<rparr>)"
      using "2.prems" Cons by (auto simp: wiped_def keyed_def absent_def)
    with 2 Cons show ?thesis by (auto split: prod.splits)
  qed (use 2 in simp)
qed simp

lemma wiped_scripts:
  assumes "wiped i r"
  shows "wiped i (snd (claim_script e ls r))" "wiped i (snd (beat_script lease now j l r))" "wiped i (snd (promote_script now j r))"
proof -
  show "wiped i (snd (claim_script e ls r))"
    using assms wiped_claim_loop [OF assms, of e ls] by (simp add: claim_script_def split_beta)
  show "wiped i (snd (beat_script lease now j l r))"
    using assms by (auto simp: beat_script_def wiped_def keyed_def absent_def)
  have "j \<noteq> i" if "zscore j (rd_scheduled r) \<noteq> None"
    using that [unfolded zscore_live] assms by (auto simp: wiped_def absent_def)
  then show "wiped i (snd (promote_script now j r))"
    using assms by (auto simp: promote_script_def wiped_def keyed_def absent_def split: option.splits)
qed

definition buried :: "string \<Rightarrow> engine \<Rightarrow> bool" where
  "buried i s \<longleftrightarrow> wiped i (en_redis s) \<and> i \<in> en_ids s \<and> i \<notin> en_staged s"

lemma buried_step: "qstep s s' \<Longrightarrow> buried i s \<Longrightarrow> buried i s'"
proof (induction rule: qstep.induct)
  case (claim s w ls expiry its r')
  then show ?case using wiped_scripts(1) [of i "en_redis s" expiry ls] by (simp add: buried_def)
next
  case (fail s w c cs registered tm base cap now st r')
  then show ?case using wiped_requeue [of i "en_redis s" base cap now "tm_id tm" "tc_lease c"] by (simp add: buried_def)
next
  case (fail_lost s w c cs registered tm r' base cap now)
  then show ?case using wiped_requeue [of i "en_redis s" base cap now "tm_id tm" "tc_lease c"] by (auto simp: buried_def)
next
  case (ack s w ids r')
  then show ?case using wiped_ack [of i "en_redis s" "ws_acks (en_workers s w)"] by (simp add: buried_def)
next
  case (beat j l s w lease now ok r')
  then show ?case using wiped_scripts(2) [of i "en_redis s" lease now j l] by (simp add: buried_def)
next
  case (recover base cap now j s st r')
  then show ?case using wiped_requeue [of i "en_redis s" base cap now j "[]"] by (simp add: buried_def)
next
  case (promote now j s ok r')
  then show ?case using wiped_scripts(3) [of i "en_redis s" now j] by (simp add: buried_def)
next
  case (book r' s)
  then show ?case using wiped_core [of r' "en_redis s" i] by (simp add: buried_def)
qed (auto simp: buried_def wiped_def keyed_def absent_def set_task_def lpush_immediate_def)

lemma buried_run: "qstep\<^sup>*\<^sup>* s t \<Longrightarrow> buried i s \<Longrightarrow> buried i t"
  by (induction rule: rtranclp_induct) (auto intro: buried_step)

definition deletions :: "string \<Rightarrow> api_call set" where
  "deletions i = {DeleteJob i, DeleteDlq i, CancelDelayed i}"

definition retries :: "string \<Rightarrow> api_call set" where
  "retries i = {RetryJob i, RequeueJob i, RetryDlq i}"

lemma deletion_wipes:
  assumes "c \<in> deletions i" and "serve ge c (r, l) = Some (NoContent, (r', l'))"
  shows "board_of r' = on_card i (\<lambda>c. no_card) (board_of r)"
  using serve_accepted [OF assms(2)] assms(1) by (auto simp: deletions_def)

lemma retry_releases:
  assumes "c \<in> retries i" and "serve ge c (r, l) = Some (NoContent, (r', l'))"
  shows "rd_leases r' i = None"
proof -
  obtain reset m where q: "reply_found m (requeue i reset (r, l)) = (NoContent, (r', l'))"
    using assms by (auto simp: retries_def h_RetryJob_def h_RequeueJob_def h_RetryDLQ_def)
  then obtain ok where ok: "requeue i reset (r, l) = (Inr ok, (r', l'))" by (rule reply_found_ok) auto
  with q have ok by (auto simp: reply_found_def split: if_splits)
  with requeue_ok [OF ok] have "jc_lease (bd_jobs (board_of r') i) = None"
    by (simp add: on_card_def requeue_card_def requeued_def no_card_def)
  then show ?thesis by (simp add: board_of_def)
qed

section \<open>Properties\<close>


text \<open>A job is deleted while worker 0 runs it; then the worker fails the job it still has in its batch.\<close>

definition delete_left :: redis where
  "delete_left = empty_redis"

lemma demo_delete: "serve sample_env (DeleteJob ''t1'') (en_redis demo_claimed, sample_link None) = Some (NoContent, (delete_left, sample_link None))"
  by (auto simp: h_DeleteJob_def deleteTask_def takeDead_def delete_pipe_def redis_defs demo_defs delete_left_def zrem_def
      reply_done_def sample_link_def run_def)


text \<open>
  (C31) Unless there is a journal. The handlers do not touch it, so when the deleted job is one the journal holds as not
  finished, as that of every task that was queued, scheduled or running is, the next sweep of the reconciler
  puts the job back into Redis with the body it was enqueued with.
\<close>

theorem deleted_job_resurrected:
  assumes "c \<in> deletions (jr_id x)" and "serve ge c (r, l) = Some (NoContent, (r', l'))" and "x \<in> set rows" and "is_active x"
    and "distinct (map jr_id rows)" and "list_all (\<lambda>x. fst zero_cursor < jr_created x) rows" and "up l1" and "up l2"
  shows "bd_jobs (board_of r') (jr_id x) = no_card
     \<and> (\<exists>r2 rows2. reconcile_ticks clocks (Suc (length (filter is_active rows) div reconcilePageSize)) (zero_cursor, (r', l1), (rows, l2)) =
          (zero_cursor, (r2, l1), (rows2, l2)) \<and> rd_task r2 (jr_id x) = Some (jr_payload x) \<and> places r2 (jr_id x) = 1 \<and> jr_id x \<in> live r2)"
proof -
  from deletion_wipes [OF assms(1,2)] have gone: "bd_jobs (board_of r') (jr_id x) = no_card" by (simp add: on_card_def)
  then have "absent (jr_id x) r'" by (simp add: absent_card)
  then have none: "jr_id x \<notin> live r'" "places r' (jr_id x) = 0"
    by (auto simp: absent_def live_def places_def count_list_0_iff List.map_filter_def)
  from sweep_heals [OF assms(7,8,5,6), of clocks r'] obtain r2 rows2 where
    "reconcile_ticks clocks (Suc (length (filter is_active rows) div reconcilePageSize)) (zero_cursor, (r', l1), (rows, l2)) =
      (zero_cursor, (r2, l1), (rows2, l2))" "healed r' r2 x" using assms(3,4) by blast
  with gone none show ?thesis by (auto simp: healed_def)
qed

theorem deleted_job_resurrected_witness:
  "\<exists>r2 rows2. reconcile_ticks (\<lambda>_ _. 9) 1 (zero_cursor, (delete_left, sample_link None), ([lost_row], sample_link None)) =
      (zero_cursor, (r2, sample_link None), (rows2, sample_link None)) \<and> rd_task r2 ''t1'' = Some (Body demo_task) \<and> places r2 ''t1'' = 1"
proof -
  have h: "DeleteJob ''t1'' \<in> deletions (jr_id lost_row)" "lost_row \<in> set [lost_row]" "is_active lost_row" "distinct (map jr_id [lost_row])"
    "list_all (\<lambda>x. fst zero_cursor < jr_created x) [lost_row]" "up (sample_link None)" "up (sample_link None)"
    by (simp_all add: deletions_def lost_row_def is_active_def zero_cursor_def sample_link_def)
  have n: "Suc (length (filter is_active [lost_row]) div reconcilePageSize) = 1"
    using h(3) by (simp add: reconcilePageSize_def)
  from deleted_job_resurrected [OF h(1) demo_delete h(2-), where clocks = "\<lambda>_ _. 9"] n show ?thesis
    by (auto simp: lost_row_def)
qed

text \<open>
  An operator's decision overrides the worker that runs the job: after a delete, a cancel, a retry or a requeue of a job
  that a worker holds has been answered with 204, that worker's acknowledgement, retry and heartbeat for the job
  are rejected at every later moment, whatever workers, loops and other calls do in between.
\<close>

theorem operator_overrides_worker:
  assumes "estep\<^sup>*\<^sup>* engine_init s" and "held s w i l" and "c \<in> deletions i \<union> retries i"
    and "serve ge c (en_redis s, lk) = Some (NoContent, (r', lk'))" and "estep\<^sup>*\<^sup>* (s\<lparr>en_redis := r'\<rparr>) t"
  shows "ack_script [(i, l)] (en_redis t) = ([], en_redis t)
     \<and> requeue_script base cap now i l (en_redis t) = (RqFenced, en_redis t)
     \<and> beat_script lease now i l (en_redis t) = (False, en_redis t)"
proof -
  from held_inv_reach [OF assms(1)] held_lease [OF assms(2)] have l: "l \<in> en_issued s" "l \<noteq> []"
    by (auto simp: held_inv_def)
  have "rd_leases r' i = None"
  proof (cases "c \<in> retries i")
    case False
    with deletion_wipes [OF _ assms(4), of i] assms(3) have "jc_lease (bd_jobs (board_of r') i) = None"
      by (simp add: on_card_def no_card_def)
    then show ?thesis by (simp add: board_of_def)
  qed (use retry_releases assms(4) in blast)
  with lost_stays_lost [OF assms(5), of l i] l show ?thesis
    by (simp add: requeue_script_def beat_script_def)
qed

theorem operator_overrides_worker_witness:
  "ack_script [(''t1'', ''l1'')] delete_left = ([], delete_left)"
proof -
  have "held demo_claimed 0 ''t1'' ''l1''" by (simp add: held_def demo_defs)
  from operator_overrides_worker [OF reachable_estep [OF demo_claimed_reachable] this _ demo_delete rtranclp.rtrancl_refl] show ?thesis
    by (simp add: deletions_def)
qed

end
