(* ===== verification/Middleware.thy ===== *)
theory Middleware
  imports Prelude Complex_Main "HOL-Library.AList"
begin

text \<open>
  What every request passes before the router of the HTTP server: the middleware of
  \<open>internal/httpapi/middleware.go\<close>, the token buckets of \<open>internal/httpapi/ratelimit.go\<close> and the login guard of
  \<open>server.go\<close>. Instants and durations are nanoseconds. The buckets' doubles are rationals here, so tokens
  are exact. A map of buckets is an association list with one entry per key; nothing depends on its order.
\<close>

section \<open>Requests\<close>

text \<open>\<open>hr_header\<close> is \<open>Header.Get\<close>: the first value, or the empty text. \<open>hr_limit\<close>: the reader installed by \<open>limitBody\<close>.\<close>

record server_request =
  hr_method :: string
  hr_header :: "string \<Rightarrow> string"
  hr_tls :: bool
  hr_remote :: string
  hr_body :: string
  hr_limit :: "int option"

record http_response =
  hs_status :: int
  hs_headers :: "(string \<times> string) list"
  hs_message :: string

text \<open>A handler gets the headers set so far and answers.\<close>

type_synonym http_handler = "server_request \<Rightarrow> (string \<times> string) list \<Rightarrow> http_response"

definition set_header :: "string \<Rightarrow> string \<Rightarrow> (string \<times> string) list \<Rightarrow> (string \<times> string) list" where
  "set_header k v hs = filter (\<lambda>p. fst p \<noteq> k) hs @ [(k, v)]"

definition get_header :: "(string \<times> string) list \<Rightarrow> string \<Rightarrow> string" where
  "get_header hs k = (case map_of hs k of None \<Rightarrow> [] | Some v \<Rightarrow> v)"

text \<open>\<open>strings.Split\<close> at one character, \<open>strings.EqualFold\<close> on ASCII.\<close>

fun split_on :: "char \<Rightarrow> string \<Rightarrow> string list" where
  "split_on c [] = [[]]"
| "split_on c (x # xs) =
     (if x = c then [] # split_on c xs
      else (case split_on c xs of [] \<Rightarrow> [[x]] | p # ps \<Rightarrow> (x # p) # ps))"

definition EqualFold :: "string \<Rightarrow> string \<Rightarrow> bool" where
  "EqualFold a b \<longleftrightarrow> to_lower a = to_lower b"

section \<open>The middleware\<close>

definition quoted_none :: string where
  "quoted_none = CHR 0x27 # ''none'' @ [CHR 0x27]"

definition securityHeaders :: "http_handler \<Rightarrow> http_handler" where
  "securityHeaders nxt r hs =
     (let h1 = set_header ''X-Content-Type-Options'' ''nosniff'' hs;
          h2 = set_header ''X-Frame-Options'' ''DENY'' h1;
          h3 = set_header ''Referrer-Policy'' ''no-referrer'' h2;
          h4 = set_header ''Content-Security-Policy'' (''default-src '' @ quoted_none @ ''; frame-ancestors '' @ quoted_none) h3
      in nxt r (if hr_tls r \<or> EqualFold (hr_header r ''X-Forwarded-Proto'') ''https''
                then set_header ''Strict-Transport-Security'' ''max-age=31536000; includeSubDomains'' h4 else h4))"

definition cors_headers :: "string \<Rightarrow> (string \<times> string) list \<Rightarrow> (string \<times> string) list" where
  "cors_headers origin hs =
     (let h1 = set_header ''Access-Control-Allow-Origin'' origin hs;
          h2 = set_header ''Access-Control-Allow-Methods'' ''GET, POST, DELETE, PUT, OPTIONS'' h1;
          h3 = set_header ''Access-Control-Allow-Headers'' ''Content-Type, Authorization'' h2;
          h4 = set_header ''Access-Control-Max-Age'' ''600'' h3
      in h4 @ [(''Vary'', ''Origin'')])"

definition corsMiddleware :: "string list \<Rightarrow> http_handler \<Rightarrow> http_handler" where
  "corsMiddleware allowed nxt r hs =
     (let st = filter (\<lambda>s. s \<noteq> []) (map js_trim allowed);
          origin = hr_header r ''Origin'';
          hs1 = (if origin \<noteq> [] \<and> origin \<in> set st then cors_headers origin hs else hs)
      in if hr_method r = ''OPTIONS'' then \<lparr>hs_status = 204, hs_headers = hs1, hs_message = []\<rparr> else nxt r hs1)"

definition limitBody :: "int \<Rightarrow> http_handler \<Rightarrow> http_handler" where
  "limitBody maxBytes nxt r hs = nxt (r\<lparr>hr_limit := Some maxBytes\<rparr>) hs"

text \<open>Reading the body to its end: \<open>MaxBytesReader\<close> fails past its limit, a negative one counting as zero.\<close>

definition read_body :: "server_request \<Rightarrow> string + string" where
  "read_body r =
     (case hr_limit r of
        None \<Rightarrow> Inr (hr_body r)
      | Some n \<Rightarrow> if int (length (hr_body r)) \<le> max 0 n then Inr (hr_body r) else Inl ''http: request body too large'')"

definition clientIP :: "server_request \<Rightarrow> string" where
  "clientIP r =
     (let xff = hr_header r ''X-Forwarded-For'';
          first = js_trim (hd (split_on (CHR '','') xff));
          host = hr_remote r;
          peer = (if CHR '':'' \<in> set host then rev (tl (dropWhile (\<lambda>c. c \<noteq> CHR '':'') (rev host))) else host)
      in if xff \<noteq> [] \<and> first \<noteq> [] then first else peer)"

definition parseOrigins :: "string \<Rightarrow> string list" where
  "parseOrigins raw = filter (\<lambda>s. s \<noteq> []) (map js_trim (split_on (CHR '','') raw))"

text \<open>\<open>strconv.ParseInt(s, 10, 64)\<close>: a sign or none, digits, and in range.\<close>

definition ParseInt64 :: "string \<Rightarrow> int option" where
  "ParseInt64 s =
     (let (sgn, ds) = (case s of
            CHR ''-'' # t \<Rightarrow> (-1, t)
          | CHR ''+'' # t \<Rightarrow> (1, t)
          | _ \<Rightarrow> (1, s));
          v = sgn * int (digits_val ds)
      in if ds \<noteq> [] \<and> list_all is_digit ds \<and> - (2 ^ 63) \<le> v \<and> v < 2 ^ 63 then Some v else None)"

definition envInt64 :: "string \<Rightarrow> int \<Rightarrow> int" where
  "envInt64 raw dflt = (if raw = [] then dflt else case ParseInt64 (js_trim raw) of None \<Rightarrow> dflt | Some v \<Rightarrow> v)"

text \<open>The chain of \<open>NewServer\<close> around the router.\<close>

definition server_chain :: "string \<Rightarrow> string \<Rightarrow> http_handler \<Rightarrow> http_handler" where
  "server_chain corsOrigins maxBodyBytes mux =
     securityHeaders (corsMiddleware (parseOrigins corsOrigins) (limitBody (envInt64 maxBodyBytes (2 ^ 20)) mux))"

section \<open>Token buckets\<close>

record bucket =
  bk_tokens :: rat
  bk_last :: int

record rateLimiter =
  rl_buckets :: "(string \<times> bucket) list"
  rl_rate :: rat
  rl_burst :: rat

definition newRateLimiter :: "rat \<Rightarrow> rat \<Rightarrow> rateLimiter" where
  "newRateLimiter ratePerSecond burst =
     \<lparr>rl_buckets = [], rl_rate = (if ratePerSecond \<le> 0 then 1 / 5 else ratePerSecond), rl_burst = (if burst \<le> 0 then 10 else burst)\<rparr>"

definition seconds :: "int \<Rightarrow> rat" where
  "seconds d = of_int d / 10 ^ 9"

definition sweepLocked :: "int \<Rightarrow> rateLimiter \<Rightarrow> rateLimiter" where
  "sweepLocked now l = l\<lparr>rl_buckets := filter (\<lambda>(k, b). \<not> now - bk_last b > 600 * 10 ^ 9) (rl_buckets l)\<rparr>"

definition refill :: "rateLimiter \<Rightarrow> int \<Rightarrow> bucket \<Rightarrow> bucket" where
  "refill l now b =
     (let elapsed = seconds (now - bk_last b) in
      if elapsed > 0 then
        let t = bk_tokens b + elapsed * rl_rate l in \<lparr>bk_tokens = (if t > rl_burst l then rl_burst l else t), bk_last = now\<rparr>
      else b)"

definition allow :: "int \<Rightarrow> string \<Rightarrow> rateLimiter \<Rightarrow> bool \<times> rateLimiter" where
  "allow now key l =
     (let b = refill l now (case map_of (rl_buckets l) key of Some b \<Rightarrow> b | None \<Rightarrow> \<lparr>bk_tokens = rl_burst l, bk_last = now\<rparr>);
          put = (\<lambda>b. l\<lparr>rl_buckets := AList.update key b (rl_buckets l)\<rparr>)
      in if bk_tokens b < 1 then (False, put b)
         else
           let l1 = put (b\<lparr>bk_tokens := bk_tokens b - 1\<rparr>) in
           (True, if length (rl_buckets l1) > 4096 then sweepLocked now l1 else l1))"

definition too_many :: "string \<Rightarrow> (string \<times> string) list \<Rightarrow> http_response" where
  "too_many msg hs =
     \<lparr>hs_status = 429, hs_headers = set_header ''Content-Type'' ''application/json'' (set_header ''Retry-After'' ''60'' hs), hs_message = msg\<rparr>"

definition limiter_middleware :: "int \<Rightarrow> http_handler \<Rightarrow> server_request \<Rightarrow> (string \<times> string) list \<Rightarrow> rateLimiter \<Rightarrow> http_response \<times> rateLimiter" where
  "limiter_middleware now nxt r hs l =
     (case allow now (clientIP r) l of (ok, l1) \<Rightarrow> (if ok then nxt r hs else too_many ''too many requests'' hs, l1))"

section \<open>The login guard\<close>

record login_guard =
  lgd_global :: rateLimiter
  lgd_ip :: rateLimiter

definition new_guard :: login_guard where
  "new_guard = \<lparr>lgd_global = newRateLimiter 20 40, lgd_ip = newRateLimiter (1 / 5) 10\<rparr>"

text \<open>Each limiter reads the clock; the second is not asked when the first refuses.\<close>

definition admit :: "int \<Rightarrow> int \<Rightarrow> string \<Rightarrow> login_guard \<Rightarrow> bool \<times> login_guard" where
  "admit t1 t2 ip g =
     (case allow t1 ''global'' (lgd_global g) of
        (False, gl) \<Rightarrow> (False, g\<lparr>lgd_global := gl\<rparr>)
      | (True, gl) \<Rightarrow> (case allow t2 ip (lgd_ip g) of (ok, il) \<Rightarrow> (ok, \<lparr>lgd_global = gl, lgd_ip = il\<rparr>)))"

definition loginLimiter ::
  "int \<Rightarrow> int \<Rightarrow> http_handler \<Rightarrow> server_request \<Rightarrow> (string \<times> string) list \<Rightarrow> login_guard \<Rightarrow> http_response \<times> login_guard" where
  "loginLimiter t1 t2 nxt r hs g =
     (case admit t1 t2 (clientIP r) g of
        (ok, g1) \<Rightarrow> (if ok then nxt r hs else too_many ''too many login attempts, try again later'' hs, g1))"

section \<open>What a bucket can give\<close>

definition rl_ok :: "rateLimiter \<Rightarrow> int \<Rightarrow> bool" where
  "rl_ok l t \<longleftrightarrow> 0 < rl_rate l \<and> 0 \<le> rl_burst l \<and> rl_burst l \<le> 600 * rl_rate l \<and> distinct (map fst (rl_buckets l))
     \<and> (\<forall>k b. map_of (rl_buckets l) k = Some b \<longrightarrow> 0 \<le> bk_tokens b \<and> bk_tokens b \<le> rl_burst l \<and> bk_last b \<le> t)"

text \<open>The tokens a key has at an instant; a key without a bucket has all of them.\<close>

definition avail :: "rateLimiter \<Rightarrow> string \<Rightarrow> int \<Rightarrow> rat" where
  "avail l k t =
     (case map_of (rl_buckets l) k of
        None \<Rightarrow> rl_burst l
      | Some b \<Rightarrow> min (rl_burst l) (bk_tokens b + seconds (t - bk_last b) * rl_rate l))"

lemma seconds_mono: "a \<le> b \<Longrightarrow> seconds a \<le> seconds b"
  by (simp add: seconds_def divide_right_mono)

lemma seconds_add: "seconds (a + b) = seconds a + seconds b"
  by (simp add: seconds_def add_divide_distrib)

lemma seconds_0 [simp]: "seconds 0 = 0"
  by (simp add: seconds_def)

lemma seconds_pos: "0 < seconds a \<longleftrightarrow> 0 < a"
  by (simp add: seconds_def)

lemma avail_bounds: "rl_ok l t \<Longrightarrow> 0 \<le> avail l k t \<and> avail l k t \<le> rl_burst l"
  using seconds_mono [of 0] by (auto simp: rl_ok_def avail_def split: option.splits)

lemma rl_ok_later: "rl_ok l t \<Longrightarrow> t \<le> t' \<Longrightarrow> rl_ok l t'"
  unfolding rl_ok_def by fastforce

lemma avail_later:
  assumes "rl_ok l t" and "t \<le> t'"
  shows "avail l k t' \<le> avail l k t + seconds (t' - t) * rl_rate l"
proof -
  let ?d = "seconds (t' - t) * rl_rate l"
  have d: "0 \<le> ?d" using assms seconds_mono [of 0 "t' - t"] by (auto simp: rl_ok_def)
  show ?thesis
  proof (cases "map_of (rl_buckets l) k")
    case (Some b)
    let ?x = "bk_tokens b + seconds (t - bk_last b) * rl_rate l"
    have "seconds (t' - bk_last b) * rl_rate l = seconds (t - bk_last b) * rl_rate l + ?d"
      using seconds_add [of "t - bk_last b" "t' - t"] by (simp add: distrib_right)
    then have "bk_tokens b + seconds (t' - bk_last b) * rl_rate l = ?x + ?d" by simp
    moreover have "min (rl_burst l) (?x + ?d) \<le> min (rl_burst l) ?x + ?d" using d by linarith
    ultimately show ?thesis using Some by (simp add: avail_def)
  qed (use d in \<open>simp add: avail_def\<close>)
qed

lemma map_of_filter:
  "distinct (map fst al) \<Longrightarrow> map_of (filter P al) k = (case map_of al k of None \<Rightarrow> None | Some v \<Rightarrow> if P (k, v) then Some v else None)"
  by (induction al) (auto split: option.splits simp: map_of_eq_None_iff rev_image_eqI)

lemma sweep_avail:
  assumes "rl_ok l t"
  shows "rl_ok (sweepLocked t l) t \<and> avail (sweepLocked t l) k t = avail l k t"
proof -
  have d: "distinct (map fst (rl_buckets l))" using assms by (simp add: rl_ok_def)
  let ?P = "\<lambda>(k, b). \<not> t - bk_last b > 600 * 10 ^ 9"
  have m: "map_of (rl_buckets (sweepLocked t l)) k =
      (case map_of (rl_buckets l) k of None \<Rightarrow> None | Some b \<Rightarrow> if ?P (k, b) then Some b else None)" for k
    by (simp add: sweepLocked_def map_of_filter [OF d] split: option.splits)
  have full: "rl_burst l \<le> bk_tokens b + seconds (t - bk_last b) * rl_rate l"
    if "map_of (rl_buckets l) k = Some b" "600 * 10 ^ 9 < t - bk_last b" for b
  proof -
    have "seconds (600 * 10 ^ 9) \<le> seconds (t - bk_last b)" using that(2) by (intro seconds_mono) simp
    then have "600 \<le> seconds (t - bk_last b)" by (simp add: seconds_def)
    then have "600 * rl_rate l \<le> seconds (t - bk_last b) * rl_rate l" using assms by (intro mult_right_mono) (auto simp: rl_ok_def)
    moreover have "rl_burst l \<le> 600 * rl_rate l" "0 \<le> bk_tokens b" using assms that(1) by (auto simp: rl_ok_def)
    ultimately show ?thesis by linarith
  qed
  have "rl_ok (sweepLocked t l) t"
    using assms d by (auto simp: rl_ok_def m distinct_map_filter split: option.splits if_splits) (auto simp: sweepLocked_def distinct_map_filter)
  moreover have "avail (sweepLocked t l) k t = avail l k t"
    unfolding avail_def m using full by (auto simp: sweepLocked_def min_def split: option.splits)
  ultimately show ?thesis by simp
qed

lemma refill_eq:
  assumes "bk_last b \<le> t" and "bk_tokens b \<le> rl_burst l"
  shows "refill l t b = \<lparr>bk_tokens = min (rl_burst l) (bk_tokens b + seconds (t - bk_last b) * rl_rate l), bk_last = t\<rparr>"
proof (cases "bk_last b = t")
  case False
  with assms(1) have "0 < seconds (t - bk_last b)" by (simp add: seconds_pos)
  then show ?thesis by (simp add: refill_def Let_def min_def)
qed (use assms in \<open>simp add: refill_def min_def\<close>)

text \<open>A call takes one token of its key when it is allowed, and nothing otherwise; the sweep takes none.\<close>

lemma put_avail:
  assumes "rl_ok l t" and "0 \<le> x" "x \<le> rl_burst l"
    and "l1 = l\<lparr>rl_buckets := AList.update k \<lparr>bk_tokens = x, bk_last = t\<rparr> (rl_buckets l)\<rparr>"
  shows "rl_ok l1 t \<and> avail l1 j t = (if j = k then x else avail l j t)"
  using assms by (auto simp: rl_ok_def avail_def update_conv' distinct_update split: option.splits)

lemma allow_effect:
  assumes ok: "rl_ok l t" and al: "allow t k l = (res, l')"
  shows "rl_ok l' t \<and> rl_rate l' = rl_rate l \<and> rl_burst l' = rl_burst l \<and> res = (1 \<le> avail l k t)
     \<and> avail l' j t = avail l j t - (if res \<and> j = k then 1 else 0)"
proof -
  let ?b = "refill l t (case map_of (rl_buckets l) k of Some b \<Rightarrow> b | None \<Rightarrow> \<lparr>bk_tokens = rl_burst l, bk_last = t\<rparr>)"
  have b: "?b = \<lparr>bk_tokens = avail l k t, bk_last = t\<rparr>"
    using ok by (auto simp: avail_def rl_ok_def refill_eq split: option.splits)
  let ?put = "\<lambda>x. l\<lparr>rl_buckets := AList.update k \<lparr>bk_tokens = x, bk_last = t\<rparr> (rl_buckets l)\<rparr>"
  note av = avail_bounds [OF ok, of k]
  show ?thesis
  proof (cases "avail l k t < 1")
    case True
    with al have "res = False" "l' = ?put (avail l k t)" by (simp_all add: allow_def Let_def b)
    with put_avail [OF ok _ _ refl, of "avail l k t" k j] av True show ?thesis by auto
  next
    case False
    let ?l1 = "?put (avail l k t - 1)"
    from False al have l': "res = True" "l' = (if length (rl_buckets ?l1) > 4096 then sweepLocked t ?l1 else ?l1)"
      by (simp_all add: allow_def Let_def b)
    have "0 \<le> avail l k t - 1" "avail l k t - 1 \<le> rl_burst l" using False av by auto
    from put_avail [OF ok this refl, of k j] have "rl_ok ?l1 t" "avail ?l1 j t = (if j = k then avail l k t - 1 else avail l j t)" by auto
    moreover have "rl_rate (sweepLocked t ?l1) = rl_rate l" "rl_burst (sweepLocked t ?l1) = rl_burst l"
      by (simp_all add: sweepLocked_def)
    ultimately show ?thesis using l' sweep_avail [of ?l1 t j] False by auto
  qed
qed

section \<open>Sequences of login requests\<close>

text \<open>Requests with the two readings of the clock; the result is those that reach the login handler.\<close>

type_synonym attempts = "(int \<times> int \<times> server_request) list"

fun login_run :: "attempts \<Rightarrow> login_guard \<Rightarrow> server_request list \<times> login_guard" where
  "login_run [] g = ([], g)"
| "login_run ((t1, t2, r) # es) g =
     (case admit t1 t2 (clientIP r) g of
        (ok, g1) \<Rightarrow> (case login_run es g1 of (rs, g2) \<Rightarrow> (if ok then r # rs else rs, g2)))"

fun in_window :: "int \<Rightarrow> int \<Rightarrow> attempts \<Rightarrow> bool" where
  "in_window s e [] = (s \<le> e)"
| "in_window s e ((t1, t2, r) # es) = (s \<le> t1 \<and> t1 \<le> t2 \<and> in_window t2 e es)"

definition guard_ok :: "login_guard \<Rightarrow> int \<Rightarrow> bool" where
  "guard_ok g t \<longleftrightarrow> rl_ok (lgd_global g) t \<and> rl_ok (lgd_ip g) t"

lemma admit_effect:
  assumes "guard_ok g s" and "s \<le> t1" and "t1 \<le> t2" and "admit t1 t2 ip g = (ok, g1)"
  shows "guard_ok g1 t2 \<and> rl_rate (lgd_global g1) = rl_rate (lgd_global g) \<and> rl_rate (lgd_ip g1) = rl_rate (lgd_ip g)
     \<and> avail (lgd_global g1) ''global'' t2 \<le> avail (lgd_global g) ''global'' s + seconds (t2 - s) * rl_rate (lgd_global g) - (if ok then 1 else 0)
     \<and> avail (lgd_ip g1) a t2 \<le> avail (lgd_ip g) a s + seconds (t2 - s) * rl_rate (lgd_ip g) - (if ok \<and> ip = a then 1 else 0)"
proof -
  let ?G = "lgd_global g" and ?I = "lgd_ip g"
  have G: "rl_ok ?G t1" and I: "rl_ok ?I t2" "rl_ok ?I s" "rl_ok ?G s"
    using assms(1-3) rl_ok_later by (auto simp: guard_ok_def)
  obtain ok1 gl where al: "allow t1 ''global'' ?G = (ok1, gl)" by fastforce
  note e1 = allow_effect [OF G al, of "''global''"]
  have g1: "avail gl ''global'' t2 \<le> avail ?G ''global'' s + seconds (t2 - s) * rl_rate ?G - (if ok1 then 1 else 0)"
  proof -
    have "avail gl ''global'' t2 \<le> avail gl ''global'' t1 + seconds (t2 - t1) * rl_rate gl"
      using e1 assms(3) by (intro avail_later) auto
    moreover have "avail ?G ''global'' t1 \<le> avail ?G ''global'' s + seconds (t1 - s) * rl_rate ?G"
      using I(3) assms(2) by (rule avail_later)
    moreover have "seconds (t2 - s) = seconds (t2 - t1) + seconds (t1 - s)" using seconds_add [of "t2 - t1" "t1 - s"] by simp
    ultimately show ?thesis using e1 by (auto simp: distrib_right)
  qed
  have i0: "avail ?I a t2 \<le> avail ?I a s + seconds (t2 - s) * rl_rate ?I" using I(2) assms(2,3) by (intro avail_later) auto
  show ?thesis
  proof (cases ok1)
    case True
    obtain il where al2: "allow t2 ip ?I = (ok, il)" and g1': "g1 = \<lparr>lgd_global = gl, lgd_ip = il\<rparr>"
      using assms(4) al True by (auto simp: admit_def split: prod.splits)
    from allow_effect [OF I(1) al2, of a] i0 e1 g1 g1' True rl_ok_later [of gl t1 t2] assms(3) show ?thesis
      by (auto simp: guard_ok_def)
  next
    case False
    with assms(4) al have "ok = False" "g1 = g\<lparr>lgd_global := gl\<rparr>" by (auto simp: admit_def)
    with i0 e1 g1 False rl_ok_later [of gl t1 t2] I(1) assms(3) show ?thesis by (auto simp: guard_ok_def)
  qed
qed

lemma login_run_bound:
  "guard_ok g s \<Longrightarrow> in_window s e es \<Longrightarrow> login_run es g = (rs, g') \<Longrightarrow>
     of_nat (length (filter (\<lambda>r. clientIP r = a) rs)) \<le> avail (lgd_ip g) a s + seconds (e - s) * rl_rate (lgd_ip g)
     \<and> of_nat (length rs) \<le> avail (lgd_global g) ''global'' s + seconds (e - s) * rl_rate (lgd_global g)"
proof (induction es arbitrary: g s rs)
  case Nil
  have "0 \<le> seconds (e - s)" using Nil seconds_mono [of 0 "e - s"] by simp
  with Nil avail_bounds show ?case by (auto simp: guard_ok_def rl_ok_def)
next
  case (Cons x es)
  obtain t1 t2 r where x: "x = (t1, t2, r)" by (metis surj_pair)
  obtain ok g1 where ad: "admit t1 t2 (clientIP r) g = (ok, g1)" by fastforce
  obtain rs1 where run: "login_run es g1 = (rs1, g')" and rs: "rs = (if ok then r # rs1 else rs1)"
    using Cons.prems(3) x ad by (auto split: prod.splits)
  from Cons.prems(2) x have t: "s \<le> t1" "t1 \<le> t2" "in_window t2 e es" by auto
  note ef = admit_effect [OF Cons.prems(1) t(1,2) ad, of a]
  have "seconds (e - s) = seconds (e - t2) + seconds (t2 - s)" using seconds_add [of "e - t2" "t2 - s"] by simp
  with Cons.IH [OF _ t(3) run] ef rs show ?case by (auto simp: distrib_right)
qed

lemma new_guard_ok: "guard_ok new_guard t" "avail (lgd_ip new_guard) a t = 10" "avail (lgd_global new_guard) b t = 40"
  by (simp_all add: guard_ok_def rl_ok_def new_guard_def newRateLimiter_def avail_def)

text \<open>Requests at one instant: the global bucket pays for each, whatever the address's own bucket says.\<close>

lemma burst_admit:
  assumes "guard_ok g t" and "avail (lgd_global g) ''global'' t = of_nat n" and "admit t t ip g = (ok, g1)"
  shows "guard_ok g1 t \<and> avail (lgd_global g1) ''global'' t = of_nat (n - 1) \<and> ok = (0 < n \<and> 1 \<le> avail (lgd_ip g) ip t)
     \<and> (a \<noteq> ip \<longrightarrow> avail (lgd_ip g1) a t = avail (lgd_ip g) a t)"
proof -
  have G: "rl_ok (lgd_global g) t" and I: "rl_ok (lgd_ip g) t" using assms(1) by (auto simp: guard_ok_def)
  obtain ok1 gl where al: "allow t ''global'' (lgd_global g) = (ok1, gl)" by fastforce
  note e1 = allow_effect [OF G al, of "''global''"]
  obtain ok2 il where al2: "allow t ip (lgd_ip g) = (ok2, il)" by fastforce
  note e2 = allow_effect [OF I al2, of a]
  from assms(3) al al2 have r: "ok = (ok1 \<and> ok2)" "g1 = (if ok1 then \<lparr>lgd_global = gl, lgd_ip = il\<rparr> else g\<lparr>lgd_global := gl\<rparr>)"
    by (auto simp: admit_def split: if_splits bool.splits)
  have ok1: "ok1 = (0 < n)" using e1 assms(2) by auto
  then have "avail gl ''global'' t = of_nat (n - 1)" using e1 assms(2) by (cases n) auto
  with r ok1 e1 e2 I show ?thesis by (auto simp: guard_ok_def)
qed

lemma burst_run:
  "guard_ok g t \<Longrightarrow> avail (lgd_global g) ''global'' t = of_nat n \<Longrightarrow> login_run (map (\<lambda>r. (t, t, r)) reqs) g = (rs, g') \<Longrightarrow>
     guard_ok g' t \<and> avail (lgd_global g') ''global'' t = of_nat (n - length reqs)"
proof (induction reqs arbitrary: g n rs)
  case (Cons r reqs)
  obtain ok g1 where ad: "admit t t (clientIP r) g = (ok, g1)" by fastforce
  obtain rs1 where "login_run (map (\<lambda>r. (t, t, r)) reqs) g1 = (rs1, g')"
    using Cons.prems(3) ad by (auto split: prod.splits)
  with Cons.IH [of g1 "n - 1"] burst_admit [OF Cons.prems(1,2) ad] show ?case by simp
qed simp

lemma fresh_run:
  "guard_ok g t \<Longrightarrow> avail (lgd_global g) ''global'' t = of_nat n \<Longrightarrow> length reqs \<le> n \<Longrightarrow> distinct (map clientIP reqs) \<Longrightarrow>
     \<forall>r\<in>set reqs. 1 \<le> avail (lgd_ip g) (clientIP r) t \<Longrightarrow> fst (login_run (map (\<lambda>r. (t, t, r)) reqs) g) = reqs"
proof (induction reqs arbitrary: g n)
  case (Cons r reqs)
  obtain ok g1 where ad: "admit t t (clientIP r) g = (ok, g1)" by fastforce
  note e = burst_admit [OF Cons.prems(1,2) ad]
  have "fst (login_run (map (\<lambda>r. (t, t, r)) reqs) g1) = reqs"
  proof (rule Cons.IH [of g1 "n - 1"])
    show "\<forall>q\<in>set reqs. 1 \<le> avail (lgd_ip g1) (clientIP q) t"
    proof
      fix q assume q: "q \<in> set reqs"
      with Cons.prems(4) have "clientIP q \<noteq> clientIP r" by (metis distinct.simps(2) image_eqI list.set_map list.simps(9))
      with e [of "clientIP q"] Cons.prems(5) q show "1 \<le> avail (lgd_ip g1) (clientIP q) t" by simp
    qed
  qed (use e Cons.prems in auto)
  moreover have ok using e Cons.prems(3,5) by simp
  ultimately show ?case using ad by (auto split: prod.splits)
qed simp

text \<open>An address as a header value: not empty, without comma, without space around it.\<close>

definition addr_text :: "string \<Rightarrow> bool" where
  "addr_text a \<longleftrightarrow> a \<noteq> [] \<and> CHR '','' \<notin> set a \<and> js_trim a = a"

lemma split_on_none: "c \<notin> set s \<Longrightarrow> split_on c s = [s]"
  by (induction s) auto

lemma clientIP_forwarded: "addr_text (hr_header r ''X-Forwarded-For'') \<Longrightarrow> clientIP r = hr_header r ''X-Forwarded-For''"
  by (simp add: addr_text_def clientIP_def split_on_none)

section \<open>Headers\<close>

lemma get_set_header [simp]: "get_header (set_header k v hs) j = (if j = k then v else get_header hs j)"
proof -
  have "map_of (filter (\<lambda>p. fst p \<noteq> k) hs) j = (if j = k then None else map_of hs j)" by (induction hs) auto
  then show ?thesis by (auto simp: get_header_def set_header_def map_add_def split: option.splits)
qed

lemma get_header_append: "get_header (hs @ [(k, v)]) j = (if j \<noteq> k \<or> map_of hs j \<noteq> None then get_header hs j else v)"
  by (auto simp: get_header_def map_add_def split: option.splits)

lemma js_trim_idem [simp]: "js_trim (js_trim s) = js_trim s"
proof -
  let ?x = "dropWhile is_space s" and ?y = "js_trim s"
  have y: "rev ?y = dropWhile is_space (rev ?x)" by (simp add: js_trim_def)
  have "?y = [] \<or> \<not> is_space (hd ?y)"
  proof (cases "?y = []")
    case False
    obtain z where "rev ?x = z @ rev ?y" using y by (metis takeWhile_dropWhile_id)
    then have "?x = ?y @ rev z" by (metis rev_append rev_rev_ident)
    with False have "?x \<noteq> []" "hd ?x = hd ?y" by auto
    then show ?thesis using hd_dropWhile [of is_space s] by (metis dropWhile_eq_Nil_conv)
  qed simp
  then have d: "dropWhile is_space ?y = ?y" by (cases ?y) auto
  have "dropWhile is_space (rev ?y) = rev ?y" by (simp only: y dropWhile_idem)
  with d show ?thesis by (simp add: js_trim_def)
qed

lemma trimmed_origins: "filter (\<lambda>s. s \<noteq> []) (map js_trim (parseOrigins raw)) = parseOrigins raw"
  by (simp add: parseOrigins_def filter_map comp_def)

text \<open>What the router and the handlers behind it must leave alone.\<close>

definition guarded_headers :: "string set" where
  "guarded_headers = {''X-Content-Type-Options'', ''X-Frame-Options'', ''Referrer-Policy'', ''Content-Security-Policy'',
     ''Access-Control-Allow-Origin''}"

definition respects_headers :: "http_handler \<Rightarrow> bool" where
  "respects_headers mux \<longleftrightarrow> (\<forall>r hs. \<forall>k\<in>guarded_headers. get_header (hs_headers (mux r hs)) k = get_header hs k)"

section \<open>Properties\<close>


definition plain_request :: "string \<Rightarrow> string \<Rightarrow> server_request" where
  "plain_request xff peer = \<lparr>hr_method = ''POST'', hr_header = (\<lambda>k. if k = ''X-Forwarded-For'' then xff else []), hr_tls = False,
     hr_remote = peer, hr_body = [], hr_limit = None\<rparr>"


text \<open>
  The limit per address binds only callers that do not lie: the address is the first entry of a header the caller
  sends, so up to forty requests at one instant over one connection, each with another address in that header,
  all reach the login handler.
\<close>

theorem forged_addresses_pass:
  assumes "\<forall>r\<in>set reqs. hr_remote r = peer \<and> addr_text (hr_header r ''X-Forwarded-For'')"
    and "distinct (map (\<lambda>r. hr_header r ''X-Forwarded-For'') reqs)" and "length reqs \<le> 40"
  shows "fst (login_run (map (\<lambda>r. (t, t, r)) reqs) new_guard) = reqs"
proof (rule fresh_run [OF new_guard_ok(1)])
  have "map clientIP reqs = map (\<lambda>r. hr_header r ''X-Forwarded-For'') reqs"
    using assms(1) clientIP_forwarded by auto
  then show "distinct (map clientIP reqs)" using assms(2) by metis
  show "avail (lgd_global new_guard) ''global'' t = of_nat 40" by (simp add: new_guard_ok)
qed (use assms(3) in \<open>simp_all add: new_guard_ok\<close>)

theorem forged_addresses_pass_witness:
  "fst (login_run (map (\<lambda>r. (5, 5, r)) [plain_request ''10.0.0.1'' ''9.9.9.9:1'', plain_request ''10.0.0.2'' ''9.9.9.9:1'']) new_guard) =
     [plain_request ''10.0.0.1'' ''9.9.9.9:1'', plain_request ''10.0.0.2'' ''9.9.9.9:1'']"
  by (rule forged_addresses_pass [where peer = "''9.9.9.9:1''"])
    (simp_all add: plain_request_def addr_text_def js_trim_def is_space_def)

text \<open>
  One client can lock everybody out: the global bucket is charged before the address is looked at, so after forty
  requests at one instant, of which at most ten reach the handler when they come from one address, the login of every
  other client is refused.
\<close>

theorem login_lockout:
  assumes "login_run (map (\<lambda>r. (t, t, r)) reqs) new_guard = (rs, g)" and "40 \<le> length reqs" and "\<forall>r\<in>set reqs. clientIP r = a"
  shows "length rs \<le> 10 \<and> fst (loginLimiter t t nxt r hs g) = too_many ''too many login attempts, try again later'' hs"
proof -
  have "in_window t t (map (\<lambda>r. (t, t, r)) reqs)" by (induction reqs) auto
  from login_run_bound [OF new_guard_ok(1) this assms(1), of a] new_guard_ok(2)
  have few: "of_nat (length (filter (\<lambda>r. clientIP r = a) rs)) \<le> (10 :: rat)" by simp
  have "set (fst (login_run es h)) \<subseteq> (snd \<circ> snd) ` set es" for es h
  proof (induction es arbitrary: h)
    case (Cons x es)
    obtain t1 t2 r where x: "x = (t1, t2, r)" by (metis surj_pair)
    obtain ok h1 where "admit t1 t2 (clientIP r) h = (ok, h1)" by fastforce
    with Cons.IH [of h1] x show ?case by (auto simp: split_beta)
  qed simp
  from this [of "map (\<lambda>r. (t, t, r)) reqs" new_guard] assms(1,3) have "filter (\<lambda>r. clientIP r = a) rs = rs"
    by (auto simp: filter_id_conv)
  with few have "length rs \<le> 10" using of_nat_le_iff [of "length rs" 10, where 'a = rat] by simp
  moreover have e: "guard_ok g t \<and> avail (lgd_global g) ''global'' t = of_nat (40 - length reqs)"
    using burst_run [OF new_guard_ok(1) _ assms(1), of 40] new_guard_ok(3) by simp
  obtain ok g1 where ad: "admit t t (clientIP r) g = (ok, g1)" by fastforce
  with burst_admit [of g t "40 - length reqs"] e assms(2) have "\<not> ok" by auto
  ultimately show ?thesis using ad by (simp add: loginLimiter_def)
qed

theorem login_lockout_witness:
  "\<forall>nxt hs. fst (loginLimiter 5 5 nxt (plain_request [] ''2.2.2.2:7'') hs
     (snd (login_run (map (\<lambda>r. (5, 5, r)) (replicate 40 (plain_request [] ''1.1.1.1:7''))) new_guard))) =
     too_many ''too many login attempts, try again later'' hs"
proof (intro allI)
  fix nxt hs
  let ?reqs = "replicate 40 (plain_request [] ''1.1.1.1:7'')"
  let ?R = "login_run (map (\<lambda>r. (5, 5, r)) ?reqs) new_guard"
  have h: "?R = (fst ?R, snd ?R)" "40 \<le> length ?reqs" "\<forall>r\<in>set ?reqs. clientIP r = ''1.1.1.1''"
    by (simp_all add: clientIP_def plain_request_def)
  from login_lockout [OF h] show "fst (loginLimiter 5 5 nxt (plain_request [] ''2.2.2.2:7'') hs (snd ?R)) =
      too_many ''too many login attempts, try again later'' hs" by blast
qed



end
