(* ===== verification/Tokens.thy ===== *)
theory Tokens
  imports Server_Routes Middleware
begin

text \<open>
  Who may call: the bearer tokens of \<open>internal/auth/token.go\<close>, the password hashes of \<open>password.go\<close>, the
  service of \<open>service.go\<close>, the \<open>Authorization\<close> header of the HTTP server and the interceptor of the gRPC gateway.
  HMAC-SHA-256 and PBKDF2 are parameters: \<open>mac key text\<close> and \<open>kdf password salt iterations length\<close>. Texts are
  bytes; the JSON of a token is written as Go does, and read by the parser of \<open>Json\<close>, which agrees with Go's
  on well-formed UTF-8.
\<close>

section \<open>Base64 without padding\<close>

definition b64_char :: "bool \<Rightarrow> nat \<Rightarrow> char" where
  "b64_char url n =
     (if n < 26 then char_of (65 + n) else if n < 52 then char_of (71 + n) else if n < 62 then char_of (n - 4)
      else if n = 62 then (if url then CHR ''-'' else CHR ''+'') else (if url then CHR ''_'' else CHR ''/''))"

definition b64_val :: "bool \<Rightarrow> char \<Rightarrow> nat option" where
  "b64_val url c =
     (let n = (of_char c :: nat) in
      if 65 \<le> n \<and> n \<le> 90 then Some (n - 65)
      else if 97 \<le> n \<and> n \<le> 122 then Some (n - 71)
      else if 48 \<le> n \<and> n \<le> 57 then Some (n + 4)
      else if c = (if url then CHR ''-'' else CHR ''+'') then Some 62
      else if c = (if url then CHR ''_'' else CHR ''/'') then Some 63
      else None)"

fun b64_sextets :: "nat list \<Rightarrow> nat list" where
  "b64_sextets [] = []"
| "b64_sextets [a] = [a div 4, (a mod 4) * 16]"
| "b64_sextets [a, b] = [a div 4, (a mod 4) * 16 + b div 16, (b mod 16) * 4]"
| "b64_sextets (a # b # c # r) = [a div 4, (a mod 4) * 16 + b div 16, (b mod 16) * 4 + c div 64, c mod 64] @ b64_sextets r"

fun b64_octets :: "nat list \<Rightarrow> nat list option" where
  "b64_octets [] = Some []"
| "b64_octets [x] = None"
| "b64_octets [x, y] = Some [x * 4 + y div 16]"
| "b64_octets [x, y, z] = Some [x * 4 + y div 16, (y mod 16) * 16 + z div 4]"
| "b64_octets (x # y # z # w # r) =
     map_option (\<lambda>bs. [x * 4 + y div 16, (y mod 16) * 16 + z div 4, (z mod 4) * 64 + w] @ bs) (b64_octets r)"

definition b64_encode :: "bool \<Rightarrow> string \<Rightarrow> string" where
  "b64_encode url s = map (b64_char url) (b64_sextets (map of_char s))"

text \<open>\<open>DecodeString\<close> skips line breaks; the unused bits of the last character are ignored.\<close>

definition b64_decode :: "bool \<Rightarrow> string \<Rightarrow> string option" where
  "b64_decode url s =
     Option.bind (those (map (b64_val url) (filter (\<lambda>c. c \<noteq> CHR 0x0A \<and> c \<noteq> CHR 0x0D) s)))
       (\<lambda>xs. map_option (map char_of) (b64_octets xs))"

lemma b64_val_char: "n < 64 \<Longrightarrow> b64_val url (b64_char url n) = Some n"
proof -
  assume "n < 64"
  then consider "n < 26" | "26 \<le> n" "n < 52" | "52 \<le> n" "n < 62" | "n = 62" | "n = 63" by linarith
  then show ?thesis by cases (auto simp: b64_val_def b64_char_def Let_def)
qed

lemma sextets_small: "list_all (\<lambda>a. a < 256) xs \<Longrightarrow> list_all (\<lambda>x. x < 64) (b64_sextets xs)"
  by (induction xs rule: b64_sextets.induct) auto

lemma octets_sextets: "list_all (\<lambda>a. a < 256) xs \<Longrightarrow> b64_octets (b64_sextets xs) = Some xs"
proof (induction xs rule: b64_sextets.induct)
  case (3 a b)
  then have "b div 16 < 16" by (simp add: less_mult_imp_div_less)
  then have "(a mod 4 * 16 + b div 16) div 16 = a mod 4" "(a mod 4 * 16 + b div 16) mod 16 = b div 16" by simp_all
  then show ?case by simp
next
  case (4 a b c r)
  then have "b div 16 < 16" "c div 64 < 4" by (simp_all add: less_mult_imp_div_less)
  then have "(a mod 4 * 16 + b div 16) div 16 = a mod 4" "(a mod 4 * 16 + b div 16) mod 16 = b div 16"
    "(b mod 16 * 4 + c div 64) div 4 = b mod 16" "(b mod 16 * 4 + c div 64) mod 4 = c div 64" by simp_all
  with 4 show ?case by simp
qed auto

lemma b64_char_plain: "n < 64 \<Longrightarrow> b64_char url n \<notin> {CHR ''.'', CHR ''$'', CHR 0x0A, CHR 0x0D}"
proof -
  assume n: "n < 64"
  have "b64_val url c = None" if "c \<in> {CHR ''.'', CHR ''$'', CHR 0x0A, CHR 0x0D}" for c
    using that by (auto simp: b64_val_def)
  with b64_val_char [OF n, of url] show ?thesis by force
qed

lemma b64_encode_plain: "c \<in> {CHR ''.'', CHR ''$'', CHR 0x0A, CHR 0x0D} \<Longrightarrow> c \<notin> set (b64_encode url s)"
proof -
  assume c: "c \<in> {CHR ''.'', CHR ''$'', CHR 0x0A, CHR 0x0D}"
  have "list_all (\<lambda>a. a < 256) (map of_char s :: nat list)" by (simp add: list_all_iff)
  from sextets_small [OF this] c show ?thesis using b64_char_plain by (fastforce simp: b64_encode_def list_all_iff)
qed

lemma b64_roundtrip: "b64_decode url (b64_encode url s) = Some s"
proof -
  let ?xs = "b64_sextets (map of_char s)"
  have small: "list_all (\<lambda>a. a < 256) (map of_char s :: nat list)" by (simp add: list_all_iff)
  have "filter (\<lambda>c. c \<noteq> CHR 0x0A \<and> c \<noteq> CHR 0x0D) (b64_encode url s) = b64_encode url s"
    using b64_encode_plain [of "CHR 0x0A"] b64_encode_plain [of "CHR 0x0D"] by (auto simp: filter_id_conv)
  moreover have "those (map (b64_val url) (map (b64_char url) xs)) = Some xs" if "list_all (\<lambda>x. x < 64) xs" for xs
    using that by (induction xs) (simp_all add: b64_val_char)
  then have "those (map (b64_val url) (b64_encode url s)) = Some ?xs"
    using sextets_small [OF small] by (simp only: b64_encode_def)
  ultimately show ?thesis by (simp add: b64_decode_def octets_sextets [OF small] comp_def)
qed

section \<open>Tokens\<close>

record token_claims =
  cl_subject :: string
  cl_roles :: "string list"
  cl_issued :: int
  cl_expires :: int

record tokenManager =
  tk_secret :: string
  tk_ttl :: int

datatype token_error = ErrInvalidToken | ErrExpired

text \<open>\<open>json.Marshal\<close> of a text: as \<open>JSON.stringify\<close> writes it, and the characters of HTML tags as escapes too.\<close>

definition go_esc :: "char \<Rightarrow> string" where
  "go_esc c =
     (let n = (of_char c :: nat) in
      if c = CHR ''<'' \<or> c = CHR ''>'' \<or> c = CHR ''&''
      then [CHR 0x5C, CHR ''u'', CHR ''0'', CHR ''0'', hex_digit (n div 16), hex_digit (n mod 16)] else esc_char c)"

definition go_quote :: "string \<Rightarrow> string" where
  "go_quote s = CHR 0x22 # concat (map go_esc s) @ [CHR 0x22]"

text \<open>The claims as \<open>json.Marshal\<close> writes them, roles being plain words.\<close>

definition marshal_claims :: "token_claims \<Rightarrow> string" where
  "marshal_claims c =
     ''{'' @ quote_str ''sub'' @ '':'' @ go_quote (cl_subject c) @ '','' @
     join_with '','' (map (\<lambda>(k, v). quote_str k @ '':'' @ stringify v)
       [(''roles'', JArr (map JStr (cl_roles c))), (''iat'', JNum (cl_issued c)), (''exp'', JNum (cl_expires c))]) @ ''}''"

definition int64 :: "int \<Rightarrow> bool" where
  "int64 i \<longleftrightarrow> - (2 ^ 63) \<le> i \<and> i < 2 ^ 63"

definition role_texts :: "json list \<Rightarrow> string list option" where
  "role_texts xs = those (map (\<lambda>v. case v of JStr s \<Rightarrow> Some s | JNull \<Rightarrow> Some [] | _ \<Rightarrow> None) xs)"

definition put_claim :: "string \<times> json \<Rightarrow> token_claims \<Rightarrow> token_claims option" where
  "put_claim m c =
     (case m of (k, v) \<Rightarrow>
        if to_lower k = ''sub'' then
          (case v of JStr s \<Rightarrow> Some (c\<lparr>cl_subject := s\<rparr>) | JNull \<Rightarrow> Some c | _ \<Rightarrow> None)
        else if to_lower k = ''roles'' then
          (case v of JArr xs \<Rightarrow> map_option (\<lambda>rs. c\<lparr>cl_roles := rs\<rparr>) (role_texts xs) | JNull \<Rightarrow> Some (c\<lparr>cl_roles := []\<rparr>) | _ \<Rightarrow> None)
        else if to_lower k = ''iat'' then
          (case v of JNum i \<Rightarrow> if int64 i then Some (c\<lparr>cl_issued := i\<rparr>) else None | JNull \<Rightarrow> Some c | _ \<Rightarrow> None)
        else if to_lower k = ''exp'' then
          (case v of JNum i \<Rightarrow> if int64 i then Some (c\<lparr>cl_expires := i\<rparr>) else None | JNull \<Rightarrow> Some c | _ \<Rightarrow> None)
        else Some c)"

fun put_claims :: "(string \<times> json) list \<Rightarrow> token_claims \<Rightarrow> token_claims option" where
  "put_claims [] c = Some c"
| "put_claims (m # ms) c = Option.bind (put_claim m c) (put_claims ms)"

text \<open>\<open>json.Unmarshal\<close> into the claims: names match in any case, unknown members are skipped, \<open>null\<close> changes nothing.\<close>

definition unmarshal_claims :: "string \<Rightarrow> token_claims option" where
  "unmarshal_claims s =
     (let zero = \<lparr>cl_subject = [], cl_roles = [], cl_issued = 0, cl_expires = 0\<rparr> in
      case json_parse s of
        Some (JObj ms) \<Rightarrow> put_claims ms zero
      | Some JNull \<Rightarrow> Some zero
      | _ \<Rightarrow> None)"

fun role_name :: "role \<Rightarrow> string" where
  "role_name RoleAdmin = ''admin''"
| "role_name RoleOperator = ''operator''"
| "role_name RoleViewer = ''viewer''"

definition jwtHeader :: string where
  "jwtHeader = b64_encode True (stringify (JObj [(''alg'', JStr ''HS256''), (''typ'', JStr ''JWT'')]))"

definition sign :: "(string \<Rightarrow> string \<Rightarrow> string) \<Rightarrow> tokenManager \<Rightarrow> string \<Rightarrow> string" where
  "sign mac m inp = b64_encode True (mac (tk_secret m) inp)"

definition unix :: "int \<Rightarrow> int" where
  "unix t = t div 10 ^ 9"

definition issue :: "(string \<Rightarrow> string \<Rightarrow> string) \<Rightarrow> tokenManager \<Rightarrow> int \<Rightarrow> string \<Rightarrow> role list \<Rightarrow> string \<times> int" where
  "issue mac m now username roles =
     (let expires = now + tk_ttl m;
          payload = marshal_claims \<lparr>cl_subject = username, cl_roles = map role_name roles, cl_issued = unix now, cl_expires = unix expires\<rparr>;
          signingInput = jwtHeader @ ''.'' @ b64_encode True payload
      in (signingInput @ ''.'' @ sign mac m signingInput, expires))"

definition verify :: "(string \<Rightarrow> string \<Rightarrow> string) \<Rightarrow> tokenManager \<Rightarrow> int \<Rightarrow> string \<Rightarrow> token_error + token_claims" where
  "verify mac m now token =
     (case split_on (CHR ''.'') token of
        [hdr, body, sig] \<Rightarrow>
          if sign mac m (hdr @ ''.'' @ body) \<noteq> sig then Inl ErrInvalidToken
          else
            (case b64_decode True body of
               None \<Rightarrow> Inl ErrInvalidToken
             | Some payload \<Rightarrow>
                 (case unmarshal_claims payload of
                    None \<Rightarrow> Inl ErrInvalidToken
                  | Some c \<Rightarrow>
                      if cl_subject c = [] then Inl ErrInvalidToken
                      else if unix now \<ge> cl_expires c then Inl ErrExpired
                      else Inr c))
      | _ \<Rightarrow> Inl ErrInvalidToken)"

section \<open>Passwords\<close>

definition pbkdf2Iterations :: int where "pbkdf2Iterations = 210000"

definition pbkdf2KeyLength :: nat where "pbkdf2KeyLength = 32"

type_synonym key_derivation = "string \<Rightarrow> string \<Rightarrow> int \<Rightarrow> nat \<Rightarrow> string option"

text \<open>\<open>salt\<close> is what \<open>rand.Read\<close> gave.\<close>

definition hashPassword :: "key_derivation \<Rightarrow> string \<Rightarrow> string \<Rightarrow> string option" where
  "hashPassword kdf salt password =
     map_option (\<lambda>dk. ''pbkdf2$sha256$'' @ int_str pbkdf2Iterations @ ''$'' @ b64_encode False salt @ ''$'' @ b64_encode False dk)
       (kdf password salt pbkdf2Iterations pbkdf2KeyLength)"

definition verifyPassword :: "key_derivation \<Rightarrow> string \<Rightarrow> string \<Rightarrow> bool" where
  "verifyPassword kdf password encoded =
     (case split_on (CHR ''$'') encoded of
        [p0, p1, p2, p3, p4] \<Rightarrow>
          if p0 \<noteq> ''pbkdf2'' \<or> p1 \<noteq> ''sha256'' then False
          else
            (case (ParseInt64 p2, b64_decode False p3, b64_decode False p4) of
               (Some iter, Some salt, Some want) \<Rightarrow>
                 if iter \<le> 0 \<or> want = [] then False else kdf password salt iter (length want) = Some want
             | _ \<Rightarrow> False)
      | _ \<Rightarrow> False)"

section \<open>The service\<close>

record identity =
  id_username :: string
  id_roles :: "role list"
  id_permissions :: "string list"

text \<open>Roles are texts in the configuration, so a user may be configured with one that does not exist.\<close>

record user =
  us_name :: string
  us_hash :: string
  us_roles :: "string list"

record auth_service =
  as_users :: "(string \<times> user) list"
  as_tokens :: tokenManager

definition role_of :: "string \<Rightarrow> role option" where
  "role_of s = (if s = ''admin'' then Some RoleAdmin else if s = ''operator'' then Some RoleOperator
     else if s = ''viewer'' then Some RoleViewer else None)"

definition ValidRole :: "string \<Rightarrow> bool" where
  "ValidRole s \<longleftrightarrow> role_of s \<noteq> None"

fun add_users :: "user list \<Rightarrow> (string \<times> user) list \<Rightarrow> string + (string \<times> user) list" where
  "add_users [] m = Inr m"
| "add_users (u # us) m =
     (if us_name u = [] then Inl ''auth: user with empty username''
      else if map_of m (us_name u) \<noteq> None then Inl (''auth: duplicate user '' @ us_name u)
      else
        (case find (\<lambda>r. \<not> ValidRole r) (us_roles u) of
           Some r \<Rightarrow> Inl (''auth: user '' @ us_name u @ '' has unknown role '' @ r)
         | None \<Rightarrow> add_users us (m @ [(us_name u, u)])))"

definition NewService :: "user list \<Rightarrow> string \<Rightarrow> int \<Rightarrow> string + auth_service" where
  "NewService users secret ttl =
     (if secret = [] then Inl ''auth: empty signing secret''
      else
        (case add_users users [] of
           Inl e \<Rightarrow> Inl e
         | Inr m \<Rightarrow> Inr \<lparr>as_users = m, as_tokens = \<lparr>tk_secret = secret, tk_ttl = (if ttl \<le> 0 then 12 * 3600 * 10 ^ 9 else ttl)\<rparr>\<rparr>))"

definition HasLocalUsers :: "auth_service option \<Rightarrow> bool" where
  "HasLocalUsers s = (case s of None \<Rightarrow> False | Some s \<Rightarrow> as_users s \<noteq> [])"

definition identityFor :: "string \<Rightarrow> role list \<Rightarrow> identity" where
  "identityFor username roles = \<lparr>id_username = username, id_roles = roles, id_permissions = permissionsForRoles roles\<rparr>"

text \<open>Roles of texts that are all valid; \<open>NewService\<close> checks those of users.\<close>

definition roles_of :: "string list \<Rightarrow> role list" where
  "roles_of rs = List.map_filter role_of rs"

definition Authenticate :: "key_derivation \<Rightarrow> auth_service \<Rightarrow> string \<Rightarrow> string \<Rightarrow> identity option" where
  "Authenticate kdf s username password =
     (case map_of (as_users s) username of
        None \<Rightarrow> None
      | Some u \<Rightarrow> if verifyPassword kdf password (us_hash u) then Some (identityFor (us_name u) (roles_of (us_roles u))) else None)"

definition IssueToken :: "(string \<Rightarrow> string \<Rightarrow> string) \<Rightarrow> auth_service \<Rightarrow> int \<Rightarrow> identity \<Rightarrow> string \<times> int" where
  "IssueToken mac s now i = issue mac (as_tokens s) now (id_username i) (id_roles i)"

definition VerifyToken :: "(string \<Rightarrow> string \<Rightarrow> string) \<Rightarrow> auth_service \<Rightarrow> int \<Rightarrow> string \<Rightarrow> token_error + identity" where
  "VerifyToken mac s now token =
     (case verify mac (as_tokens s) now token of
        Inl e \<Rightarrow> Inl e
      | Inr c \<Rightarrow>
          (case map_of (as_users s) (cl_subject c) of
             Some u \<Rightarrow> Inr (identityFor (us_name u) (roles_of (us_roles u)))
           | None \<Rightarrow>
               let roles = List.map_filter role_of (cl_roles c) in
               if roles = [] then Inl ErrInvalidToken else Inr (identityFor (cl_subject c) roles)))"

section \<open>Requests with a token\<close>

text \<open>\<open>authenticate\<close> of the HTTP server; \<open>None\<close> for the service: authentication is not configured.\<close>

definition authenticate :: "(string \<Rightarrow> string \<Rightarrow> string) \<Rightarrow> auth_service option \<Rightarrow> int \<Rightarrow> server_request \<Rightarrow> identity option" where
  "authenticate mac svc now r =
     (case svc of
        None \<Rightarrow> None
      | Some s \<Rightarrow>
          let hdr = hr_header r ''Authorization''; token = js_trim (drop 7 hdr) in
          if length hdr \<le> 7 \<or> \<not> EqualFold (take 7 hdr) ''bearer '' then None
          else if token = [] then None
          else (case VerifyToken mac s now token of Inl e \<Rightarrow> None | Inr i \<Rightarrow> Some i))"

text \<open>\<open>require\<close>: an empty permission only authenticates. The rest is the gate of \<open>Server_Routes\<close>.\<close>

definition require :: "(string \<Rightarrow> string \<Rightarrow> string) \<Rightarrow> auth_service option \<Rightarrow> int \<Rightarrow> string \<Rightarrow> server_request \<Rightarrow> int option" where
  "require mac svc now perm r =
     (case authenticate mac svc now r of
        None \<Rightarrow> Some 401
      | Some i \<Rightarrow> if perm \<noteq> [] \<and> perm \<notin> set (id_permissions i) then Some 403 else None)"

text \<open>The gateway: \<open>strings.Fields\<close>, the metadata of the call (\<open>None\<close>: none), and the policy by method.\<close>

function Fields :: "string \<Rightarrow> string list" where
  "Fields [] = []"
| "Fields (c # cs) =
     (if is_space c then Fields cs
      else (c # takeWhile (\<lambda>c. \<not> is_space c) cs) # Fields (dropWhile (\<lambda>c. \<not> is_space c) cs))"
  by pat_completeness auto
termination
  by (relation "measure length") (auto simp: le_imp_less_Suc length_dropWhile_le)

datatype grpc_status = GrpcOk | GrpcUnauthenticated string | GrpcPermissionDenied string

definition bearerToken :: "string list option \<Rightarrow> grpc_status + string" where
  "bearerToken md =
     (case md of
        None \<Rightarrow> Inl (GrpcUnauthenticated ''missing request metadata'')
      | Some [] \<Rightarrow> Inl (GrpcUnauthenticated ''missing authorization metadata'')
      | Some (v # vs) \<Rightarrow>
          (case Fields v of
             [a, b] \<Rightarrow> if EqualFold a ''bearer'' then Inr b else Inl (GrpcUnauthenticated ''malformed authorization metadata'')
           | _ \<Rightarrow> Inl (GrpcUnauthenticated ''malformed authorization metadata'')))"

definition methodPermissions :: "(string \<times> string) list" where
  "methodPermissions = [(''/queue.v1.QueueService/EnqueueTask'', ''queues:write'')]"

definition newAuthInterceptor ::
  "(string \<Rightarrow> string \<Rightarrow> string) \<Rightarrow> auth_service \<Rightarrow> int \<Rightarrow> string list option \<Rightarrow> string \<Rightarrow> grpc_status" where
  "newAuthInterceptor mac s now md fullMethod =
     (case bearerToken md of
        Inl st \<Rightarrow> st
      | Inr token \<Rightarrow>
          (case VerifyToken mac s now token of
             Inl e \<Rightarrow> GrpcUnauthenticated ''invalid or missing credentials''
           | Inr i \<Rightarrow>
               (case map_of methodPermissions fullMethod of
                  None \<Rightarrow> GrpcPermissionDenied (''no policy for method '' @ fullMethod)
                | Some p \<Rightarrow>
                    if p \<notin> set (id_permissions i) then GrpcPermissionDenied (''missing permission '' @ p) else GrpcOk)))"

section \<open>Issuing and verifying\<close>

lemma pstr_go_esc: "pstr (go_esc c @ r) = map_option (apfst (Cons c)) (pstr r)"
proof (cases "c = CHR ''<'' \<or> c = CHR ''>'' \<or> c = CHR ''&''")
  case True
  define n where "n = (of_char c :: nat)"
  have n: "n < 128" "char_of n = c" using True by (auto simp: n_def)
  from True have "go_esc c = [CHR 0x5C, CHR ''u'', CHR ''0'', CHR ''0'', hex_digit (n div 16), hex_digit (n mod 16)]"
    by (simp add: go_esc_def flip: n_def)
  with pstr_hex_escape [OF n(1)] n(2) show ?thesis by (simp del: pstr.simps)
qed (simp add: go_esc_def pstr_esc_char del: pstr.simps)

lemma pstr_go: "pstr (concat (map go_esc s) @ CHR 0x22 # r) = Some (s, r)"
  by (induction s) (simp_all add: pstr_go_esc del: pstr.simps(2), simp)

lemma pval_go: "pval (Suc n) (go_quote s @ r) = Some (JStr s, r)"
  by (simp add: pval.simps go_quote_def pstr_go del: pstr.simps)

lemma parse_claims:
  "json_parse (marshal_claims c) =
     Some (JObj [(''sub'', JStr (cl_subject c)), (''roles'', JArr (map JStr (cl_roles c))), (''iat'', JNum (cl_issued c)), (''exp'', JNum (cl_expires c))])"
proof -
  let ?kvs = "[(''roles'', JArr (map JStr (cl_roles c))), (''iat'', JNum (cl_issued c)), (''exp'', JNum (cl_expires c))]"
  let ?rest = "join_with '','' (map (\<lambda>(k, v). quote_str k @ '':'' @ stringify v) ?kvs)"
  let ?t = "quote_str ''sub'' @ '':'' @ go_quote (cl_subject c) @ '','' @ ?rest @ ''}''"
  have t: "marshal_claims c = CHR ''{'' # ?t" by (simp add: marshal_claims_def)
  let ?n = "2 * length (marshal_claims c)"
  obtain m where m: "?n = Suc (Suc m)" "length ?rest + 1 < Suc m" unfolding t by (cases "length ?t") auto
  have "wf_json (JArr (map JStr (cl_roles c)))" by (simp add: list_all_iff)
  then have "list_all (\<lambda>(k, v). reads v) ?kvs" by (simp add: wf_json_reads reads_int)
  from pmembers_reads [OF this _ m(2), of "[]"] have rest: "pmembers (Suc m) (?rest @ ''}'') = Some (?kvs, [])" by simp
  have key: "pstr (concat (map esc_char ''sub'') @ CHR 0x22 # r) = Some (''sub'', r)" for r by (rule pstr_escaped)
  have "pmembers (Suc (Suc m)) ?t = Some ((''sub'', JStr (cl_subject c)) # ?kvs, [])"
    using rest unfolding pmembers.simps(2) [of "Suc m"] quote_str_def [of "''sub''"]
    by (simp add: key pval_go del: pstr.simps join_with.simps list.map)
  moreover have "skip_ws ?t = ?t \<and> ?t \<noteq> [] \<and> hd ?t \<noteq> CHR ''}''" by (simp add: quote_str_def)
  ultimately have "pval (Suc ?n) (marshal_claims c) = Some (JObj (obj_of ((''sub'', JStr (cl_subject c)) # ?kvs)), [])"
    unfolding t m(1) [unfolded t] by (simp add: pval_obj)
  then show ?thesis by (simp add: json_parse_def obj_of_distinct)
qed

lemma unmarshal_marshal:
  assumes "int64 (cl_issued c)" and "int64 (cl_expires c)"
  shows "unmarshal_claims (marshal_claims c) = Some c"
proof -
  have low: "to_lower ''sub'' = ''sub''" "to_lower ''roles'' = ''roles''" "to_lower ''iat'' = ''iat''" "to_lower ''exp'' = ''exp''"
    by (simp_all add: to_lower_def lower_char_def)
  have "role_texts (map JStr rs) = Some rs" for rs by (induction rs) (simp_all add: role_texts_def)
  with assms show ?thesis by (simp add: unmarshal_claims_def parse_claims put_claim_def low Let_def)
qed

lemma split_on_app: "c \<notin> set a \<Longrightarrow> split_on c (a @ c # b) = a # split_on c b"
  by (induction a) auto

lemma jwtHeader_plain: "CHR ''.'' \<notin> set jwtHeader"
  unfolding jwtHeader_def by (rule b64_encode_plain) simp

text \<open>A token is three parts; only the signature of the first two is accepted as the third.\<close>

lemma split3:
  "CHR ''.'' \<notin> set a \<Longrightarrow> CHR ''.'' \<notin> set b \<Longrightarrow> CHR ''.'' \<notin> set c \<Longrightarrow> split_on (CHR ''.'') (a @ ''.'' @ b @ ''.'' @ c) = [a, b, c]"
  by (simp add: split_on_app split_on_none)

lemma split_on_ne: "split_on c s \<noteq> []"
  by (cases s) (auto split: list.splits)

lemma split_on_join: "join_with [c] (split_on c s) = s"
proof (induction s)
  case (Cons x s)
  obtain p ps where p: "split_on c s = p # ps" using split_on_ne [of c s] by (cases "split_on c s") auto
  show ?case
  proof (cases ps)
    case Nil
    with Cons p show ?thesis by simp
  next
    case (Cons q qs)
    with Cons.IH p show ?thesis by simp
  qed
qed simp

lemma verify_issue:
  assumes "username \<noteq> []" and "int64 (unix now)" and "int64 (unix (now + tk_ttl m))"
  shows "verify mac m later (fst (issue mac m now username roles)) =
     (if unix later \<ge> unix (now + tk_ttl m) then Inl ErrExpired
      else Inr \<lparr>cl_subject = username, cl_roles = map role_name roles, cl_issued = unix now, cl_expires = unix (now + tk_ttl m)\<rparr>)"
proof -
  let ?c = "\<lparr>cl_subject = username, cl_roles = map role_name roles, cl_issued = unix now, cl_expires = unix (now + tk_ttl m)\<rparr>"
  let ?b = "b64_encode True (marshal_claims ?c)"
  let ?s = "sign mac m (jwtHeader @ ''.'' @ ?b)"
  have tok: "fst (issue mac m now username roles) = jwtHeader @ ''.'' @ ?b @ ''.'' @ ?s" by (simp add: issue_def Let_def)
  have "CHR ''.'' \<notin> set ?b" "CHR ''.'' \<notin> set ?s" unfolding sign_def by (rule b64_encode_plain, simp)+
  with jwtHeader_plain have sp: "split_on (CHR ''.'') (jwtHeader @ ''.'' @ ?b @ ''.'' @ ?s) = [jwtHeader, ?b, ?s]" by (rule split3)
  show ?thesis
    using unmarshal_marshal [of ?c] assms unfolding tok verify_def sp by (simp add: b64_roundtrip)
qed

lemma verify_sound:
  assumes "verify mac m now token = Inr c"
  shows "\<exists>hdr body payload. token = hdr @ ''.'' @ body @ ''.'' @ sign mac m (hdr @ ''.'' @ body) \<and> b64_decode True body = Some payload
     \<and> unmarshal_claims payload = Some c \<and> cl_subject c \<noteq> [] \<and> unix now < cl_expires c"
proof -
  from assms obtain hdr body sig where sp: "split_on (CHR ''.'') token = [hdr, body, sig]"
    by (auto simp: verify_def split: list.splits)
  with split_on_join [of "CHR ''.''" token] have tok: "token = hdr @ ''.'' @ body @ ''.'' @ sig" by simp
  from assms sp have "sign mac m (hdr @ ''.'' @ body) = sig" "\<exists>payload. b64_decode True body = Some payload
      \<and> unmarshal_claims payload = Some c \<and> cl_subject c \<noteq> [] \<and> unix now < cl_expires c"
    by (auto simp: verify_def split: if_splits option.splits)
  with tok show ?thesis by blast
qed

lemma role_of_name [simp]: "role_of (role_name r) = Some r"
  by (cases r) (simp_all add: role_of_def)

lemma roles_of_names [simp]: "List.map_filter role_of (map role_name rs) = rs"
  by (induction rs) (simp_all add: List.map_filter_simps)

definition keyed_users :: "(string \<times> user) list \<Rightarrow> bool" where
  "keyed_users m \<longleftrightarrow> (\<forall>k u. map_of m k = Some u \<longrightarrow> us_name u = k \<and> k \<noteq> [])"

lemma add_users_keyed: "add_users us m = Inr m' \<Longrightarrow> keyed_users m \<Longrightarrow> keyed_users m'"
proof (induction us arbitrary: m)
  case (Cons u us)
  then have "add_users us (m @ [(us_name u, u)]) = Inr m'" "us_name u \<noteq> []" by (auto split: if_splits option.splits)
  moreover from this(2) Cons.prems(2) have "keyed_users (m @ [(us_name u, u)])"
    by (auto simp: keyed_users_def map_add_def split: option.splits if_splits)
  ultimately show ?case using Cons.IH by blast
qed simp

lemma NewService_users: "NewService users secret ttl = Inr s \<Longrightarrow> keyed_users (as_users s)"
proof -
  assume "NewService users secret ttl = Inr s"
  then have "add_users users [] = Inr (as_users s)" by (auto simp: NewService_def split: if_splits sum.splits)
  then show ?thesis by (rule add_users_keyed) (simp add: keyed_users_def)
qed

lemma verify_password_hash:
  assumes "hashPassword kdf salt password = Some h" and "kdf password salt pbkdf2Iterations pbkdf2KeyLength = Some dk" and "length dk = pbkdf2KeyLength"
  shows "verifyPassword kdf password' h \<longleftrightarrow> kdf password' salt pbkdf2Iterations pbkdf2KeyLength = Some dk"
proof -
  let ?s = "b64_encode False salt" and ?d = "b64_encode False dk"
  have "int_str 210000 = ''210000''" by (simp add: int_str_def nat_str.simps digit_char_def)
  then have h: "h = ''pbkdf2'' @ ''$'' @ ''sha256'' @ ''$'' @ ''210000'' @ ''$'' @ ?s @ ''$'' @ ?d"
    using assms(1,2) by (simp add: hashPassword_def pbkdf2Iterations_def)
  have "CHR ''$'' \<notin> set ?s" "CHR ''$'' \<notin> set ?d" by (rule b64_encode_plain, simp)+
  then have sp: "split_on (CHR ''$'') h = [''pbkdf2'', ''sha256'', ''210000'', ?s, ?d]"
    unfolding h by (simp add: split_on_app split_on_none)
  have it: "ParseInt64 ''210000'' = Some pbkdf2Iterations"
    by (simp add: ParseInt64_def digits_val_def digit_val_def is_digit_def pbkdf2Iterations_def)
  have "dk \<noteq> []" using assms(3) by (auto simp: pbkdf2KeyLength_def)
  then show ?thesis
    using assms(3) by (simp add: verifyPassword_def sp it b64_roundtrip pbkdf2Iterations_def)
qed

section \<open>Properties\<close>

text \<open>
  Signing in works end to end: a user whose configured hash was made from a password is authenticated with it, and
  with any other only if that derives the same key; the token issued then verifies, until it expires and not
  after, to that same identity.
\<close>

theorem token_roundtrip:
  assumes "NewService users secret ttl = Inr s" and "map_of (as_users s) name = Some u" and "hashPassword kdf salt password = Some (us_hash u)"
    and "kdf password salt pbkdf2Iterations pbkdf2KeyLength = Some dk" and "length dk = pbkdf2KeyLength"
    and "int64 (unix now)" and "int64 (unix (now + tk_ttl (as_tokens s)))" and "i = identityFor name (roles_of (us_roles u))"
  shows "Authenticate kdf s name password = Some i
     \<and> (Authenticate kdf s name password' \<noteq> None \<longrightarrow> kdf password' salt pbkdf2Iterations pbkdf2KeyLength = Some dk)
     \<and> VerifyToken mac s later (fst (IssueToken mac s now i)) =
          (if unix later < unix (snd (IssueToken mac s now i)) then Inr i else Inl ErrExpired)"
proof -
  from NewService_users [OF assms(1)] assms(2) have n: "us_name u = name" "name \<noteq> []" by (auto simp: keyed_users_def)
  have exp: "snd (IssueToken mac s now j) = now + tk_ttl (as_tokens s)" for j by (simp add: IssueToken_def issue_def Let_def)
  note v = verify_password_hash [OF assms(3,4,5)]
  from v [of password] v [of password'] assms(2,4,8) n
  have "Authenticate kdf s name password = Some i"
    "Authenticate kdf s name password' \<noteq> None \<longrightarrow> kdf password' salt pbkdf2Iterations pbkdf2KeyLength = Some dk"
    by (auto simp: Authenticate_def)
  moreover have "fst (IssueToken mac s now i) = fst (issue mac (as_tokens s) now name (id_roles i))"
    by (simp add: IssueToken_def assms(8) identityFor_def)
  then have "VerifyToken mac s later (fst (IssueToken mac s now i)) = (if unix later < unix (snd (IssueToken mac s now i)) then Inr i else Inl ErrExpired)"
    using verify_issue [of name now "as_tokens s" mac later "id_roles i"] assms(2,6,7,8) n
    by (simp add: VerifyToken_def exp not_le)
  ultimately show ?thesis by blast
qed

text \<open>A key derivation and a code for the examples: the password cut or filled to the length, and the key before the text.\<close>

definition toy_kdf :: key_derivation where
  "toy_kdf p salt n len = Some (take len (p @ salt @ replicate len (CHR ''x'')))"

definition toy_mac :: "string \<Rightarrow> string \<Rightarrow> string" where
  "toy_mac k t = k @ t"

definition toy_user :: user where
  "toy_user = \<lparr>us_name = ''ann'', us_hash = the (hashPassword toy_kdf ''salt'' ''pw''), us_roles = [''operator'']\<rparr>"

definition toy_service :: auth_service where
  "toy_service = \<lparr>as_users = [(''ann'', toy_user)], as_tokens = \<lparr>tk_secret = ''k'', tk_ttl = 10 ^ 9\<rparr>\<rparr>"

lemma toy_new: "NewService [toy_user] ''k'' (10 ^ 9) = Inr toy_service"
  by (simp add: NewService_def toy_user_def toy_service_def ValidRole_def role_of_def)

theorem token_roundtrip_witness:
  "Authenticate toy_kdf toy_service ''ann'' ''pw'' = Some (identityFor ''ann'' [RoleOperator])
   \<and> VerifyToken toy_mac toy_service 5 (fst (IssueToken toy_mac toy_service 5 (identityFor ''ann'' [RoleOperator]))) = Inr (identityFor ''ann'' [RoleOperator])"
proof -
  let ?dk = "take 32 (''pw'' @ ''salt'' @ replicate 32 (CHR ''x''))"
  have h: "map_of (as_users toy_service) ''ann'' = Some toy_user" "hashPassword toy_kdf ''salt'' ''pw'' = Some (us_hash toy_user)"
    "toy_kdf ''pw'' ''salt'' pbkdf2Iterations pbkdf2KeyLength = Some ?dk" "length ?dk = pbkdf2KeyLength"
    "int64 (unix 5)" "int64 (unix (5 + tk_ttl (as_tokens toy_service)))"
    "identityFor ''ann'' [RoleOperator] = identityFor ''ann'' (roles_of (us_roles toy_user))"
    by (simp_all add: toy_service_def toy_user_def hashPassword_def toy_kdf_def pbkdf2KeyLength_def int64_def unix_def roles_of_def
        role_of_def List.map_filter_simps)
  have "snd (IssueToken toy_mac toy_service 5 (identityFor ''ann'' [RoleOperator])) = 5 + 10 ^ 9"
    by (simp add: IssueToken_def issue_def Let_def toy_service_def)
  with token_roundtrip [OF toy_new h, of _ toy_mac 5] show ?thesis by (simp add: unix_def)
qed

text \<open>
  (C14) A token grants no more than it may: whatever text is presented, if it is accepted then its last part is the
  server's own signature over the rest, its claims are not expired, and the identity has the roles the configuration
  gives the user now, whatever the token says of them, or, for a subject that is not configured, the known roles
  that the signed claims name, at least one.
\<close>

theorem token_soundness:
  assumes "VerifyToken mac s now token = Inr i"
  shows "\<exists>hdr body payload c. token = hdr @ ''.'' @ body @ ''.'' @ sign mac (as_tokens s) (hdr @ ''.'' @ body)
     \<and> b64_decode True body = Some payload \<and> unmarshal_claims payload = Some c \<and> unix now < cl_expires c
     \<and> (case map_of (as_users s) (cl_subject c) of
          Some u \<Rightarrow> i = identityFor (us_name u) (roles_of (us_roles u))
        | None \<Rightarrow> id_username i = cl_subject c \<and> id_roles i \<noteq> [] \<and> set (map role_name (id_roles i)) \<subseteq> set (cl_roles c)
            \<and> id_permissions i = permissionsForRoles (id_roles i))"
proof -
  from assms obtain c where c: "verify mac (as_tokens s) now token = Inr c" by (auto simp: VerifyToken_def split: sum.splits)
  have "set (map role_name (List.map_filter role_of rs)) \<subseteq> set rs" for rs
    by (induction rs) (auto simp: List.map_filter_simps role_of_def split: option.splits if_splits)
  then have known: "role_name r \<in> set rs" if "r \<in> set (List.map_filter role_of rs)" for r rs using that by auto
  with assms c have "case map_of (as_users s) (cl_subject c) of
      Some u \<Rightarrow> i = identityFor (us_name u) (roles_of (us_roles u))
    | None \<Rightarrow> id_username i = cl_subject c \<and> id_roles i \<noteq> [] \<and> set (map role_name (id_roles i)) \<subseteq> set (cl_roles c)
        \<and> id_permissions i = permissionsForRoles (id_roles i)"
    by (auto simp: VerifyToken_def identityFor_def Let_def split: option.splits if_splits)
  with verify_sound [OF c] show ?thesis by blast
qed

lemma toy_verify: "VerifyToken toy_mac toy_service 5 (fst (IssueToken toy_mac toy_service 5 (identityFor ''ann'' [RoleOperator]))) = Inr (identityFor ''ann'' [RoleOperator])"
proof -
  have "verify toy_mac (as_tokens toy_service) 5 (fst (issue toy_mac (as_tokens toy_service) 5 ''ann'' [RoleOperator])) =
      Inr \<lparr>cl_subject = ''ann'', cl_roles = [''operator''], cl_issued = 0, cl_expires = 1\<rparr>"
    by (subst verify_issue) (simp_all add: int64_def unix_def toy_service_def)
  then show ?thesis
    by (simp add: VerifyToken_def IssueToken_def identityFor_def toy_service_def toy_user_def roles_of_def role_of_def List.map_filter_simps)
qed

theorem token_soundness_witness:
  "\<exists>hdr body. fst (IssueToken toy_mac toy_service 5 (identityFor ''ann'' [RoleOperator])) =
     hdr @ ''.'' @ body @ ''.'' @ sign toy_mac (as_tokens toy_service) (hdr @ ''.'' @ body)"
  using token_soundness [OF toy_verify] by blast

text \<open>
  Taking an account away does not take its access away: a token of a user who has since been removed from the
  configuration is treated like one of single sign-on, so until it expires it still verifies to the user's old roles
  and permissions, while a change of the roles of a configured user takes effect at once.
\<close>

theorem removed_user_keeps_access:
  assumes "NewService users secret ttl = Inr s" and "map_of (as_users s) name = Some u" and "roles_of (us_roles u) \<noteq> []"
    and "NewService users' secret ttl = Inr s'" and "i = identityFor name (roles_of (us_roles u))"
    and "int64 (unix now)" and "int64 (unix (now + tk_ttl (as_tokens s)))" and "unix later < unix (snd (IssueToken mac s now i))"
  shows "VerifyToken mac s' later (fst (IssueToken mac s now i)) =
     (case map_of (as_users s') name of None \<Rightarrow> Inr i | Some u' \<Rightarrow> Inr (identityFor name (roles_of (us_roles u'))))"
proof -
  from NewService_users [OF assms(1)] assms(2) have n: "name \<noteq> []" by (auto simp: keyed_users_def)
  have t: "as_tokens s' = as_tokens s" using assms(1,4) by (auto simp: NewService_def split: if_splits sum.splits)
  have nm: "us_name u' = name" if "map_of (as_users s') name = Some u'" for u'
    using NewService_users [OF assms(4)] that by (auto simp: keyed_users_def)
  have "fst (IssueToken mac s now i) = fst (issue mac (as_tokens s) now name (id_roles i))"
    "snd (IssueToken mac s now i) = now + tk_ttl (as_tokens s)"
    by (simp_all add: IssueToken_def assms(5) identityFor_def issue_def Let_def)
  with verify_issue [OF n assms(6,7), of mac later "id_roles i"] assms(3,5,8) nm show ?thesis
    by (auto simp: VerifyToken_def t identityFor_def Let_def split: option.splits)
qed

theorem removed_user_keeps_access_witness:
  "\<exists>s'. NewService [] ''k'' (10 ^ 9) = Inr s' \<and> as_users s' = []
     \<and> VerifyToken toy_mac s' 5 (fst (IssueToken toy_mac toy_service 5 (identityFor ''ann'' [RoleOperator]))) = Inr (identityFor ''ann'' [RoleOperator])"
proof -
  let ?s = "\<lparr>as_users = [], as_tokens = \<lparr>tk_secret = ''k'', tk_ttl = 10 ^ 9\<rparr>\<rparr>"
  let ?i = "identityFor ''ann'' [RoleOperator]"
  have r: "roles_of (us_roles toy_user) = [RoleOperator]" by (simp add: toy_user_def roles_of_def role_of_def List.map_filter_simps)
  have h: "map_of (as_users toy_service) ''ann'' = Some toy_user" "roles_of (us_roles toy_user) \<noteq> []" "NewService [] ''k'' (10 ^ 9) = Inr ?s"
    "?i = identityFor ''ann'' (roles_of (us_roles toy_user))" "int64 (unix 5)" "int64 (unix (5 + tk_ttl (as_tokens toy_service)))"
    "unix 5 < unix (snd (IssueToken toy_mac toy_service 5 ?i))"
    by (simp_all add: r) (simp_all add: NewService_def toy_service_def int64_def unix_def IssueToken_def issue_def Let_def)
  from removed_user_keeps_access [OF toy_new h] h(3) show ?thesis by (intro exI [of _ ?s]) simp
qed

text \<open>A header \<open>Bearer\<close> with a token that has no spaces is checked as that token.\<close>

lemma trim_plain: "list_all (\<lambda>c. \<not> is_space c) s \<Longrightarrow> js_trim s = s"
proof -
  assume s: "list_all (\<lambda>c. \<not> is_space c) s"
  then have "dropWhile is_space s = s" by (cases s) auto
  moreover have "dropWhile is_space (rev s) = rev s" using s by (cases "rev s") (auto simp: list_all_iff)
  ultimately show ?thesis by (simp add: js_trim_def)
qed

lemma authenticate_bearer:
  assumes "token \<noteq> []" and "list_all (\<lambda>c. \<not> is_space c) token" and "hr_header r ''Authorization'' = ''Bearer '' @ token"
  shows "authenticate mac (Some s) now r = (case VerifyToken mac s now token of Inl e \<Rightarrow> None | Inr i \<Rightarrow> Some i)"
proof -
  have "to_lower ''Bearer '' = ''bearer ''" "to_lower ''bearer '' = ''bearer ''"
    by (simp_all add: to_lower_def lower_char_def char_of_def bit_Suc_0_iff)
  then show ?thesis using assms(1,3) trim_plain [OF assms(2)] by (simp add: authenticate_def EqualFold_def)
qed



end
