(* ===== verification/Calendar.thy ===== *)
theory Calendar
  imports Dates
begin

text \<open>
  The timestamps the Go server writes and the console reads. \<open>to_rfc3339\<close> is \<open>t.UTC().Format(time.RFC3339)\<close> for an
  instant in Unix seconds, \<open>to_rfc3339_nano\<close> is the layout \<open>time.RFC3339Nano\<close> of one in nanoseconds; the calendar of \<open>Dates\<close> is shown to be a bijection between days and dates, so that
  the console's \<open>Date.parse\<close> reads back the instant that was printed.
\<close>

definition date_time :: "int \<Rightarrow> string" where
  "date_time s =
     (let (y, m, d) = civil_from_days (s div 86400);
          r = s mod 86400
      in pad 4 y @ ''-'' @ pad 2 m @ ''-'' @ pad 2 d @ ''T'' @ pad 2 (r div 3600) @ '':'' @
         pad 2 ((r div 60) mod 60) @ '':'' @ pad 2 (r mod 60))"

definition to_rfc3339 :: "int \<Rightarrow> string" where
  "to_rfc3339 s = date_time s @ ''Z''"

text \<open>The fraction of \<open>time.RFC3339Nano\<close>: nine digits without the zeros at the end, and no point when nothing is left.\<close>

definition strip_zeros :: "string \<Rightarrow> string" where
  "strip_zeros ds = rev (dropWhile (\<lambda>c. c = CHR ''0'') (rev ds))"

definition to_rfc3339_nano :: "int \<Rightarrow> string" where
  "to_rfc3339_nano t =
     (let ds = strip_zeros (pad 9 (t mod 10 ^ 9)) in
      date_time (t div 10 ^ 9) @ (if ds = [] then [] else CHR ''.'' # ds) @ ''Z'')"

section \<open>Years of an era\<close>

text \<open>Years begin in March here, so that a leap day is the last of its year.\<close>

definition year_start :: "int \<Rightarrow> int" where
  "year_start y = 365 * y + y div 4 - y div 100"

definition leapless :: "int \<Rightarrow> int" where
  "leapless x = x - x div 1460 + x div 36524 - x div 146096"

lemma div_step: "0 < k \<Longrightarrow> (x + 1) div k = x div k \<or> (x + 1) div k = x div k + (1::int)"
proof -
  assume k: "0 < k"
  have "x div k \<le> (x + 1) div k" "(x + 1) div k \<le> (x + k) div k" using k by (auto intro: zdiv_mono1)
  moreover have "(x + k) div k = x div k + 1" using k by (intro div_add_self2) simp
  ultimately show ?thesis by linarith
qed

lemma leapless_step: "leapless x \<le> leapless (x + 1)"
proof -
  have q: "y div 146096 = y div 36524 div 4" for y :: int using zdiv_zmult2_eq [of 4 y 36524] by simp
  consider "(x + 1) div 36524 = x div 36524" | "(x + 1) div 36524 = x div 36524 + 1" using div_step [of 36524 x] by auto
  then have "(x + 1) div 36524 div 4 - x div 36524 div 4 \<le> (x + 1) div 36524 - x div 36524"
  proof cases
    case 2
    then show ?thesis using div_step [of 4 "x div 36524"] by auto
  qed simp
  then show ?thesis using div_step [of 1460 x] unfolding leapless_def q by linarith
qed

lemma leapless_mono: "x \<le> x' \<Longrightarrow> leapless x \<le> leapless x'"
proof (induction x' rule: int_ge_induct)
  case (step i) then show ?case using leapless_step [of i] by simp
qed simp

text \<open>The formula of the year is right at the first and the last day of each of the 400 years.\<close>

lemma year_ends:
  "list_all (\<lambda>y. 365 * y \<le> leapless (year_start y) \<and> leapless (year_start y - 1) < 365 * y) [1..399]"
  by code_simp

lemma year_of_day:
  assumes "0 \<le> doe" and "doe < 146097" and "yoe = leapless doe div 365"
  shows "0 \<le> yoe" and "yoe < 400" and "year_start yoe \<le> doe" and "yoe < 399 \<Longrightarrow> doe < year_start (yoe + 1)"
proof -
  have "leapless 0 = 0" "leapless 146096 = 145999" by (simp_all add: leapless_def)
  with leapless_mono [OF assms(1)] leapless_mono [of doe 146096] assms(2) have b: "0 \<le> leapless doe" "leapless doe \<le> 145999" by simp_all
  show y: "0 \<le> yoe" "yoe < 400" using b unfolding assms(3) by simp_all
  show "year_start yoe \<le> doe"
  proof (rule ccontr)
    assume n: "\<not> year_start yoe \<le> doe"
    with assms(1) y have "1 \<le> yoe" by (cases "yoe = 0") (auto simp: year_start_def)
    with y year_ends have "leapless (year_start yoe - 1) < 365 * yoe" by (simp add: list_all_iff)
    with leapless_mono [of doe "year_start yoe - 1"] n have "leapless doe < 365 * yoe" by linarith
    then show False unfolding assms(3) by simp
  qed
  show "doe < year_start (yoe + 1)" if "yoe < 399"
  proof (rule ccontr)
    assume n: "\<not> doe < year_start (yoe + 1)"
    from that y have "yoe + 1 \<in> set [1..399]" by simp
    with year_ends have "365 * (yoe + 1) \<le> leapless (year_start (yoe + 1))" unfolding list_all_iff by blast
    with leapless_mono [of "year_start (yoe + 1)" doe] n have "365 * (yoe + 1) \<le> leapless doe" by linarith
    then show False unfolding assms(3) by simp
  qed
qed

text \<open>A year has 366 days exactly when the February it ends with is in a leap year.\<close>

lemma year_length: "0 \<le> y \<Longrightarrow> y < 399 \<Longrightarrow> year_start (y + 1) - year_start y = (if is_leap (y + 1) then 366 else 365)"
proof -
  assume y: "0 \<le> y" "y < 399"
  have "list_all (\<lambda>y. year_start (y + 1) - year_start y = (if is_leap (y + 1) then 366 else 365)) [0..398]" by code_simp
  with y show ?thesis by (simp add: list_all_iff)
qed

lemma is_leap_era: "is_leap (y + e * 400) \<longleftrightarrow> is_leap y"
proof -
  have "(y + e * 400) mod 4 = y mod 4" "(y + e * 400) mod 100 = y mod 100" "(y + e * 400) mod 400 = y mod 400"
    using mod_mult_self1 [of y "e * 100" 4] mod_mult_self1 [of y "e * 4" 100] mod_mult_self1 [of y e 400] by (simp_all add: mult.assoc)
  then show ?thesis by (simp add: is_leap_def)
qed

lemma months_of_year:
  "list_all (\<lambda>doy.
     let mp = (5 * doy + 2) div 153; d = doy - (153 * mp + 2) div 5 + 1; m = (if mp < 10 then mp + 3 else mp - 9) in
     0 \<le> mp \<and> mp \<le> 11 \<and> 1 \<le> d \<and> d \<le> (if m = 2 then (if doy = 365 then 29 else 28) else if m = 4 \<or> m = 6 \<or> m = 9 \<or> m = 11 then 30 else 31)) [0..365]"
  by code_simp

text \<open>A day number gives a date of the calendar, and the date gives the day number back.\<close>

lemma civil_days:
  assumes "civil_from_days z = (y, m, d)"
  shows "1 \<le> m" and "m \<le> 12" and "1 \<le> d" and "d \<le> days_in_month y m" and "days_from_civil y m d = z"
    and "- 719468 \<le> z \<Longrightarrow> 0 \<le> y" and "z < 2932591 \<Longrightarrow> y \<le> 9999"
proof -
  define era where "era = (z + 719468) div 146097"
  define doe where "doe = z + 719468 - era * 146097"
  define yoe where "yoe = leapless doe div 365"
  define doy where "doy = doe - year_start yoe"
  define mp where "mp = (5 * doy + 2) div 153"
  have mdef: "m = (if mp < 10 then mp + 3 else mp - 9)" "d = doy - (153 * mp + 2) div 5 + 1" "y = (if m \<le> 2 then yoe + era * 400 + 1 else yoe + era * 400)"
    using assms unfolding civil_from_days_def Let_def era_def [symmetric] doe_def [symmetric] leapless_def [symmetric] yoe_def [symmetric]
      year_start_def [symmetric] doy_def [symmetric] mp_def [symmetric] by auto
  have "doe = (z + 719468) mod 146097" unfolding doe_def era_def by (simp add: minus_div_mult_eq_mod)
  then have doe: "0 \<le> doe" "doe < 146097" by simp_all
  note yr = year_of_day [OF doe yoe_def]
  have leap: "doy \<le> (if is_leap (yoe + 1) then 365 else 364)"
  proof (cases "yoe < 399")
    case True with yr(4) year_length [OF yr(1) True] show ?thesis unfolding doy_def by (auto split: if_splits)
  next
    case False
    with yr(2) have "yoe = 399" by simp
    with doe show ?thesis unfolding doy_def by (simp add: year_start_def is_leap_def)
  qed
  with yr(3) have "doy \<in> set [0..365]" by (auto simp: doy_def split: if_splits)
  with months_of_year have mo: "0 \<le> mp" "mp \<le> 11" "1 \<le> d"
    "d \<le> (if m = 2 then (if doy = 365 then 29 else 28) else if m = 4 \<or> m = 6 \<or> m = 9 \<or> m = 11 then 30 else 31)"
    unfolding list_all_iff Let_def mdef(1,2) mp_def by blast+
  show "1 \<le> m" "m \<le> 12" "1 \<le> d" using mo by (auto simp: mdef(1))
  have "is_leap y" if "m = 2" "doy = 365"
    using leap that is_leap_era [of "yoe + 1" era] by (auto simp: mdef(3) algebra_simps split: if_splits)
  with mo(4) show "d \<le> days_in_month y m" by (auto simp: days_in_month_def split: if_splits)
  show "0 \<le> y" if "- 719468 \<le> z"
    using that yr(1) by (simp add: mdef(3) era_def pos_imp_zdiv_nonneg_iff)
  show "y \<le> 9999" if z: "z < 2932591"
  proof -
    have "era \<le> 24" using zdiv_mono1 [of "z + 719468" 3652058 146097] z by (simp add: era_def)
    moreover have "yoe \<noteq> 399" if "era = 24" using that yr(3) z by (auto simp: doe_def year_start_def)
    ultimately have "yoe + era * 400 \<le> 9998" using yr(2) by (cases "era = 24") linarith+
    then show ?thesis by (auto simp: mdef(3))
  qed
  have y': "(if m \<le> 2 then y - 1 else y) = yoe + era * 400" by (simp add: mdef(3))
  have "(m + 9) mod 12 = mp" using mo by (auto simp: mdef(1))
  then have md: "(153 * ((m + 9) mod 12) + 2) div 5 + d - 1 = doy" by (simp add: mdef(2))
  have "(yoe + era * 400) div 400 = era" using yr(1,2) by simp
  then show "days_from_civil y m d = z"
    unfolding days_from_civil_def Let_def y' md by (simp add: doy_def year_start_def doe_def)
qed

section \<open>Reading a timestamp back\<close>

lemma pad_digits:
  assumes "0 \<le> n" and "n < 10 ^ k" and "0 < k"
  shows "length (pad k n) = k" and "list_all is_digit (pad k n)" and "int (digits_val (pad k n)) = n"
proof -
  have len: "length (nat_str j) \<le> k" if "j < 10 ^ k" "0 < k" for j k
    using that
  proof (induction j arbitrary: k rule: nat_str.induct)
    case (1 j)
    show ?case
    proof (cases "j < 10")
      case False
      with "1.prems" obtain k' where k: "k = Suc k'" "0 < k'" by (cases k; cases "k - 1") auto
      with "1.prems" have "j div 10 < 10 ^ k'" by simp
      from "1.IH" [OF False this k(2)] False k show ?thesis by (simp add: nat_str.simps [of j])
    qed (use "1.prems" in \<open>simp add: nat_str.simps\<close>)
  qed
  have zeros: "digits_val (replicate i (CHR ''0'') @ s) = digits_val s" for i s
    by (induction i) (simp_all add: digits_val_def digit_val_def)
  have "nat n < 10 ^ k" using assms by (simp add: nat_less_iff)
  from len [OF this assms(3)] show "length (pad k n) = k" by (simp add: pad_def Let_def)
  show "list_all is_digit (pad k n)" using nat_str_digits [of "nat n"] by (auto simp: pad_def Let_def list_all_iff is_digit_def)
  show "int (digits_val (pad k n)) = n" using assms(1) by (simp add: pad_def Let_def zeros)
qed

lemma pdigits_pad: "0 \<le> n \<Longrightarrow> n < 10 ^ k \<Longrightarrow> 0 < k \<Longrightarrow> pdigits k (pad k n @ r) = Some (n, r)"
  using pad_digits [of n k] by (simp add: pdigits_def)

text \<open>The date and the time are read back from March of the year 0 to February 9999, whatever fraction and zone follow.\<close>

lemma date_parse_stem:
  assumes "- 62162035200 \<le> s" and "s < 253375862400" and "pmillis w = Some (ms, v)" and "pzone v = Some 0"
  shows "date_parse (date_time s @ w) = Num (1000 * s + ms)"
proof -
  obtain y m d where c: "civil_from_days (s div 86400) = (y, m, d)" by (cases "civil_from_days (s div 86400)") auto
  note cd = civil_days [OF c]
  define r where "r = s mod 86400"
  have r: "0 \<le> r" "r < 86400" "86400 * (s div 86400) + r = s" by (simp_all add: r_def)
  have "- 719468 \<le> s div 86400" "s div 86400 < 2932591" using assms by linarith+
  with cd(6,7) have y: "0 \<le> y" "y < 10000" by simp_all
  have "d \<le> 31" using cd(4) by (auto simp: days_in_month_def split: if_splits)
  then have md: "0 \<le> m" "m < 100" "0 \<le> d" "d < 100" using cd by simp_all
  define h where "h = r div 3600"
  define mi where "mi = r div 60 mod 60"
  define sc where "sc = r mod 60"
  have hms: "0 \<le> h" "h \<le> 23" "0 \<le> mi" "mi \<le> 59" "0 \<le> sc" "sc \<le> 59" using r by (simp_all add: h_def mi_def sc_def)
  have "r div 60 div 60 = h" using zdiv_zmult2_eq [of 60 r 60] by (simp add: h_def)
  with mult_div_mod_eq [of 60 r] mult_div_mod_eq [of 60 "r div 60"] have sum: "3600 * h + 60 * mi + sc = r"
    unfolding mi_def sc_def by linarith
  have tx: "date_time s @ w = pad 4 y @ CHR ''-'' # pad 2 m @ CHR ''-'' # pad 2 d @ CHR ''T'' # pad 2 h @ CHR '':'' # pad 2 mi @ CHR '':'' # pad 2 sc @ w"
    by (simp add: date_time_def c h_def mi_def sc_def r_def Let_def)
  have p: "pdigits 4 (pad 4 y @ x) = Some (y, x)" "pdigits 2 (pad 2 m @ x) = Some (m, x)" "pdigits 2 (pad 2 d @ x) = Some (d, x)"
    "pdigits 2 (pad 2 h @ x) = Some (h, x)" "pdigits 2 (pad 2 mi @ x) = Some (mi, x)" "pdigits 2 (pad 2 sc @ x) = Some (sc, x)"
    "pchar k (k # x) = Some x" for x k
    using y md hms by (simp_all add: pdigits_pad pchar_def)
  have "date_parse_opt (date_time s @ w) = Some (86400000 * (s div 86400) + 3600000 * h + 60000 * mi + 1000 * sc + ms)"
    unfolding tx date_parse_opt_def p assms(3,4) bind.bind_lunit prod.case using cd(1-5) hms by simp
  moreover have "86400000 * (s div 86400) + 3600000 * h + 60000 * mi + 1000 * sc = 1000 * s" using sum r(3) by linarith
  ultimately show ?thesis by (simp add: date_parse_def)
qed

lemma date_parse_rfc3339:
  assumes "- 62162035200 \<le> s" and "s < 253375862400"
  shows "date_parse (to_rfc3339 s) = Num (1000 * s)"
  using date_parse_stem [OF assms, of "''Z''" 0 "''Z''"] by (simp add: to_rfc3339_def pmillis_def pzone_def)

section \<open>Reading a fraction back\<close>

lemma digits_val_append: "digits_val (a @ b) = digits_val a * 10 ^ length b + digits_val b"
  by (induction b rule: rev_induct) (simp_all flip: append_assoc add: digits_val_def algebra_simps)

lemma digits_val_bound: "list_all is_digit b \<Longrightarrow> digits_val b < 10 ^ length b"
proof (induction b rule: rev_induct)
  case (snoc c b)
  then show ?case by (auto simp: is_digit_def digit_val_def)
qed (simp add: digits_val_def)

lemma pad_prefix:
  assumes "0 \<le> n" and "n < 10 ^ (j + k)" and "0 < j + k"
  shows "int (digits_val (take j (pad (j + k) n))) = n div 10 ^ k"
proof -
  note p = pad_digits [OF assms]
  let ?a = "take j (pad (j + k) n)" and ?b = "drop j (pad (j + k) n)"
  have "digits_val ?b < 10 ^ k" using digits_val_bound [of ?b] p(1,2) by (auto simp: list_all_iff dest: in_set_dropD)
  then have b: "int (digits_val ?b) < 10 ^ k" by (simp flip: of_nat_less_iff)
  have "n = int (digits_val ?b) + int (digits_val ?a) * 10 ^ k"
    using p(1,3) digits_val_append [of ?a ?b] by simp
  then have "n div 10 ^ k = (int (digits_val ?b) + int (digits_val ?a) * 10 ^ k) div 10 ^ k" by (rule arg_cong)
  with b show ?thesis by (simp add: div_pos_pos_trivial)
qed

lemma strip_zeros_split: "\<exists>k. ds = strip_zeros ds @ replicate k (CHR ''0'')"
proof -
  have "rev ds = takeWhile (\<lambda>c. c = CHR ''0'') (rev ds) @ dropWhile (\<lambda>c. c = CHR ''0'') (rev ds)" by simp
  then have "ds = strip_zeros ds @ rev (takeWhile (\<lambda>c. c = CHR ''0'') (rev ds))"
    unfolding strip_zeros_def by (metis rev_append rev_rev_ident)
  moreover have "takeWhile (\<lambda>c. c = CHR ''0'') (rev ds) = replicate (length (takeWhile (\<lambda>c. c = CHR ''0'') (rev ds))) (CHR ''0'')"
    by (intro replicate_eqI) (auto dest: set_takeWhileD)
  ultimately show ?thesis by (metis rev_replicate)
qed

lemma take_filled:
  assumes "ds \<noteq> []" and "3 \<le> length ds + k"
  shows "take 3 (ds @ ''00'') = take 3 (ds @ replicate k (CHR ''0''))"
proof -
  have "''00'' = replicate 2 (CHR ''0'')" by (simp add: eval_nat_numeral)
  moreover have "0 < length ds" using assms(1) by simp
  then have "min (3 - length ds) 2 = min (3 - length ds) k" using assms(2) by linarith
  ultimately show ?thesis by (simp only: take_append take_replicate)
qed

text \<open>The console reads the millisecond of an instant that was printed in nanoseconds.\<close>

lemma date_parse_rfc3339_nano:
  assumes "- 62162035200 \<le> t div 10 ^ 9" and "t div 10 ^ 9 < 253375862400"
  shows "date_parse (to_rfc3339_nano t) = Num (t div 10 ^ 6)"
proof -
  define n where "n = t mod 10 ^ 9"
  have n: "0 \<le> n" "n < 10 ^ (3 + 6)" by (simp_all add: n_def)
  note p = pad_digits [OF n] and f = pad_prefix [OF n]
  let ?p = "pad 9 n"
  let ?ds = "strip_zeros ?p"
  obtain k where k: "?p = ?ds @ replicate k (CHR ''0'')" using strip_zeros_split by blast
  have p9: "length ?p = 9" "list_all is_digit ?p" using p(1,2) by simp_all
  have len: "length ?ds + k = 9" using arg_cong [OF k, of length] p9(1) by simp
  have t: "t div 10 ^ 6 = 1000 * (t div 10 ^ 9) + n div 10 ^ 6"
    using mult_div_mod_eq [of "10 ^ 9" t] div_mult_self2 [of "10 ^ 6" "n" "1000 * (t div 10 ^ 9)"] by (simp add: n_def algebra_simps)
  show ?thesis
  proof (cases "?ds = []")
    case True
    with k len have "take 3 ?p = ''000''" by (simp add: eval_nat_numeral)
    with f have "n div 10 ^ 6 = 0" by (simp add: digits_val_def digit_val_def)
    with date_parse_rfc3339 [OF assms] True t show ?thesis by (simp add: to_rfc3339_nano_def to_rfc3339_def n_def Let_def)
  next
    case False
    have dg: "list_all is_digit ?ds" using p9(2) by (subst (asm) k) simp
    have tk: "take 3 (?ds @ ''00'') = take 3 ?p"
      using take_filled [OF False, of k] len k by simp
    have "pmillis (CHR ''.'' # ?ds @ ''Z'') = Some (n div 10 ^ 6, ''Z'')"
      using False dg tk f by (simp add: pmillis_def takeWhile_append2 list_all_iff is_digit_def)
    from date_parse_stem [OF assms this] False t show ?thesis
      by (simp add: to_rfc3339_nano_def n_def Let_def pzone_def)
  qed
qed

end
