(* ===== verification/Throughput.thy ===== *)
theory Throughput
  imports Job_Handlers Tokens Calendar
begin

text \<open>
  The series behind the charts: \<open>Throughput\<close> and \<open>genSeries\<close> of \<open>internal/httpapi/handlers.go\<close>, over the sorted
  sets in which the gateway and the workers record what they did, with the second as score. Instants are
  nanoseconds. \<open>query_get\<close> is \<open>r.URL.Query().Get\<close>: the pairs between the ampersands, of which one with a
  semicolon or a bad escape is dropped, and the first value of a key.
\<close>

section \<open>Query parameters\<close>

fun cut_at :: "char \<Rightarrow> string \<Rightarrow> string \<times> string" where
  "cut_at c [] = ([], [])"
| "cut_at c (x # xs) = (if x = c then ([], xs) else (case cut_at c xs of (a, b) \<Rightarrow> (x # a, b)))"

definition QueryUnescape :: "string \<Rightarrow> string option" where
  "QueryUnescape s = percent_decode (map (\<lambda>c. if c = CHR ''+'' then CHR '' '' else c) s)"

definition query_pair :: "string \<Rightarrow> (string \<times> string) option" where
  "query_pair kv =
     (if CHR '';'' \<in> set kv \<or> kv = [] then None
      else
        case cut_at (CHR ''='') kv of (k, v) \<Rightarrow>
          (case (QueryUnescape k, QueryUnescape v) of (Some k', Some v') \<Rightarrow> Some (k', v') | _ \<Rightarrow> None))"

definition query_get :: "string \<Rightarrow> string \<Rightarrow> string" where
  "query_get key path =
     nullish (map_of (List.map_filter query_pair (split_on (CHR ''&'') (snd (cut_at (CHR ''?'') path)))) key) []"

section \<open>The series\<close>

text \<open>The span in nanoseconds and the number of points.\<close>

definition series_range :: "string \<Rightarrow> int \<times> nat" where
  "series_range rangeQ =
     (if rangeQ = ''5m'' then (5 * 60 * 10 ^ 9, 20)
      else if rangeQ = ''15m'' then (15 * 60 * 10 ^ 9, 30)
      else if rangeQ = ''1h'' then (3600 * 10 ^ 9, 30)
      else if rangeQ = ''6h'' then (6 * 3600 * 10 ^ 9, 36)
      else if rangeQ = ''24h'' then (24 * 3600 * 10 ^ 9, 48)
      else if rangeQ = ''7d'' then (7 * 24 * 3600 * 10 ^ 9, 56)
      else (15 * 60 * 10 ^ 9, 30))"

text \<open>\<open>ZCOUNT key lo hi\<close>: both ends are included. The bounds are seconds, the scores of \<open>Redis_Store\<close> microseconds.\<close>

definition zcount :: "int \<Rightarrow> int \<Rightarrow> zset \<Rightarrow> int" where
  "zcount lo hi z = int (length (filter (\<lambda>p. 1000000 * lo \<le> snd p \<and> snd p \<le> 1000000 * hi) z))"

definition series_point :: "int \<Rightarrow> int \<Rightarrow> db \<Rightarrow> metrics_point \<times> db" where
  "series_point bucketStart step d =
     (let start = unix bucketStart; stop = unix (bucketStart + step) in
      case val (\<lambda>r. zcount start stop (rd_enqueued r)) d of (enq, d1) \<Rightarrow>
      case val (\<lambda>r. zcount start stop (rd_completed r)) d1 of (completed, d2) \<Rightarrow>
      case val (\<lambda>r. zcount start stop (rd_failed r)) d2 of (failures, d3) \<Rightarrow>
      case val (\<lambda>r. int (length (rd_dead r))) d3 of (dlqTotal, d4) \<Rightarrow>
      case val (\<lambda>r. int (length (rd_immediate r))) d4 of (pending, d5) \<Rightarrow>
      case val (\<lambda>r. int (length (rd_inflight r))) d5 of (processing, d6) \<Rightarrow>
      case val (\<lambda>r. int (length (rd_scheduled r))) d6 of (delayed, d7) \<Rightarrow>
        (\<lparr>mp_time = to_rfc3339_nano bucketStart, mp_enqueued = (if enq < 0 then 0 else enq),
          mp_completed = (if completed < 0 then 0 else completed), mp_failed = (if failures < 0 then 0 else failures),
          mp_depth = pending + processing + delayed, mp_latencyMs = 40, mp_execMs = 380, mp_retries = 0, mp_dlq = dlqTotal,
          mp_workers = 3, mp_leaseExpirations = 0\<rparr>, d7))"

fun series_points :: "int \<Rightarrow> int list \<Rightarrow> db \<Rightarrow> metrics_point list \<times> db" where
  "series_points step [] d = ([], d)"
| "series_points step (b # bs) d =
     (case series_point b step d of (p, d1) \<Rightarrow> case series_points step bs d1 of (ps, d2) \<Rightarrow> (p # ps, d2))"

definition genSeries :: "int \<Rightarrow> string \<Rightarrow> db \<Rightarrow> metrics_point list \<times> db" where
  "genSeries now rangeQ d =
     (case series_range rangeQ of (spn, n) \<Rightarrow>
        let step = spn div int n in
        series_points step (map (\<lambda>i. now + (- spn + int i * step)) [0..<n]) d)"

definition h_Throughput :: "int \<Rightarrow> string \<Rightarrow> db \<Rightarrow> metrics_point list \<times> db" where
  "h_Throughput now path d =
     (let q = query_get ''range'' path; rangeQ = (if q = [] then ''15m'' else q) in genSeries now rangeQ d)"

definition h_Version :: "string \<Rightarrow> string \<Rightarrow> string \<Rightarrow> json" where
  "h_Version version commit date = JObj [(''version'', JStr version), (''commit'', JStr commit), (''date'', JStr date)]"

section \<open>Lemmas\<close>

lemma val_up [simp]: "up l \<Longrightarrow> val f (r, l) = (f r, (r, l))"
  by (simp add: val_def)

lemma zcount_nonneg [simp]: "\<not> zcount lo hi z < 0"
  by (simp add: zcount_def)

text \<open>Every range is divided into whole seconds, so the bounds of the intervals are those of the points, cut to seconds.\<close>

lemma series_range_cases:
  assumes "series_range rangeQ = (spn, n)"
  obtains s where "0 < s" and "0 < n" and "spn = int n * (s * 10 ^ 9)" and "spn div int n = s * 10 ^ 9"
proof -
  consider "(spn, n) = (5 * 60 * 10 ^ 9, 20)" | "(spn, n) = (15 * 60 * 10 ^ 9, 30)" | "(spn, n) = (3600 * 10 ^ 9, 30)"
    | "(spn, n) = (6 * 3600 * 10 ^ 9, 36)" | "(spn, n) = (24 * 3600 * 10 ^ 9, 48)" | "(spn, n) = (7 * 24 * 3600 * 10 ^ 9, 56)"
    using assms by (auto simp: series_range_def split: if_splits)
  then show thesis
    by cases (use that [of 15] that [of 30] that [of 120] that [of 600] that [of 1800] that [of 10800] in simp_all)
qed

lemma unix_shift: "unix (t + k * 10 ^ 9) = unix t + k"
  by (simp add: unix_def)

lemma series_points_up:
  assumes "up l"
  shows "series_points step bs (r, l) = (map (\<lambda>b. fst (series_point b step (r, l))) bs, (r, l))"
  using assms by (induction bs) (simp_all add: series_point_def Let_def)

text \<open>How often one recorded instant is counted by intervals that include both their ends.\<close>

lemma interval_hits:
  fixes a s x :: int
  assumes "0 < s" and "0 < n"
  shows "(\<Sum>i<n. of_bool (a + int i * s \<le> x \<and> x \<le> a + (int i + 1) * s)) =
    (of_bool (a \<le> x \<and> x \<le> a + int n * s) + of_bool (\<exists>k\<in>{0<..<n}. x = a + int k * s) :: int)"
  using assms(2)
proof (induction n rule: nat_induct_non_zero)
  case (Suc n)
  have mono: "a + int k * s < a + int n * s" if "k < n" for k using that assms(1) by simp
  have pos: "a \<le> a + int n * s" using assms(1) by simp
  consider "x < a + int n * s" | "x = a + int n * s" | "a + int n * s < x" by linarith
  then show ?case
  proof cases
    case 1
    with Suc assms(1) show ?thesis by (auto simp: less_Suc_eq algebra_simps)
  next
    case 2
    then have "\<not> (\<exists>k\<in>{0<..<n}. x = a + int k * s)" "\<exists>k\<in>{0<..<Suc n}. x = a + int k * s" using mono Suc.hyps by force+
    with Suc 2 assms(1) pos show ?thesis by (simp add: algebra_simps)
  next
    case 3
    then have "\<not> (\<exists>k\<in>{0<..<Suc n}. x = a + int k * s)" using mono by (force simp: less_Suc_eq)
    then have "\<not> (\<exists>k\<in>{0<..<n}. x = a + int k * s)" "\<not> (\<exists>k\<in>{0<..<Suc n}. x = a + int k * s)" by auto
    moreover have "a \<le> x" using pos 3 by linarith
    ultimately show ?thesis using Suc 3 assms(1) by (simp add: algebra_simps)
  qed
qed (auto simp: algebra_simps)

text \<open>The entries recorded in a second at which two of the intervals meet.\<close>

definition met_twice :: "nat \<Rightarrow> int \<Rightarrow> int \<Rightarrow> zset \<Rightarrow> int" where
  "met_twice n a s z = int (length (filter (\<lambda>p. \<exists>k\<in>{0<..<n}. snd p = 1000000 * (a + int k * s)) z))"

lemma zcount_Cons: "zcount lo hi (p # z) = of_bool (1000000 * lo \<le> snd p \<and> snd p \<le> 1000000 * hi) + zcount lo hi z"
  by (simp add: zcount_def)

lemma zcount_intervals:
  assumes "0 < s" and "0 < n"
  shows "(\<Sum>i<n. zcount (a + int i * s) (a + (int i + 1) * s) z) = zcount a (a + int n * s) z + met_twice n a s z"
proof (induction z)
  case (Cons p z)
  have "(\<Sum>i<n. of_bool (1000000 * (a + int i * s) \<le> snd p \<and> snd p \<le> 1000000 * (a + (int i + 1) * s))) =
    (of_bool (1000000 * a \<le> snd p \<and> snd p \<le> 1000000 * (a + int n * s)) +
     of_bool (\<exists>k\<in>{0<..<n}. snd p = 1000000 * (a + int k * s)) :: int)"
    using interval_hits [of "1000000 * s" n "1000000 * a" "snd p"] assms by (simp add: algebra_simps)
  with Cons show ?case by (simp add: zcount_Cons sum.distrib met_twice_def)
qed (simp add: zcount_def met_twice_def)

lemma sum_points:
  assumes "\<And>b. f (fst (series_point b (s * 10 ^ 9) (r, l))) = zcount (unix b) (unix b + s) z" and "0 < s" and "0 < n"
  shows "sum_list (map (\<lambda>i. f (fst (series_point (now + (- (int n * (s * 10 ^ 9)) + int i * (s * 10 ^ 9))) (s * 10 ^ 9) (r, l)))) [0..<n]) =
    zcount (unix now - int n * s) (unix now) z + met_twice n (unix now - int n * s) s z"
proof -
  have u: "unix (now + (- (int n * (s * 10 ^ 9)) + int i * (s * 10 ^ 9))) = unix now - int n * s + int i * s" for i
    using unix_shift [of now "int i * s - int n * s"] by (simp add: algebra_simps)
  have e: "unix now - int n * s + int i * s + s = unix now - int n * s + (int i + 1) * s" for i by (simp add: algebra_simps)
  show ?thesis
    using zcount_intervals [OF assms(2,3), of "unix now - int n * s" z]
    unfolding assms(1) u e by (simp add: interv_sum_list_conv_sum_set_nat lessThan_atLeast0)
qed

lemma point_counts:
  assumes "up l"
  shows "mp_enqueued (fst (series_point b (s * 10 ^ 9) (r, l))) = zcount (unix b) (unix b + s) (rd_enqueued r)"
    and "mp_completed (fst (series_point b (s * 10 ^ 9) (r, l))) = zcount (unix b) (unix b + s) (rd_completed r)"
    and "mp_failed (fst (series_point b (s * 10 ^ 9) (r, l))) = zcount (unix b) (unix b + s) (rd_failed r)"
  using assms unix_shift [of b s] by (simp_all add: series_point_def Let_def)

lemma cut_at_app: "c \<notin> set a \<Longrightarrow> cut_at c (a @ c # b) = (a, b)"
  by (induction a) auto

text \<open>Whatever else the console asks for, the handler only reads the range.\<close>

lemma query_range: "query_get ''range'' (api_path (Throughput rg q)) = range_str rg"
proof -
  have r: "query_pair (''range='' @ range_str rg) = Some (''range'', range_str rg)" by (cases rg) (simp_all add: query_pair_def QueryUnescape_def)
  have amp: "CHR ''&'' \<notin> set (''range='' @ range_str rg)" by (cases rg) simp_all
  obtain w where w: "api_path (Throughput rg q) = ''/metrics/throughput'' @ CHR ''?'' # ''range='' @ range_str rg @ w"
    "w = [] \<or> (\<exists>v. w = CHR ''&'' # v)" by auto
  have "snd (cut_at (CHR ''?'') (api_path (Throughput rg q))) = ''range='' @ range_str rg @ w"
    unfolding w(1) by (subst cut_at_app) simp_all
  moreover have "\<exists>vs. split_on (CHR ''&'') (''range='' @ range_str rg @ w) = (''range='' @ range_str rg) # vs"
    using w(2) split_on_app [OF amp] split_on_none [OF amp] by auto
  ultimately show ?thesis using r by (auto simp: query_get_def List.map_filter_simps nullish_def)
qed

lemma throughput_reply:
  assumes "up l" and "series_range (range_str rg) = (width, n)" and "0 < s" and "width div int n = s * 10 ^ 9"
  shows "h_Throughput now (api_path (Throughput rg q)) (r, l) =
    (map (\<lambda>i. fst (series_point (now + (- width + int i * (s * 10 ^ 9))) (s * 10 ^ 9) (r, l))) [0..<n], (r, l))"
proof -
  have "range_str rg \<noteq> []" by (cases rg) simp_all
  then have "h_Throughput now (api_path (Throughput rg q)) (r, l) = genSeries now (range_str rg) (r, l)"
    by (simp only: h_Throughput_def query_range Let_def if_False)
  then show ?thesis by (simp only: genSeries_def assms(2,4) series_points_up [OF assms(1)] Let_def prod.case map_map comp_def)
qed

lemma series_times:
  assumes "up l" and "0 \<le> b" and "b < 253375862400 * 10 ^ 9"
  shows "date_parse (mp_time (fst (series_point b step (r, l)))) = Num (b div 10 ^ 6)"
proof -
  from assms(2,3) have "0 \<le> b" "b < 253375862400000000000" by simp_all
  then have "0 \<le> b div 1000000000" "b div 1000000000 < 253375862400" by linarith+
  then have "date_parse (to_rfc3339_nano b) = Num (b div 10 ^ 6)" by (intro date_parse_rfc3339_nano) simp_all
  then show ?thesis using assms(1) by (simp add: series_point_def Let_def)
qed

text \<open>
  (C40) The charts' series of a range. Its points are the instants from the start of the range on, at equal steps, and the console
  reads their times as they were meant. Summed over the points, what is counted of the range up to now is everything
  that was recorded in it, but a task recorded in a second at which two intervals meet is counted in both of
  them. A queue's series is the series of all queues. Latency, execution time, workers and retries are
  constants, whatever is in the database.
\<close>

theorem throughput_series:
  assumes "up l" and "series_range (range_str rg) = (width, n)" and "0 \<le> now - width" and "now < 253375862400 * 10 ^ 9"
    and "h_Throughput now (api_path (Throughput rg q)) (r, l) = (ps, d)"
  shows "d = (r, l)
    \<and> map (\<lambda>p. date_parse (mp_time p)) ps = map (\<lambda>i. Num ((now - width + int i * (width div int n)) div 10 ^ 6)) [0..<n]
    \<and> sum_list (map mp_enqueued ps) = zcount (unix (now - width)) (unix now) (rd_enqueued r)
        + met_twice n (unix (now - width)) (width div int n div 10 ^ 9) (rd_enqueued r)
    \<and> sum_list (map mp_completed ps) = zcount (unix (now - width)) (unix now) (rd_completed r)
        + met_twice n (unix (now - width)) (width div int n div 10 ^ 9) (rd_completed r)
    \<and> sum_list (map mp_failed ps) = zcount (unix (now - width)) (unix now) (rd_failed r)
        + met_twice n (unix (now - width)) (width div int n div 10 ^ 9) (rd_failed r)
    \<and> h_Throughput now (api_path (Throughput rg None)) (r, l) = (ps, d)
    \<and> (\<forall>p\<in>set ps. mp_latencyMs p = 40 \<and> mp_execMs p = 380 \<and> mp_workers p = 3 \<and> mp_retries p = 0)"
proof -
  obtain s where s: "0 < s" "0 < n" "width = int n * (s * 10 ^ 9)" "width div int n = s * 10 ^ 9"
    using assms(2) by (rule series_range_cases)
  note reply = throughput_reply [OF assms(1,2) s(1,4), of now _ r]
  let ?b = "\<lambda>i. now + (- width + int i * (s * 10 ^ 9))"
  have ps: "ps = map (\<lambda>i. fst (series_point (?b i) (s * 10 ^ 9) (r, l))) [0..<n]" "d = (r, l)"
    using assms(5) unfolding reply prod.inject by blast+
  have w: "unix (now - width) = unix now - int n * s" using unix_shift [of now "- (int n * s)"] by (simp add: s(3) algebra_simps)
  have q: "width div int n div 10 ^ 9 = s" by (simp add: s(4))
  note sums = sum_points [where n = n and now = now and s = s, folded s(3) w, OF point_counts(1) [OF assms(1)] s(1,2)]
    sum_points [where n = n and now = now and s = s, folded s(3) w, OF point_counts(2) [OF assms(1)] s(1,2)]
    sum_points [where n = n and now = now and s = s, folded s(3) w, OF point_counts(3) [OF assms(1)] s(1,2)]
  have "0 \<le> ?b i \<and> ?b i < 253375862400 * 10 ^ 9" if "i < n" for i
  proof -
    have "int i * (s * 10 ^ 9) \<le> width" using that s(1) by (simp add: s(3))
    moreover have "0 \<le> int i * (s * 10 ^ 9)" using s(1) by simp
    ultimately show ?thesis using assms(3,4) by linarith
  qed
  then have "map (\<lambda>p. date_parse (mp_time p)) ps = map (\<lambda>i. Num ((now - width + int i * (width div int n)) div 10 ^ 6)) [0..<n]"
    using series_times [OF assms(1)] by (simp add: ps s(4) algebra_simps)
  moreover have "\<forall>p\<in>set ps. mp_latencyMs p = 40 \<and> mp_execMs p = 380 \<and> mp_workers p = 3 \<and> mp_retries p = 0"
    using assms(1) by (auto simp: ps series_point_def Let_def)
  moreover have "h_Throughput now (api_path (Throughput rg None)) (r, l) = (ps, d)" unfolding reply ps ..
  ultimately show ?thesis using ps(2) sums unfolding q ps(1) map_map comp_def by blast
qed

definition one_done :: redis where
  "one_done =
     \<lparr>rd_task = (\<lambda>_. None), rd_immediate = [], rd_scheduled = [], rd_inflight = [], rd_leases = (\<lambda>_. None), rd_dead = [],
      rd_paused = False, rd_completed = [(''t1'', 6600 * 1000000)], rd_enqueued = [], rd_failed = [], rd_workers = [],
      rd_meta = (\<lambda>_. None), rd_wleases = (\<lambda>_. [])\<rparr>"

text \<open>One task completed 10 minutes ago, at a full interval of the hour: the chart shows two.\<close>

theorem throughput_series_witness:
  "sum_list (map mp_completed (fst (h_Throughput (7200 * 10 ^ 9) (api_path (Throughput R1h (Some ''mail'')))
     (one_done, \<lparr>ln_budget = None, ln_torn = False, ln_error = []\<rparr>)))) = 2"
proof -
  let ?r = one_done and ?l = "\<lparr>ln_budget = None, ln_torn = False, ln_error = []\<rparr>"
  obtain ps d where p: "h_Throughput (7200 * 10 ^ 9) (api_path (Throughput R1h (Some ''mail''))) (?r, ?l) = (ps, d)" by (metis surj_pair)
  have "sum_list (map mp_completed ps) = zcount (unix (7200 * 10 ^ 9 - 3600 * 10 ^ 9)) (unix (7200 * 10 ^ 9)) (rd_completed ?r)
      + met_twice 30 (unix (7200 * 10 ^ 9 - 3600 * 10 ^ 9)) (3600 * 10 ^ 9 div int 30 div 10 ^ 9) (rd_completed ?r)"
    using throughput_series [of ?l R1h "3600 * 10 ^ 9" 30 "7200 * 10 ^ 9", OF _ _ _ _ p] by (simp add: series_range_def)
  also have "... = 2"
    by (auto simp: one_done_def zcount_def met_twice_def unix_def intro: bexI [of _ 25])
  finally show ?thesis using p by simp
qed

end
