(* ===== verification/Auth_Config.thy ===== *)
theory Auth_Config
  imports Tokens
begin

text \<open>
  The service of accounts and tokens as the environment configures it: \<open>internal/auth/config.go\<close>. The environment is a
  function from names to values (the empty text when unset, as \<open>os.Getenv\<close>), \<open>rnd i\<close> the \<open>i\<close>-th draw of random
  bytes (\<open>None\<close>: the draw failed). Log lines are left out, and an error has no wrapped cause.
\<close>

section \<open>Durations\<close>

text \<open>
  \<open>time.ParseDuration\<close>: a sign and a sequence of decimal numbers with units. The fraction of a unit is cut to whole
  nanoseconds exactly here, in double precision there.
\<close>

definition unit_ns :: "string \<Rightarrow> nat option" where
  "unit_ns u = map_of
     [(''ns'', 1), (''us'', 10 ^ 3), (CHR 0xC2 # CHR 0xB5 # ''s'', 10 ^ 3), (CHR 0xCE # CHR 0xBC # ''s'', 10 ^ 3), (''ms'', 10 ^ 6),
      (''s'', 10 ^ 9), (''m'', 60 * 10 ^ 9), (''h'', 3600 * 10 ^ 9)] u"

text \<open>One number with its unit, in nanoseconds, and what follows it.\<close>

definition duration_item :: "string \<Rightarrow> (nat \<times> string) option" where
  "duration_item s =
     (let whole = takeWhile is_digit s; r1 = dropWhile is_digit s;
          dotted = (r1 \<noteq> [] \<and> hd r1 = CHR ''.'');
          frac = (if dotted then takeWhile is_digit (tl r1) else []);
          r2 = (if dotted then dropWhile is_digit (tl r1) else r1);
          u = takeWhile (\<lambda>c. c \<noteq> CHR ''.'' \<and> \<not> is_digit c) r2
      in if whole = [] \<and> frac = [] \<or> u = [] then None
         else map_option (\<lambda>n. (digits_val whole * n + digits_val frac * n div 10 ^ length frac, drop (length u) r2)) (unit_ns u))"

lemma duration_item_less: "duration_item s = Some (v, r) \<Longrightarrow> length r < length s"
proof -
  assume a: "duration_item s = Some (v, r)"
  let ?r1 = "dropWhile is_digit s"
  define r2 where "r2 = (if ?r1 \<noteq> [] \<and> hd ?r1 = CHR ''.'' then dropWhile is_digit (tl ?r1) else ?r1)"
  define u where "u = takeWhile (\<lambda>c. c \<noteq> CHR ''.'' \<and> \<not> is_digit c) r2"
  from a have r: "r = drop (length u) r2" "u \<noteq> []"
    unfolding duration_item_def Let_def r2_def [symmetric] u_def [symmetric] by (auto split: if_splits)
  have "length u \<le> length r2" unfolding u_def by (rule length_takeWhile_le)
  with r have "length r < length r2" by (cases u) auto
  moreover have "length r2 \<le> length s"
    using length_dropWhile_le [of is_digit s] length_dropWhile_le [of is_digit "tl ?r1"]
    unfolding r2_def by (auto simp del: length_dropWhile_le intro: le_trans)
  ultimately show ?thesis by simp
qed

function duration_parts :: "string \<Rightarrow> nat option" where
  "duration_parts s =
     (if s = [] then Some 0
      else
        (case duration_item s of
           None \<Rightarrow> None
         | Some (v, r) \<Rightarrow>
             (case duration_parts r of None \<Rightarrow> None | Some d \<Rightarrow> if v + d > 2 ^ 63 then None else Some (v + d))))"
  by auto
termination
  by (relation "measure length") (auto dest: duration_item_less)

declare duration_parts.simps [simp del]

definition ParseDuration :: "string \<Rightarrow> int option" where
  "ParseDuration s =
     (let neg = (s \<noteq> [] \<and> hd s = CHR ''-''); r = (if s \<noteq> [] \<and> hd s \<in> {CHR ''-'', CHR ''+''} then tl s else s) in
      if r = ''0'' then Some 0
      else if r = [] then None
      else
        (case duration_parts r of
           None \<Rightarrow> None
         | Some d \<Rightarrow> if neg then Some (- int d) else if d > 2 ^ 63 - 1 then None else Some (int d)))"

section \<open>Accounts\<close>

datatype config_error =
    BadTTL string | BadUsersJson | NoUsers | NoUsername | NoPassword string | NoRandom | BadAccounts string
  | BadDefaultRole string | NoClient | BadOidc string

record userConfig =
  uc_username :: string
  uc_password :: string
  uc_roles :: "string list"

definition put_user :: "string \<times> json \<Rightarrow> userConfig \<Rightarrow> userConfig option" where
  "put_user m c =
     (case m of (k, v) \<Rightarrow>
        if to_lower k = ''username'' then
          (case v of JStr s \<Rightarrow> Some (c\<lparr>uc_username := s\<rparr>) | JNull \<Rightarrow> Some c | _ \<Rightarrow> None)
        else if to_lower k = ''password'' then
          (case v of JStr s \<Rightarrow> Some (c\<lparr>uc_password := s\<rparr>) | JNull \<Rightarrow> Some c | _ \<Rightarrow> None)
        else if to_lower k = ''roles'' then
          (case v of JArr xs \<Rightarrow> map_option (\<lambda>rs. c\<lparr>uc_roles := rs\<rparr>) (role_texts xs) | JNull \<Rightarrow> Some (c\<lparr>uc_roles := []\<rparr>) | _ \<Rightarrow> None)
        else Some c)"

fun put_user_members :: "(string \<times> json) list \<Rightarrow> userConfig \<Rightarrow> userConfig option" where
  "put_user_members [] c = Some c"
| "put_user_members (m # ms) c = Option.bind (put_user m c) (put_user_members ms)"

definition unmarshal_user :: "json \<Rightarrow> userConfig option" where
  "unmarshal_user j =
     (let zero = \<lparr>uc_username = [], uc_password = [], uc_roles = []\<rparr> in
      case j of JObj ms \<Rightarrow> put_user_members ms zero | JNull \<Rightarrow> Some zero | _ \<Rightarrow> None)"

definition unmarshal_users :: "string \<Rightarrow> userConfig list option" where
  "unmarshal_users raw =
     (case json_parse raw of
        Some (JArr xs) \<Rightarrow> those (map unmarshal_user xs)
      | Some JNull \<Rightarrow> Some []
      | _ \<Rightarrow> None)"

text \<open>The loop over the accounts; the salt of the \<open>i\<close>-th one is the draw \<open>i\<close>.\<close>

fun hash_users :: "key_derivation \<Rightarrow> (nat \<Rightarrow> string option) \<Rightarrow> nat \<Rightarrow> userConfig list \<Rightarrow> config_error + user list" where
  "hash_users kdf rnd i [] = Inr []"
| "hash_users kdf rnd i (c # cs) =
     (if js_trim (uc_username c) = [] then Inl NoUsername
      else if uc_password c = [] then Inl (NoPassword (uc_username c))
      else
        (case Option.bind (rnd i) (\<lambda>salt. hashPassword kdf salt (uc_password c)) of
           None \<Rightarrow> Inl NoRandom
         | Some hash \<Rightarrow>
             (case hash_users kdf rnd (Suc i) cs of
                Inl e \<Rightarrow> Inl e
              | Inr us \<Rightarrow> Inr (\<lparr>us_name = uc_username c, us_hash = hash, us_roles = uc_roles c\<rparr> # us))))"

definition parseUsers :: "key_derivation \<Rightarrow> (nat \<Rightarrow> string option) \<Rightarrow> string \<Rightarrow> config_error + user list" where
  "parseUsers kdf rnd raw =
     (case unmarshal_users raw of
        None \<Rightarrow> Inl BadUsersJson
      | Some [] \<Rightarrow> Inl NoUsers
      | Some cs \<Rightarrow> hash_users kdf rnd 0 cs)"

text \<open>\<open>randomToken\<close>, given the bytes drawn.\<close>

definition randomToken :: "string option \<Rightarrow> string option" where
  "randomToken bytes = map_option (b64_encode True) bytes"

text \<open>Draw 0 is the generated password, draw 1 the salt.\<close>

definition bootstrapAdmin :: "key_derivation \<Rightarrow> (nat \<Rightarrow> string option) \<Rightarrow> (string \<Rightarrow> string) \<Rightarrow> config_error + user list" where
  "bootstrapAdmin kdf rnd env =
     (let username = (if js_trim (env ''FORGEQUEUE_ADMIN_USER'') = [] then ''admin'' else js_trim (env ''FORGEQUEUE_ADMIN_USER''));
          given = env ''FORGEQUEUE_ADMIN_PASSWORD'' in
      case (if given = [] then randomToken (rnd 0) else Some given) of
        None \<Rightarrow> Inl NoRandom
      | Some password \<Rightarrow>
          (case Option.bind (rnd 1) (\<lambda>salt. hashPassword kdf salt password) of
             None \<Rightarrow> Inl NoRandom
           | Some hash \<Rightarrow> Inr [\<lparr>us_name = username, us_hash = hash, us_roles = [''admin'']\<rparr>]))"

definition resolveSecret :: "string option \<Rightarrow> (string \<Rightarrow> string) \<Rightarrow> string option" where
  "resolveSecret draw env =
     (let raw = js_trim (env ''FORGEQUEUE_AUTH_SECRET'') in if raw \<noteq> [] then Some raw else randomToken draw)"

definition oidcConfigured :: "(string \<Rightarrow> string) \<Rightarrow> bool" where
  "oidcConfigured env \<longleftrightarrow> js_trim (env ''FORGEQUEUE_OIDC_ISSUER'') \<noteq> []"

text \<open>Draw 0 is the secret; the rest goes to the accounts.\<close>

definition NewFromEnv :: "key_derivation \<Rightarrow> (nat \<Rightarrow> string option) \<Rightarrow> (string \<Rightarrow> string) \<Rightarrow> config_error + auth_service" where
  "NewFromEnv kdf rnd env =
     (case resolveSecret (rnd 0) env of
        None \<Rightarrow> Inl NoRandom
      | Some secret \<Rightarrow>
          let raw = js_trim (env ''FORGEQUEUE_AUTH_TTL'') in
          (case (if raw = [] then Some (12 * 3600 * 10 ^ 9) else ParseDuration raw) of
             None \<Rightarrow> Inl (BadTTL raw)
           | Some ttl \<Rightarrow>
               (case (if js_trim (env ''FORGEQUEUE_USERS'') \<noteq> [] then parseUsers kdf (rnd \<circ> Suc) (env ''FORGEQUEUE_USERS'')
                      else if oidcConfigured env \<and> js_trim (env ''FORGEQUEUE_ADMIN_PASSWORD'') = [] then Inr []
                      else bootstrapAdmin kdf (rnd \<circ> Suc) env) of
                  Inl e \<Rightarrow> Inl e
                | Inr users \<Rightarrow>
                    (case NewService users secret ttl of Inl e \<Rightarrow> Inl (BadAccounts e) | Inr s \<Rightarrow> Inr s))))"

definition splitList :: "string \<Rightarrow> string list" where
  "splitList raw = filter (\<lambda>p. p \<noteq> []) (map js_trim (split_on (CHR '','') raw))"

section \<open>What a configuration gives\<close>

lemma add_users_ok:
  "add_users us m = Inr m' \<longleftrightarrow>
     m' = m @ map (\<lambda>u. (us_name u, u)) us \<and> distinct (map us_name us) \<and> fst ` set m \<inter> us_name ` set us = {}
     \<and> (\<forall>u\<in>set us. us_name u \<noteq> [] \<and> list_all ValidRole (us_roles u))"
proof (induction us arbitrary: m)
  case (Cons u us)
  have f: "find (\<lambda>r. \<not> ValidRole r) rs = None \<longleftrightarrow> list_all ValidRole rs" for rs
    by (auto simp: find_None_iff list_all_iff)
  show ?case
    using Cons.IH [of "m @ [(us_name u, u)]"] f [of "us_roles u"]
    by (cases "find (\<lambda>r. \<not> ValidRole r) (us_roles u)") (auto simp: map_of_eq_None_iff)
qed auto

text \<open>Random bytes are there, and \<open>pbkdf2.Key\<close> gives keys of the length asked for.\<close>

definition draws_and_keys :: "(nat \<Rightarrow> string option) \<Rightarrow> key_derivation \<Rightarrow> bool" where
  "draws_and_keys rnd kdf \<longleftrightarrow> (\<forall>i. rnd i \<noteq> None) \<and> (\<forall>p salt n len. \<exists>dk. kdf p salt n len = Some dk \<and> length dk = len)"

definition account :: "key_derivation \<Rightarrow> (nat \<Rightarrow> string option) \<Rightarrow> nat \<Rightarrow> userConfig \<Rightarrow> user" where
  "account kdf rnd i c = \<lparr>us_name = uc_username c, us_hash = the (hashPassword kdf (the (rnd i)) (uc_password c)), us_roles = uc_roles c\<rparr>"

lemma hash_users_ok:
  assumes "draws_and_keys rnd kdf"
  shows "hash_users kdf rnd i cs = Inr us \<longleftrightarrow>
     us = map (\<lambda>(j, c). account kdf rnd j c) (enumerate i cs) \<and> (\<forall>c\<in>set cs. js_trim (uc_username c) \<noteq> [] \<and> uc_password c \<noteq> [])"
proof (induction cs arbitrary: i us)
  case (Cons c cs)
  obtain salt where s: "rnd i = Some salt" using assms by (metis draws_and_keys_def not_None_eq)
  obtain dk where "kdf (uc_password c) salt pbkdf2Iterations pbkdf2KeyLength = Some dk" using assms by (metis draws_and_keys_def)
  then obtain h where h: "hashPassword kdf salt (uc_password c) = Some h" by (simp add: hashPassword_def)
  have a: "account kdf rnd i c = \<lparr>us_name = uc_username c, us_hash = h, us_roles = uc_roles c\<rparr>" by (simp add: account_def s h)
  show ?case
    using Cons.IH [of "Suc i" "tl us"] by (cases us) (auto simp: s h a split: sum.splits)
qed auto

lemma account_password:
  assumes "draws_and_keys rnd kdf"
  shows "verifyPassword kdf password (us_hash (account kdf rnd i c)) \<longleftrightarrow>
     kdf password (the (rnd i)) pbkdf2Iterations pbkdf2KeyLength = kdf (uc_password c) (the (rnd i)) pbkdf2Iterations pbkdf2KeyLength"
proof -
  obtain dk where dk: "kdf (uc_password c) (the (rnd i)) pbkdf2Iterations pbkdf2KeyLength = Some dk" "length dk = pbkdf2KeyLength"
    using assms by (metis draws_and_keys_def)
  then obtain h where h: "hashPassword kdf (the (rnd i)) (uc_password c) = Some h" by (simp add: hashPassword_def)
  from verify_password_hash [OF h dk] h dk show ?thesis by (simp add: account_def)
qed

definition accounts_ok :: "userConfig list \<Rightarrow> bool" where
  "accounts_ok cs \<longleftrightarrow> distinct (map uc_username cs)
     \<and> (\<forall>c\<in>set cs. js_trim (uc_username c) \<noteq> [] \<and> uc_password c \<noteq> [] \<and> list_all ValidRole (uc_roles c))"

definition accounts :: "key_derivation \<Rightarrow> (nat \<Rightarrow> string option) \<Rightarrow> userConfig list \<Rightarrow> user list" where
  "accounts kdf rnd cs = map (\<lambda>(i, c). account kdf rnd i c) (enumerate 0 cs)"

lemma accounts_nth: "i < length cs \<Longrightarrow> accounts kdf rnd cs ! i = account kdf rnd i (cs ! i)"
  by (simp add: accounts_def nth_enumerate_eq)

lemma accounts_names: "map us_name (accounts kdf rnd cs) = map uc_username cs"
  by (rule nth_equalityI) (simp_all add: accounts_nth account_def, simp_all add: accounts_def account_def nth_enumerate_eq)

lemma accounts_roles: "(\<forall>u\<in>set (accounts kdf rnd cs). P (us_name u) (us_roles u)) \<longleftrightarrow> (\<forall>c\<in>set cs. P (uc_username c) (uc_roles c))"
proof -
  have l: "length (accounts kdf rnd cs) = length cs" by (simp add: accounts_def)
  show ?thesis unfolding all_set_conv_all_nth l by (auto simp: accounts_nth account_def)
qed

lemma NewService_ok:
  assumes "secret \<noteq> []"
  shows "NewService us secret ttl = Inr s \<longleftrightarrow>
     s = \<lparr>as_users = map (\<lambda>u. (us_name u, u)) us, as_tokens = \<lparr>tk_secret = secret, tk_ttl = (if ttl \<le> 0 then 12 * 3600 * 10 ^ 9 else ttl)\<rparr>\<rparr>
     \<and> distinct (map us_name us) \<and> (\<forall>u\<in>set us. us_name u \<noteq> [] \<and> list_all ValidRole (us_roles u))"
  using assms add_users_ok [of us "[]" "map (\<lambda>u. (us_name u, u)) us"] add_users_ok [of us "[]" "as_users s"]
  by (cases "add_users us []") (auto simp: NewService_def)

definition env_ttl :: "(string \<Rightarrow> string) \<Rightarrow> int option" where
  "env_ttl env = (let raw = js_trim (env ''FORGEQUEUE_AUTH_TTL'') in if raw = [] then Some (12 * 3600 * 10 ^ 9) else ParseDuration raw)"

lemma NewFromEnv_users:
  assumes "draws_and_keys rnd kdf" and "js_trim (env ''FORGEQUEUE_USERS'') \<noteq> []" and "unmarshal_users (env ''FORGEQUEUE_USERS'') = Some cs" and "cs \<noteq> []"
    and "js_trim (env ''FORGEQUEUE_AUTH_SECRET'') \<noteq> []" and "env_ttl env = Some ttl"
  shows "NewFromEnv kdf rnd env = Inr s \<longleftrightarrow>
     (\<forall>c\<in>set cs. js_trim (uc_username c) \<noteq> [] \<and> uc_password c \<noteq> [])
     \<and> NewService (accounts kdf (rnd \<circ> Suc) cs) (js_trim (env ''FORGEQUEUE_AUTH_SECRET'')) ttl = Inr s"
proof -
  have "draws_and_keys (rnd \<circ> Suc) kdf" using assms(1) by (simp add: draws_and_keys_def)
  from hash_users_ok [OF this, of 0 cs] assms(3,4)
  have pu: "parseUsers kdf (rnd \<circ> Suc) (env ''FORGEQUEUE_USERS'') = Inr us \<longleftrightarrow>
      us = accounts kdf (rnd \<circ> Suc) cs \<and> (\<forall>c\<in>set cs. js_trim (uc_username c) \<noteq> [] \<and> uc_password c \<noteq> [])" for us
    by (cases cs) (simp_all add: parseUsers_def accounts_def)
  have e: "NewFromEnv kdf rnd env = (case parseUsers kdf (rnd \<circ> Suc) (env ''FORGEQUEUE_USERS'') of Inl e \<Rightarrow> Inl e
      | Inr us \<Rightarrow> (case NewService us (js_trim (env ''FORGEQUEUE_AUTH_SECRET'')) ttl of Inl e \<Rightarrow> Inl (BadAccounts e) | Inr s \<Rightarrow> Inr s))"
    using assms(2,5,6) by (simp add: NewFromEnv_def resolveSecret_def env_ttl_def Let_def)
  show ?thesis
    using pu [of "accounts kdf (rnd \<circ> Suc) cs"] pu [of "projr (parseUsers kdf (rnd \<circ> Suc) (env ''FORGEQUEUE_USERS''))"] unfolding e
    by (cases "parseUsers kdf (rnd \<circ> Suc) (env ''FORGEQUEUE_USERS'')") (auto split: sum.splits)
qed

lemma authenticate_accounts:
  assumes "draws_and_keys rnd kdf" and "as_users s = map (\<lambda>u. (us_name u, u)) (accounts kdf rnd cs)" and "distinct (map uc_username cs)"
  shows "i < length cs \<Longrightarrow> Authenticate kdf s (uc_username (cs ! i)) password =
       (if kdf password (the (rnd i)) pbkdf2Iterations pbkdf2KeyLength = kdf (uc_password (cs ! i)) (the (rnd i)) pbkdf2Iterations pbkdf2KeyLength
        then Some (identityFor (uc_username (cs ! i)) (roles_of (uc_roles (cs ! i)))) else None)"
    and "name \<notin> uc_username ` set cs \<Longrightarrow> Authenticate kdf s name password = None"
proof -
  let ?us = "accounts kdf rnd cs"
  have len: "length ?us = length cs" by (simp add: accounts_def)
  have keys: "map fst (as_users s) = map uc_username cs" using accounts_names [of kdf rnd cs] by (simp add: assms(2) comp_def)
  show "Authenticate kdf s name password = None" if "name \<notin> uc_username ` set cs"
  proof -
    have "name \<notin> fst ` set (as_users s)" using that arg_cong [OF keys, of set] by simp
    then show ?thesis by (simp add: Authenticate_def map_of_eq_None_iff [THEN iffD2])
  qed
  assume i: "i < length cs"
  then have "(us_name (?us ! i), ?us ! i) \<in> set (as_users s)" using len unfolding assms(2) by (force simp: in_set_conv_nth)
  with i keys assms(3) have "map_of (as_users s) (uc_username (cs ! i)) = Some (account kdf rnd i (cs ! i))"
    by (intro map_of_is_SomeI) (simp_all add: accounts_nth account_def)
  with account_password [OF assms(1), of password i "cs ! i"] show "Authenticate kdf s (uc_username (cs ! i)) password =
       (if kdf password (the (rnd i)) pbkdf2Iterations pbkdf2KeyLength = kdf (uc_password (cs ! i)) (the (rnd i)) pbkdf2Iterations pbkdf2KeyLength
        then Some (identityFor (uc_username (cs ! i)) (roles_of (uc_roles (cs ! i)))) else None)"
    by (simp add: Authenticate_def) (simp add: account_def)
qed


definition demo_env :: "string \<Rightarrow> string" where
  "demo_env = (\<lambda>k. if k = ''FORGEQUEUE_USERS'' then
       stringify (JArr [JObj [(''username'', JStr ''ann''), (''password'', JStr ''pw''), (''roles'', JArr [JStr ''operator''])]])
     else if k = ''FORGEQUEUE_AUTH_SECRET'' then ''k'' else if k = ''FORGEQUEUE_AUTH_TTL'' then ''1h30m'' else [])"

lemma demo_ttl: "env_ttl demo_env = Some 5400000000000"
proof -
  have "duration_item ''1h30m'' = Some (3600000000000, ''30m'')" "duration_item ''30m'' = Some (1800000000000, [])"
    by (simp_all add: duration_item_def unit_ns_def is_digit_def digits_val_def digit_val_def)
  then have "duration_parts ''1h30m'' = Some 5400000000000" by (simp add: duration_parts.simps)
  moreover have "js_trim (demo_env ''FORGEQUEUE_AUTH_TTL'') = ''1h30m''" by (simp add: demo_env_def js_trim_def is_space_def)
  ultimately show ?thesis by (simp add: env_ttl_def ParseDuration_def)
qed

lemma demo_users: "unmarshal_users (demo_env ''FORGEQUEUE_USERS'') = Some [\<lparr>uc_username = ''ann'', uc_password = ''pw'', uc_roles = [''operator'']\<rparr>]"
proof -
  let ?j = "JArr [JObj [(''username'', JStr ''ann''), (''password'', JStr ''pw''), (''roles'', JArr [JStr ''operator''])]]"
  have "wf_json ?j" by simp
  then have "unmarshal_users (demo_env ''FORGEQUEUE_USERS'') = those [unmarshal_user (hd (case ?j of JArr xs \<Rightarrow> xs))]"
    by (simp add: unmarshal_users_def demo_env_def json_parse_stringify del: stringify.simps)
  also have "\<dots> = Some [\<lparr>uc_username = ''ann'', uc_password = ''pw'', uc_roles = [''operator'']\<rparr>]" by code_simp
  finally show ?thesis .
qed


end
