(* ===== verification/Sso.thy ===== *)
theory Sso
  imports Auth_Config Redis_Store Calendar
begin

text \<open>
  Single sign-on: the OpenID Connect flow of \<open>internal/auth/oidc.go\<close> over the two state stores of \<open>state.go\<close> and
  \<open>redis_state.go\<close>, and the sign-in handlers of \<open>internal/httpapi/handlers.go\<close>. The provider (what an HTTP call
  answers), SHA-256, HMAC and the reading of an IP literal in a URL are parameters, bundled in \<open>sso_env\<close>, one per
  operation, so that a provider may change its mind between two of them. Instants and durations are nanoseconds;
  random bytes are arguments.

  A stored value is what \<open>encoding/json\<close> finds in it: the state of a login attempt, a session, or a text that is
  not a JSON object. A redirect keeps its target and the query parameters added to it apart.
\<close>

section \<open>URLs\<close>

text \<open>\<open>url.Parse\<close>, as far as the scheme, the host and the errors go; \<open>None\<close> is an error. The host rules are those for web URLs.\<close>

definition is_letter :: "char \<Rightarrow> bool" where
  "is_letter c = (let n = (of_char c :: nat) in 65 \<le> n \<and> n \<le> 90 \<or> 97 \<le> n \<and> n \<le> 122)"

definition getScheme :: "string \<Rightarrow> (string \<times> string) option" where
  "getScheme s =
     (let ok = (\<lambda>c. is_letter c \<or> is_digit c \<or> c \<in> set ''+-.''); p = takeWhile ok s in
      case dropWhile ok s of
        [] \<Rightarrow> Some ([], s)
      | c # r \<Rightarrow>
          if c \<noteq> CHR '':'' then Some ([], s)
          else if p = [] then None
          else if is_letter (hd p) then Some (p, r) else Some ([], s))"

text \<open>Percent signs must start an escape; in a host only bytes above ASCII, or a percent sign, may be escaped.\<close>

fun pct_ok :: "string \<Rightarrow> bool" where
  "pct_ok [] = True"
| "pct_ok (c # s) =
     (if c \<noteq> CHR ''%'' then pct_ok s
      else (case s of a # b # r \<Rightarrow> hex_val a \<noteq> None \<and> hex_val b \<noteq> None \<and> pct_ok r | _ \<Rightarrow> False))"

definition host_char :: "char \<Rightarrow> bool" where
  "host_char c \<longleftrightarrow> is_letter c \<or> is_digit c \<or> c \<in> set ''-_.~!$&()*+,;=:[]<>'' \<or> c = CHR 0x27 \<or> c = CHR 0x22 \<or> 128 \<le> (of_char c :: nat)"

fun unescape_host :: "string \<Rightarrow> string option" where
  "unescape_host [] = Some []"
| "unescape_host (c # s) =
     (if c \<noteq> CHR ''%'' then (if host_char c then map_option (Cons c) (unescape_host s) else None)
      else
        (case s of
           a # b # r \<Rightarrow>
             (case (hex_val a, hex_val b) of
                (Some x, Some y) \<Rightarrow>
                  if x < 8 \<and> \<not> (a = CHR ''2'' \<and> b = CHR ''5'') then None
                  else map_option (Cons (char_of (16 * x + y))) (unescape_host r)
              | _ \<Rightarrow> None)
         | _ \<Rightarrow> None))"

definition parseHost :: "(string \<Rightarrow> string option) \<Rightarrow> string \<Rightarrow> string option" where
  "parseHost ip host =
     (if CHR ''['' \<in> set host then ip host
      else
        let port = dropWhile (\<lambda>c. c \<noteq> CHR '':'') host in
        if port \<noteq> [] \<and> \<not> list_all is_digit (tl port) then None else unescape_host host)"

definition userinfo_char :: "char \<Rightarrow> bool" where
  "userinfo_char c \<longleftrightarrow> is_letter c \<or> is_digit c \<or> c \<in> set ''-._:~!$&()*+,;=%@'' \<or> c = CHR 0x27"

definition parseAuthority :: "(string \<Rightarrow> string option) \<Rightarrow> string \<Rightarrow> string option" where
  "parseAuthority ip authority =
     (if CHR ''@'' \<notin> set authority then parseHost ip authority
      else
        let host = rev (takeWhile (\<lambda>c. c \<noteq> CHR ''@'') (rev authority)); info = take (length authority - length host - 1) authority in
        (case parseHost ip host of
           None \<Rightarrow> None
         | Some h \<Rightarrow> if list_all userinfo_char info \<and> pct_ok info then Some h else None))"

definition url_parse :: "(string \<Rightarrow> string option) \<Rightarrow> string \<Rightarrow> (string \<times> string) option" where
  "url_parse ip raw =
     (let u = takeWhile (\<lambda>c. c \<noteq> CHR ''#'') raw; frag = drop (Suc (length u)) raw in
      if \<not> pct_ok frag then None
      else if list_ex (\<lambda>c. (of_char c :: nat) < 32 \<or> c = CHR 0x7F) u then None
      else if u = ''*'' then Some ([], [])
      else
        (case getScheme u of
           None \<Rightarrow> None
         | Some (sch, rest0) \<Rightarrow>
             let scheme = to_lower sch; rest = takeWhile (\<lambda>c. c \<noteq> CHR ''?'') rest0 in
             if \<not> starts_with rest ''/'' \<and> scheme \<noteq> [] then Some (scheme, [])
             else if \<not> starts_with rest ''/'' \<and> CHR '':'' \<in> set (takeWhile (\<lambda>c. c \<noteq> CHR ''/'') rest) then None
             else if starts_with rest ''//'' \<and> (scheme \<noteq> [] \<or> \<not> starts_with rest ''///'') then
               let authority = takeWhile (\<lambda>c. c \<noteq> CHR ''/'') (drop 2 rest); path = drop (2 + length authority) rest in
               (case parseAuthority ip authority of None \<Rightarrow> None | Some host \<Rightarrow> if pct_ok path then Some (scheme, host) else None)
             else if pct_ok rest then Some (scheme, []) else None))"

text \<open>The normalized origin, or the empty text.\<close>

definition originOf :: "(string \<Rightarrow> string option) \<Rightarrow> string \<Rightarrow> string" where
  "originOf ip raw =
     (case url_parse ip (js_trim raw) of
        None \<Rightarrow> []
      | Some (scheme, host) \<Rightarrow> if scheme = [] \<or> host = [] then [] else to_lower (scheme @ ''://'' @ host))"

text \<open>\<open>url.Values.Encode\<close>: keys in order, everything escaped but letters, digits and four marks.\<close>

definition query_char :: "char \<Rightarrow> string" where
  "query_char c =
     (if is_letter c \<or> is_digit c \<or> c \<in> set ''-_.~'' then [c]
      else if c = CHR '' '' then ''+''
      else let n = (of_char c :: nat) in [CHR ''%'', pct_digit (n div 16), pct_digit (n mod 16)])"

definition QueryEscape :: "string \<Rightarrow> string" where
  "QueryEscape s = concat (map query_char s)"

definition values_encode :: "(string \<times> string) list \<Rightarrow> string" where
  "values_encode ps = join_with ''&'' (map (\<lambda>(k, v). QueryEscape k @ ''='' @ QueryEscape v) (sort_key fst ps))"

section \<open>The state stores\<close>

record authState =
  au_verifier :: string
  au_webReturn :: string

record ssoSession =
  so_token :: string
  so_expires :: int
  so_identity :: identity
  so_webReturn :: string

datatype flow_value = StateV authState | SessionV ssoSession | OtherV string

text \<open>The two shapes share no member name, so one read as the other has no field set. \<open>zero_time\<close> is the zero \<open>time.Time\<close>.\<close>

definition zero_time :: int where
  "zero_time = - 62135596800 * 10 ^ 9"

fun unmarshal_state :: "flow_value \<Rightarrow> authState option" where
  "unmarshal_state (StateV st) = Some st"
| "unmarshal_state (SessionV _) = Some \<lparr>au_verifier = [], au_webReturn = []\<rparr>"
| "unmarshal_state (OtherV _) = None"

fun unmarshal_session :: "flow_value \<Rightarrow> ssoSession option" where
  "unmarshal_session (SessionV se) = Some se"
| "unmarshal_session (StateV _) =
     Some \<lparr>so_token = [], so_expires = zero_time, so_identity = \<lparr>id_username = [], id_roles = [], id_permissions = []\<rparr>, so_webReturn = []\<rparr>"
| "unmarshal_session (OtherV _) = None"

text \<open>The interface \<open>StateStore\<close>. Every operation is given the instant at which it runs; a text is an error.\<close>

record 's stateStore =
  ss_save :: "int \<Rightarrow> string \<Rightarrow> flow_value \<Rightarrow> int \<Rightarrow> 's \<Rightarrow> string option \<times> 's"
  ss_load :: "int \<Rightarrow> string \<Rightarrow> 's \<Rightarrow> (string + flow_value option) \<times> 's"
  ss_delete :: "int \<Rightarrow> string \<Rightarrow> 's \<Rightarrow> string option \<times> 's"

text \<open>\<open>MemoryStore\<close>: entries with the instant they expire; a load drops an expired one.\<close>

record memEntry =
  me_value :: flow_value
  me_expires :: int

type_synonym mem_items = "string \<rightharpoonup> memEntry"

definition mem_save :: "int \<Rightarrow> string \<Rightarrow> flow_value \<Rightarrow> int \<Rightarrow> mem_items \<Rightarrow> string option \<times> mem_items" where
  "mem_save now key value ttl m = (None, m(key \<mapsto> \<lparr>me_value = value, me_expires = now + ttl\<rparr>))"

definition mem_load :: "int \<Rightarrow> string \<Rightarrow> mem_items \<Rightarrow> (string + flow_value option) \<times> mem_items" where
  "mem_load now key m =
     (case m key of
        None \<Rightarrow> (Inr None, m)
      | Some e \<Rightarrow> if now > me_expires e then (Inr None, m(key := None)) else (Inr (Some (me_value e)), m))"

definition mem_delete :: "int \<Rightarrow> string \<Rightarrow> mem_items \<Rightarrow> string option \<times> mem_items" where
  "mem_delete now key m = (None, m(key := None))"

definition NewMemoryStore :: "mem_items stateStore" where
  "NewMemoryStore = \<lparr>ss_save = mem_save, ss_load = mem_load, ss_delete = mem_delete\<rparr>"

text \<open>
  \<open>RedisStore\<close>: \<open>SET\<close> with an expiry in milliseconds (cut, at least one; none for a duration that is not positive), \<open>GET\<close>, \<open>DEL\<close>, over a connection
  that may be lost. An entry is gone once the clock, in milliseconds, has passed its expiry.
\<close>

type_synonym redis_keys = "string \<rightharpoonup> flow_value \<times> int option"

definition kv_set :: "int \<Rightarrow> string \<Rightarrow> flow_value \<Rightarrow> int \<Rightarrow> redis_keys \<Rightarrow> unit \<times> redis_keys" where
  "kv_set now key value ttl r =
     ((), r(key \<mapsto> (value, if ttl \<le> 0 then None else Some (now div 10 ^ 6 + max 1 (ttl div 10 ^ 6)))))"

definition kv_get :: "int \<Rightarrow> string \<Rightarrow> redis_keys \<Rightarrow> flow_value option \<times> redis_keys" where
  "kv_get now key r =
     (case r key of
        None \<Rightarrow> (None, r)
      | Some (v, None) \<Rightarrow> (Some v, r)
      | Some (v, Some e) \<Rightarrow> if now div 10 ^ 6 > e then (None, r(key := None)) else (Some v, r))"

definition kv_del :: "string \<Rightarrow> redis_keys \<Rightarrow> unit \<times> redis_keys" where
  "kv_del key r = ((), r(key := None))"

definition err_of :: "string + unit \<Rightarrow> string option" where
  "err_of x = (case x of Inl e \<Rightarrow> Some e | Inr _ \<Rightarrow> None)"

definition redis_save :: "int \<Rightarrow> string \<Rightarrow> flow_value \<Rightarrow> int \<Rightarrow> redis_keys \<times> link_state \<Rightarrow> string option \<times> (redis_keys \<times> link_state)" where
  "redis_save now key value ttl d = apfst err_of (run (kv_set now key value ttl) d)"

definition redis_load :: "int \<Rightarrow> string \<Rightarrow> redis_keys \<times> link_state \<Rightarrow> (string + flow_value option) \<times> (redis_keys \<times> link_state)" where
  "redis_load now key d = run (kv_get now key) d"

definition redis_delete :: "int \<Rightarrow> string \<Rightarrow> redis_keys \<times> link_state \<Rightarrow> string option \<times> (redis_keys \<times> link_state)" where
  "redis_delete now key d = apfst err_of (run (kv_del key) d)"

definition NewRedisStore :: "(redis_keys \<times> link_state) stateStore" where
  "NewRedisStore = \<lparr>ss_save = redis_save, ss_load = redis_load, ss_delete = redis_delete\<rparr>"

section \<open>The provider\<close>

datatype http_call =
    PostForm string "(string \<times> string) list"          \<comment> \<open>URL and form, sent as \<open>application/x-www-form-urlencoded\<close>\<close>
  | GetUrl string "string option"                       \<comment> \<open>URL and bearer token\<close>

datatype http_result = Refused string | Answered int string   \<comment> \<open>status and body\<close>

record sso_env =
  en_http :: "http_call \<Rightarrow> http_result"
  en_ip :: "string \<Rightarrow> string option"
  en_sha :: "string \<Rightarrow> string"
  en_mac :: "string \<Rightarrow> string \<Rightarrow> string"

datatype sso_error = ErrSSOFailed string | SsoOther string

record providerMeta =
  pm_issuer :: string
  pm_auth :: string
  pm_token :: string
  pm_userinfo :: string

record userInfo =
  ui_subject :: string
  ui_email :: string
  ui_name :: string
  ui_preferred :: string

text \<open>\<open>json.Unmarshal\<close> into a struct of texts: the value of each named member, empty when it is absent or \<open>null\<close>.\<close>

fun put_texts :: "string list \<Rightarrow> (string \<times> json) list \<Rightarrow> (string \<Rightarrow> string) \<Rightarrow> (string \<Rightarrow> string) option" where
  "put_texts names [] f = Some f"
| "put_texts names ((k, v) # ms) f =
     (if to_lower k \<notin> set names then put_texts names ms f
      else
        (case v of
           JStr s \<Rightarrow> put_texts names ms (f(to_lower k := s))
         | JNull \<Rightarrow> put_texts names ms f
         | _ \<Rightarrow> None))"

definition struct_of :: "string list \<Rightarrow> json option \<Rightarrow> (string \<Rightarrow> string) option" where
  "struct_of names j =
     (case j of
        Some (JObj ms) \<Rightarrow> put_texts names ms (\<lambda>_. [])
      | Some JNull \<Rightarrow> Some (\<lambda>_. [])
      | _ \<Rightarrow> None)"

definition unmarshal_texts :: "string list \<Rightarrow> string \<Rightarrow> (string \<Rightarrow> string) option" where
  "unmarshal_texts names body = struct_of names (json_parse (take 1048576 body))"

record oidcConfig =
  oc_issuer :: string
  oc_clientID :: string
  oc_clientSecret :: string
  oc_redirectURL :: string
  oc_webURL :: string
  oc_scopes :: "string list"
  oc_providerName :: string
  oc_defaultRole :: "role option"
  oc_adminEmails :: "string list"
  oc_operatorEmails :: "string list"
  oc_stateTTL :: int
  oc_codeTTL :: int

record 's oidc =
  oi_cfg :: oidcConfig
  oi_store :: "'s stateStore"
  oi_svc :: auth_service
  oi_admin :: "string list"
  oi_op :: "string list"
  oi_allowed :: "string list"
  oi_default :: string
  oi_provider :: "providerMeta option"

definition emailSet :: "string list \<Rightarrow> string list" where
  "emailSet emails = filter (\<lambda>e. e \<noteq> []) (map (\<lambda>e. to_lower (js_trim e)) emails)"

definition origins :: "(string \<Rightarrow> string option) \<Rightarrow> string list \<Rightarrow> string list" where
  "origins ip raws = filter (\<lambda>u. u \<noteq> []) (map (originOf ip) raws)"

definition NewOIDC :: "(string \<Rightarrow> string option) \<Rightarrow> oidcConfig \<Rightarrow> auth_service \<Rightarrow> 's stateStore option \<Rightarrow> string + 's oidc" where
  "NewOIDC ip cfg svc store =
     (if oc_issuer cfg = [] \<or> oc_clientID cfg = [] \<or> oc_redirectURL cfg = []
      then Inl ''auth: OIDC requires issuer, client id and redirect URL''
      else
        (case store of
           None \<Rightarrow> Inl ''auth: OIDC requires a state store''
         | Some st \<Rightarrow>
             let cfg' = cfg\<lparr>oc_scopes := (if oc_scopes cfg = [] then [''openid'', ''email'', ''profile''] else oc_scopes cfg),
                   oc_stateTTL := (if oc_stateTTL cfg \<le> 0 then 10 * 60 * 10 ^ 9 else oc_stateTTL cfg),
                   oc_codeTTL := (if oc_codeTTL cfg \<le> 0 then 60 * 10 ^ 9 else oc_codeTTL cfg)\<rparr> in
             Inr \<lparr>oi_cfg = cfg', oi_store = st, oi_svc = svc,
               oi_admin = emailSet (oc_adminEmails cfg), oi_op = emailSet (oc_operatorEmails cfg),
               oi_allowed = origins ip [oc_webURL cfg, oc_redirectURL cfg],
               oi_default = (if oc_webURL cfg = [] then ''/'' else oc_webURL cfg), oi_provider = None\<rparr>))"

definition SetAllowedOrigins :: "(string \<Rightarrow> string option) \<Rightarrow> string list \<Rightarrow> 's oidc \<Rightarrow> 's oidc" where
  "SetAllowedOrigins ip raws o1 = o1\<lparr>oi_allowed := oi_allowed o1 @ origins ip raws\<rparr>"

definition DefaultReturn :: "'s oidc \<Rightarrow> string" where
  "DefaultReturn o1 = oi_default o1"

definition ResolveReturn :: "(string \<Rightarrow> string option) \<Rightarrow> 's oidc \<Rightarrow> string \<Rightarrow> string" where
  "ResolveReturn ip o1 raw0 =
     (let raw = js_trim raw0 in
      if raw = [] then oi_default o1
      else if \<not> js_includes raw ''://'' then (if starts_with raw ''/'' then raw else oi_default o1)
      else if originOf ip raw \<in> set (oi_allowed o1) then raw
      else oi_default o1)"

definition ProviderName :: "(string \<Rightarrow> string option) \<Rightarrow> 's oidc \<Rightarrow> string" where
  "ProviderName ip o1 =
     (if oc_providerName (oi_cfg o1) \<noteq> [] then oc_providerName (oi_cfg o1)
      else
        (case url_parse ip (oc_issuer (oi_cfg o1)) of
           Some (_, host) \<Rightarrow> if host \<noteq> [] then host else ''SSO''
         | None \<Rightarrow> ''SSO''))"

definition trim_slashes :: "string \<Rightarrow> string" where
  "trim_slashes s = rev (dropWhile (\<lambda>c. c = CHR ''/'') (rev s))"

definition discover :: "sso_env \<Rightarrow> 's oidc \<Rightarrow> (sso_error + providerMeta) \<times> 's oidc" where
  "discover en o1 =
     (case oi_provider o1 of
        Some meta \<Rightarrow> (Inr meta, o1)
      | None \<Rightarrow>
          (case en_http en (GetUrl (trim_slashes (oc_issuer (oi_cfg o1)) @ ''/.well-known/openid-configuration'') None) of
             Refused e \<Rightarrow> (Inl (ErrSSOFailed ''discovery''), o1)
           | Answered status body \<Rightarrow>
               if status \<noteq> 200 then (Inl (ErrSSOFailed ''discovery status''), o1)
               else
                 (case unmarshal_texts [''issuer'', ''authorization_endpoint'', ''token_endpoint'', ''userinfo_endpoint''] body of
                    None \<Rightarrow> (Inl (ErrSSOFailed ''malformed discovery document''), o1)
                  | Some f \<Rightarrow>
                      if f ''authorization_endpoint'' = [] \<or> f ''token_endpoint'' = [] then (Inl (ErrSSOFailed ''discovery missing endpoints''), o1)
                      else
                        let meta = \<lparr>pm_issuer = f ''issuer'', pm_auth = f ''authorization_endpoint'', pm_token = f ''token_endpoint'',
                              pm_userinfo = (if f ''userinfo_endpoint'' = [] then trim_slashes (f ''issuer'') @ ''/userinfo'' else f ''userinfo_endpoint'')\<rparr>
                        in (Inr meta, o1\<lparr>oi_provider := Some meta\<rparr>))))"

definition exchange :: "sso_env \<Rightarrow> oidcConfig \<Rightarrow> providerMeta \<Rightarrow> string \<Rightarrow> string \<Rightarrow> sso_error + userInfo" where
  "exchange en cfg meta code verifier =
     (let form = [(''grant_type'', ''authorization_code''), (''code'', code), (''redirect_uri'', oc_redirectURL cfg), (''client_id'', oc_clientID cfg),
            (''code_verifier'', verifier)] @ (if oc_clientSecret cfg \<noteq> [] then [(''client_secret'', oc_clientSecret cfg)] else []) in
      case en_http en (PostForm (pm_token meta) form) of
        Refused e \<Rightarrow> Inl (ErrSSOFailed ''token request'')
      | Answered status body \<Rightarrow>
          if status \<noteq> 200 then Inl (ErrSSOFailed ''token endpoint status'')
          else
            (case unmarshal_texts [''access_token''] body of
               None \<Rightarrow> Inl (ErrSSOFailed ''malformed token response'')
             | Some f \<Rightarrow>
                 if f ''access_token'' = [] then Inl (ErrSSOFailed ''malformed token response'')
                 else
                   (case en_http en (GetUrl (pm_userinfo meta) (Some (f ''access_token''))) of
                      Refused e \<Rightarrow> Inl (ErrSSOFailed ''userinfo request'')
                    | Answered status2 body2 \<Rightarrow>
                        if status2 \<noteq> 200 then Inl (ErrSSOFailed ''userinfo status'')
                        else
                          (case unmarshal_texts [''sub'', ''email'', ''name'', ''preferred_username''] body2 of
                             None \<Rightarrow> Inl (ErrSSOFailed ''malformed userinfo'')
                           | Some g \<Rightarrow>
                               if g ''sub'' = [] then Inl (ErrSSOFailed ''malformed userinfo'')
                               else Inr \<lparr>ui_subject = g ''sub'', ui_email = g ''email'', ui_name = g ''name'', ui_preferred = g ''preferred_username''\<rparr>))))"

definition rolesFor :: "'s oidc \<Rightarrow> string \<Rightarrow> sso_error + role list" where
  "rolesFor o1 email =
     (let e = to_lower (js_trim email) in
      if e \<in> set (oi_admin o1) then Inr [RoleAdmin]
      else if e \<in> set (oi_op o1) then Inr [RoleOperator]
      else (case oc_defaultRole (oi_cfg o1) of
              Some r \<Rightarrow> Inr [r]
            | None \<Rightarrow> Inl (ErrSSOFailed (email @ '' is not authorized''))))"

definition pkceChallenge :: "sso_env \<Rightarrow> string \<Rightarrow> string" where
  "pkceChallenge en verifier = b64_encode True (en_sha en verifier)"

section \<open>The flow\<close>

definition state_key :: "string \<Rightarrow> string" where
  "state_key s = ''oidc:state:'' @ s"

definition code_key :: "string \<Rightarrow> string" where
  "code_key s = ''oidc:code:'' @ s"

text \<open>\<open>r1\<close> and \<open>r2\<close>: the random bytes of the state and of the verifier.\<close>

definition Begin ::
  "sso_env \<Rightarrow> int \<Rightarrow> string option \<Rightarrow> string option \<Rightarrow> string \<Rightarrow> 's oidc \<times> 's \<Rightarrow> (sso_error + string) \<times> ('s oidc \<times> 's)" where
  "Begin en now r1 r2 webReturn0 c =
     (case c of (o0, s) \<Rightarrow>
        let webReturn = ResolveReturn (en_ip en) o0 webReturn0 in
        (case discover en o0 of
           (Inl e, o1) \<Rightarrow> (Inl e, (o1, s))
         | (Inr meta, o1) \<Rightarrow>
             (case (randomToken r1, randomToken r2) of
                (Some state, Some verifier) \<Rightarrow>
                  (case ss_save (oi_store o1) now (state_key state) (StateV \<lparr>au_verifier = verifier, au_webReturn = webReturn\<rparr>) (oc_stateTTL (oi_cfg o1)) s of
                     (Some e, s1) \<Rightarrow> (Inl (SsoOther ''store state''), (o1, s1))
                   | (None, s1) \<Rightarrow>
                       (Inr (pm_auth meta @ ''?'' @ values_encode
                          [(''response_type'', ''code''), (''client_id'', oc_clientID (oi_cfg o1)), (''redirect_uri'', oc_redirectURL (oi_cfg o1)),
                           (''scope'', join_with '' '' (oc_scopes (oi_cfg o1))), (''state'', state), (''code_challenge'', pkceChallenge en verifier),
                           (''code_challenge_method'', ''S256'')]), (o1, s1)))
              | _ \<Rightarrow> (Inl (SsoOther ''random''), (o1, s)))))"

text \<open>The identity of a user of the provider: the address decides the roles, the display name is the user name.\<close>

definition sso_email :: "userInfo \<Rightarrow> string" where
  "sso_email info =
     (if js_trim (ui_email info) \<noteq> [] then js_trim (ui_email info)
      else if ui_preferred info \<noteq> [] then ui_preferred info
      else ui_subject info)"

definition sso_username :: "userInfo \<Rightarrow> string" where
  "sso_username info = (if ui_name info \<noteq> [] then ui_name info else sso_email info)"

text \<open>\<open>Complete\<close>; \<open>r\<close>: the random bytes of the one-time code. A failure to delete the state is ignored.\<close>

definition Complete ::
  "sso_env \<Rightarrow> int \<Rightarrow> string option \<Rightarrow> string \<Rightarrow> string \<Rightarrow> 's oidc \<times> 's \<Rightarrow> (sso_error + string \<times> ssoSession) \<times> ('s oidc \<times> 's)" where
  "Complete en now r state code c =
     (case c of (o0, s) \<Rightarrow>
        (case ss_load (oi_store o0) now (state_key state) s of
           (Inl e, s1) \<Rightarrow> (Inl (ErrSSOFailed ''load state''), (o0, s1))
         | (Inr None, s1) \<Rightarrow> (Inl (ErrSSOFailed ''unknown or expired state''), (o0, s1))
         | (Inr (Some raw), s1) \<Rightarrow>
             let s2 = snd (ss_delete (oi_store o0) now (state_key state) s1) in
             (case unmarshal_state raw of
                None \<Rightarrow> (Inl (ErrSSOFailed ''corrupt state''), (o0, s2))
              | Some st \<Rightarrow>
                  (case discover en o0 of
                     (Inl e, o1) \<Rightarrow> (Inl e, (o1, s2))
                   | (Inr meta, o1) \<Rightarrow>
                       (case exchange en (oi_cfg o1) meta code (au_verifier st) of
                          Inl e \<Rightarrow> (Inl e, (o1, s2))
                        | Inr info \<Rightarrow>
                            (case rolesFor o1 (sso_email info) of
                               Inl e \<Rightarrow> (Inl e, (o1, s2))
                             | Inr roles \<Rightarrow>
                                 let i = identityFor (sso_username info) roles; (token, expires) = IssueToken (en_mac en) (oi_svc o1) now i in
                                 (case randomToken r of
                                    None \<Rightarrow> (Inl (SsoOther ''random''), (o1, s2))
                                  | Some otc \<Rightarrow>
                                      let sess = \<lparr>so_token = token, so_expires = expires, so_identity = i, so_webReturn = au_webReturn st\<rparr> in
                                      (case ss_save (oi_store o1) now (code_key otc) (SessionV sess) (oc_codeTTL (oi_cfg o1)) s2 of
                                         (Some e, s3) \<Rightarrow> (Inl (ErrSSOFailed ''store code''), (o1, s3))
                                       | (None, s3) \<Rightarrow> (Inr (otc, sess), (o1, s3))))))))))"

text \<open>
  \<open>Exchange\<close> in its two accesses to the store, which another request may come between: the code is looked up, then
  deleted, whether or not the deletion works.
\<close>

definition exchange_take :: "int \<Rightarrow> string \<Rightarrow> 's oidc \<times> 's \<Rightarrow> (sso_error + flow_value) \<times> ('s oidc \<times> 's)" where
  "exchange_take now code c =
     (case c of (o1, s) \<Rightarrow>
        (case ss_load (oi_store o1) now (code_key code) s of
           (Inl e, s1) \<Rightarrow> (Inl (SsoOther e), (o1, s1))
         | (Inr None, s1) \<Rightarrow> (Inl (SsoOther ''invalid or expired code''), (o1, s1))
         | (Inr (Some raw), s1) \<Rightarrow> (Inr raw, (o1, s1))))"

definition exchange_drop :: "int \<Rightarrow> string \<Rightarrow> flow_value \<Rightarrow> 's oidc \<times> 's \<Rightarrow> (sso_error + ssoSession) \<times> ('s oidc \<times> 's)" where
  "exchange_drop now code raw c =
     (case c of (o1, s) \<Rightarrow>
        (case unmarshal_session raw of None \<Rightarrow> Inl (SsoOther ''invalid code payload'') | Some sess \<Rightarrow> Inr sess,
         (o1, snd (ss_delete (oi_store o1) now (code_key code) s))))"

definition Exchange :: "int \<Rightarrow> string \<Rightarrow> 's oidc \<times> 's \<Rightarrow> (sso_error + ssoSession) \<times> ('s oidc \<times> 's)" where
  "Exchange now code c =
     (case exchange_take now code c of
        (Inl e, c1) \<Rightarrow> (Inl e, c1)
      | (Inr raw, c1) \<Rightarrow> exchange_drop now code raw c1)"

definition NewOIDCFromEnv ::
  "(string \<Rightarrow> string option) \<Rightarrow> (string \<Rightarrow> string) \<Rightarrow> auth_service \<Rightarrow> 's stateStore option \<Rightarrow> config_error + 's oidc option" where
  "NewOIDCFromEnv ip env svc store =
     (if \<not> oidcConfigured env then Inr None
      else
        let raw = js_trim (env ''FORGEQUEUE_OIDC_DEFAULT_ROLE'') in
        (case (if raw = [] then Some (Some RoleViewer) else if EqualFold raw ''none'' then Some None else map_option Some (role_of raw)) of
           None \<Rightarrow> Inl (BadDefaultRole raw)
         | Some dflt \<Rightarrow>
             let cfg = \<lparr>oc_issuer = js_trim (env ''FORGEQUEUE_OIDC_ISSUER''), oc_clientID = js_trim (env ''FORGEQUEUE_OIDC_CLIENT_ID''),
                   oc_clientSecret = env ''FORGEQUEUE_OIDC_CLIENT_SECRET'', oc_redirectURL = js_trim (env ''FORGEQUEUE_OIDC_REDIRECT_URL''),
                   oc_webURL = js_trim (env ''FORGEQUEUE_WEB_URL''), oc_scopes = Fields (js_trim (env ''FORGEQUEUE_OIDC_SCOPES'')),
                   oc_providerName = js_trim (env ''FORGEQUEUE_OIDC_PROVIDER_NAME''), oc_defaultRole = dflt,
                   oc_adminEmails = splitList (env ''FORGEQUEUE_OIDC_ADMIN_EMAILS''),
                   oc_operatorEmails = splitList (env ''FORGEQUEUE_OIDC_OPERATOR_EMAILS''), oc_stateTTL = 0, oc_codeTTL = 0\<rparr> in
             if oc_clientID cfg = [] \<or> oc_redirectURL cfg = [] then Inl NoClient
             else
               (case NewOIDC ip cfg svc store of
                  Inl e \<Rightarrow> Inl (BadOidc e)
                | Inr o1 \<Rightarrow> Inr (Some (SetAllowedOrigins ip (splitList (env ''FORGEQUEUE_OIDC_ALLOWED_ORIGINS'')) o1)))))"

section \<open>The sign-in handlers\<close>

datatype auth_reply = AuthJson int json | AuthError int string | AuthRedirect string "(string \<times> string) list"

text \<open>The parts of \<open>Handler\<close> these handlers use; \<open>None\<close> for a part that is not configured.\<close>

record 's sign_in =
  si_auth :: "auth_service option"
  si_oidc :: "('s oidc \<times> 's) option"

text \<open>\<open>NewDecoder(r.Body).Decode\<close>: the first value of the body, as far as the limit lets it be read.\<close>

definition decode_first :: "server_request \<Rightarrow> json option" where
  "decode_first r =
     (let b = (case hr_limit r of None \<Rightarrow> hr_body r | Some n \<Rightarrow> take (nat n) (hr_body r)) in
      map_option fst (pval (2 * length b + 1) b))"

definition identity_json :: "identity \<Rightarrow> json" where
  "identity_json i = JObj [(''username'', JStr (id_username i)),
     (''roles'', if id_roles i = [] then JNull else JArr (map (JStr \<circ> role_name) (id_roles i))),
     (''permissions'', JArr (map JStr (id_permissions i)))]"

definition login_json :: "string \<Rightarrow> int \<Rightarrow> identity \<Rightarrow> json" where
  "login_json token expires i = JObj [(''token'', JStr token), (''expiresAt'', JStr (to_rfc3339 (unix expires))), (''user'', identity_json i)]"

definition Login_handler ::
  "(string \<Rightarrow> string \<Rightarrow> string) \<Rightarrow> key_derivation \<Rightarrow> int \<Rightarrow> 's sign_in \<Rightarrow> server_request \<Rightarrow> auth_reply" where
  "Login_handler mac kdf now h r =
     (case struct_of [''username'', ''password''] (decode_first r) of
        None \<Rightarrow> AuthError 400 ''invalid request body''
      | Some f \<Rightarrow>
          if f ''username'' = [] \<or> f ''password'' = [] then AuthError 400 ''username and password are required''
          else
            (case si_auth h of
               None \<Rightarrow> AuthError 503 ''authentication is not configured''
             | Some s \<Rightarrow>
                 (case Authenticate kdf s (f ''username'') (f ''password'') of
                    None \<Rightarrow> AuthError 401 ''invalid username or password''
                  | Some i \<Rightarrow> (case IssueToken mac s now i of (token, expires) \<Rightarrow> AuthJson 200 (login_json token expires i)))))"

definition Me_handler :: "identity option \<Rightarrow> auth_reply" where
  "Me_handler ctx = (case ctx of None \<Rightarrow> AuthError 401 ''authentication required'' | Some i \<Rightarrow> AuthJson 200 (identity_json i))"

definition AuthConfig_handler :: "(string \<Rightarrow> string option) \<Rightarrow> 's sign_in \<Rightarrow> auth_reply" where
  "AuthConfig_handler ip h =
     (let provider = (case si_oidc h of None \<Rightarrow> [] | Some (o1, _) \<Rightarrow> ProviderName ip o1) in
      AuthJson 200 (JObj ([(''password'', JBool (HasLocalUsers (si_auth h))), (''oidc'', JBool (si_oidc h \<noteq> None))]
        @ (if provider = [] then [] else [(''provider'', JStr provider)]))))"

text \<open>\<open>q\<close>: the first value of a query parameter, empty when absent.\<close>

definition OIDCLogin ::
  "sso_env \<Rightarrow> int \<Rightarrow> string option \<Rightarrow> string option \<Rightarrow> (string \<Rightarrow> string) \<Rightarrow> 's sign_in \<Rightarrow> auth_reply \<times> 's sign_in" where
  "OIDCLogin en now r1 r2 q h =
     (case si_oidc h of
        None \<Rightarrow> (AuthError 404 ''single sign-on is not enabled'', h)
      | Some c \<Rightarrow>
          (case Begin en now r1 r2 (q ''redirect'') c of
             (Inl e, c1) \<Rightarrow> (AuthError 502 ''single sign-on is unavailable'', h\<lparr>si_oidc := Some c1\<rparr>)
           | (Inr target, c1) \<Rightarrow> (AuthRedirect target [], h\<lparr>si_oidc := Some c1\<rparr>)))"

definition OIDCCallback ::
  "sso_env \<Rightarrow> int \<Rightarrow> string option \<Rightarrow> (string \<Rightarrow> string) \<Rightarrow> 's sign_in \<Rightarrow> auth_reply \<times> 's sign_in" where
  "OIDCCallback en now r q h =
     (case si_oidc h of
        None \<Rightarrow> (AuthError 404 ''single sign-on is not enabled'', h)
      | Some c \<Rightarrow>
          if q ''error'' \<noteq> [] then (AuthRedirect (DefaultReturn (fst c)) [(''error'', q ''error'')], h)
          else
            (case Complete en now r (q ''state'') (q ''code'') c of
               (Inl e, c1) \<Rightarrow> (AuthRedirect (DefaultReturn (fst c1)) [(''error'', ''sso_failed'')], h\<lparr>si_oidc := Some c1\<rparr>)
             | (Inr (otc, sess), c1) \<Rightarrow> (AuthRedirect (so_webReturn sess) [(''code'', otc)], h\<lparr>si_oidc := Some c1\<rparr>)))"

definition OIDCExchange :: "int \<Rightarrow> server_request \<Rightarrow> 's sign_in \<Rightarrow> auth_reply \<times> 's sign_in" where
  "OIDCExchange now r h =
     (case si_oidc h of
        None \<Rightarrow> (AuthError 404 ''single sign-on is not enabled'', h)
      | Some c \<Rightarrow>
          (case struct_of [''code''] (decode_first r) of
             None \<Rightarrow> (AuthError 400 ''code is required'', h)
           | Some f \<Rightarrow>
               if f ''code'' = [] then (AuthError 400 ''code is required'', h)
               else
                 (case Exchange now (f ''code'') c of
                    (Inl e, c1) \<Rightarrow> (AuthError 401 ''invalid or expired code'', h\<lparr>si_oidc := Some c1\<rparr>)
                  | (Inr sess, c1) \<Rightarrow>
                      (AuthJson 200 (login_json (so_token sess) (so_expires sess) (so_identity sess)), h\<lparr>si_oidc := Some c1\<rparr>))))"

text \<open>What \<open>cmd/apiserver/main.go\<close> puts together: the service of the environment, and no single sign-on.\<close>

definition apiserver :: "key_derivation \<Rightarrow> (nat \<Rightarrow> string option) \<Rightarrow> (string \<Rightarrow> string) \<Rightarrow> config_error + mem_items sign_in" where
  "apiserver kdf rnd env =
     (case NewFromEnv kdf rnd env of
        Inl e \<Rightarrow> Inl e
      | Inr s \<Rightarrow> Inr \<lparr>si_auth = Some s, si_oidc = None\<rparr>)"

end
