(* ===== verification/Sso_Flow.thy ===== *)
theory Sso_Flow
  imports Sso
begin

text \<open>
  What single sign-on promises. \<open>state_store\<close> is the contract of the interface \<open>StateStore\<close> as the flow relies on it, with
  \<open>view t s k\<close> what a load of \<open>k\<close> at \<open>t\<close> would find and \<open>ok\<close> the states in which the store answers; the flow is
  proved once over it, and both stores are shown to keep it.
\<close>

section \<open>The contract of a state store\<close>

text \<open>A millisecond of slack covers a store that counts in milliseconds.\<close>

locale state_store =
  fixes st :: "'s stateStore" and view :: "int \<Rightarrow> 's \<Rightarrow> string \<rightharpoonup> flow_value" and ok :: "'s \<Rightarrow> bool"
  assumes save_answers: "ok s \<Longrightarrow> ss_save st t k v ttl s = (e, s') \<Longrightarrow> e = None \<and> ok s'"
    and save_others: "ok s \<Longrightarrow> ss_save st t k v ttl s = (e, s') \<Longrightarrow> k' \<noteq> k \<Longrightarrow> view t' s' k' = view t' s k'"
    and save_only: "ok s \<Longrightarrow> ss_save st t k v ttl s = (e, s') \<Longrightarrow> view t' s' k = None \<or> view t' s' k = Some v"
    and save_lasts: "ok s \<Longrightarrow> ss_save st t k v ttl s = (e, s') \<Longrightarrow> t \<le> t' \<Longrightarrow> t' + 10 ^ 6 \<le> t + ttl \<Longrightarrow> view t' s' k = Some v"
    and save_ends: "ok s \<Longrightarrow> ss_save st t k v ttl s = (e, s') \<Longrightarrow> 0 < ttl \<Longrightarrow> t + ttl + 2 * 10 ^ 6 \<le> t' \<Longrightarrow> view t' s' k = None"
    and load_answers: "ok s \<Longrightarrow> ss_load st t k s = (r, s') \<Longrightarrow> r = Inr (view t s k) \<and> ok s'"
    and load_keeps: "ok s \<Longrightarrow> ss_load st t k s = (r, s') \<Longrightarrow> t \<le> t' \<Longrightarrow> view t' s' = view t' s"
    and delete_answers: "ok s \<Longrightarrow> ss_delete st t k s = (e, s') \<Longrightarrow> e = None \<and> ok s'"
    and delete_removes: "ok s \<Longrightarrow> ss_delete st t k s = (e, s') \<Longrightarrow> view t' s' = (view t' s)(k := None)"
    and gone_stays: "view t s k = None \<Longrightarrow> t \<le> t' \<Longrightarrow> view t' s k = None"
    and kept_same: "view t' s k = Some v \<Longrightarrow> t \<le> t' \<Longrightarrow> view t s k = Some v"

definition mem_view :: "int \<Rightarrow> mem_items \<Rightarrow> string \<rightharpoonup> flow_value" where
  "mem_view t m k = (case m k of None \<Rightarrow> None | Some e \<Rightarrow> if t > me_expires e then None else Some (me_value e))"

interpretation mem_store: state_store NewMemoryStore mem_view "\<lambda>_. True"
  by unfold_locales
    (auto simp: NewMemoryStore_def mem_save_def mem_load_def mem_delete_def mem_view_def split: option.splits if_splits)

text \<open>Redis answers while the connection holds.\<close>

definition kv_view :: "int \<Rightarrow> redis_keys \<times> link_state \<Rightarrow> string \<rightharpoonup> flow_value" where
  "kv_view t d k =
     (case fst d k of
        None \<Rightarrow> None
      | Some (v, None) \<Rightarrow> Some v
      | Some (v, Some e) \<Rightarrow> if t div 10 ^ 6 > e then None else Some v)"

definition link_holds :: "redis_keys \<times> link_state \<Rightarrow> bool" where
  "link_holds d \<longleftrightarrow> ln_budget (snd d) = None"

lemma run_holds: "link_holds d \<Longrightarrow> run f d = (Inr (fst (f (fst d))), (snd (f (fst d)), snd d))"
  by (cases d) (simp add: run_def link_holds_def)

lemmas redis_state_defs = NewRedisStore_def redis_save_def redis_load_def redis_delete_def run_holds err_of_def kv_set_def kv_get_def kv_del_def

lemma millis_last: "t \<le> t' \<Longrightarrow> t' + 1000000 \<le> t + ttl \<Longrightarrow> t' div 1000000 \<le> t div 1000000 + max 1 (ttl div (1000000::int))"
  by linarith

lemma millis_end: "0 < ttl \<Longrightarrow> t + ttl + 2000000 \<le> t' \<Longrightarrow> t div 1000000 + max 1 (ttl div 1000000) < t' div (1000000::int)"
  by linarith

lemma kv_get_view: "fst (kv_get t k r) = kv_view t (r, l) k"
  by (auto simp: kv_get_def kv_view_def split: option.splits)

lemma kv_get_keeps: "t \<le> t' \<Longrightarrow> kv_view t' (snd (kv_get t k r), l) = kv_view t' (r, l)"
proof
  fix k' assume "t \<le> t'"
  then have "t div 1000000 \<le> t' div 1000000" by (simp add: zdiv_mono1)
  then show "kv_view t' (snd (kv_get t k r), l) k' = kv_view t' (r, l) k'"
    by (auto simp: kv_get_def kv_view_def split: option.splits)
qed

interpretation redis_store: state_store NewRedisStore kv_view link_holds
proof (unfold_locales, goal_cases)
  case (4 s t k v ttl e s' t')
  then show ?case using millis_last [of t t' ttl] by (auto simp: redis_state_defs kv_view_def)
next
  case (5 s t k v ttl e s' t')
  then show ?case using millis_end [of ttl t t'] by (auto simp: redis_state_defs kv_view_def)
next
  case (6 s t k r s')
  then show ?case
    using kv_get_view [of t k "fst s" "snd s"] by (auto simp: NewRedisStore_def redis_load_def run_holds) (simp add: link_holds_def)
next
  case (7 s t k r s' t')
  then show ?case using kv_get_keeps [of t t' k "fst s" "snd s"] by (auto simp: NewRedisStore_def redis_load_def run_holds)
next
  case (10 t s k t')
  then have "t div 1000000 \<le> t' div 1000000" by (simp add: zdiv_mono1)
  with 10 show ?case by (auto simp: kv_view_def split: option.splits if_splits)
next
  case (11 t' s k v t)
  then have "t div 1000000 \<le> t' div 1000000" by (simp add: zdiv_mono1)
  with 11 show ?case by (auto simp: kv_view_def split: option.splits if_splits)
qed (auto simp: redis_state_defs kv_view_def link_holds_def)

section \<open>Runs of the flow\<close>

text \<open>Requests in the order they are served; \<open>FExchange\<close> is a whole exchange.\<close>

datatype flow_op =
    FBegin sso_env int "string option" "string option" string
  | FComplete sso_env int "string option" string string
  | FExchange int string

fun flow_time :: "flow_op \<Rightarrow> int" where
  "flow_time (FBegin _ t _ _ _) = t"
| "flow_time (FComplete _ t _ _ _) = t"
| "flow_time (FExchange t _) = t"

fun flow_step :: "flow_op \<Rightarrow> 's oidc \<times> 's \<Rightarrow> 's oidc \<times> 's" where
  "flow_step (FBegin en t r1 r2 ret) c = snd (Begin en t r1 r2 ret c)"
| "flow_step (FComplete en t r state code) c = snd (Complete en t r state code c)"
| "flow_step (FExchange t code) c = snd (Exchange t code c)"

text \<open>The sessions issued under one-time codes, and those handed out for a code.\<close>

fun flow_issued :: "flow_op list \<Rightarrow> 's oidc \<times> 's \<Rightarrow> (string \<times> ssoSession) list" where
  "flow_issued [] c = []"
| "flow_issued (op # ops) c =
     (case op of
        FComplete en t r state code \<Rightarrow> (case fst (Complete en t r state code c) of Inr x \<Rightarrow> [x] | Inl _ \<Rightarrow> [])
      | _ \<Rightarrow> []) @ flow_issued ops (flow_step op c)"

fun flow_handed :: "flow_op list \<Rightarrow> 's oidc \<times> 's \<Rightarrow> (string \<times> ssoSession) list" where
  "flow_handed [] c = []"
| "flow_handed (op # ops) c =
     (case op of
        FExchange t code \<Rightarrow> (case fst (Exchange t code c) of Inr sess \<Rightarrow> [(code, sess)] | Inl _ \<Rightarrow> [])
      | _ \<Rightarrow> []) @ flow_handed ops (flow_step op c)"

lemma state_key_code [simp]: "state_key a \<noteq> code_key b" "code_key b \<noteq> state_key a"
  by (simp_all add: state_key_def code_key_def)

lemma code_key_inj [simp]: "code_key a = code_key b \<longleftrightarrow> a = b"
  by (simp add: code_key_def)

lemma discover_frame:
  assumes "discover en o0 = (r, o1)"
  shows "oi_store o1 = oi_store o0" "oi_svc o1 = oi_svc o0" "oi_cfg o1 = oi_cfg o0" "oi_admin o1 = oi_admin o0" "oi_op o1 = oi_op o0"
    "oi_allowed o1 = oi_allowed o0" "oi_default o1 = oi_default o0"
  using assms by (auto simp: discover_def Let_def split: option.splits http_result.splits if_splits)

lemma rolesFor_frame:
  "oi_admin o1 = oi_admin o0 \<Longrightarrow> oi_op o1 = oi_op o0 \<Longrightarrow> oi_cfg o1 = oi_cfg o0 \<Longrightarrow> rolesFor o1 e = rolesFor o0 e"
  by (simp add: rolesFor_def Let_def)

context state_store
begin

text \<open>Only sessions are stored under codes.\<close>

definition codes_ok :: "int \<Rightarrow> 's \<Rightarrow> bool" where
  "codes_ok t s \<longleftrightarrow> ok s \<and> (\<forall>code v. view t s (code_key code) = Some v \<longrightarrow> (\<exists>sess. v = SessionV sess))"

definition code_for :: "int \<Rightarrow> 's \<Rightarrow> string \<times> ssoSession \<Rightarrow> bool" where
  "code_for t s x \<longleftrightarrow> view t s (code_key (fst x)) = Some (SessionV (snd x))"

lemma codes_later: "codes_ok t s \<Longrightarrow> t \<le> t' \<Longrightarrow> codes_ok t' s"
  unfolding codes_ok_def using kept_same by blast

lemma code_for_later: "code_for t' s x \<Longrightarrow> t \<le> t' \<Longrightarrow> code_for t s x"
  unfolding code_for_def using kept_same by blast

lemma codes_frame: "ok s' \<Longrightarrow> (\<And>c. view t s' (code_key c) = view t s (code_key c)) \<Longrightarrow>
    (codes_ok t s \<longrightarrow> codes_ok t s') \<and> code_for t s' x = code_for t s x"
  by (simp add: codes_ok_def code_for_def)

lemma begin_codes:
  assumes "oi_store o0 = st" and "ok s" and "Begin en t r1 r2 ret (o0, s) = (res, (o1, s1))"
  shows "oi_store o1 = st" and "ok s1" and "view t' s1 (code_key c) = view t' s (code_key c)"
proof -
  obtain m o2 where d: "discover en o0 = (m, o2)" by (cases "discover en o0")
  from discover_frame [OF d] assms(1) have st2: "oi_store o2 = st" by simp
  have "(o1, s1) = (o2, s) \<or> (\<exists>k v ttl e. (o1, s1) = (o2, snd (ss_save st t (state_key k) v ttl s)))"
    using assms(3) st2 by (auto simp: Begin_def d Let_def split: sum.splits option.splits prod.splits) (metis snd_conv)+
  then show "oi_store o1 = st" "ok s1" "view t' s1 (code_key c) = view t' s (code_key c)"
    using st2 assms(2) save_answers [OF assms(2)] save_others [OF assms(2)] by (auto, (metis prod.collapse state_key_code)+)
qed

lemma exchange_hit:
  assumes "oi_store o0 = st" and "ok s" and "code_for t s (code, sess)"
  obtains s1 where "Exchange t code (o0, s) = (Inr sess, (o0, s1))" and "ok s1" and "\<And>t'. t \<le> t' \<Longrightarrow> view t' s1 = (view t' s)(code_key code := None)"
proof -
  obtain l s2 where l: "ss_load st t (code_key code) s = (l, s2)" by (cases "ss_load st t (code_key code) s")
  from load_answers [OF assms(2) l] assms(3) have la: "l = Inr (Some (SessionV sess))" "ok s2" by (auto simp: code_for_def)
  obtain e s1 where d: "ss_delete st t (code_key code) s2 = (e, s1)" by (cases "ss_delete st t (code_key code) s2")
  from that [of s1] assms(1) l la d delete_answers [OF la(2) d] delete_removes [OF la(2) d] load_keeps [OF assms(2) l] show thesis
    by (simp add: Exchange_def exchange_take_def exchange_drop_def)
qed

lemma exchange_miss:
  assumes "oi_store o0 = st" and "ok s" and "view t s (code_key code) = None"
  obtains e s1 where "Exchange t code (o0, s) = (Inl e, (o0, s1))" and "ok s1" and "\<And>t'. t \<le> t' \<Longrightarrow> view t' s1 = view t' s"
proof -
  obtain l s1 where l: "ss_load st t (code_key code) s = (l, s1)" by (cases "ss_load st t (code_key code) s")
  from that [of _ s1] assms(1,3) l load_answers [OF assms(2) l] load_keeps [OF assms(2) l] show thesis
    by (auto simp: Exchange_def exchange_take_def)
qed

lemma exchange_step:
  assumes "oi_store o0 = st" and "codes_ok t s" and "Exchange t code (o0, s) = (res, (o1, s1))"
  shows "o1 = o0" and "ok s1" and "view t s1 (code_key c) = (if c = code then None else view t s (code_key c))"
    and "res = Inr sess \<longleftrightarrow> code_for t s (code, sess)"
proof -
  have ok: "ok s" using assms(2) by (simp add: codes_ok_def)
  have "o1 = o0 \<and> ok s1 \<and> view t s1 (code_key c) = (if c = code then None else view t s (code_key c)) \<and> (res = Inr sess \<longleftrightarrow> code_for t s (code, sess))"
  proof (cases "view t s (code_key code)")
    case None
    obtain e s2 where "Exchange t code (o0, s) = (Inl e, (o0, s2))" "ok s2" "view t s2 = view t s"
      by (rule exchange_miss [OF assms(1) ok None]) simp
    with None assms(3) show ?thesis by (auto simp: code_for_def)
  next
    case (Some v)
    with assms(2) obtain se where "code_for t s (code, se)" by (auto simp: codes_ok_def code_for_def)
    moreover obtain s2 where "Exchange t code (o0, s) = (Inr se, (o0, s2))" "ok s2" "view t s2 = (view t s)(code_key code := None)"
      by (rule exchange_hit [OF assms(1) ok calculation]) simp
    ultimately show ?thesis using assms(3) by (auto simp: code_for_def)
  qed
  then show "o1 = o0" "ok s1" "view t s1 (code_key c) = (if c = code then None else view t s (code_key c))"
    "res = Inr sess \<longleftrightarrow> code_for t s (code, sess)" by auto
qed

text \<open>\<open>Complete\<close> by cases: what it did to the store when it failed, and everything about a success.\<close>

lemma complete_inv:
  assumes "oi_store o0 = st" and "ok s" and "Complete en t r state code (o0, s) = (res, (o1, s1))"
  obtains (failed) e where "res = Inl e" and "oi_store o1 = st" and "ok s1"
      and "\<And>t' c. t \<le> t' \<Longrightarrow> view t' s1 (code_key c) = view t' s (code_key c)"
    | (issued) av meta info roles otc sess s2 where "res = Inr (otc, sess)" and "view t s (state_key state) = Some av"
      and "discover en o0 = (Inr meta, o1)" and "exchange en (oi_cfg o0) meta code (au_verifier (the (unmarshal_state av))) = Inr info"
      and "rolesFor o0 (sso_email info) = Inr roles" and "randomToken r = Some otc"
      and "sess = \<lparr>so_token = fst (IssueToken (en_mac en) (oi_svc o0) t (identityFor (sso_username info) roles)),
          so_expires = snd (IssueToken (en_mac en) (oi_svc o0) t (identityFor (sso_username info) roles)),
          so_identity = identityFor (sso_username info) roles, so_webReturn = au_webReturn (the (unmarshal_state av))\<rparr>"
      and "oi_store o1 = st" and "ok s2" and "ss_save st t (code_key otc) (SessionV sess) (oc_codeTTL (oi_cfg o0)) s2 = (None, s1)"
      and "\<And>t' c. t \<le> t' \<Longrightarrow> view t' s2 (code_key c) = view t' s (code_key c)"
proof -
  obtain l sl where l: "ss_load st t (state_key state) s = (l, sl)" by (cases "ss_load st t (state_key state) s")
  from load_answers [OF assms(2) l] have la: "l = Inr (view t s (state_key state))" "ok sl" by auto
  note lk = load_keeps [OF assms(2) l]
  obtain e s2 where d: "ss_delete st t (state_key state) sl = (e, s2)" by (cases "ss_delete st t (state_key state) sl")
  from delete_answers [OF la(2) d] have ok2: "ok s2" by simp
  have v2: "view t' s2 (code_key c) = view t' s (code_key c)" if "t \<le> t'" for t' c
    using delete_removes [OF la(2) d, of t'] lk [OF that] by simp
  obtain m o2 where m: "discover en o0 = (m, o2)" by (cases "discover en o0")
  note fr = discover_frame [OF m]
  have rf: "rolesFor o2 e = rolesFor o0 e" for e by (rule rolesFor_frame) (simp_all add: fr)
  consider (none) "view t s (state_key state) = None"
    | (stop) av where "view t s (state_key state) = Some av" "\<nexists>sv meta info roles otc. unmarshal_state av = Some sv \<and> m = Inr meta \<and>
        exchange en (oi_cfg o0) meta code (au_verifier sv) = Inr info \<and> rolesFor o0 (sso_email info) = Inr roles \<and> randomToken r = Some otc"
    | (go) av sv meta info roles otc where "view t s (state_key state) = Some av" "unmarshal_state av = Some sv" "m = Inr meta"
        "exchange en (oi_cfg o0) meta code (au_verifier sv) = Inr info" "rolesFor o0 (sso_email info) = Inr roles" "randomToken r = Some otc"
    by (cases "view t s (state_key state)") blast+
  then show thesis
  proof cases
    case none
    with assms(1,3) l la lk show thesis by (intro failed) (auto simp: Complete_def)
  next
    case stop
    note c = assms(3) [unfolded Complete_def, simplified, unfolded assms(1) l la(1) stop(1), simplified, unfolded d m fr(3), simplified]
    have "(\<exists>e. res = Inl e) \<and> (o1 = o0 \<or> o1 = o2) \<and> s1 = s2"
      using c stop(2) by (auto simp: rf fr Let_def split: option.splits sum.splits prod.splits)
    with assms(1) ok2 v2 fr show thesis by (auto intro: failed)
  next
    case go
    define i where "i = identityFor (sso_username info) roles"
    obtain tok ex where it: "IssueToken (en_mac en) (oi_svc o0) t i = (tok, ex)" by (cases "IssueToken (en_mac en) (oi_svc o0) t i")
    define sess where "sess = \<lparr>so_token = tok, so_expires = ex, so_identity = i, so_webReturn = au_webReturn sv\<rparr>"
    obtain s3 where s3: "ss_save st t (code_key otc) (SessionV sess) (oc_codeTTL (oi_cfg o0)) s2 = (None, s3)"
      using save_answers [OF ok2] by (metis surj_pair)
    note c = assms(3) [unfolded Complete_def, simplified, unfolded assms(1) l la(1) go, simplified, unfolded d m fr(3) go(2), simplified]
    from c go rf fr it s3 assms(1) have "res = Inr (otc, sess)" "o1 = o2" "s1 = s3"
      by (simp_all add: Let_def i_def [symmetric] sess_def)
    with issued [of otc sess av meta info roles s2] go m it s3 fr assms(1) ok2 v2 show thesis by (simp add: sess_def i_def)
  qed
qed

lemma complete_session:
  assumes "oi_store o0 = st" and "ok s" and "Complete en t r state code (o0, s) = (Inr (otc, sess), (o1, s1))"
  shows "\<exists>meta v info roles i. exchange en (oi_cfg o0) meta code v = Inr info \<and> rolesFor o0 (sso_email info) = Inr roles \<and> i = identityFor (sso_username info) roles
     \<and> so_identity sess = i \<and> so_token sess = fst (IssueToken (en_mac en) (oi_svc o0) t i) \<and> so_expires sess = snd (IssueToken (en_mac en) (oi_svc o0) t i)"
  using assms by (cases rule: complete_inv) auto

lemma issued_codes:
  assumes "ok s2" and "ss_save st t (code_key otc) (SessionV sess) ttl s2 = (None, s1)"
    and "\<And>t' c. t \<le> t' \<Longrightarrow> view t' s2 (code_key c) = view t' s (code_key c)" and "codes_ok t s"
  shows "codes_ok t s1" and "code_for t s1 x \<Longrightarrow> x = (otc, sess) \<or> code_for t s x"
proof -
  note sv = save_answers [OF assms(1,2)] save_only [OF assms(1,2), of t]
  have vw: "view t s1 (code_key c) = view t s (code_key c)" if "c \<noteq> otc" for c
    using that save_others [OF assms(1,2), of "code_key c" t] assms(3) [of t c] by simp
  show "codes_ok t s1" unfolding codes_ok_def
  proof (intro conjI allI impI)
    fix c v assume "view t s1 (code_key c) = Some v"
    with sv(2) vw [of c] assms(4) show "\<exists>sess. v = SessionV sess" by (cases "c = otc") (auto simp: codes_ok_def)
  qed (use sv(1) in simp)
  show "x = (otc, sess) \<or> code_for t s x" if "code_for t s1 x"
    using that sv(2) vw [of "fst x"] by (cases x; cases "fst x = otc") (auto simp: code_for_def)
qed

lemma flow_accounts:
  assumes "oi_store o0 = st" and "codes_ok t s" and "sorted (map flow_time ops)" and "\<forall>op\<in>set ops. t \<le> flow_time op"
  shows "count (mset (flow_handed ops (o0, s))) x \<le> count (mset (flow_issued ops (o0, s))) x + (if code_for t s x then 1 else 0)"
  using assms
proof (induction ops arbitrary: o0 s t)
  case (Cons op ops)
  define t1 where "t1 = flow_time op"
  obtain o1 s1 where nxt: "flow_step op (o0, s) = (o1, s1)" by (cases "flow_step op (o0, s)")
  have le: "t \<le> t1" and srt: "sorted (map flow_time ops)" and later: "\<forall>op\<in>set ops. t1 \<le> flow_time op"
    using Cons.prems by (auto simp: t1_def)
  have ck: "codes_ok t1 s" and oks: "ok s" using Cons.prems(2) le codes_later by (auto simp: codes_ok_def)
  have cf: "code_for t1 s x \<Longrightarrow> code_for t s x" using code_for_later le by blast
  have ih: "oi_store o1 = st \<Longrightarrow> codes_ok t1 s1 \<Longrightarrow> count (mset (flow_handed ops (o1, s1))) x
      \<le> count (mset (flow_issued ops (o1, s1))) x + (if code_for t1 s1 x then 1 else 0)"
    using Cons.IH [of o1 t1 s1] srt later by blast
  show ?case
  proof (cases op)
    case (FBegin en b r1 r2 ret)
    then have "Begin en t1 r1 r2 ret (o0, s) = (fst (Begin en t1 r1 r2 ret (o0, s)), (o1, s1))" using nxt by (simp add: t1_def prod_eq_iff)
    note b = begin_codes [OF Cons.prems(1) oks this]
    with codes_frame [of s1 t1 s x] ck ih cf FBegin nxt show ?thesis by (fastforce split: if_splits)
  next
    case (FComplete en b r state code)
    then have "Complete en t1 r state code (o0, s) = (fst (Complete en t1 r state code (o0, s)), (o1, s1))" using nxt by (simp add: t1_def prod_eq_iff)
    from Cons.prems(1) oks this show ?thesis
    proof (cases rule: complete_inv)
      case (failed e)
      with codes_frame [of s1 t1 s x] ck ih cf FComplete nxt show ?thesis by (fastforce simp: t1_def split: if_splits)
    next
      case (issued av meta info roles otc sess s2)
      from issued_codes(1) [OF issued(9-11) ck] issued_codes(2) [OF issued(9-11) ck, of x] ih [OF issued(8)] cf issued(1) FComplete nxt show ?thesis
        by (auto simp: t1_def split: if_splits)
    qed
  next
    case (FExchange b code)
    then have "Exchange t1 code (o0, s) = (fst (Exchange t1 code (o0, s)), (o1, s1))" using nxt by (simp add: t1_def prod_eq_iff)
    note ex = exchange_step [OF Cons.prems(1) ck this]
    have "codes_ok t1 s1" using ck ex(2,3) by (auto simp: codes_ok_def)
    moreover have "code_for t1 s1 x \<longleftrightarrow> fst x \<noteq> code \<and> code_for t1 s x" using ex(3) by (auto simp: code_for_def)
    moreover have "fst (Exchange t1 code (o0, s)) = Inr sess \<longleftrightarrow> code_for t1 s (code, sess)" for sess by (rule ex(4))
    ultimately show ?thesis using ih ex(1) cf Cons.prems(1) FExchange nxt by (cases x) (auto simp: t1_def split: if_splits sum.splits)
  qed
qed simp

lemma handed_issued:
  assumes "oi_store o0 = st" and "ok s" and "\<And>t code. view t s (code_key code) = None" and "sorted (map flow_time ops)"
  shows "mset (flow_handed ops (o0, s)) \<subseteq># mset (flow_issued ops (o0, s))"
proof (rule mset_subset_eqI)
  fix x
  obtain t where t: "\<forall>op\<in>set ops. t \<le> flow_time op"
    using assms(4) by (cases ops) (auto intro: that [of "flow_time (hd ops)"])
  from flow_accounts [OF assms(1) _ assms(4) t, of s x] assms(2,3)
  show "count (mset (flow_handed ops (o0, s))) x \<le> count (mset (flow_issued ops (o0, s))) x"
    by (simp add: codes_ok_def code_for_def)
qed

text \<open>A login from its start to the session.\<close>

lemma begin_state:
  assumes "oi_store o0 = st" and "ok s" and "discover en o0 = (Inr meta, o1)"
  obtains s1 where "Begin en t (Some b1) (Some b2) ret (o0, s) =
       (Inr (pm_auth meta @ ''?'' @ values_encode
          [(''response_type'', ''code''), (''client_id'', oc_clientID (oi_cfg o0)), (''redirect_uri'', oc_redirectURL (oi_cfg o0)),
           (''scope'', join_with '' '' (oc_scopes (oi_cfg o0))), (''state'', b64_encode True b1),
           (''code_challenge'', pkceChallenge en (b64_encode True b2)), (''code_challenge_method'', ''S256'')]), (o1, s1))"
    and "ok s1" and "\<And>t'. t \<le> t' \<Longrightarrow> t' + 10 ^ 6 \<le> t + oc_stateTTL (oi_cfg o0) \<Longrightarrow>
      view t' s1 (state_key (b64_encode True b1)) = Some (StateV \<lparr>au_verifier = b64_encode True b2, au_webReturn = ResolveReturn (en_ip en) o0 ret\<rparr>)"
proof -
  let ?v = "StateV \<lparr>au_verifier = b64_encode True b2, au_webReturn = ResolveReturn (en_ip en) o0 ret\<rparr>"
  obtain e s1 where sv: "ss_save st t (state_key (b64_encode True b1)) ?v (oc_stateTTL (oi_cfg o0)) s = (e, s1)"
    by (cases "ss_save st t (state_key (b64_encode True b1)) ?v (oc_stateTTL (oi_cfg o0)) s")
  note a = save_answers [OF assms(2) sv]
  with that [of s1] sv assms(1,3) discover_frame [OF assms(3)] save_lasts [OF assms(2) sv] show thesis
    by (simp add: Begin_def Let_def randomToken_def)
qed

lemma complete_issues:
  assumes "oi_store o0 = st" and "ok s" and "view t s (state_key state) = Some (StateV av)" and "discover en o0 = (Inr meta, o1)"
    and "exchange en (oi_cfg o0) meta code (au_verifier av) = Inr info" and "rolesFor o0 (sso_email info) = Inr roles" and "i = identityFor (sso_username info) roles"
  obtains s1 sess where "Complete en t (Some b) state code (o0, s) = (Inr (b64_encode True b, sess), (o1, s1))" and "ok s1"
    and "so_identity sess = i" and "so_webReturn sess = au_webReturn av"
    and "\<And>t'. t \<le> t' \<Longrightarrow> t' + 10 ^ 6 \<le> t + oc_codeTTL (oi_cfg o0) \<Longrightarrow> code_for t' s1 (b64_encode True b, sess)"
    and "\<And>t'. view t' s1 (state_key state) = None"
proof -
  let ?k = "state_key state"
  obtain l sl where l: "ss_load st t ?k s = (l, sl)" by (cases "ss_load st t ?k s")
  from load_answers [OF assms(2) l] assms(3) have la: "l = Inr (Some (StateV av))" "ok sl" by auto
  obtain e s2 where d: "ss_delete st t ?k sl = (e, s2)" by (cases "ss_delete st t ?k sl")
  from delete_answers [OF la(2) d] have ok2: "ok s2" by simp
  note fr = discover_frame [OF assms(4)]
  have rf: "rolesFor o1 e = rolesFor o0 e" for e by (rule rolesFor_frame) (simp_all add: fr)
  define sess where "sess = \<lparr>so_token = fst (IssueToken (en_mac en) (oi_svc o0) t i), so_expires = snd (IssueToken (en_mac en) (oi_svc o0) t i),
      so_identity = i, so_webReturn = au_webReturn av\<rparr>"
  obtain e1 s1 where sv: "ss_save st t (code_key (b64_encode True b)) (SessionV sess) (oc_codeTTL (oi_cfg o0)) s2 = (e1, s1)"
    by (cases "ss_save st t (code_key (b64_encode True b)) (SessionV sess) (oc_codeTTL (oi_cfg o0)) s2")
  note a = save_answers [OF ok2 sv]
  have "Complete en t (Some b) state code (o0, s) = (Inr (b64_encode True b, sess), (o1, s1))"
    using a sv la l d assms(1,4-7) fr rf by (simp add: Complete_def randomToken_def sess_def split_beta Let_def)
  with that [of sess s1] a save_lasts [OF ok2 sv] save_others [OF ok2 sv, of ?k] delete_removes [OF la(2) d] show thesis
    by (simp add: code_for_def sess_def)
qed

lemma complete_unknown:
  assumes "oi_store o0 = st" and "ok s" and "view t s (state_key state) = None"
  shows "isl (fst (Complete en t r state code (o0, s)))"
proof -
  obtain l sl where l: "ss_load st t (state_key state) s = (l, sl)" by (cases "ss_load st t (state_key state) s")
  with load_answers [OF assms(2) l] assms(1,3) show ?thesis by (simp add: Complete_def)
qed

end


lemma exchange_subject: "exchange en cfg meta code v = Inr info \<Longrightarrow> ui_subject info \<noteq> []"
  by (auto simp: exchange_def Let_def split: http_result.splits option.splits if_splits)

lemma sso_username_given: "ui_subject info \<noteq> [] \<Longrightarrow> sso_username info \<noteq> []"
  by (auto simp: sso_username_def sso_email_def)

lemma discover_cached: "discover en o0 = (Inr meta, o1) \<Longrightarrow> discover en' o1 = (Inr meta, o1)"
proof -
  assume "discover en o0 = (Inr meta, o1)"
  then have "oi_provider o1 = Some meta" by (auto simp: discover_def Let_def split: option.splits http_result.splits if_splits)
  then show ?thesis by (simp add: discover_def)
qed

lemma resolve_frame: "oi_allowed o1 = oi_allowed o0 \<Longrightarrow> oi_default o1 = oi_default o0 \<Longrightarrow> ResolveReturn ip o1 r = ResolveReturn ip o0 r"
  by (simp add: ResolveReturn_def Let_def)

text \<open>A login up to the issue of its code, with the store in memory.\<close>

lemma mem_login:
  assumes "oi_store o0 = NewMemoryStore" and "discover en o0 = (Inr meta, o1)"
    and "exchange en' (oi_cfg o0) meta code (b64_encode True b2) = Inr info" and "rolesFor o0 (sso_email info) = Inr roles"
    and "t0 \<le> t1" and "t1 + 10 ^ 6 \<le> t0 + oc_stateTTL (oi_cfg o0)"
  obtains s1 s2 sess where "Begin en t0 (Some b1) (Some b2) ret (o0, m) =
       (Inr (pm_auth meta @ ''?'' @ values_encode
          [(''response_type'', ''code''), (''client_id'', oc_clientID (oi_cfg o0)), (''redirect_uri'', oc_redirectURL (oi_cfg o0)),
           (''scope'', join_with '' '' (oc_scopes (oi_cfg o0))), (''state'', b64_encode True b1),
           (''code_challenge'', pkceChallenge en (b64_encode True b2)), (''code_challenge_method'', ''S256'')]), (o1, s1))"
    and "Complete en' t1 (Some b3) (b64_encode True b1) code (o1, s1) = (Inr (b64_encode True b3, sess), (o1, s2))"
    and "so_identity sess = identityFor (sso_username info) roles" and "so_webReturn sess = ResolveReturn (en_ip en) o0 ret"
    and "\<And>t2. t1 \<le> t2 \<Longrightarrow> t2 + 10 ^ 6 \<le> t1 + oc_codeTTL (oi_cfg o0) \<Longrightarrow> mem_store.code_for t2 s2 (b64_encode True b3, sess)"
    and "\<And>t'. mem_view t' s2 (state_key (b64_encode True b1)) = None"
proof -
  let ?av = "\<lparr>au_verifier = b64_encode True b2, au_webReturn = ResolveReturn (en_ip en) o0 ret\<rparr>"
  note fr = discover_frame [OF assms(2)]
  from fr assms(1) have st1: "oi_store o1 = NewMemoryStore" by simp
  have ex: "exchange en' (oi_cfg o1) meta code (au_verifier ?av) = Inr info" and ro: "rolesFor o1 (sso_email info) = Inr roles"
    using assms(3,4) fr rolesFor_frame [of o1 o0] by simp_all
  show thesis
  proof (rule mem_store.begin_state [OF assms(1) TrueI assms(2), of t0 b1 b2 ret m], goal_cases)
    case (1 s1)
    then have v: "mem_view t1 s1 (state_key (b64_encode True b1)) = Some (StateV ?av)" using assms(5,6) by blast
    show thesis
      by (rule mem_store.complete_issues [OF st1 TrueI v discover_cached [OF assms(2)] ex ro refl, of b3], rule that [OF 1(1)])
        (simp_all add: fr(3))
  qed
qed

text \<open>
  (C33) Single sign-on works: the browser is sent to the provider with the challenge of a verifier; when the provider accepts that verifier for its
  code and names a user whom the configuration allows, the callback issues a session with the roles of the user's address and the
  validated return target, the one-time code gives that session within its lifetime, and neither the code nor the state works again.
\<close>

theorem sso_flow:
  assumes "oi_store o0 = NewMemoryStore" and "discover en o0 = (Inr meta, o1)"
    and "exchange en' (oi_cfg o0) meta code (b64_encode True b2) = Inr info" and "rolesFor o0 (sso_email info) = Inr roles"
    and "t0 \<le> t1" and "t1 + 10 ^ 6 \<le> t0 + oc_stateTTL (oi_cfg o0)" and "t1 \<le> t2" and "t2 + 10 ^ 6 \<le> t1 + oc_codeTTL (oi_cfg o0)" and "t2 \<le> t3"
  shows "\<exists>sess c1 c2 c3.
     Begin en t0 (Some b1) (Some b2) ret (o0, m) =
       (Inr (pm_auth meta @ ''?'' @ values_encode
          [(''response_type'', ''code''), (''client_id'', oc_clientID (oi_cfg o0)), (''redirect_uri'', oc_redirectURL (oi_cfg o0)),
           (''scope'', join_with '' '' (oc_scopes (oi_cfg o0))), (''state'', b64_encode True b1),
           (''code_challenge'', b64_encode True (en_sha en (b64_encode True b2))), (''code_challenge_method'', ''S256'')]), c1)
     \<and> Complete en' t1 (Some b3) (b64_encode True b1) code c1 = (Inr (b64_encode True b3, sess), c2)
     \<and> Exchange t2 (b64_encode True b3) c2 = (Inr sess, c3)
     \<and> so_identity sess = identityFor (sso_username info) roles \<and> so_webReturn sess = ResolveReturn (en_ip en) o0 ret
     \<and> isl (fst (Exchange t3 (b64_encode True b3) c3)) \<and> isl (fst (Complete en' t3 r (b64_encode True b1) code c3))"
proof (rule mem_login [OF assms(1-6), where ?b1.0 = b1 and ?b3.0 = b3 and ret = ret and m = m], goal_cases)
  case (1 s1 s2 sess)
  let ?otc = "b64_encode True b3"
  from discover_frame [OF assms(2)] assms(1) have st1: "oi_store o1 = NewMemoryStore" by simp
  have hit: "mem_store.code_for t2 s2 (?otc, sess)" using 1(5) assms(7,8) by blast
  obtain s3 where x: "Exchange t2 ?otc (o1, s2) = (Inr sess, (o1, s3))" "\<And>t'. t2 \<le> t' \<Longrightarrow> mem_view t' s3 = (mem_view t' s2)(code_key ?otc := None)"
    by (rule mem_store.exchange_hit [OF st1 TrueI hit]) blast
  have "isl (fst (Exchange t3 ?otc (o1, s3)))"
    by (rule mem_store.exchange_miss [OF st1 TrueI, of t3 s3 ?otc]) (simp_all add: x(2) [OF assms(9)])
  moreover have "isl (fst (Complete en' t3 r (b64_encode True b1) code (o1, s3)))"
    by (rule mem_store.complete_unknown [OF st1 TrueI]) (simp add: x(2) [OF assms(9)] 1(6))
  ultimately show ?case using 1(1-4) x(1) unfolding pkceChallenge_def by blast
qed

text \<open>
  (C37) Who a session is, later. The token of a completed single sign-on verifies to the identity the provider's user was given, unless its
  display name, which any user of the provider may choose, is the name of a local account: then it verifies to that account, with that account's roles,
  whatever the user's address was granted.
\<close>

theorem sso_name_takeover:
  assumes "oi_store o0 = NewMemoryStore" and "Complete en now r state code (o0, m) = (Inr (otc, sess), c)"
    and "NewService users secret ttl = Inr (oi_svc o0)" and "int64 (unix now)" and "int64 (unix (so_expires sess))" and "unix later < unix (so_expires sess)"
  shows "VerifyToken (en_mac en) (oi_svc o0) later (so_token sess) =
     Inr (case map_of (as_users (oi_svc o0)) (id_username (so_identity sess)) of
            None \<Rightarrow> so_identity sess
          | Some u \<Rightarrow> identityFor (id_username (so_identity sess)) (roles_of (us_roles u)))"
proof -
  obtain o1 s1 where c: "Complete en now r state code (o0, m) = (Inr (otc, sess), (o1, s1))" using assms(2) by (cases c) simp
  from mem_store.complete_session [OF assms(1) TrueI c] obtain meta v info roles where
    x: "exchange en (oi_cfg o0) meta code v = Inr info" "rolesFor o0 (sso_email info) = Inr roles"
    and se: "so_token sess = fst (IssueToken (en_mac en) (oi_svc o0) now (identityFor (sso_username info) roles))"
      "so_expires sess = snd (IssueToken (en_mac en) (oi_svc o0) now (identityFor (sso_username info) roles))"
      "so_identity sess = identityFor (sso_username info) roles"
    by blast
  let ?n = "sso_username info"
  have n: "?n \<noteq> []" using sso_username_given [OF exchange_subject [OF x(1)]] .
  have ne: "roles \<noteq> []" using x(2) by (auto simp: rolesFor_def Let_def split: if_splits option.splits)
  have nm: "us_name u = ?n" if "map_of (as_users (oi_svc o0)) ?n = Some u" for u
    using NewService_users [OF assms(3)] that by (auto simp: keyed_users_def)
  have e: "so_expires sess = now + tk_ttl (as_tokens (oi_svc o0))" by (simp add: se(2) IssueToken_def issue_def Let_def)
  have v: "verify (en_mac en) (as_tokens (oi_svc o0)) later (so_token sess) =
      Inr \<lparr>cl_subject = ?n, cl_roles = map role_name roles, cl_issued = unix now, cl_expires = unix (so_expires sess)\<rparr>"
    using verify_issue [OF n assms(4), of "as_tokens (oi_svc o0)" "en_mac en" later roles] assms(5,6)
    by (simp add: se(1) e IssueToken_def identityFor_def)
  show ?thesis using ne nm by (auto simp: VerifyToken_def v se(3) Let_def split: option.splits) (simp_all add: identityFor_def)
qed

text \<open>
  (C39) The exchange is not atomic: it looks a code up and deletes it in two steps. Two requests with the same code that both look it up before
  either deletes it both get the session.
\<close>

theorem sso_code_race:
  assumes "oi_store o1 = NewMemoryStore" and "mem_view t2 s (code_key code) = Some (SessionV sess)" and "t1 \<le> t2"
  shows "\<exists>c1 c2 c3 c4. exchange_take t1 code (o1, s) = (Inr (SessionV sess), c1) \<and> exchange_take t2 code c1 = (Inr (SessionV sess), c2)
     \<and> exchange_drop t3 code (SessionV sess) c2 = (Inr sess, c3) \<and> exchange_drop t4 code (SessionV sess) c3 = (Inr sess, c4)"
proof -
  have take: "\<exists>s'. exchange_take t code (o1, x) = (Inr (SessionV sess), (o1, s')) \<and> (\<forall>t'\<ge>t. mem_view t' s' = mem_view t' x)"
    if "mem_view t x (code_key code) = Some (SessionV sess)" for t x
  proof -
    obtain l s' where l: "ss_load NewMemoryStore t (code_key code) x = (l, s')" by (cases "ss_load NewMemoryStore t (code_key code) x")
    from mem_store.load_answers [OF TrueI l] mem_store.load_keeps [OF TrueI l] l that show ?thesis by (simp add: exchange_take_def assms(1))
  qed
  from take [OF mem_store.kept_same [OF assms(2,3)]] obtain s' where 1: "exchange_take t1 code (o1, s) = (Inr (SessionV sess), (o1, s'))"
      "mem_view t2 s' = mem_view t2 s" using assms(3) by blast
  from take [of t2 s'] 1(2) assms(2) obtain s'' where 2: "exchange_take t2 code (o1, s') = (Inr (SessionV sess), (o1, s''))" by auto
  have drop: "\<exists>x'. exchange_drop t code (SessionV sess) (o1, x) = (Inr sess, (o1, x'))" for t x by (simp add: exchange_drop_def)
  from 1(1) 2 drop show ?thesis by metis
qed

section \<open>Where the browser is sent\<close>

definition host_text :: "string \<Rightarrow> bool" where
  "host_text host \<longleftrightarrow> host \<noteq> [] \<and> list_all (\<lambda>c. is_letter c \<or> is_digit c \<or> c \<in> set ''.-'') host"

lemma host_text_chars:
  "is_letter c \<or> is_digit c \<or> c \<in> set ''.-'' \<Longrightarrow> c \<notin> set ''/:#?@[%*'' \<and> \<not> is_space c \<and> 32 \<le> (of_char c :: nat) \<and> c \<noteq> CHR 0x7F \<and> host_char c"
  by (auto simp: is_letter_def is_digit_def is_space_def host_char_def Let_def)

lemma no_scheme_mark: "CHR '':'' \<notin> set s \<Longrightarrow> \<not> js_includes s (CHR '':'' # r)"
  by (induction s) auto

lemma network_path:
  assumes "host_text host"
  shows "url_parse ip (''//'' @ host) = Some ([], host)" and "ResolveReturn ip o1 (''//'' @ host) = ''//'' @ host"
proof -
  have ch: "\<forall>c\<in>set host. c \<notin> set ''/:#?@[%*'' \<and> \<not> is_space c \<and> 32 \<le> (of_char c :: nat) \<and> c \<noteq> CHR 0x7F \<and> host_char c"
    using assms host_text_chars by (auto simp: host_text_def list_all_iff)
  obtain c cs where h: "host = c # cs" using assms by (cases host) (auto simp: host_text_def)
  have un: "list_all (\<lambda>c. c \<noteq> CHR ''%'' \<and> host_char c) hs \<Longrightarrow> unescape_host hs = Some hs" for hs by (induction hs) auto
  have tw: "takeWhile (\<lambda>c. c \<noteq> x) host = host" "dropWhile (\<lambda>c. c \<noteq> x) host = []" if "x \<in> set ''/:#?@[%*''" for x
    using ch that by (auto simp: takeWhile_eq_all_conv dropWhile_eq_Nil_conv)
  have pa: "parseAuthority ip host = Some host"
    using ch tw(2) [of "CHR '':''"] un [of host] by (auto simp: parseAuthority_def parseHost_def list_all_iff)
  have c: "c \<noteq> CHR ''/''" using ch h by auto
  have sch: "getScheme (''//'' @ host) = Some ([], ''//'' @ host)" by (simp add: getScheme_def Let_def is_letter_def is_digit_def)
  show "url_parse ip (''//'' @ host) = Some ([], host)"
  proof -
    let ?raw = "''//'' @ host"
    have w: "takeWhile (\<lambda>c. c \<noteq> CHR ''#'') ?raw = ?raw" "takeWhile (\<lambda>c. c \<noteq> CHR ''?'') ?raw = ?raw" "takeWhile (\<lambda>c. c \<noteq> CHR ''/'') (drop 2 ?raw) = host"
      using tw(1) by simp_all
    have ctl: "\<not> list_ex (\<lambda>c. (of_char c :: nat) < 32 \<or> c = CHR 0x7F) ?raw" using ch by (fastforce simp: list_ex_iff)
    have sw: "starts_with ?raw ''/''" "starts_with ?raw ''//''" "\<not> starts_with ?raw ''///''" using c by (simp_all add: h)
    have "to_lower [] = []" "drop (Suc (length ?raw)) ?raw = []" "drop (2 + length host) ?raw = []" "?raw \<noteq> ''*''" by (simp_all add: to_lower_def)
    then show ?thesis unfolding url_parse_def Let_def w sch option.case prod.case using ctl sw pa by simp
  qed
  have "rev host = rev (butlast host @ [last host])" using h by simp
  then have z: "rev host = last host # rev (butlast host)" "last host \<in> set host" using h by simp_all
  have "dropWhile is_space (''//'' @ host) = ''//'' @ host" by (simp add: is_space_def)
  moreover have "dropWhile is_space (rev (''//'' @ host)) = rev (''//'' @ host)" unfolding rev_append z(1) using z(2) ch by simp
  ultimately have tr: "js_trim (''//'' @ host) = ''//'' @ host" unfolding js_trim_def by simp
  have "\<not> js_includes (''//'' @ host) ''://''" using ch by (intro no_scheme_mark) auto
  then show "ResolveReturn ip o1 (''//'' @ host) = ''//'' @ host" unfolding ResolveReturn_def tr by (simp add: Let_def)
qed

text \<open>
  (C38) An open redirect: a return target that begins with two slashes counts as a path of the console, but names another host. A login link
  with such a target, whatever origins are allowed, sends the browser after the login to that host, with the one-time code that gives the session.
\<close>

theorem sso_open_redirect:
  assumes "oi_store o0 = NewMemoryStore" and "discover en o0 = (Inr meta, o1)"
    and "exchange en' (oi_cfg o0) meta code (b64_encode True b2) = Inr info" and "rolesFor o0 (sso_email info) = Inr roles"
    and "t0 \<le> t1" and "t1 + 10 ^ 6 \<le> t0 + oc_stateTTL (oi_cfg o0)" and "host_text host" and "si_oidc h = Some (o0, m)"
    and "q ''redirect'' = ''//'' @ host" and "q' ''error'' = []" and "q' ''state'' = b64_encode True b1" and "q' ''code'' = code"
  shows "url_parse (en_ip en) (''//'' @ host) = Some ([], host)
     \<and> fst (OIDCCallback en' t1 (Some b3) q' (snd (OIDCLogin en t0 (Some b1) (Some b2) q h))) = AuthRedirect (''//'' @ host) [(''code'', b64_encode True b3)]"
proof (rule mem_login [OF assms(1-6), where ?b1.0 = b1 and ?b3.0 = b3 and ret = "''//'' @ host" and m = m], goal_cases)
  case (1 s1 s2 sess)
  then have "si_oidc (snd (OIDCLogin en t0 (Some b1) (Some b2) q h)) = Some (o1, s1)" by (simp add: OIDCLogin_def assms(8,9))
  with 1(2,4) network_path(2) [OF assms(7)] network_path(1) [OF assms(7)] show ?case by (simp add: OIDCCallback_def assms(10-12))
qed

section \<open>A server configured for single sign-on\<close>

text \<open>
  Setting \<open>FORGEQUEUE_OIDC_ISSUER\<close> locks everybody out of the API server: without local accounts or an administrator's password no account is made, since single sign-on is taken
  to be enabled, but the command never enables it. The server starts, offers neither way to sign in, refuses every login and
  does not know the single sign-on routes.
\<close>

theorem sso_env_locks_out:
  assumes "oidcConfigured env" and "js_trim (env ''FORGEQUEUE_USERS'') = []" and "js_trim (env ''FORGEQUEUE_ADMIN_PASSWORD'') = []"
    and "js_trim (env ''FORGEQUEUE_AUTH_SECRET'') \<noteq> []" and "env_ttl env \<noteq> None"
  shows "\<exists>h. apiserver kdf rnd env = Inr h
     \<and> AuthConfig_handler ip h = AuthJson 200 (JObj [(''password'', JBool False), (''oidc'', JBool False)])
     \<and> (\<exists>status msg. Login_handler mac kdf now h r = AuthError status msg \<and> status \<in> {400, 401})
     \<and> fst (OIDCLogin en now r1 r2 q h) = AuthError 404 ''single sign-on is not enabled''
     \<and> fst (OIDCExchange now r h) = AuthError 404 ''single sign-on is not enabled''"
proof -
  from assms(5) obtain ttl where ttl: "env_ttl env = Some ttl" by blast
  define s where "s = \<lparr>as_users = [], as_tokens = \<lparr>tk_secret = js_trim (env ''FORGEQUEUE_AUTH_SECRET''), tk_ttl = (if ttl \<le> 0 then 12 * 3600 * 10 ^ 9 else ttl)\<rparr>\<rparr>"
  have "NewFromEnv kdf rnd env = Inr s"
    using assms(1-4) ttl by (simp add: NewFromEnv_def resolveSecret_def env_ttl_def Let_def NewService_def s_def)
  then have "apiserver kdf rnd env = Inr \<lparr>si_auth = Some s, si_oidc = None\<rparr>" by (simp add: apiserver_def)
  moreover have "Authenticate kdf s u p = None" for u p by (simp add: Authenticate_def s_def)
  ultimately show ?thesis
    by (auto simp: AuthConfig_handler_def HasLocalUsers_def s_def Login_handler_def OIDCLogin_def OIDCExchange_def split: option.splits)
qed

section \<open>An example\<close>

text \<open>A provider that names a user \<open>ann\<close> with another address than the local account of that name.\<close>

definition demo_provider :: sso_env where
  "demo_provider = \<lparr>en_http = (\<lambda>c. Answered 200 (stringify (case c of
       PostForm _ _ \<Rightarrow> JObj [(''access_token'', JStr ''tok'')]
     | GetUrl _ None \<Rightarrow> JObj [(''issuer'', JStr ''https://id''), (''authorization_endpoint'', JStr ''https://id/a''), (''token_endpoint'', JStr ''https://id/t'')]
     | GetUrl _ (Some _) \<Rightarrow> JObj [(''sub'', JStr ''7''), (''email'', JStr ''eve@x''), (''name'', JStr ''ann'')]))),
     en_ip = (\<lambda>_. None), en_sha = (\<lambda>s. s), en_mac = toy_mac\<rparr>"

definition demo_oidc :: "mem_items oidc" where
  "demo_oidc = projr (NewOIDC (\<lambda>_. None) \<lparr>oc_issuer = ''https://id'', oc_clientID = ''c'', oc_clientSecret = [], oc_redirectURL = ''/cb'', oc_webURL = [],
     oc_scopes = [], oc_providerName = [], oc_defaultRole = Some RoleViewer, oc_adminEmails = [], oc_operatorEmails = [], oc_stateTTL = 0, oc_codeTTL = 0\<rparr>
     toy_service (Some NewMemoryStore))"

definition demo_meta :: providerMeta where
  "demo_meta = \<lparr>pm_issuer = ''https://id'', pm_auth = ''https://id/a'', pm_token = ''https://id/t'', pm_userinfo = ''https://id/userinfo''\<rparr>"

definition demo_info :: userInfo where
  "demo_info = \<lparr>ui_subject = ''7'', ui_email = ''eve@x'', ui_name = ''ann'', ui_preferred = []\<rparr>"

lemma demo_oidc_fields [simp]:
  "oi_store demo_oidc = NewMemoryStore" "oi_svc demo_oidc = toy_service" "oi_provider demo_oidc = None" "oi_admin demo_oidc = []" "oi_op demo_oidc = []"
  "oc_issuer (oi_cfg demo_oidc) = ''https://id''" "oc_stateTTL (oi_cfg demo_oidc) = 600000000000" "oc_codeTTL (oi_cfg demo_oidc) = 60000000000"
  "oc_defaultRole (oi_cfg demo_oidc) = Some RoleViewer" "oi_default demo_oidc = ''/''" "oc_clientSecret (oi_cfg demo_oidc) = []"
  by (simp_all add: demo_oidc_def NewOIDC_def emailSet_def)

lemma unmarshal_stringify: "wf_json j \<Longrightarrow> length (stringify j) \<le> 1048576 \<Longrightarrow> unmarshal_texts names (stringify j) = struct_of names (Some j)"
  by (simp add: unmarshal_texts_def json_parse_stringify)

lemma demo_discover: "discover demo_provider demo_oidc = (Inr demo_meta, demo_oidc\<lparr>oi_provider := Some demo_meta\<rparr>)"
proof -
  let ?j = "JObj [(''issuer'', JStr ''https://id''), (''authorization_endpoint'', JStr ''https://id/a''), (''token_endpoint'', JStr ''https://id/t'')]"
  let ?n = "[''issuer'', ''authorization_endpoint'', ''token_endpoint'', ''userinfo_endpoint'']"
  have "length (stringify ?j) \<le> 200" by code_simp
  then have "unmarshal_texts ?n (stringify ?j) = struct_of ?n (Some ?j)" by (intro unmarshal_stringify) simp_all
  moreover have "to_lower ''issuer'' = ''issuer''" "to_lower ''authorization_endpoint'' = ''authorization_endpoint''" "to_lower ''token_endpoint'' = ''token_endpoint''"
    by code_simp+
  ultimately show ?thesis
    by (simp add: discover_def demo_provider_def struct_of_def demo_meta_def Let_def trim_slashes_def del: stringify.simps)
qed

lemma demo_exchange: "exchange demo_provider cfg meta code v = Inr demo_info"
proof -
  let ?j = "JObj [(''access_token'', JStr ''tok'')]" and ?k = "JObj [(''sub'', JStr ''7''), (''email'', JStr ''eve@x''), (''name'', JStr ''ann'')]"
  let ?n = "[''sub'', ''email'', ''name'', ''preferred_username'']"
  have "length (stringify ?j) \<le> 200" "length (stringify ?k) \<le> 200" by code_simp+
  then have "unmarshal_texts [''access_token''] (stringify ?j) = struct_of [''access_token''] (Some ?j)" "unmarshal_texts ?n (stringify ?k) = struct_of ?n (Some ?k)"
    by (intro unmarshal_stringify; simp)+
  moreover have "to_lower ''access_token'' = ''access_token''" "to_lower ''sub'' = ''sub''" "to_lower ''email'' = ''email''" "to_lower ''name'' = ''name''" by code_simp+
  ultimately show ?thesis
    by (simp add: exchange_def demo_provider_def struct_of_def demo_info_def Let_def del: stringify.simps)
qed

lemma demo_roles: "rolesFor demo_oidc e = Inr [RoleViewer]"
  by (simp add: rolesFor_def Let_def)

lemma demo_username: "sso_username demo_info = ''ann''"
  by (simp add: sso_username_def demo_info_def)

lemmas demo_login = mem_login [OF demo_oidc_fields(1) demo_discover demo_exchange demo_roles,
  where ?t0.0 = 0 and ?t1.0 = 1 and ?b1.0 = "''a''" and ?b2.0 = "''b''" and ?b3.0 = "''c''" and m = Map.empty and code = "''x''", simplified]

theorem sso_flow_witness:
  "\<exists>sess c1 c2 c3. snd (Begin demo_provider 0 (Some ''a'') (Some ''b'') [] (demo_oidc, Map.empty)) = c1
     \<and> Complete demo_provider 1 (Some ''c'') (b64_encode True ''a'') ''x'' c1 = (Inr (b64_encode True ''c'', sess), c2)
     \<and> Exchange 2 (b64_encode True ''c'') c2 = (Inr sess, c3) \<and> so_identity sess = identityFor ''ann'' [RoleViewer] \<and> isl (fst (Exchange 3 (b64_encode True ''c'') c3))"
proof -
  have t: "(0::int) \<le> 1" "(1::int) + 10 ^ 6 \<le> 0 + oc_stateTTL (oi_cfg demo_oidc)" "(1::int) \<le> 2" "(2::int) + 10 ^ 6 \<le> 1 + oc_codeTTL (oi_cfg demo_oidc)" "(2::int) \<le> 3"
    by simp_all
  obtain sess c1 c2 c3 url where "Begin demo_provider 0 (Some ''a'') (Some ''b'') [] (demo_oidc, Map.empty) = (url, c1)"
      "Complete demo_provider 1 (Some ''c'') (b64_encode True ''a'') ''x'' c1 = (Inr (b64_encode True ''c'', sess), c2)"
      "Exchange 2 (b64_encode True ''c'') c2 = (Inr sess, c3)" "so_identity sess = identityFor (sso_username demo_info) [RoleViewer]"
      "isl (fst (Exchange 3 (b64_encode True ''c'') c3))"
    using sso_flow [OF demo_oidc_fields(1) demo_discover demo_exchange demo_roles t, where ?b1.0 = "''a''" and ?b2.0 = "''b''" and ?b3.0 = "''c''" and ret = "[]"
      and m = Map.empty and code = "''x''" and r = None] by blast
  then show ?thesis by (intro exI [of _ sess] exI [of _ c1] exI [of _ c2] exI [of _ c3]) (simp add: demo_username)
qed


theorem sso_name_takeover_witness:
  "\<exists>s sess c. Complete demo_provider 1 (Some ''c'') (b64_encode True ''a'') ''x'' (demo_oidc\<lparr>oi_provider := Some demo_meta\<rparr>, s) = (Inr (b64_encode True ''c'', sess), c)
     \<and> so_identity sess = identityFor ''ann'' [RoleViewer] \<and> VerifyToken toy_mac toy_service 5 (so_token sess) = Inr (identityFor ''ann'' [RoleOperator])"
proof (rule demo_login [of "[]"], goal_cases)
  case (1 s1 s2 sess)
  let ?o = "demo_oidc\<lparr>oi_provider := Some demo_meta\<rparr>"
  have o: "oi_store ?o = NewMemoryStore" "NewService [toy_user] ''k'' (10 ^ 9) = Inr (oi_svc ?o)" using toy_new by simp_all
  from mem_store.complete_session [OF o(1) TrueI 1(2)] have e: "so_expires sess = 1 + 10 ^ 9"
    by (auto simp: IssueToken_def issue_def Let_def toy_service_def)
  have h: "int64 (unix 1)" "int64 (unix (so_expires sess))" "unix 5 < unix (so_expires sess)" by (simp_all add: e int64_def unix_def)
  have r: "roles_of (us_roles toy_user) = [RoleOperator]" by (simp add: toy_user_def roles_of_def role_of_def List.map_filter_simps)
  have i: "id_username (so_identity sess) = ''ann''" using 1(3) by (simp add: demo_username identityFor_def)
  from sso_name_takeover [OF o(1) 1(2) o(2) h] have "VerifyToken toy_mac toy_service 5 (so_token sess) = Inr (identityFor ''ann'' [RoleOperator])"
    by (simp add: i r toy_service_def demo_provider_def)
  with 1(2,3) show ?case by (auto simp: demo_username)
qed

theorem sso_code_race_witness:
  "\<exists>m c1 c2. exchange_take 1 ''z'' (demo_oidc, m) = (Inr (SessionV \<lparr>so_token = ''t'', so_expires = 9, so_identity = identityFor ''ann'' [], so_webReturn = ''/''\<rparr>), c1)
     \<and> exchange_take 2 ''z'' c1 = (Inr (SessionV \<lparr>so_token = ''t'', so_expires = 9, so_identity = identityFor ''ann'' [], so_webReturn = ''/''\<rparr>), c2)"
proof -
  let ?s = "\<lparr>so_token = ''t'', so_expires = 9, so_identity = identityFor ''ann'' [], so_webReturn = ''/''\<rparr>"
  let ?m = "[code_key ''z'' \<mapsto> \<lparr>me_value = SessionV ?s, me_expires = 9\<rparr>]"
  have "mem_view 2 ?m (code_key ''z'') = Some (SessionV ?s)" by (simp add: mem_view_def)
  from sso_code_race [OF demo_oidc_fields(1) this, of 1] show ?thesis by fastforce
qed

theorem sso_open_redirect_witness:
  "fst (OIDCCallback demo_provider 1 (Some ''c'') (\<lambda>k. if k = ''state'' then b64_encode True ''a'' else if k = ''code'' then ''x'' else [])
     (snd (OIDCLogin demo_provider 0 (Some ''a'') (Some ''b'') (\<lambda>_. ''//evil.example'') \<lparr>si_auth = None, si_oidc = Some (demo_oidc, Map.empty)\<rparr>)))
   = AuthRedirect ''//evil.example'' [(''code'', b64_encode True ''c'')]"
proof -
  have h: "(0::int) \<le> 1" "(1::int) + 10 ^ 6 \<le> 0 + oc_stateTTL (oi_cfg demo_oidc)" "host_text ''evil.example''"
    by (simp_all add: host_text_def is_letter_def is_digit_def)
  show ?thesis
    using sso_open_redirect [OF demo_oidc_fields(1) demo_discover demo_exchange demo_roles h, of "\<lparr>si_auth = None, si_oidc = Some (demo_oidc, Map.empty)\<rparr>" Map.empty
        "\<lambda>_. ''//evil.example''" "\<lambda>k. if k = ''state'' then b64_encode True ''a'' else if k = ''code'' then ''x'' else []" "''a''" "''x''" "''c''" "''b''"] by simp
qed

definition locked_env :: "string \<Rightarrow> string" where
  "locked_env k = (if k = ''FORGEQUEUE_OIDC_ISSUER'' then ''https://id'' else if k = ''FORGEQUEUE_AUTH_SECRET'' then ''k'' else [])"

theorem sso_env_locks_out_witness:
  "\<exists>h. apiserver toy_kdf (\<lambda>_. None) locked_env = Inr h \<and> AuthConfig_handler (\<lambda>_. None) h = AuthJson 200 (JObj [(''password'', JBool False), (''oidc'', JBool False)])"
proof -
  have h: "oidcConfigured locked_env" "js_trim (locked_env ''FORGEQUEUE_USERS'') = []" "js_trim (locked_env ''FORGEQUEUE_ADMIN_PASSWORD'') = []"
    "js_trim (locked_env ''FORGEQUEUE_AUTH_SECRET'') \<noteq> []" "env_ttl locked_env \<noteq> None"
    by (simp_all add: oidcConfigured_def locked_env_def js_trim_def is_space_def env_ttl_def)
  from sso_env_locks_out [OF h] show ?thesis by blast
qed

end
