(* ===== verification/Sign_In.thy ===== *)
theory Sign_In
  imports Login Sso_Flow
begin

text \<open>
  Signing in, from the console's form to the server's gate: the login page of \<open>Login\<close> and the session store of \<open>Auth\<close> against the handler of
  \<open>Sso\<close> and the tokens of \<open>Tokens\<close>.
\<close>

lemma b64_no_space: "list_all (\<lambda>c. \<not> is_space c) (b64_encode url s)"
proof -
  have "\<not> is_space (b64_char url n)" if "n < 64" for n
  proof
    assume "is_space (b64_char url n)"
    then have "b64_val url (b64_char url n) = None"
      by (cases url) (auto simp: is_space_def b64_val_def Let_def)
    with b64_val_char [OF that, of url] show False by simp
  qed
  moreover have "list_all (\<lambda>a. a < 256) (map of_char s :: nat list)" by (simp add: list_all_iff)
  ultimately show ?thesis using sextets_small by (fastforce simp: b64_encode_def list_all_iff)
qed

lemma issued_plain: "list_all (\<lambda>c. \<not> is_space c) (fst (issue mac m now u rs))" "fst (issue mac m now u rs) \<noteq> []"
  by (simp_all add: issue_def sign_def jwtHeader_def Let_def b64_no_space) (simp add: is_space_def)

text \<open>What the server decodes is what the console sent, unless it is too long.\<close>

lemma decode_sent:
  assumes "wf_json j" and "hr_body r = stringify j" and "hr_limit r = Some n" and "int (length (hr_body r)) \<le> n"
  shows "decode_first r = Some j"
proof -
  have "take (nat n) (hr_body r) = hr_body r" using assms(4) by simp
  with assms(2,3) json_parse_stringify [OF assms(1)] show ?thesis
    by (auto simp: decode_first_def json_parse_def Let_def split: option.splits if_splits)
qed

lemma login_body: "struct_of [''username'', ''password''] (Some (the (api_body (Login u p)))) = Some ((\<lambda>_. [])(''username'' := u, ''password'' := p))"
proof -
  have "to_lower ''username'' = ''username''" "to_lower ''password'' = ''password''" by code_simp+
  then show ?thesis by (simp add: struct_of_def)
qed

lemma authenticated_user:
  assumes "NewService users secret ttl = Inr s" and "Authenticate kdf s username password = Some i"
  obtains u where "map_of (as_users s) username = Some u" and "us_name u = username" and "i = identityFor username (roles_of (us_roles u))" and "username \<noteq> []"
  using assms NewService_users [OF assms(1)] by (auto simp: Authenticate_def keyed_users_def split: option.splits if_splits)

lemma verify_login:
  assumes "NewService users secret ttl = Inr s" and "Authenticate kdf s username password = Some i"
    and "int64 (unix now)" and "int64 (unix (now + tk_ttl (as_tokens s)))"
  shows "VerifyToken mac s later (fst (IssueToken mac s now i)) = (if unix later < unix (now + tk_ttl (as_tokens s)) then Inr i else Inl ErrExpired)"
proof -
  obtain u where u: "map_of (as_users s) username = Some u" "us_name u = username" "i = identityFor username (roles_of (us_roles u))" "username \<noteq> []"
    by (rule authenticated_user [OF assms(1,2)])
  then have "IssueToken mac s now i = issue mac (as_tokens s) now username (id_roles i)" by (simp add: IssueToken_def identityFor_def)
  with verify_issue [OF u(4) assms(3,4), of mac later "id_roles i"] u show ?thesis by (simp add: VerifyToken_def)
qed

definition issued_session :: "string \<Rightarrow> int \<Rightarrow> identity \<Rightarrow> session" where
  "issued_session token expires i = \<lparr>s_token = token, s_expiresAt = to_rfc3339 (unix expires),
     s_user = \<lparr>u_username = id_username i, u_roles = map role_name (id_roles i), u_permissions = id_permissions i\<rparr>\<rparr>"

lemma login_json_session: "id_roles i \<noteq> [] \<Longrightarrow> login_json token expires i = session_json (issued_session token expires i)"
  by (simp add: login_json_def session_json_def issued_session_def user_json_def identity_json_def)

text \<open>The console takes a session for expired in exactly the seconds in which the server refuses its token.\<close>

lemma session_expiry:
  assumes "- 62162035200 \<le> unix expires" and "unix expires < 253375862400" and "date_now h = later div 10 ^ 6"
  shows "isExpired h (session_json (issued_session token expires i)) \<longleftrightarrow> unix expires \<le> unix later"
proof -
  have "later div 10 ^ 6 div 1000 = unix later" using zdiv_zmult2_eq [of 1000 later "10 ^ 6"] by (simp add: unix_def)
  then have "1000 * unix expires \<le> later div 10 ^ 6 \<longleftrightarrow> unix expires \<le> unix later" by linarith
  with date_parse_rfc3339 [OF assms(1,2)] assms(3) show ?thesis by (simp add: isExpired_session issued_session_def)
qed

text \<open>The header of every request of a console that holds a session.\<close>

lemma session_header:
  assumes "fst (build_request h m p b w) = Some rq" and "a_loaded (c_auth w)" and "a_state (c_auth w) = Some (session_json ss)" and "s_token ss \<noteq> []"
  shows "map_of (rq_headers rq) ''Authorization'' = Some (''Bearer '' @ s_token ss)"
proof -
  have "fst (getToken h (c_auth w, c_storage w)) = Some (JStr (s_token ss))"
    using assms(2,3) by (simp add: getToken_def getSession_def Let_def opt_get_def session_json_def)
  with build_request_headers [OF assms(1)] assms(4) show ?thesis by simp
qed

text \<open>
  (C10) Console and server agree on who is signed in. When a user with a role submits the right password, the server answers with a session that the console stores; from then
  on, whatever request the console makes with it, the console takes the session for expired exactly when the server refuses the token, and until
  then its permission checks answer yes exactly for the permissions the server's gate lets through.
\<close>

theorem sign_in_agreement:
  assumes "NewService users secret ttl = Inr s" and "Authenticate kdf s username password = Some i" and "password \<noteq> []" and "id_roles i \<noteq> []"
    and "si_auth hs = Some s" and "hr_body r = stringify (the (api_body (Login username password)))" and "hr_limit r = Some n" and "int (length (hr_body r)) \<le> n"
    and "int64 (unix now)" and "- 62162035200 \<le> unix (now + tk_ttl (as_tokens s))" and "unix (now + tk_ttl (as_tokens s)) < 253375862400"
  shows "\<exists>ss. Login_handler mac kdf now hs r = AuthJson 200 (session_json ss)
     \<and> a_state (c_auth (snd (login_answer h (Response 200 stx (stringify (session_json ss))) (lg, w)))) = Some (session_json ss)
     \<and> (\<forall>h' later m p b w' rq r'. date_now h' = later div 10 ^ 6 \<and> a_loaded (c_auth w') \<and> a_state (c_auth w') = Some (session_json ss)
           \<and> fst (build_request h' m p b w') = Some rq \<and> hr_header r' ''Authorization'' = the (map_of (rq_headers rq) ''Authorization'') \<longrightarrow>
         (isExpired h' (session_json ss) \<longleftrightarrow> authenticate mac (Some s) later r' = None)
         \<and> (\<not> isExpired h' (session_json ss) \<longrightarrow>
              (\<forall>perm. perm \<noteq> [] \<longrightarrow> permissions_include (session_json ss) perm = Inr (require mac (Some s) later perm r' = None))))"
proof -
  let ?ex = "now + tk_ttl (as_tokens s)"
  define token where "token = fst (IssueToken mac s now i)"
  define ss where "ss = issued_session token ?ex i"
  have it: "IssueToken mac s now i = (token, ?ex)" by (simp add: token_def IssueToken_def issue_def Let_def)
  have i64: "int64 (unix ?ex)" using assms(10,11) by (simp add: int64_def)
  obtain u where u: "username \<noteq> []" by (rule authenticated_user [OF assms(1,2)])
  have wf: "wf_json (the (api_body (Login username password)))" by simp
  have "Login_handler mac kdf now hs r = AuthJson 200 (session_json ss)"
    unfolding Login_handler_def decode_sent [OF wf assms(6-8)] login_body
    by (simp add: u assms(2,3,5) it login_json_session [OF assms(4)] ss_def)
  moreover have "a_state (c_auth (snd (login_answer h (Response 200 stx (stringify (session_json ss))) (lg, w)))) = Some (session_json ss)"
    by (simp add: login_answer_def settle_good wf_session_json res_ok_def store_session_def Let_def go_home_def)
  moreover {
    fix h' :: host and later m p b w' rq and r' :: server_request
    assume a: "date_now h' = later div 10 ^ 6" "a_loaded (c_auth w')" "a_state (c_auth w') = Some (session_json ss)"
      "fst (build_request h' m p b w') = Some rq" "hr_header r' ''Authorization'' = the (map_of (rq_headers rq) ''Authorization'')"
    have plain: "list_all (\<lambda>c. \<not> is_space c) token" "token \<noteq> []" using issued_plain by (simp_all add: token_def IssueToken_def)
    have tk: "s_token ss = token" by (simp add: ss_def issued_session_def)
    from session_header [OF a(4,2,3)] plain(2) a(5) have hd: "hr_header r' ''Authorization'' = ''Bearer '' @ token" by (simp add: tk)
    have ex: "isExpired h' (session_json ss) \<longleftrightarrow> unix ?ex \<le> unix later" unfolding ss_def by (rule session_expiry [OF assms(10,11) a(1)])
    have au: "authenticate mac (Some s) later r' = (if unix later < unix ?ex then Some i else None)"
      using authenticate_bearer [OF plain(2,1) hd, of mac s later] verify_login [OF assms(1,2,9) i64, of mac later] by (simp add: token_def)
    have pm: "permissions_include (session_json ss) perm = Inr (perm \<in> set (id_permissions i))" for perm
      by (simp add: permissions_include_session ss_def issued_session_def)
    have "(isExpired h' (session_json ss) \<longleftrightarrow> authenticate mac (Some s) later r' = None)
         \<and> (\<not> isExpired h' (session_json ss) \<longrightarrow>
              (\<forall>perm. perm \<noteq> [] \<longrightarrow> permissions_include (session_json ss) perm = Inr (require mac (Some s) later perm r' = None)))"
      using ex au pm by (auto simp: require_def)
  }
  ultimately show ?thesis by blast
qed

theorem sign_in_agreement_witness:
  "\<exists>ss. Login_handler toy_mac toy_kdf 5 \<lparr>si_auth = Some toy_service, si_oidc = None :: (mem_items oidc \<times> mem_items) option\<rparr>
       \<lparr>hr_method = ''POST'', hr_header = (\<lambda>_. []), hr_tls = False, hr_remote = [], hr_body = stringify (the (api_body (Login ''ann'' ''pw''))), hr_limit = Some 1000\<rparr>
     = AuthJson 200 (session_json ss)"
proof -
  let ?h = "\<lparr>si_auth = Some toy_service, si_oidc = None :: (mem_items oidc \<times> mem_items) option\<rparr>"
  let ?r = "\<lparr>hr_method = ''POST'', hr_header = (\<lambda>_. []), hr_tls = False, hr_remote = [], hr_body = stringify (the (api_body (Login ''ann'' ''pw''))), hr_limit = Some 1000\<rparr>"
  let ?i = "identityFor ''ann'' (roles_of (us_roles toy_user))"
  have v: "verifyPassword toy_kdf ''pw'' (us_hash toy_user)"
    by (subst verify_password_hash [of toy_kdf "''salt''" "''pw''" _ "take 32 (''pw'' @ ''salt'' @ replicate 32 (CHR ''x''))"])
      (simp_all add: toy_user_def hashPassword_def toy_kdf_def pbkdf2KeyLength_def)
  have a: "Authenticate toy_kdf toy_service ''ann'' ''pw'' = Some ?i" using v by (simp add: Authenticate_def toy_service_def) (simp add: toy_user_def)
  have len: "length (stringify (the (api_body (Login ''ann'' ''pw'')))) \<le> 100" by code_simp
  have h: "''pw'' \<noteq> []" "id_roles ?i \<noteq> []" "si_auth ?h = Some toy_service" "hr_body ?r = stringify (the (api_body (Login ''ann'' ''pw'')))" "hr_limit ?r = Some 1000"
    "int (length (hr_body ?r)) \<le> 1000" "int64 (unix 5)" "- 62162035200 \<le> unix (5 + tk_ttl (as_tokens toy_service))" "unix (5 + tk_ttl (as_tokens toy_service)) < 253375862400"
    using len by (simp_all add: identityFor_def toy_user_def roles_of_def role_of_def List.map_filter_simps int64_def unix_def toy_service_def del: stringify.simps)
  from sign_in_agreement [OF toy_new a h] show ?thesis by blast
qed

end
