(* ===== verification/Ssr.thy ===== *)
theory Ssr
  imports Runtime
begin

text \<open>
  The server-side rendering entry of the console: error capture (\<open>lib/error-capture.ts\<close>), the
  static error page (\<open>lib/error-page.ts\<close>), the fetch handler (\<open>server.ts\<close>) and the error
  middleware (\<open>start.ts\<close>). What the framework's entry and the rest of the middleware chain answer
  is a parameter: a response, or the value they throw.
\<close>

section \<open>Thrown values\<close>

text \<open>
  An \<open>Error\<close> with its name, message, stack, \<open>status\<close>, \<open>statusCode\<close> and cause, or any other value. The
  causes may run in a circle, so the type is a codatatype: a chain of causes need not end.
\<close>

codatatype thrown =
    TErr string string "string option" "json option" "json option" "thrown option"
  | TStr string
  | TVal json

definition CAUSE_DEPTH_LIMIT :: nat where
  "CAUSE_DEPTH_LIMIT = 5"

definition DESCRIPTION_LENGTH_LIMIT :: nat where
  "DESCRIPTION_LENGTH_LIMIT = 8000"

definition describeStatus :: "json option \<Rightarrow> json option \<Rightarrow> string" where
  "describeStatus status statusCode =
     (case (if is_nullish status then statusCode else status) of
        Some (JNum n) \<Rightarrow> '' (status '' @ int_str n @ '')''
      | Some (JFloat t) \<Rightarrow> '' (status '' @ t @ '')''
      | _ \<Rightarrow> [])"

fun describe_parts :: "nat \<Rightarrow> nat \<Rightarrow> thrown option \<Rightarrow> string list" where
  "describe_parts depth 0 current = []"
| "describe_parts depth (Suc left) None = []"
| "describe_parts depth (Suc left) (Some (TStr s)) = [s]"
| "describe_parts depth (Suc left) (Some (TVal v)) = (if v = JNull then [] else [stringify v])"
| "describe_parts depth (Suc left) (Some (TErr name msg stack status statusCode cause)) =
     ((if depth = 0 then [] else ''caused by: '') @ nullish stack (name @ '': '' @ msg) @ describeStatus status statusCode)
     # describe_parts (Suc depth) left cause"

definition describeError :: "thrown option \<Rightarrow> string" where
  "describeError err = slice0 DESCRIPTION_LENGTH_LIMIT (join_with [CHR 0x0A] (describe_parts 0 CAUSE_DEPTH_LIMIT err))"

section \<open>Capture\<close>

record capture =
  cap_last :: "(thrown option \<times> int) option"
  cap_log :: "string list"

definition TTL_MS :: int where
  "TTL_MS = 5000"

definition record_error :: "host \<Rightarrow> thrown option \<Rightarrow> capture \<Rightarrow> capture" where
  "record_error h err c = c\<lparr>cap_last := Some (err, date_now h)\<rparr>"

definition is_error_like :: "thrown option \<Rightarrow> bool" where
  "is_error_like err = (case err of Some (TErr _ _ _ _ _ _) \<Rightarrow> True | _ \<Rightarrow> False)"

text \<open>The wrapped \<open>console.error\<close>, with one argument as the code calls it.\<close>

definition console_error :: "host \<Rightarrow> thrown option \<Rightarrow> capture \<Rightarrow> capture" where
  "console_error h arg c =
     (let c1 = (if is_error_like arg then record_error h arg c else c);
          line = (if is_error_like arg then describeError arg
                  else case arg of Some (TStr s) \<Rightarrow> s | Some (TVal v) \<Rightarrow> to_str v | _ \<Rightarrow> ''undefined'') in
      c1\<lparr>cap_log := cap_log c1 @ [line]\<rparr>)"

definition consumeLastCapturedError :: "host \<Rightarrow> capture \<Rightarrow> thrown option \<times> capture" where
  "consumeLastCapturedError h c =
     (case cap_last c of
        None \<Rightarrow> (None, c)
      | Some (err, at) \<Rightarrow>
          if date_now h - at > TTL_MS then (None, c\<lparr>cap_last := None\<rparr>) else (err, c\<lparr>cap_last := None\<rparr>))"

section \<open>Responses\<close>

record response =
  rs_status :: int
  rs_contentType :: "string option"
  rs_body :: string

definition renderErrorPage :: string where
  "renderErrorPage = join_with [CHR 0x0A]
     [''<!doctype html>'', ''<html lang=\"en\">'', ''  <head>'', ''    <meta charset=\"utf-8\" />'',
      ''    <title>This page didn't load</title>'',
      ''    <meta name=\"viewport\" content=\"width=device-width, initial-scale=1\" />'', ''    <style>'',
      ''      body { font: 15px/1.5 system-ui, -apple-system, sans-serif; background: #fafafa; color: #111; display: grid; place-items: center; min-height: 100vh; margin: 0; padding: 1.5rem; }'',
      ''      .card { max-width: 28rem; width: 100%; text-align: center; padding: 2rem; }'',
      ''      h1 { font-size: 1.25rem; margin: 0 0 0.5rem; }'',
      ''      p { color: #4b5563; margin: 0 0 1.5rem; }'',
      ''      .actions { display: flex; gap: 0.5rem; justify-content: center; flex-wrap: wrap; }'',
      ''      a, button { padding: 0.5rem 1rem; border-radius: 0.375rem; font: inherit; cursor: pointer; text-decoration: none; border: 1px solid transparent; }'',
      ''      .primary { background: #111; color: #fff; }'',
      ''      .secondary { background: #fff; color: #111; border-color: #d1d5db; }'',
      ''    </style>'', ''  </head>'', ''  <body>'', ''    <div class=\"card\">'',
      ''      <h1>This page didn't load</h1>'',
      ''      <p>Something went wrong on our end. You can try refreshing or head back home.</p>'',
      ''      <div class=\"actions\">'',
      ''        <button class=\"primary\" onclick=\"location.reload()\">Try again</button>'',
      ''        <a class=\"secondary\" href=\"/\">Go home</a>'',
      ''      </div>'', ''    </div>'', ''  </body>'', ''</html>'']"

definition error_response :: response where
  "error_response = \<lparr>rs_status = 500, rs_contentType = Some ''text/html; charset=utf-8'', rs_body = renderErrorPage\<rparr>"

definition isH3SwallowedErrorBody :: "string \<Rightarrow> bool" where
  "isH3SwallowedErrorBody body =
     (case json_parse body of
        None \<Rightarrow> False
      | Some payload \<Rightarrow>
          js_get payload ''unhandled'' = Some (JBool True) \<and> js_get payload ''message'' = Some (JStr ''HTTPError''))"

definition normalizeCatastrophicSsrResponse :: "host \<Rightarrow> response \<Rightarrow> capture \<Rightarrow> response \<times> capture" where
  "normalizeCatastrophicSsrResponse h res c =
     (if rs_status res < 500 then (res, c)
      else if \<not> js_includes (nullish (rs_contentType res) []) ''application/json'' then (res, c)
      else if \<not> isH3SwallowedErrorBody (rs_body res) then (res, c)
      else
        let (err, c1) = consumeLastCapturedError h c;
            shown = (case err of None \<Rightarrow> Some (TErr ''Error'' (''h3 swallowed SSR error: '' @ rs_body res) None None None None)
                     | Some (TVal JNull) \<Rightarrow> Some (TErr ''Error'' (''h3 swallowed SSR error: '' @ rs_body res) None None None None)
                     | e \<Rightarrow> e) in
        (error_response, console_error h shown c1))"

text \<open>The default export: \<open>outcome\<close> is what importing and running the framework's entry came to.\<close>

definition server_fetch :: "host \<Rightarrow> thrown option + response \<Rightarrow> capture \<Rightarrow> response \<times> capture" where
  "server_fetch h outcome c =
     (case outcome of
        Inr res \<Rightarrow> normalizeCatastrophicSsrResponse h res c
      | Inl err \<Rightarrow> (error_response, console_error h err c))"

text \<open>\<open>error != null && typeof error === "object" && "statusCode" in error\<close>.\<close>

definition has_statusCode :: "thrown option \<Rightarrow> bool" where
  "has_statusCode err =
     (case err of
        Some (TErr _ _ _ _ statusCode _) \<Rightarrow> statusCode \<noteq> None
      | Some (TVal v) \<Rightarrow> js_get v ''statusCode'' \<noteq> None
      | _ \<Rightarrow> False)"

definition errorMiddleware ::
  "host \<Rightarrow> thrown option + response \<Rightarrow> capture \<Rightarrow> (thrown option + response) \<times> capture" where
  "errorMiddleware h nxt c =
     (case nxt of
        Inr res \<Rightarrow> (Inr res, c)
      | Inl err \<Rightarrow>
          if has_statusCode err then (Inl err, c) else (Inr error_response, console_error h err c))"

section \<open>Lemmas\<close>

text \<open>The chain of causes, and what is said about the error at position \<open>d\<close> of it.\<close>

primrec nth_cause :: "nat \<Rightarrow> thrown option \<Rightarrow> thrown option" where
  "nth_cause 0 e = e"
| "nth_cause (Suc n) e = (case e of Some (TErr _ _ _ _ _ cause) \<Rightarrow> nth_cause n cause | _ \<Rightarrow> None)"

definition describe_part :: "nat \<Rightarrow> thrown \<Rightarrow> string" where
  "describe_part d e =
     (case e of
        TStr s \<Rightarrow> s
      | TVal v \<Rightarrow> stringify v
      | TErr name msg stack status statusCode cause \<Rightarrow>
          (if d = 0 then [] else ''caused by: '') @ nullish stack (name @ '': '' @ msg) @ describeStatus status statusCode)"

definition chain_over :: "thrown option \<Rightarrow> bool" where
  "chain_over e = (case e of None \<Rightarrow> True | Some (TVal v) \<Rightarrow> v = JNull | _ \<Rightarrow> False)"

lemma describe_parts_bound: "length (describe_parts d n e) \<le> n"
  by (induction d n e rule: describe_parts.induct) auto

lemma describe_parts_nth:
  "i < length (describe_parts d n e) \<Longrightarrow>
   \<exists>c. nth_cause i e = Some c \<and> describe_parts d n e ! i = describe_part (d + i) c"
proof (induction d n e arbitrary: i rule: describe_parts.induct)
  case (5 d n name msg stack status statusCode cause)
  show ?case
  proof (cases i)
    case (Suc j)
    with 5 show ?thesis by simp
  qed (simp add: describe_part_def)
qed (auto simp: describe_part_def split: if_splits)

lemma describe_parts_complete:
  "length (describe_parts d n e) < n \<Longrightarrow> chain_over (nth_cause (length (describe_parts d n e)) e)"
  by (induction d n e rule: describe_parts.induct) (auto simp: chain_over_def)

text \<open>An error that is its own cause.\<close>

primcorec own_cause :: thrown where
  "own_cause = TErr ''Error'' ''again'' None None None (map_option (\<lambda>_. own_cause) (Some ()))"

lemma nth_own_cause: "nth_cause n (Some own_cause) = Some own_cause"
proof (induction n)
  case (Suc n)
  have "own_cause = TErr ''Error'' ''again'' None None None (Some own_cause)"
    by (subst own_cause.code) simp
  with Suc show ?case by (metis nth_cause.simps(2) option.case(2) thrown.case(1))
qed simp

lemma console_error_last:
  "cap_last (console_error h e c) = (if is_error_like e then Some (e, date_now h) else cap_last c)"
  by (simp add: console_error_def record_error_def Let_def)

section \<open>Properties\<close>


text \<open>
  (C30) Describing an error always ends, also when the causes run in a circle: the log line has one
  part for each error of the cause chain in order, the error itself first, stops after five or
  where the chain does, and is at most 8000 characters. An error that is its own cause gives
  exactly five parts.
\<close>

theorem describeError_bounded:
  "length (describe_parts 0 CAUSE_DEPTH_LIMIT err) \<le> 5 \<and> length (describeError err) \<le> 8000
   \<and> list_all2 (\<lambda>i part. map_option (describe_part i) (nth_cause i err) = Some part)
        [0..<length (describe_parts 0 CAUSE_DEPTH_LIMIT err)] (describe_parts 0 CAUSE_DEPTH_LIMIT err)
   \<and> (length (describe_parts 0 CAUSE_DEPTH_LIMIT err) = 5
        \<or> chain_over (nth_cause (length (describe_parts 0 CAUSE_DEPTH_LIMIT err)) err))
   \<and> length (describe_parts 0 CAUSE_DEPTH_LIMIT (Some own_cause)) = 5"
proof -
  let ?ps = "\<lambda>e. describe_parts 0 CAUSE_DEPTH_LIMIT e"
  have bound: "length (?ps e) \<le> 5" for e
    using describe_parts_bound [of 0 CAUSE_DEPTH_LIMIT e] by (simp add: CAUSE_DEPTH_LIMIT_def)
  have complete: "length (?ps e) = 5 \<or> chain_over (nth_cause (length (?ps e)) e)" for e
    using describe_parts_complete [of 0 CAUSE_DEPTH_LIMIT e] bound [of e]
    by (simp add: CAUSE_DEPTH_LIMIT_def le_less) blast
  have "\<not> chain_over (nth_cause n (Some own_cause))" for n
    unfolding nth_own_cause by (subst own_cause.code) (simp add: chain_over_def)
  then have "length (?ps (Some own_cause)) = 5" using complete [of "Some own_cause"] by blast
  moreover have "list_all2 (\<lambda>i part. map_option (describe_part i) (nth_cause i err) = Some part) [0..<length (?ps err)] (?ps err)"
    by (auto simp: list_all2_conv_all_nth dest!: describe_parts_nth [where d = 0])
  moreover have "length (describeError err) \<le> 8000"
    by (simp add: describeError_def slice0_def DESCRIPTION_LENGTH_LIMIT_def)
  ultimately show ?thesis using bound complete by blast
qed

text \<open>
  A captured error is reported at most once and only while fresh: consuming it within five
  seconds returns it, later returns nothing, and in both cases a second look finds nothing.
\<close>

theorem capture_consumed_once:
  "fst (consumeLastCapturedError h' (record_error h err c)) = (if date_now h' - date_now h > 5000 then None else err)
   \<and> fst (consumeLastCapturedError h'' (snd (consumeLastCapturedError h' (record_error h err c)))) = None"
  by (auto simp: record_error_def consumeLastCapturedError_def TTL_MS_def)

end
