(* ===== verification/Ui_Base.thy ===== *)
theory Ui_Base
  imports View "HOL-Library.AList"
begin

text \<open>
  Conventions of the component library under \<open>components/ui\<close>. A component takes the properties of
  its element; \<open>{...props}\<close> after its own attributes means that the caller's value wins, for
  attributes and for handlers alike, and that the children are the caller's. \<open>className\<close> is taken
  out and passed to \<open>cn\<close> last. \<open>cn\<close> (\<open>clsx\<close> and \<open>tailwind-merge\<close>) is third-party: the \<open>class\<close>
  attribute of the model is the list of its arguments that depend on data, before merging.
\<close>

record 'l ui_props =
  up_attrs :: "(string \<times> string) list"
  up_className :: "string option"
  up_onClick :: "'l eff list option"
  up_children :: "'l node list"

definition no_props :: "'l ui_props" where
  "no_props = \<lparr>up_attrs = [], up_className = None, up_onClick = None, up_children = []\<rparr>"

definition with_attrs :: "(string \<times> string) list \<Rightarrow> (string \<times> string) list \<Rightarrow> (string \<times> string) list" where
  "with_attrs base ps = fold (\<lambda>(k, v). AList.update k v) ps base"

definition cn :: "string list \<Rightarrow> string option \<Rightarrow> (string \<times> string) list" where
  "cn cs className = cls (join_with '' '' (filter (\<lambda>c. c \<noteq> []) (cs @ [nullish className []])))"

definition handler_of :: "'l eff list option \<Rightarrow> 'l eff list option \<Rightarrow> 'l handler list" where
  "handler_of own given =
     (case given of Some es \<Rightarrow> [OnClick es] | None \<Rightarrow> (case own of Some es \<Rightarrow> [OnClick es] | None \<Rightarrow> []))"

text \<open>An element with its own attributes, data-dependent classes and click handler, then \<open>{...props}\<close>.\<close>

definition ui_elem ::
  "string \<Rightarrow> (string \<times> string) list \<Rightarrow> string list \<Rightarrow> 'l eff list option \<Rightarrow> 'l ui_props \<Rightarrow> 'l node" where
  "ui_elem tag base cs own p =
     Elem tag (with_attrs (base @ cn cs (up_className p)) (up_attrs p)) (handler_of own (up_onClick p)) (up_children p)"

text \<open>\<open>asChild ? Slot : tag\<close>: the slot renders the caller's element with these attributes.\<close>

definition slot_tag :: "bool \<Rightarrow> string \<Rightarrow> string" where
  "slot_tag asChild tag = (if asChild then ''Slot'' else tag)"

definition bool_str :: "bool \<Rightarrow> string" where
  "bool_str b = (if b then ''true'' else ''false'')"

lemma map_of_with_attrs:
  "map_of (with_attrs base ps) k = (case map_of (rev ps) k of Some v \<Rightarrow> Some v | None \<Rightarrow> map_of base k)"
proof (induction ps arbitrary: base)
  case (Cons p ps)
  obtain k' v where p: "p = (k', v)" by (cases p)
  from Cons.IH [of "AList.update k' v base"] show ?case
    by (auto simp: with_attrs_def p update_conv' map_add_def split: option.splits)
qed (simp add: with_attrs_def)

lemma map_of_cn [simp]: "k \<noteq> ''class'' \<Longrightarrow> map_of (cn cs c) k = None"
  by (simp add: cn_def cls_def)

text \<open>What the caller does not give is the component's own.\<close>

lemma map_of_own:
  assumes "k \<noteq> ''class''" and "map_of (rev ps) k = None"
  shows "map_of (with_attrs (base @ cn cs c) ps) k = map_of base k"
  using assms by (simp add: map_of_with_attrs map_add_def split: option.splits)

lemma handler_of_simps [simp]:
  "handler_of own (Some es) = [OnClick es]" "handler_of (Some es) None = [OnClick es]" "handler_of None None = []"
  by (simp_all add: handler_of_def)

text \<open>The caller's handler replaces the component's own.\<close>

lemma click_ui_elem:
  assumes "map_of (rev (up_attrs p)) ''disabled'' = None" and "map_of base ''disabled'' = None"
  shows "click (ui_elem tag base cs own p) [] = nullish (up_onClick p) (nullish own [])"
  using map_of_own [OF _ assms(1), of base cs "up_className p"] assms(2)
  by (auto simp: ui_elem_def is_disabled_def click_effs_def handler_of_def split: option.splits)

end
