(* ===== verification/Ui_Sidebar.thy ===== *)
theory Ui_Sidebar
  imports Ui_Base Complex_Main
begin

text \<open>
  The side bar of \<open>components/ui/sidebar.tsx\<close> with the breakpoint hook of \<open>hooks/use-mobile.tsx\<close>. The
  provider's state is its open flag on the desktop, its open flag on a phone, what the hook last
  saw, the cookie, and the calls made to a controlling parent. A handler is the one of the last
  render: it closes over the \<open>open\<close> and \<open>isMobile\<close> of that render, so several calls before the
  next render all start from the same value. The parts of the bar are elements that name
  themselves in \<open>data-sidebar\<close>.
\<close>

section \<open>The breakpoint hook\<close>

definition MOBILE_BREAKPOINT :: int where
  "MOBILE_BREAKPOINT = 768"

text \<open>\<open>window.matchMedia("(max-width: 767px)")\<close> on a window of this width.\<close>

definition mql_matches :: "int \<Rightarrow> bool" where
  "mql_matches width \<longleftrightarrow> width \<le> MOBILE_BREAKPOINT - 1"

text \<open>The state of the hook is unset until the effect runs; the listener runs when the query flips.\<close>

record mobile_hook =
  mh_width :: int
  mh_isMobile :: "bool option"

definition mobile_mount :: "mobile_hook \<Rightarrow> mobile_hook" where
  "mobile_mount m = m\<lparr>mh_isMobile := Some (mh_width m < MOBILE_BREAKPOINT)\<rparr>"

definition mobile_resize :: "int \<Rightarrow> mobile_hook \<Rightarrow> mobile_hook" where
  "mobile_resize w m =
     (let m' = m\<lparr>mh_width := w\<rparr> in
      if mql_matches w \<noteq> mql_matches (mh_width m) then m'\<lparr>mh_isMobile := Some (w < MOBILE_BREAKPOINT)\<rparr> else m')"

definition useIsMobile :: "mobile_hook \<Rightarrow> bool" where
  "useIsMobile m = nullish (mh_isMobile m) False"

section \<open>The provider\<close>

definition SIDEBAR_COOKIE_NAME :: string where
  "SIDEBAR_COOKIE_NAME = ''sidebar_state''"

definition SIDEBAR_COOKIE_MAX_AGE :: int where
  "SIDEBAR_COOKIE_MAX_AGE = 60 * 60 * 24 * 7"

definition SIDEBAR_WIDTH :: string where
  "SIDEBAR_WIDTH = ''16rem''"

definition SIDEBAR_WIDTH_MOBILE :: string where
  "SIDEBAR_WIDTH_MOBILE = ''18rem''"

definition SIDEBAR_WIDTH_ICON :: string where
  "SIDEBAR_WIDTH_ICON = ''3rem''"

definition SIDEBAR_KEYBOARD_SHORTCUT :: string where
  "SIDEBAR_KEYBOARD_SHORTCUT = ''b''"

record provider_props =
  pp_defaultOpen :: bool
  pp_open :: "bool option"
  pp_controlled :: bool                       \<comment> \<open>whether \<open>onOpenChange\<close> is given\<close>

definition provider_defaults :: provider_props where
  "provider_defaults = \<lparr>pp_defaultOpen = True, pp_open = None, pp_controlled = False\<rparr>"

record sidebar_state =
  sb_mobile :: mobile_hook
  sb_openMobile :: bool
  sb_open :: bool
  sb_cookie :: "string option"
  sb_asked :: "bool list"                     \<comment> \<open>the calls of \<open>onOpenChange\<close>\<close>

definition sidebar_init :: "provider_props \<Rightarrow> int \<Rightarrow> sidebar_state" where
  "sidebar_init pp width =
     \<lparr>sb_mobile = \<lparr>mh_width = width, mh_isMobile = None\<rparr>, sb_openMobile = False, sb_open = pp_defaultOpen pp,
      sb_cookie = None, sb_asked = []\<rparr>"

record sidebar_context =
  sx_state :: string
  sx_open :: bool
  sx_isMobile :: bool
  sx_openMobile :: bool

definition contextValue :: "provider_props \<Rightarrow> sidebar_state \<Rightarrow> sidebar_context" where
  "contextValue pp s =
     (let isOpen = nullish (pp_open pp) (sb_open s) in
      \<lparr>sx_state = (if isOpen then ''expanded'' else ''collapsed''), sx_open = isOpen,
       sx_isMobile = useIsMobile (sb_mobile s), sx_openMobile = sb_openMobile s\<rparr>)"

definition cookie_text :: "bool \<Rightarrow> string" where
  "cookie_text b = SIDEBAR_COOKIE_NAME @ ''='' @ bool_str b @ ''; path=/; max-age='' @ int_str SIDEBAR_COOKIE_MAX_AGE"

text \<open>\<open>setOpen\<close> of the render with context \<open>cx\<close>; its argument is a value or a function of the old value.\<close>

definition setOpen :: "provider_props \<Rightarrow> sidebar_context \<Rightarrow> (bool \<Rightarrow> bool) \<Rightarrow> sidebar_state \<Rightarrow> sidebar_state" where
  "setOpen pp cx value s =
     (let openState = value (sx_open cx);
          s1 = (if pp_controlled pp then s\<lparr>sb_asked := sb_asked s @ [openState]\<rparr> else s\<lparr>sb_open := openState\<rparr>) in
      s1\<lparr>sb_cookie := Some (cookie_text openState)\<rparr>)"

definition toggleSidebar :: "provider_props \<Rightarrow> sidebar_context \<Rightarrow> sidebar_state \<Rightarrow> sidebar_state" where
  "toggleSidebar pp cx s =
     (if sx_isMobile cx then s\<lparr>sb_openMobile := \<not> sb_openMobile s\<rparr> else setOpen pp cx Not s)"

text \<open>The window's key handler: Ctrl or Cmd with the shortcut; the second value is \<open>preventDefault\<close>.\<close>

definition handleKeyDown ::
  "provider_props \<Rightarrow> sidebar_context \<Rightarrow> string \<Rightarrow> bool \<Rightarrow> bool \<Rightarrow> sidebar_state \<Rightarrow> sidebar_state \<times> bool" where
  "handleKeyDown pp cx key metaKey ctrlKey s =
     (if key = SIDEBAR_KEYBOARD_SHORTCUT \<and> (metaKey \<or> ctrlKey) then (toggleSidebar pp cx s, True) else (s, False))"

datatype sidebar_event =
    SbToggle                                  \<comment> \<open>trigger or rail\<close>
  | SbKey string bool bool
  | SbSheet bool                              \<comment> \<open>\<open>onOpenChange\<close> of the sheet\<close>
  | SbSet bool                                \<comment> \<open>\<open>setOpen\<close> with a value\<close>
  | SbResize int

definition sidebar_event_step :: "provider_props \<Rightarrow> sidebar_context \<Rightarrow> sidebar_event \<Rightarrow> sidebar_state \<Rightarrow> sidebar_state" where
  "sidebar_event_step pp cx ev s =
     (case ev of
        SbToggle \<Rightarrow> toggleSidebar pp cx s
      | SbKey k m c \<Rightarrow> fst (handleKeyDown pp cx k m c s)
      | SbSheet b \<Rightarrow> s\<lparr>sb_openMobile := b\<rparr>
      | SbSet b \<Rightarrow> setOpen pp cx (\<lambda>_. b) s
      | SbResize w \<Rightarrow> s\<lparr>sb_mobile := mobile_resize w (sb_mobile s)\<rparr>)"

text \<open>The events between two renders share the handlers of the first; then the component renders again.\<close>

definition sidebar_batch :: "provider_props \<Rightarrow> sidebar_event list \<Rightarrow> sidebar_state \<Rightarrow> sidebar_state" where
  "sidebar_batch pp evs s = fold (sidebar_event_step pp (contextValue pp s)) evs s"

definition sidebar_mount :: "sidebar_state \<Rightarrow> sidebar_state" where
  "sidebar_mount s = s\<lparr>sb_mobile := mobile_mount (sb_mobile s)\<rparr>"

definition sidebar_run :: "provider_props \<Rightarrow> int \<Rightarrow> sidebar_event list list \<Rightarrow> sidebar_state" where
  "sidebar_run pp width batches = fold (sidebar_batch pp) batches (sidebar_mount (sidebar_init pp width))"

definition SidebarProvider :: "'l ui_props \<Rightarrow> 'l node" where
  "SidebarProvider p =
     el ''TooltipProvider''
       [ui_elem ''div'' [(''--sidebar-width'', SIDEBAR_WIDTH), (''--sidebar-width-icon'', SIDEBAR_WIDTH_ICON)] [] None p]"

text \<open>\<open>useSidebar\<close> outside a provider throws.\<close>

definition useSidebar :: "sidebar_context option \<Rightarrow> string + sidebar_context" where
  "useSidebar context =
     (case context of
        None \<Rightarrow> Inl ''useSidebar must be used within a SidebarProvider.''
      | Some cx \<Rightarrow> Inr cx)"

definition in_sidebar :: "sidebar_context option \<Rightarrow> (sidebar_context \<Rightarrow> 'l node) \<Rightarrow> 'l node" where
  "in_sidebar context f = (case useSidebar context of Inl e \<Rightarrow> Throw e | Inr cx \<Rightarrow> f cx)"

section \<open>The bar\<close>

datatype side = SideLeft | SideRight
datatype sidebar_variant = VarSidebar | VarFloating | VarInset
datatype collapsible = Offcanvas | IconOnly | NotCollapsible

fun side_str :: "side \<Rightarrow> string" where
  "side_str SideLeft = ''left''"
| "side_str SideRight = ''right''"

fun variant_str :: "sidebar_variant \<Rightarrow> string" where
  "variant_str VarSidebar = ''sidebar''"
| "variant_str VarFloating = ''floating''"
| "variant_str VarInset = ''inset''"

fun collapsible_str :: "collapsible \<Rightarrow> string" where
  "collapsible_str Offcanvas = ''offcanvas''"
| "collapsible_str IconOnly = ''icon''"
| "collapsible_str NotCollapsible = ''none''"

text \<open>The gap that keeps the page clear of the bar, and the bar itself: classes by variant and side.\<close>

definition gap_classes :: "sidebar_variant \<Rightarrow> string list" where
  "gap_classes v =
     [if v = VarFloating \<or> v = VarInset
      then ''group-data-[collapsible=icon]:w-[calc(var(--sidebar-width-icon)_+_theme(spacing.4))]''
      else ''group-data-[collapsible=icon]:w-(--sidebar-width-icon)'']"

definition bar_classes :: "side \<Rightarrow> sidebar_variant \<Rightarrow> string list" where
  "bar_classes sd v =
     [if sd = SideLeft then ''left-0 group-data-[collapsible=offcanvas]:left-[calc(var(--sidebar-width)*-1)]''
      else ''right-0 group-data-[collapsible=offcanvas]:right-[calc(var(--sidebar-width)*-1)]'',
      if v = VarFloating \<or> v = VarInset
      then ''p-2 group-data-[collapsible=icon]:w-[calc(var(--sidebar-width-icon)_+_theme(spacing.4)_+2px)]''
      else ''group-data-[collapsible=icon]:w-(--sidebar-width-icon) group-data-[side=left]:border-r group-data-[side=right]:border-l'']"

definition SidebarSheet :: "sidebar_context \<Rightarrow> side \<Rightarrow> sidebar_event ui_props \<Rightarrow> sidebar_event node" where
  "SidebarSheet cx sd p =
     Elem ''Sheet'' (with_attrs (flag ''open'' (sx_openMobile cx)) (up_attrs p))
       [OnCheckedChange (\<lambda>b. [Local (SbSheet b)])]
       [ela ''SheetContent''
          [(''data-sidebar'', ''sidebar''), (''data-mobile'', ''true''), (''--sidebar-width'', SIDEBAR_WIDTH_MOBILE),
           (''side'', side_str sd)]
          [el ''SheetHeader'' [el ''SheetTitle'' [Text ''Sidebar''],
             el ''SheetDescription'' [Text ''Displays the mobile sidebar.'']],
           el ''div'' (up_children p)]]"

definition SidebarDesktop ::
  "sidebar_context \<Rightarrow> side \<Rightarrow> sidebar_variant \<Rightarrow> collapsible \<Rightarrow> sidebar_event ui_props \<Rightarrow> sidebar_event node" where
  "SidebarDesktop cx sd v c p =
     ela ''div''
       [(''data-state'', sx_state cx),
        (''data-collapsible'', if sx_state cx = ''collapsed'' then collapsible_str c else []),
        (''data-variant'', variant_str v), (''data-side'', side_str sd)]
       [ela ''div'' (cn (gap_classes v) None) [],
        ui_elem ''div'' [] (bar_classes sd v) None
          (p\<lparr>up_children := [ela ''div'' [(''data-sidebar'', ''sidebar'')] (up_children p)]\<rparr>)]"

definition ui_Sidebar ::
  "sidebar_context option \<Rightarrow> side \<Rightarrow> sidebar_variant \<Rightarrow> collapsible \<Rightarrow> sidebar_event ui_props \<Rightarrow> sidebar_event node" where
  "ui_Sidebar context sd v c p =
     in_sidebar context (\<lambda>cx.
       if c = NotCollapsible then ui_elem ''div'' [] [] None p
       else if sx_isMobile cx then SidebarSheet cx sd p
       else SidebarDesktop cx sd v c p)"

text \<open>The trigger runs the caller's handler first; its \<open>onClick\<close> is taken out of the rest of the properties.\<close>

definition SidebarTrigger :: "sidebar_context option \<Rightarrow> sidebar_event ui_props \<Rightarrow> sidebar_event node" where
  "SidebarTrigger context p =
     in_sidebar context (\<lambda>cx.
       ui_elem ''button'' [(''data-sidebar'', ''trigger''), (''variant'', ''ghost''), (''size'', ''icon'')] []
         (Some (nullish (up_onClick p) [] @ [Local SbToggle]))
         (p\<lparr>up_onClick := None, up_children := [el ''PanelLeft'' [], el ''span'' [Text ''Toggle Sidebar'']]\<rparr>))"

text \<open>The rail puts \<open>{...props}\<close> last: a caller's \<open>onClick\<close> replaces the toggle.\<close>

definition SidebarRail :: "sidebar_context option \<Rightarrow> sidebar_event ui_props \<Rightarrow> sidebar_event node" where
  "SidebarRail context p =
     in_sidebar context (\<lambda>cx.
       ui_elem ''button''
         [(''data-sidebar'', ''rail''), (''aria-label'', ''Toggle Sidebar''), (''tabIndex'', ''-1''),
          (''title'', ''Toggle Sidebar'')] [] (Some [Local SbToggle]) p)"

definition SidebarInset :: "'l ui_props \<Rightarrow> 'l node" where
  "SidebarInset p = ui_elem ''main'' [] [] None p"

definition SidebarInput :: "'l ui_props \<Rightarrow> 'l node" where
  "SidebarInput p = ui_elem ''input'' [(''data-sidebar'', ''input'')] [] None p"

definition SidebarHeader :: "'l ui_props \<Rightarrow> 'l node" where
  "SidebarHeader p = ui_elem ''div'' [(''data-sidebar'', ''header'')] [] None p"

definition SidebarFooter :: "'l ui_props \<Rightarrow> 'l node" where
  "SidebarFooter p = ui_elem ''div'' [(''data-sidebar'', ''footer'')] [] None p"

definition SidebarSeparator :: "'l ui_props \<Rightarrow> 'l node" where
  "SidebarSeparator p = ui_elem ''Separator'' [(''data-sidebar'', ''separator'')] [] None p"

definition SidebarContent :: "'l ui_props \<Rightarrow> 'l node" where
  "SidebarContent p = ui_elem ''div'' [(''data-sidebar'', ''content'')] [] None p"

definition SidebarGroup :: "'l ui_props \<Rightarrow> 'l node" where
  "SidebarGroup p = ui_elem ''div'' [(''data-sidebar'', ''group'')] [] None p"

definition SidebarGroupLabel :: "bool \<Rightarrow> 'l ui_props \<Rightarrow> 'l node" where
  "SidebarGroupLabel asChild p = ui_elem (slot_tag asChild ''div'') [(''data-sidebar'', ''group-label'')] [] None p"

definition SidebarGroupAction :: "bool \<Rightarrow> 'l ui_props \<Rightarrow> 'l node" where
  "SidebarGroupAction asChild p = ui_elem (slot_tag asChild ''button'') [(''data-sidebar'', ''group-action'')] [] None p"

definition SidebarGroupContent :: "'l ui_props \<Rightarrow> 'l node" where
  "SidebarGroupContent p = ui_elem ''div'' [(''data-sidebar'', ''group-content'')] [] None p"

definition SidebarMenu :: "'l ui_props \<Rightarrow> 'l node" where
  "SidebarMenu p = ui_elem ''ul'' [(''data-sidebar'', ''menu'')] [] None p"

definition SidebarMenuItem :: "'l ui_props \<Rightarrow> 'l node" where
  "SidebarMenuItem p = ui_elem ''li'' [(''data-sidebar'', ''menu-item'')] [] None p"

section \<open>Menu buttons\<close>

datatype menu_variant = MenuDefault | MenuOutline
datatype menu_size = SizeDefault | SizeSm | SizeLg

fun menu_size_str :: "menu_size \<Rightarrow> string" where
  "menu_size_str SizeDefault = ''default''"
| "menu_size_str SizeSm = ''sm''"
| "menu_size_str SizeLg = ''lg''"

definition sidebarMenuButtonVariants :: "menu_variant \<Rightarrow> menu_size \<Rightarrow> string list" where
  "sidebarMenuButtonVariants v sz =
     [case v of
        MenuDefault \<Rightarrow> ''hover:bg-sidebar-accent hover:text-sidebar-accent-foreground''
      | MenuOutline \<Rightarrow> ''bg-background shadow-[0_0_0_1px_var(--sidebar-border)] hover:bg-sidebar-accent hover:text-sidebar-accent-foreground hover:shadow-[0_0_0_1px_var(--sidebar-accent)]'',
      case sz of
        SizeDefault \<Rightarrow> ''h-8 text-sm''
      | SizeSm \<Rightarrow> ''h-7 text-xs''
      | SizeLg \<Rightarrow> ''h-12 text-sm group-data-[collapsible=icon]:!p-0'']"

text \<open>The tooltip: nothing, a text, or the properties of its content, which may override \<open>hidden\<close>.\<close>

datatype 'l tooltip_arg = TipNone | TipText string | TipProps "'l ui_props"

definition SidebarMenuButton ::
  "sidebar_context option \<Rightarrow> bool \<Rightarrow> bool \<Rightarrow> menu_variant \<Rightarrow> menu_size \<Rightarrow> 'l tooltip_arg \<Rightarrow> 'l ui_props \<Rightarrow> 'l node" where
  "SidebarMenuButton context asChild isActive v sz tip p =
     in_sidebar context (\<lambda>cx.
       let btn = ui_elem (slot_tag asChild ''button'')
             [(''data-sidebar'', ''menu-button''), (''data-size'', menu_size_str sz), (''data-active'', bool_str isActive)]
             (sidebarMenuButtonVariants v sz) None p;
           tipped = (\<lambda>tp. el ''Tooltip''
             [el ''TooltipTrigger'' [btn],
              ui_elem ''TooltipContent''
                [(''side'', ''right''), (''align'', ''center''),
                 (''hidden'', bool_str (sx_state cx \<noteq> ''collapsed'' \<or> sx_isMobile cx))] [] None tp]) in
       case tip of
         TipNone \<Rightarrow> btn
       | TipText s \<Rightarrow> if s = [] then btn else tipped (no_props\<lparr>up_children := [Text s]\<rparr>)
       | TipProps tp \<Rightarrow> tipped tp)"

definition SidebarMenuAction :: "bool \<Rightarrow> bool \<Rightarrow> 'l ui_props \<Rightarrow> 'l node" where
  "SidebarMenuAction asChild showOnHover p =
     ui_elem (slot_tag asChild ''button'') [(''data-sidebar'', ''menu-action'')]
       [if showOnHover then ''group-focus-within/menu-item:opacity-100 group-hover/menu-item:opacity-100 data-[state=open]:opacity-100 peer-data-[active=true]/menu-button:text-sidebar-accent-foreground md:opacity-0'' else []]
       None p"

definition SidebarMenuBadge :: "'l ui_props \<Rightarrow> 'l node" where
  "SidebarMenuBadge p = ui_elem ''div'' [(''data-sidebar'', ''menu-badge'')] [] None p"

text \<open>The width of a placeholder: \<open>Math.floor(Math.random() * 40) + 50\<close> percent.\<close>

definition skeleton_width :: "rat \<Rightarrow> int" where
  "skeleton_width random = \<lfloor>random * 40\<rfloor> + 50"

definition SidebarMenuSkeleton :: "rat \<Rightarrow> bool \<Rightarrow> 'l ui_props \<Rightarrow> 'l node" where
  "SidebarMenuSkeleton random showIcon p =
     ui_elem ''div'' [(''data-sidebar'', ''menu-skeleton'')] [] None
       (p\<lparr>up_children :=
          cond showIcon (ela ''Skeleton'' [(''data-sidebar'', ''menu-skeleton-icon'')] [])
          @ [ela ''Skeleton''
               [(''data-sidebar'', ''menu-skeleton-text''), (''--skeleton-width'', int_str (skeleton_width random) @ ''%'')] []]\<rparr>)"

definition SidebarMenuSub :: "'l ui_props \<Rightarrow> 'l node" where
  "SidebarMenuSub p = ui_elem ''ul'' [(''data-sidebar'', ''menu-sub'')] [] None p"

definition SidebarMenuSubItem :: "'l ui_props \<Rightarrow> 'l node" where
  "SidebarMenuSubItem p = Elem ''li'' (with_attrs (cn [] (up_className p)) (up_attrs p)) (handler_of None (up_onClick p)) (up_children p)"

datatype sub_size = SubSm | SubMd

fun sub_size_str :: "sub_size \<Rightarrow> string" where
  "sub_size_str SubSm = ''sm''"
| "sub_size_str SubMd = ''md''"

text \<open>Without \<open>isActive\<close> there is no \<open>data-active\<close>.\<close>

definition SidebarMenuSubButton :: "bool \<Rightarrow> sub_size \<Rightarrow> bool option \<Rightarrow> 'l ui_props \<Rightarrow> 'l node" where
  "SidebarMenuSubButton asChild sz isActive p =
     ui_elem (slot_tag asChild ''a'')
       ([(''data-sidebar'', ''menu-sub-button''), (''data-size'', sub_size_str sz)]
        @ cond_some isActive (\<lambda>b. (''data-active'', bool_str b)))
       [if sz = SubSm then ''text-xs'' else [], if sz = SubMd then ''text-sm'' else []] None p"

section \<open>Lemmas\<close>

text \<open>Between two breakpoint crossings the query does not fire, and needs not: the flag is right anyway.\<close>

definition hook_ok :: "mobile_hook \<Rightarrow> bool" where
  "hook_ok m \<longleftrightarrow> mh_isMobile m = Some (mh_width m < MOBILE_BREAKPOINT)"

lemma hook_mount: "hook_ok (mobile_mount m)"
  by (simp add: hook_ok_def mobile_mount_def)

lemma hook_resize: "hook_ok m \<Longrightarrow> hook_ok (mobile_resize w m)"
  by (auto simp: hook_ok_def mobile_resize_def mql_matches_def Let_def)

text \<open>The cookie, once written, is the flag of an uncontrolled bar.\<close>

definition bar_inv :: "provider_props \<Rightarrow> sidebar_state \<Rightarrow> bool" where
  "bar_inv pp s \<longleftrightarrow> hook_ok (sb_mobile s)
     \<and> (case sb_cookie s of None \<Rightarrow> sb_open s = pp_defaultOpen pp | Some c \<Rightarrow> c = cookie_text (sb_open s))"

lemma bar_inv_step:
  "\<not> pp_controlled pp \<Longrightarrow> bar_inv pp s \<Longrightarrow> bar_inv pp (sidebar_event_step pp cx ev s)"
  by (cases ev) (auto simp: sidebar_event_step_def toggleSidebar_def setOpen_def handleKeyDown_def bar_inv_def hook_resize
      Let_def split: option.splits)

lemma bar_inv_fold:
  "\<not> pp_controlled pp \<Longrightarrow> bar_inv pp s \<Longrightarrow> bar_inv pp (fold (sidebar_event_step pp cx) evs s)"
  by (induction evs arbitrary: s) (simp_all add: bar_inv_step)

lemma bar_inv_run: "\<not> pp_controlled pp \<Longrightarrow> bar_inv pp (sidebar_run pp width batches)"
proof -
  assume c: "\<not> pp_controlled pp"
  have "bar_inv pp s \<Longrightarrow> bar_inv pp (fold (sidebar_batch pp) batches s)" for s
    by (induction batches arbitrary: s) (simp_all add: sidebar_batch_def bar_inv_fold [OF c])
  moreover have "bar_inv pp (sidebar_mount (sidebar_init pp width))"
    by (simp add: bar_inv_def sidebar_mount_def sidebar_init_def hook_mount)
  ultimately show ?thesis by (simp add: sidebar_run_def)
qed

lemma toggles_mobile:
  "sx_isMobile cx \<Longrightarrow> fold (sidebar_event_step pp cx) (replicate n SbToggle) s = s\<lparr>sb_openMobile := (odd n \<noteq> sb_openMobile s)\<rparr>"
  by (induction n arbitrary: s) (auto simp: sidebar_event_step_def toggleSidebar_def)

lemma toggles_desktop:
  "\<not> sx_isMobile cx \<Longrightarrow> \<not> pp_controlled pp \<Longrightarrow>
   fold (sidebar_event_step pp cx) (replicate (Suc n) SbToggle) s =
     s\<lparr>sb_open := \<not> sx_open cx, sb_cookie := Some (cookie_text (\<not> sx_open cx))\<rparr>"
  by (induction n arbitrary: s) (simp_all add: sidebar_event_step_def toggleSidebar_def setOpen_def Let_def)

lemma skeleton_width_bounds: "0 \<le> u \<Longrightarrow> u < 1 \<Longrightarrow> 50 \<le> skeleton_width u \<and> skeleton_width u < 90"
  by (auto simp: skeleton_width_def floor_less_iff)

text \<open>
  (C24) The side bar is consistent however its events are batched: an uncontrolled bar knows the breakpoint
  of the current width, its cookie, once written, is the state shown, and handlers of one render
  act on that render: any number of toggles before the next render is one toggle on the desktop,
  where \<open>setOpen\<close> closes over \<open>open\<close>, and counts one by one on a phone, where the update is a function.
\<close>

theorem sidebar_consistent:
  assumes "pp_open pp = None" and "\<not> pp_controlled pp" and "s = sidebar_run pp width batches"
    and "s' = sidebar_batch pp (replicate (Suc n) SbToggle) s"
  shows "sx_isMobile (contextValue pp s) = (mh_width (sb_mobile s) < 768)
     \<and> (sb_cookie s \<noteq> None \<longrightarrow> sb_cookie s = Some (cookie_text (sx_open (contextValue pp s))))
     \<and> (if sx_isMobile (contextValue pp s)
        then sx_openMobile (contextValue pp s') = (even n \<noteq> sx_openMobile (contextValue pp s))
          \<and> sx_open (contextValue pp s') = sx_open (contextValue pp s)
        else sx_open (contextValue pp s') = (\<not> sx_open (contextValue pp s))
          \<and> sx_openMobile (contextValue pp s') = sx_openMobile (contextValue pp s))"
proof -
  from bar_inv_run [OF assms(2)] assms(3) have inv: "bar_inv pp s" by simp
  then have m: "sx_isMobile (contextValue pp s) = (mh_width (sb_mobile s) < 768)"
    by (simp add: contextValue_def Let_def bar_inv_def hook_ok_def useIsMobile_def MOBILE_BREAKPOINT_def)
  moreover from inv assms(1) have "sb_cookie s \<noteq> None \<longrightarrow> sb_cookie s = Some (cookie_text (sx_open (contextValue pp s)))"
    by (auto simp: bar_inv_def contextValue_def Let_def split: option.splits)
  moreover have "s' = (if sx_isMobile (contextValue pp s) then s\<lparr>sb_openMobile := (odd (Suc n) \<noteq> sb_openMobile s)\<rparr>
      else s\<lparr>sb_open := \<not> sx_open (contextValue pp s), sb_cookie := Some (cookie_text (\<not> sx_open (contextValue pp s)))\<rparr>)"
    using assms(2,4) toggles_mobile [of "contextValue pp s" pp "Suc n" s] toggles_desktop [of "contextValue pp s" pp n s]
    by (simp add: sidebar_batch_def del: replicate_Suc)
  ultimately show ?thesis using assms(1) by (simp add: contextValue_def Let_def)
qed

theorem sidebar_consistent_witness:
  "sx_open (contextValue provider_defaults (sidebar_batch provider_defaults [SbToggle, SbToggle]
     (sidebar_run provider_defaults 1280 []))) = False"
  using sidebar_consistent [of provider_defaults _ 1280 "[]" _ 1, OF _ _ refl refl]
  by (simp add: provider_defaults_def sidebar_run_def sidebar_mount_def sidebar_init_def mobile_mount_def contextValue_def
      useIsMobile_def MOBILE_BREAKPOINT_def numeral_2_eq_2)

text \<open>The parts of the bar that need the provider throw outside one, whatever their arguments.\<close>

lemma outside_provider:
  "ui_Sidebar None sd v c p = Throw ''useSidebar must be used within a SidebarProvider.''"
  "SidebarTrigger None p = Throw ''useSidebar must be used within a SidebarProvider.''"
  "SidebarMenuButton None a b mv sz tip q = Throw ''useSidebar must be used within a SidebarProvider.''"
  by (simp_all add: ui_Sidebar_def SidebarTrigger_def SidebarMenuButton_def in_sidebar_def useSidebar_def)

text \<open>A caller's click handler is added to the trigger's toggle but replaces the rail's.\<close>

lemma trigger_and_rail:
  assumes "map_of (rev (up_attrs p)) ''disabled'' = None" and "up_onClick p = Some es"
  shows "click (SidebarTrigger (Some cx) p) [] = es @ [Local SbToggle]"
    and "click (SidebarRail (Some cx) p) [] = es"
  using assms by (simp_all add: SidebarTrigger_def SidebarRail_def in_sidebar_def useSidebar_def click_ui_elem)

end
