(* ===== verification/Ui_Chart.thy ===== *)
theory Ui_Chart
  imports Ui_Base
begin

text \<open>
  The chart wrapper of \<open>components/ui/chart.tsx\<close>: the configuration of a chart, the style sheet made
  from its colours, and the contents of tooltip and legend. The items \<open>recharts\<close> hands over are
  unchecked objects, read as JSON values; a configuration is the list of its entries in the order
  in which they are enumerated. Callbacks (\<open>formatter\<close>, \<open>labelFormatter\<close>) are parameters.
\<close>

section \<open>Configuration\<close>

definition chart_THEMES :: "(string \<times> string) list" where
  "chart_THEMES = [(''light'', []), (''dark'', ''.dark'')]"

record chart_item =
  ci_label :: "string option"
  ci_icon :: "string option"
  ci_color :: "string option"
  ci_theme :: "(string \<times> string) list option"      \<comment> \<open>colour by theme name\<close>

type_synonym ChartConfig = "(string \<times> chart_item) list"

definition useChart :: "ChartConfig option \<Rightarrow> string + ChartConfig" where
  "useChart context =
     (case context of
        None \<Rightarrow> Inl ''useChart must be used within a <ChartContainer />''
      | Some c \<Rightarrow> Inr c)"

definition chart_id :: "string option \<Rightarrow> string \<Rightarrow> string" where
  "chart_id i uniqueId =
     ''chart-'' @ (if truthy_str i then the i else filter (\<lambda>c. c \<noteq> CHR '':'') uniqueId)"

section \<open>The style sheet\<close>

definition colorConfig :: "ChartConfig \<Rightarrow> ChartConfig" where
  "colorConfig config = filter (\<lambda>(k, it). ci_theme it \<noteq> None \<or> truthy_str (ci_color it)) config"

text \<open>\<open>itemConfig.theme?.[theme] || itemConfig.color\<close>.\<close>

definition item_color :: "string \<Rightarrow> chart_item \<Rightarrow> string option" where
  "item_color theme it =
     (let t = (case ci_theme it of None \<Rightarrow> None | Some m \<Rightarrow> map_of m theme) in
      if truthy_str t then t else ci_color it)"

definition color_line :: "string \<Rightarrow> string \<times> chart_item \<Rightarrow> string" where
  "color_line theme e =
     (case item_color theme (snd e) of
        Some c \<Rightarrow> if c = [] then [] else ''  --color-'' @ fst e @ '': '' @ c @ '';''
      | None \<Rightarrow> [])"

definition theme_block :: "string \<Rightarrow> ChartConfig \<Rightarrow> string \<times> string \<Rightarrow> string" where
  "theme_block i cc tp =
     nl @ snd tp @ '' [data-chart='' @ i @ ''] {'' @ nl @ join_with nl (map (color_line (fst tp)) cc) @ nl @ ''}'' @ nl"

definition ChartStyle :: "string \<Rightarrow> ChartConfig \<Rightarrow> 'l node list" where
  "ChartStyle i config =
     (let cc = colorConfig config in
      if cc = [] then []
      else [ela ''style'' [(''__html'', join_with nl (map (theme_block i cc) chart_THEMES))] []])"

definition ChartContainer :: "string option \<Rightarrow> string \<Rightarrow> ChartConfig \<Rightarrow> 'l ui_props \<Rightarrow> 'l node" where
  "ChartContainer i uniqueId config p =
     ui_elem ''div'' [(''data-chart'', chart_id i uniqueId)] [] None
       (p\<lparr>up_children := ChartStyle (chart_id i uniqueId) config @ [el ''ResponsiveContainer'' (up_children p)]\<rparr>)"

section \<open>Items\<close>

definition is_object :: "json option \<Rightarrow> bool" where
  "is_object v = (case v of Some (JObj _) \<Rightarrow> True | Some (JArr _) \<Rightarrow> True | _ \<Rightarrow> False)"

text \<open>\<open>key in o\<close> with a string value: inherited properties are functions, so only own ones matter.\<close>

definition str_prop :: "json option \<Rightarrow> string \<Rightarrow> string option" where
  "str_prop v k =
     (case v of
        None \<Rightarrow> None
      | Some j \<Rightarrow> (case map_of (own_props j) k of Some (JStr s) \<Rightarrow> Some s | _ \<Rightarrow> None))"

definition getPayloadConfigFromPayload :: "ChartConfig \<Rightarrow> json option \<Rightarrow> string \<Rightarrow> chart_item option" where
  "getPayloadConfigFromPayload config payload key =
     (if \<not> is_object payload then None
      else
        let inner = opt_get payload ''payload'';
            payloadPayload = (if is_object inner then inner else None);
            configLabelKey = (case str_prop payload key of
                Some s \<Rightarrow> s
              | None \<Rightarrow> (case str_prop payloadPayload key of Some s \<Rightarrow> s | None \<Rightarrow> key)) in
        case map_of config configLabelKey of Some it \<Rightarrow> Some it | None \<Rightarrow> map_of config key)"

text \<open>The first truthy value as text, \<open>"value"\<close> without one.\<close>

fun first_key :: "json option list \<Rightarrow> string" where
  "first_key [] = ''value''"
| "first_key (v # vs) = (if truthy v then to_str (the v) else first_key vs)"

definition opt_str :: "string option \<Rightarrow> json option" where
  "opt_str s = map_option JStr s"

section \<open>Tooltip and legend\<close>

datatype indicator = IndLine | IndDot | IndDashed

record tooltip_props =
  tt_active :: bool
  tt_payload :: "json list option"
  tt_className :: "string option"
  tt_indicator :: indicator
  tt_hideLabel :: bool
  tt_hideIndicator :: bool
  tt_label :: "json option"
  tt_labelClassName :: "string option"
  tt_labelFormatter :: "(string option \<Rightarrow> json list \<Rightarrow> string) option"
  tt_formatter :: "(json \<Rightarrow> json \<Rightarrow> json \<Rightarrow> nat \<Rightarrow> json option \<Rightarrow> string) option"
  tt_color :: "string option"
  tt_nameKey :: "string option"
  tt_labelKey :: "string option"

definition payload_of :: "tooltip_props \<Rightarrow> json list" where
  "payload_of tp = nullish (tt_payload tp) []"

definition tooltip_value :: "ChartConfig \<Rightarrow> tooltip_props \<Rightarrow> json \<Rightarrow> string option" where
  "tooltip_value config tp item =
     (let key = first_key [opt_str (tt_labelKey tp), js_get item ''dataKey'', js_get item ''name''] in
      case (truthy_str (tt_labelKey tp), tt_label tp) of
        (False, Some (JStr label)) \<Rightarrow>
          (case map_of config label of
             Some it \<Rightarrow> if truthy_str (ci_label it) then ci_label it else Some label
           | None \<Rightarrow> Some label)
      | _ \<Rightarrow> (case getPayloadConfigFromPayload config (Some item) key of None \<Rightarrow> None | Some it \<Rightarrow> ci_label it))"

definition tooltipLabel :: "ChartConfig \<Rightarrow> tooltip_props \<Rightarrow> 'l node list" where
  "tooltipLabel config tp =
     (if tt_hideLabel tp then []
      else case payload_of tp of
          [] \<Rightarrow> []
        | item # _ \<Rightarrow>
            let v = tooltip_value config tp item in
            (case tt_labelFormatter tp of
               Some f \<Rightarrow> [ela ''div'' (cn [] (tt_labelClassName tp)) [Text (f v (payload_of tp))]]
             | None \<Rightarrow> if truthy_str v then [ela ''div'' (cn [] (tt_labelClassName tp)) [Text (the v)]] else []))"

text \<open>\<open>{item.value && <span>...</span>}\<close>: a number zero is rendered as such.\<close>

definition value_nodes :: "host \<Rightarrow> json option \<Rightarrow> 'l node list" where
  "value_nodes h v =
     (case v of
        Some (JNum n) \<Rightarrow> if n = 0 then [Text ''0''] else [el ''span'' [Text (nf_format h n)]]
      | Some (JFloat t) \<Rightarrow> [el ''span'' [Text t]]
      | Some (JStr s) \<Rightarrow> if s = [] then [] else [el ''span'' [Text s]]
      | _ \<Rightarrow> [])"

definition indicator_classes :: "indicator \<Rightarrow> bool \<Rightarrow> string list" where
  "indicator_classes ind nest =
     [case ind of IndDot \<Rightarrow> ''h-2.5 w-2.5'' | IndLine \<Rightarrow> ''w-1''
      | IndDashed \<Rightarrow> ''w-0 border-[1.5px] border-dashed bg-transparent'',
      if nest \<and> ind = IndDashed then ''my-0.5'' else []]"

definition color_attr :: "string \<Rightarrow> json option \<Rightarrow> (string \<times> string) list" where
  "color_attr name c = (case c of Some (JStr s) \<Rightarrow> [(name, s)] | _ \<Rightarrow> [])"

text \<open>\<open>color || item.payload.fill || item.color\<close>; reading \<open>fill\<close> of a missing payload throws.\<close>

definition indicatorColor :: "string option \<Rightarrow> json \<Rightarrow> json option option" where
  "indicatorColor color item =
     (if truthy_str color then Some (opt_str color)
      else if is_nullish (js_get item ''payload'') then None
      else Some (let f = opt_get (js_get item ''payload'') ''fill'' in if truthy f then f else js_get item ''color''))"

definition tooltip_item :: "host \<Rightarrow> ChartConfig \<Rightarrow> tooltip_props \<Rightarrow> nat \<Rightarrow> json \<Rightarrow> 'l node" where
  "tooltip_item h config tp idx item =
     (let key = first_key [opt_str (tt_nameKey tp), js_get item ''name'', js_get item ''dataKey''];
          itemConfig = getPayloadConfigFromPayload config (Some item) key;
          nestLabel = (length (payload_of tp) = 1 \<and> tt_indicator tp \<noteq> IndDot);
          name = js_get item ''name'' in
      case indicatorColor (tt_color tp) item of
        None \<Rightarrow> Throw (type_msg h)
      | Some col \<Rightarrow>
          ela ''div'' (cn [if tt_indicator tp = IndDot then ''items-center'' else []] None)
            (case (tt_formatter tp, js_get item ''value'', truthy name) of
               (Some f, Some v, True) \<Rightarrow> [Text (f v (the name) item idx (js_get item ''payload''))]
             | _ \<Rightarrow>
                 (case itemConfig of
                    Some it \<Rightarrow> (case ci_icon it of Some ic \<Rightarrow> [el ic []] | None \<Rightarrow> [])
                  | None \<Rightarrow> [])
                 @ cond ((case itemConfig of Some it \<Rightarrow> ci_icon it = None | None \<Rightarrow> True) \<and> \<not> tt_hideIndicator tp)
                     (ela ''div'' (cn (indicator_classes (tt_indicator tp) nestLabel) None
                        @ color_attr ''--color-bg'' col @ color_attr ''--color-border'' col) [])
                 @ [ela ''div'' (cn [if nestLabel then ''items-end'' else ''items-center''] None)
                      ([el ''div''
                          ((if nestLabel then tooltipLabel config tp else [])
                           @ [el ''span''
                                [Text (case itemConfig of
                                    Some it \<Rightarrow> if truthy_str (ci_label it) then the (ci_label it)
                                              else (case name of Some n \<Rightarrow> to_str n | None \<Rightarrow> [])
                                  | None \<Rightarrow> (case name of Some n \<Rightarrow> to_str n | None \<Rightarrow> []))]])]
                       @ value_nodes h (js_get item ''value''))]))"

definition shown_items :: "json list \<Rightarrow> json list" where
  "shown_items ps = filter (\<lambda>it. js_get it ''type'' \<noteq> Some (JStr ''none'')) ps"

definition ChartTooltipContent :: "host \<Rightarrow> ChartConfig option \<Rightarrow> tooltip_props \<Rightarrow> 'l node list" where
  "ChartTooltipContent h context tp =
     (case useChart context of
        Inl e \<Rightarrow> [Throw e]
      | Inr config \<Rightarrow>
          if \<not> tt_active tp \<or> payload_of tp = [] then []
          else
            let nestLabel = (length (payload_of tp) = 1 \<and> tt_indicator tp \<noteq> IndDot) in
            [ela ''div'' (cn [] (tt_className tp))
               ((if nestLabel then [] else tooltipLabel config tp)
                @ [el ''div'' (map (\<lambda>(n, it). tooltip_item h config tp n it)
                     (List.enumerate 0 (shown_items (payload_of tp))))])])"

record legend_props =
  lp_className :: "string option"
  lp_hideIcon :: bool
  lp_payload :: "json list option"
  lp_top :: bool                              \<comment> \<open>\<open>verticalAlign === "top"\<close>\<close>
  lp_nameKey :: "string option"

definition legend_item :: "ChartConfig \<Rightarrow> legend_props \<Rightarrow> json \<Rightarrow> 'l node" where
  "legend_item config lp item =
     (let key = first_key [opt_str (lp_nameKey lp), js_get item ''dataKey''];
          itemConfig = getPayloadConfigFromPayload config (Some item) key in
      el ''div''
        ((case itemConfig of
            Some it \<Rightarrow> (if ci_icon it \<noteq> None \<and> \<not> lp_hideIcon lp then [el (the (ci_icon it)) []]
                       else [ela ''div'' (color_attr ''backgroundColor'' (js_get item ''color'')) []])
          | None \<Rightarrow> [ela ''div'' (color_attr ''backgroundColor'' (js_get item ''color'')) []])
         @ (case itemConfig of Some it \<Rightarrow> cond_some (ci_label it) Text | None \<Rightarrow> [])))"

definition ChartLegendContent :: "ChartConfig option \<Rightarrow> legend_props \<Rightarrow> 'l node list" where
  "ChartLegendContent context lp =
     (case useChart context of
        Inl e \<Rightarrow> [Throw e]
      | Inr config \<Rightarrow>
          if nullish (lp_payload lp) [] = [] then []
          else [ela ''div'' (cn [if lp_top lp then ''pb-3'' else ''pt-3''] (lp_className lp))
                  (map (legend_item config lp) (shown_items (nullish (lp_payload lp) [])))])"

section \<open>Facts\<close>

lemma join_with_mem: "x \<in> set xs \<Longrightarrow> \<exists>a b. join_with s xs = a @ x @ b"
proof (induction s xs rule: join_with.induct)
  case (2 s y)
  then have "join_with s [y] = [] @ x @ []" by simp
  then show ?case by blast
next
  case (3 s y z zs)
  show ?case
  proof (cases "x = y")
    case True
    then have "join_with s (y # z # zs) = [] @ x @ (s @ join_with s (z # zs))" by simp
    then show ?thesis by blast
  next
    case False
    then obtain a b where "join_with s (z # zs) = a @ x @ b" using 3 by auto
    then have "join_with s (y # z # zs) = (y @ s @ a) @ x @ b" by simp
    then show ?thesis by blast
  qed
qed simp

text \<open>Every key with a colour for a theme is declared in the rule of that theme.\<close>

lemma theme_block_declares:
  assumes "(k, it) \<in> set cc" and "item_color theme it = Some c" and "c \<noteq> []"
  shows "\<exists>a b. theme_block i cc (theme, sel) = a @ (''  --color-'' @ k @ '': '' @ c @ '';'') @ b"
proof -
  have "color_line theme (k, it) = ''  --color-'' @ k @ '': '' @ c @ '';''"
    using assms by (simp add: color_line_def)
  moreover from assms(1) have "color_line theme (k, it) \<in> set (map (color_line theme) cc)"
    by (metis imageI set_map)
  ultimately obtain a b where
    "join_with nl (map (color_line theme) cc) = a @ (''  --color-'' @ k @ '': '' @ c @ '';'') @ b"
    by (metis join_with_mem)
  then have "theme_block i cc (theme, sel) =
      (nl @ sel @ '' [data-chart='' @ i @ ''] {'' @ nl @ a) @ (''  --color-'' @ k @ '': '' @ c @ '';'')
        @ (b @ nl @ ''}'' @ nl)"
    by (simp add: theme_block_def)
  then show ?thesis by blast
qed

text \<open>A plain colour is the colour of both themes; a theme's own colour wins over it.\<close>

lemma item_color_cases:
  "ci_theme it = None \<Longrightarrow> item_color theme it = ci_color it"
  "ci_theme it = Some m \<Longrightarrow> map_of m theme = Some c \<Longrightarrow> c \<noteq> [] \<Longrightarrow> item_color theme it = Some c"
  by (simp_all add: item_color_def)

lemma ChartStyle_none:
  "ChartStyle i config = [] \<longleftrightarrow> (\<forall>(k, it) \<in> set config. ci_theme it = None \<and> \<not> truthy_str (ci_color it))"
  by (auto simp: ChartStyle_def Let_def colorConfig_def filter_empty_conv case_prod_beta)

text \<open>The name of an item is looked up under the key it names itself, else under the key asked for.\<close>

lemma config_of_plain_item:
  assumes "map_of kvs key = None" and "\<not> is_object (js_get (JObj kvs) ''payload'')"
  shows "getPayloadConfigFromPayload config (Some (JObj kvs)) key = map_of config key"
  using assms
  by (simp add: getPayloadConfigFromPayload_def is_object_def str_prop_def opt_get_def split: option.splits)

lemma config_of_naming_item:
  assumes "map_of kvs key = Some (JStr s)" and "map_of config s = Some it"
  shows "getPayloadConfigFromPayload config (Some (JObj kvs)) key = Some it"
  using assms by (simp add: getPayloadConfigFromPayload_def is_object_def str_prop_def)

text \<open>An item without a payload breaks the tooltip unless the tooltip has a colour of its own.\<close>

lemma indicatorColor_throws:
  "indicatorColor color item = None \<longleftrightarrow> \<not> truthy_str color \<and> is_nullish (js_get item ''payload'')"
  by (simp add: indicatorColor_def)

lemma tooltip_item_throws:
  "tooltip_item h config tp idx item = Throw e \<Longrightarrow> \<not> truthy_str (tt_color tp) \<and> is_nullish (js_get item ''payload'')"
  by (auto simp: tooltip_item_def Let_def ela_def indicatorColor_throws [symmetric] split: option.splits)

lemma inactive_tooltip: "\<not> tt_active tp \<Longrightarrow> ChartTooltipContent h (Some c) tp = []"
  by (simp add: ChartTooltipContent_def useChart_def)

end
