(* ===== verification/Ui_Parts.thy ===== *)
theory Ui_Parts
  imports Ui_Base
begin

text \<open>
  Parts of \<open>components/ui\<close> that choose something from their properties: buttons, badges and toggles with
  variants, toggle groups, pagination, breadcrumbs, one-time-code slots, the progress bar, the
  day buttons of the calendar, and controls that add children to their primitive. \<open>cva\<close> is third-party; of it the model keeps the choice of a class
  per variant, the default standing in for an absent one.
\<close>

section \<open>Variants\<close>

definition cva_choice :: "(string \<times> string) list \<Rightarrow> string \<Rightarrow> string option \<Rightarrow> string" where
  "cva_choice table dflt v = nullish (map_of table (nullish v dflt)) []"

definition button_variants :: "(string \<times> string) list" where
  "button_variants =
     [(''default'', ''bg-primary text-primary-foreground hover:bg-primary/90''),
      (''destructive'', ''bg-destructive text-destructive-foreground hover:bg-destructive/90''),
      (''outline'', ''border border-input bg-background hover:bg-accent hover:text-accent-foreground''),
      (''secondary'', ''bg-secondary text-secondary-foreground hover:bg-secondary/80''),
      (''ghost'', ''hover:bg-accent hover:text-accent-foreground''),
      (''link'', ''text-primary underline-offset-4 hover:underline'')]"

definition button_sizes :: "(string \<times> string) list" where
  "button_sizes =
     [(''default'', ''h-9 px-4 py-2''), (''sm'', ''h-8 rounded-md px-3 text-xs''),
      (''lg'', ''h-10 rounded-md px-8''), (''icon'', ''h-9 w-9'')]"

definition buttonVariants :: "string option \<Rightarrow> string option \<Rightarrow> string list" where
  "buttonVariants variant sz =
     [cva_choice button_variants ''default'' variant, cva_choice button_sizes ''default'' sz]"

definition ui_Button :: "string option \<Rightarrow> string option \<Rightarrow> bool \<Rightarrow> 'l ui_props \<Rightarrow> 'l node" where
  "ui_Button variant sz asChild p = ui_elem (slot_tag asChild ''button'') [] (buttonVariants variant sz) None p"

definition badgeVariants :: "string option \<Rightarrow> string" where
  "badgeVariants variant =
     cva_choice
       [(''default'', ''border-transparent bg-primary text-primary-foreground shadow hover:bg-primary/80''),
        (''secondary'', ''border-transparent bg-secondary text-secondary-foreground hover:bg-secondary/80''),
        (''destructive'', ''border-transparent bg-destructive text-destructive-foreground shadow hover:bg-destructive/80''),
        (''outline'', ''text-foreground'')] ''default'' variant"

definition Badge :: "string option \<Rightarrow> 'l ui_props \<Rightarrow> 'l node" where
  "Badge variant p = ui_elem ''div'' [] [badgeVariants variant] None p"

definition toggle_variants :: "(string \<times> string) list" where
  "toggle_variants =
     [(''default'', ''bg-transparent''),
      (''outline'', ''border border-input bg-transparent shadow-sm hover:bg-accent hover:text-accent-foreground'')]"

definition toggle_sizes :: "(string \<times> string) list" where
  "toggle_sizes = [(''default'', ''h-9 px-2 min-w-9''), (''sm'', ''h-8 px-1.5 min-w-8''), (''lg'', ''h-10 px-2.5 min-w-10'')]"

definition toggleVariants :: "string option \<Rightarrow> string option \<Rightarrow> string list" where
  "toggleVariants variant sz =
     [cva_choice toggle_variants ''default'' variant, cva_choice toggle_sizes ''default'' sz]"

definition Toggle :: "string option \<Rightarrow> string option \<Rightarrow> 'l ui_props \<Rightarrow> 'l node" where
  "Toggle variant sz p = ui_elem ''TogglePrimitive.Root'' [] (toggleVariants variant sz) None p"

text \<open>The group's context: without a group both entries are \<open>default\<close>.\<close>

type_synonym toggle_context = "string option \<times> string option"

definition ToggleGroupContext :: toggle_context where
  "ToggleGroupContext = (Some ''default'', Some ''default'')"

definition or_str :: "string option \<Rightarrow> string option \<Rightarrow> string option" where
  "or_str a b = (if truthy_str a then a else b)"

definition ToggleGroupItem :: "toggle_context \<Rightarrow> string option \<Rightarrow> string option \<Rightarrow> 'l ui_props \<Rightarrow> 'l node" where
  "ToggleGroupItem context variant sz p =
     ui_elem ''ToggleGroupPrimitive.Item'' []
       (toggleVariants (or_str (fst context) variant) (or_str (snd context) sz)) None p"

text \<open>The children are functions of the context the group provides.\<close>

definition ToggleGroup ::
  "string option \<Rightarrow> string option \<Rightarrow> 'l ui_props \<Rightarrow> (toggle_context \<Rightarrow> 'l node list) \<Rightarrow> 'l node" where
  "ToggleGroup variant sz p children =
     ui_elem ''ToggleGroupPrimitive.Root'' [] [] None (p\<lparr>up_children := children (variant, sz)\<rparr>)"

section \<open>Pagination and breadcrumbs\<close>

definition Pagination :: "'l ui_props \<Rightarrow> 'l node" where
  "Pagination p = ui_elem ''nav'' [(''role'', ''navigation''), (''aria-label'', ''pagination'')] [] None p"

definition PaginationContent :: "'l ui_props \<Rightarrow> 'l node" where
  "PaginationContent p = ui_elem ''ul'' [] [] None p"

definition PaginationItem :: "'l ui_props \<Rightarrow> 'l node" where
  "PaginationItem p = ui_elem ''li'' [] [] None p"

definition PaginationLink :: "bool \<Rightarrow> string option \<Rightarrow> 'l ui_props \<Rightarrow> 'l node" where
  "PaginationLink isActive sz p =
     ui_elem ''a'' (if isActive then [(''aria-current'', ''page'')] else [])
       (buttonVariants (Some (if isActive then ''outline'' else ''ghost'')) (Some (nullish sz ''icon''))) None p"

text \<open>A property the wrapper sets before \<open>{...props}\<close>: the caller's value wins.\<close>

definition preset :: "(string \<times> string) list \<Rightarrow> string list \<Rightarrow> 'l ui_props \<Rightarrow> 'l ui_props" where
  "preset base cs p =
     p\<lparr>up_attrs := with_attrs base (up_attrs p),
       up_className := Some (join_with '' '' (filter (\<lambda>c. c \<noteq> []) (cs @ [nullish (up_className p) []])))\<rparr>"

definition PaginationPrevious :: "bool \<Rightarrow> string option \<Rightarrow> 'l ui_props \<Rightarrow> 'l node" where
  "PaginationPrevious isActive sz p =
     PaginationLink isActive (Some (nullish sz ''default''))
       (preset [(''aria-label'', ''Go to previous page'')] [''gap-1 pl-2.5''] p
          \<lparr>up_children := [el ''ChevronLeft'' [], el ''span'' [Text ''Previous'']]\<rparr>)"

definition PaginationNext :: "bool \<Rightarrow> string option \<Rightarrow> 'l ui_props \<Rightarrow> 'l node" where
  "PaginationNext isActive sz p =
     PaginationLink isActive (Some (nullish sz ''default''))
       (preset [(''aria-label'', ''Go to next page'')] [''gap-1 pr-2.5''] p
          \<lparr>up_children := [el ''span'' [Text ''Next''], el ''ChevronRight'' []]\<rparr>)"

definition PaginationEllipsis :: "'l ui_props \<Rightarrow> 'l node" where
  "PaginationEllipsis p =
     ui_elem ''span'' [(''aria-hidden'', ''true'')] [] None
       (p\<lparr>up_children := [el ''MoreHorizontal'' [], ela ''span'' (cls ''sr-only'') [Text ''More pages'']]\<rparr>)"

definition Breadcrumb :: "'l ui_props \<Rightarrow> 'l node" where
  "Breadcrumb p = ui_elem ''nav'' [(''aria-label'', ''breadcrumb'')] [] None p"

definition BreadcrumbList :: "'l ui_props \<Rightarrow> 'l node" where
  "BreadcrumbList p = ui_elem ''ol'' [] [] None p"

definition BreadcrumbItem :: "'l ui_props \<Rightarrow> 'l node" where
  "BreadcrumbItem p = ui_elem ''li'' [] [] None p"

definition BreadcrumbLink :: "bool \<Rightarrow> 'l ui_props \<Rightarrow> 'l node" where
  "BreadcrumbLink asChild p = ui_elem (slot_tag asChild ''a'') [] [] None p"

definition BreadcrumbPage :: "'l ui_props \<Rightarrow> 'l node" where
  "BreadcrumbPage p =
     ui_elem ''span'' [(''role'', ''link''), (''aria-disabled'', ''true''), (''aria-current'', ''page'')] [] None p"

text \<open>The children of a component are absent (\<open>None\<close>) or given, an empty list included.\<close>

definition BreadcrumbSeparator :: "'l node list option \<Rightarrow> 'l ui_props \<Rightarrow> 'l node" where
  "BreadcrumbSeparator children p =
     ui_elem ''li'' [(''role'', ''presentation''), (''aria-hidden'', ''true'')] [] None
       (p\<lparr>up_children := nullish children [el ''ChevronRight'' []]\<rparr>)"

definition BreadcrumbEllipsis :: "'l ui_props \<Rightarrow> 'l node" where
  "BreadcrumbEllipsis p =
     ui_elem ''span'' [(''role'', ''presentation''), (''aria-hidden'', ''true'')] [] None
       (p\<lparr>up_children := [el ''MoreHorizontal'' [], ela ''span'' (cls ''sr-only'') [Text ''More'']]\<rparr>)"

section \<open>One-time codes, progress, calendar days\<close>

record otp_slot =
  os_char :: "string option"
  os_hasFakeCaret :: bool
  os_isActive :: bool

definition InputOTP :: "string option \<Rightarrow> 'l ui_props \<Rightarrow> 'l node" where
  "InputOTP containerClassName p =
     ui_elem ''OTPInput'' (map (\<lambda>(k, v). (''containerClassName'', v)) (cn [] containerClassName)) [] None p"

definition InputOTPGroup :: "'l ui_props \<Rightarrow> 'l node" where
  "InputOTPGroup p = ui_elem ''div'' [] [] None p"

definition slot_at :: "otp_slot list \<Rightarrow> nat \<Rightarrow> otp_slot" where
  "slot_at slots index =
     (if index < length slots then slots ! index
      else \<lparr>os_char = None, os_hasFakeCaret = False, os_isActive = False\<rparr>)"

definition InputOTPSlot :: "otp_slot list \<Rightarrow> nat \<Rightarrow> 'l ui_props \<Rightarrow> 'l node" where
  "InputOTPSlot slots index p =
     (let s = slot_at slots index in
      ui_elem ''div'' [] [if os_isActive s then ''z-10 ring-1 ring-ring'' else []] None
        (p\<lparr>up_children := cond_some (os_char s) Text @ cond (os_hasFakeCaret s) (el ''div'' [el ''div'' []])\<rparr>))"

definition InputOTPSeparator :: "'l ui_props \<Rightarrow> 'l node" where
  "InputOTPSeparator p = ui_elem ''div'' [(''role'', ''separator'')] [] None (p\<lparr>up_children := [el ''Minus'' []]\<rparr>)"

text \<open>\<open>value || 0\<close> for a whole number.\<close>

definition Progress :: "int option \<Rightarrow> 'l ui_props \<Rightarrow> 'l node" where
  "Progress value p =
     ui_elem ''ProgressPrimitive.Root'' [] [] None
       (p\<lparr>up_children := [ela ''ProgressPrimitive.Indicator''
            [(''transform'', ''translateX(-'' @ int_str (100 - nullish value 0) @ ''%)'')] []]\<rparr>)"

record day_modifiers =
  dm_focused :: bool
  dm_selected :: bool
  dm_range_start :: bool
  dm_range_end :: bool
  dm_range_middle :: bool

text \<open>A data attribute with a boolean value is rendered as \<open>"true"\<close> or \<open>"false"\<close>; \<open>focus\<close> says that the effect focuses the button.\<close>

definition CalendarDayButton :: "string \<Rightarrow> string \<Rightarrow> day_modifiers \<Rightarrow> 'l ui_props \<Rightarrow> 'l node \<times> bool" where
  "CalendarDayButton day defaultDay m p =
     (ui_Button (Some ''ghost'') (Some ''icon'') False
        (preset
          [(''data-day'', day),
           (''data-selected-single'',
              bool_str (dm_selected m \<and> \<not> dm_range_start m \<and> \<not> dm_range_end m \<and> \<not> dm_range_middle m)),
           (''data-range-start'', bool_str (dm_range_start m)), (''data-range-end'', bool_str (dm_range_end m)),
           (''data-range-middle'', bool_str (dm_range_middle m))] [defaultDay] p),
      dm_focused m)"

definition calendar_Chevron :: "string \<Rightarrow> 'l ui_props \<Rightarrow> 'l node" where
  "calendar_Chevron orientation p =
     ui_elem (if orientation = ''left'' then ''ChevronLeftIcon''
              else if orientation = ''right'' then ''ChevronRightIcon'' else ''ChevronDownIcon'') [] [] None p"

section \<open>Controls\<close>

definition ui_Separator :: "string option \<Rightarrow> bool option \<Rightarrow> 'l ui_props \<Rightarrow> 'l node" where
  "ui_Separator orientation decorative p =
     (let o' = nullish orientation ''horizontal'' in
      ui_elem ''SeparatorPrimitive.Root''
        [(''decorative'', bool_str (nullish decorative True)), (''orientation'', o')]
        [if o' = ''horizontal'' then ''h-[1px] w-full'' else ''h-full w-[1px]''] None p)"

definition ScrollBar :: "string option \<Rightarrow> 'l ui_props \<Rightarrow> 'l node" where
  "ScrollBar orientation p =
     (let o' = nullish orientation ''vertical'' in
      ui_elem ''ScrollAreaPrimitive.ScrollAreaScrollbar'' [(''orientation'', o')]
        [if o' = ''vertical'' then ''h-full w-2.5 border-l border-l-transparent p-[1px]'' else [],
         if o' = ''horizontal'' then ''h-2.5 flex-col border-t border-t-transparent p-[1px]'' else []] None
        (p\<lparr>up_children := [el ''ScrollAreaPrimitive.ScrollAreaThumb'' []]\<rparr>))"

definition ScrollArea :: "'l ui_props \<Rightarrow> 'l node" where
  "ScrollArea p =
     ui_elem ''ScrollAreaPrimitive.Root'' [] [] None
       (p\<lparr>up_children := [el ''ScrollAreaPrimitive.Viewport'' (up_children p), ScrollBar None no_props,
           el ''ScrollAreaPrimitive.Corner'' []]\<rparr>)"

definition ResizablePanelGroup :: "'l ui_props \<Rightarrow> 'l node" where
  "ResizablePanelGroup p = ui_elem ''Group'' [] [] None p"

definition ResizableHandle :: "bool \<Rightarrow> 'l ui_props \<Rightarrow> 'l node" where
  "ResizableHandle withHandle p =
     ui_elem ''Separator'' [] [] None (p\<lparr>up_children := cond withHandle (el ''div'' [el ''GripVertical'' []])\<rparr>)"

definition alertVariants :: "string option \<Rightarrow> string" where
  "alertVariants variant =
     cva_choice
       [(''default'', ''bg-background text-foreground''),
        (''destructive'', ''border-destructive/50 text-destructive dark:border-destructive [&>svg]:text-destructive'')]
       ''default'' variant"

definition Alert :: "string option \<Rightarrow> 'l ui_props \<Rightarrow> 'l node" where
  "Alert variant p = ui_elem ''div'' [(''role'', ''alert'')] [alertVariants variant] None p"

definition AccordionTrigger :: "'l ui_props \<Rightarrow> 'l node" where
  "AccordionTrigger p =
     el ''AccordionPrimitive.Header''
       [ui_elem ''AccordionPrimitive.Trigger'' [] [] None (p\<lparr>up_children := up_children p @ [el ''ChevronDown'' []]\<rparr>)]"

text \<open>The class goes to the inner element, everything else to the primitive.\<close>

definition AccordionContent :: "'l ui_props \<Rightarrow> 'l node" where
  "AccordionContent p =
     ui_elem ''AccordionPrimitive.Content'' [] [] None
       (p\<lparr>up_className := None, up_children := [ela ''div'' (cn [] (up_className p)) (up_children p)]\<rparr>)"

definition Checkbox :: "'l ui_props \<Rightarrow> 'l node" where
  "Checkbox p =
     ui_elem ''CheckboxPrimitive.Root'' [] [] None
       (p\<lparr>up_children := [el ''CheckboxPrimitive.Indicator'' [el ''Check'' []]]\<rparr>)"

definition Switch :: "'l ui_props \<Rightarrow> 'l node" where
  "Switch p = ui_elem ''SwitchPrimitives.Root'' [] [] None (p\<lparr>up_children := [el ''SwitchPrimitives.Thumb'' []]\<rparr>)"

definition Slider :: "'l ui_props \<Rightarrow> 'l node" where
  "Slider p =
     ui_elem ''SliderPrimitive.Root'' [] [] None
       (p\<lparr>up_children := [el ''SliderPrimitive.Track'' [el ''SliderPrimitive.Range'' []], el ''SliderPrimitive.Thumb'' []]\<rparr>)"

definition RadioGroupItem :: "'l ui_props \<Rightarrow> 'l node" where
  "RadioGroupItem p =
     ui_elem ''RadioGroupPrimitive.Item'' [] [] None
       (p\<lparr>up_children := [el ''RadioGroupPrimitive.Indicator'' [el ''Circle'' []]]\<rparr>)"

definition NavigationMenuViewport :: "'l ui_props \<Rightarrow> 'l node" where
  "NavigationMenuViewport p = el ''div'' [ui_elem ''NavigationMenuPrimitive.Viewport'' [] [] None p]"

definition NavigationMenu :: "'l ui_props \<Rightarrow> 'l node" where
  "NavigationMenu p =
     ui_elem ''NavigationMenuPrimitive.Root'' [] [] None
       (p\<lparr>up_children := up_children p @ [NavigationMenuViewport no_props]\<rparr>)"

definition NavigationMenuTrigger :: "'l ui_props \<Rightarrow> 'l node" where
  "NavigationMenuTrigger p =
     ui_elem ''NavigationMenuPrimitive.Trigger'' [] [] None
       (p\<lparr>up_children := up_children p @ [Text '' '', ela ''ChevronDown'' [(''aria-hidden'', ''true'')] []]\<rparr>)"

definition NavigationMenuIndicator :: "'l ui_props \<Rightarrow> 'l node" where
  "NavigationMenuIndicator p =
     ui_elem ''NavigationMenuPrimitive.Indicator'' [] [] None (p\<lparr>up_children := [el ''div'' []]\<rparr>)"

section \<open>Facts\<close>

lemma cva_choice_default: "cva_choice table d None = cva_choice table d (Some d)"
  by (simp add: cva_choice_def)

text \<open>
  A toggle of a group takes the group's variant and size where the group sets them, its own where
  the group leaves them out. Without a group the default context decides, and its own choice is lost.
\<close>

lemma toggle_in_group:
  assumes "v \<noteq> []"
  shows "ToggleGroupItem (Some v, None) variant sz p
      = ui_elem ''ToggleGroupPrimitive.Item'' [] (toggleVariants (Some v) sz) None p"
    and "ToggleGroupItem (None, None) variant sz p
      = ui_elem ''ToggleGroupPrimitive.Item'' [] (toggleVariants variant sz) None p"
    and "ToggleGroupItem ToggleGroupContext variant sz p = ToggleGroupItem ToggleGroupContext None None p"
  using assms by (simp_all add: ToggleGroupItem_def or_str_def ToggleGroupContext_def)

text \<open>The link of the current page is the one marked as such, whatever else the caller passes.\<close>

fun node_attr :: "'l node \<Rightarrow> string \<Rightarrow> string option" where
  "node_attr (Elem tag attrs hs kids) k = map_of attrs k"
| "node_attr _ k = None"

lemma node_attr_ui_elem:
  assumes "k \<noteq> ''class''" and "map_of (rev (up_attrs p)) k = None"
  shows "node_attr (ui_elem tag base cs own p) k = map_of base k"
  using assms by (simp add: ui_elem_def map_of_own)

lemma pagination_current:
  assumes "map_of (rev (up_attrs p)) ''aria-current'' = None"
  shows "node_attr (PaginationLink isActive sz p) ''aria-current'' = (if isActive then Some ''page'' else None)"
  using assms by (simp add: PaginationLink_def node_attr_ui_elem)

lemma slot_out_of_range:
  "length slots \<le> index \<Longrightarrow> InputOTPSlot slots index p = ui_elem ''div'' [] [[]] None (p\<lparr>up_children := []\<rparr>)"
  by (simp add: InputOTPSlot_def slot_at_def)

text \<open>Beyond a hundred the offset gets a second minus sign, which is no length in CSS.\<close>

lemma progress_overshoot:
  assumes "100 < v"
  shows "Progress (Some v) p
    = ui_elem ''ProgressPrimitive.Root'' [] [] None
        (p\<lparr>up_children := [ela ''ProgressPrimitive.Indicator''
             [(''transform'', ''translateX(--'' @ int_str (v - 100) @ ''%)'')] []]\<rparr>)"
  using assms by (simp add: Progress_def int_str_def)

end
