(* ===== verification/Ui_Carousel.thy ===== *)
theory Ui_Carousel
  imports Ui_Parts
begin

text \<open>
  The carousel of \<open>components/ui/carousel.tsx\<close>. The scrolling engine (\<open>embla-carousel-react\<close>) is a
  parameter: a scroll returns the engine's new state and the names of the events it emits
  meanwhile, and the two queries read its state. The component listens to \<open>select\<close> and \<open>reInit\<close>
  and copies the answers of the queries into its own state, from which the buttons are disabled.
\<close>

section \<open>State\<close>

record 'e embla =
  em_scrollPrev :: "'e \<Rightarrow> 'e \<times> string list"
  em_scrollNext :: "'e \<Rightarrow> 'e \<times> string list"
  em_canScrollPrev :: "'e \<Rightarrow> bool"
  em_canScrollNext :: "'e \<Rightarrow> bool"

record 'e carousel_state =
  cs_api :: "'e option"                     \<comment> \<open>none until the viewport element exists\<close>
  cs_canScrollPrev :: bool
  cs_canScrollNext :: bool
  cs_on :: "string list"                    \<comment> \<open>events of the current engine \<open>onSelect\<close> is registered for\<close>
  cs_left :: "string list"                  \<comment> \<open>registrations left on engines given up\<close>
  cs_told :: nat                            \<comment> \<open>calls of \<open>setApi\<close>\<close>

definition carousel_init :: "'e carousel_state" where
  "carousel_init =
     \<lparr>cs_api = None, cs_canScrollPrev = False, cs_canScrollNext = False, cs_on = [], cs_left = [], cs_told = 0\<rparr>"

definition carousel_axis :: "string \<Rightarrow> string" where
  "carousel_axis orientation = (if orientation = ''horizontal'' then ''x'' else ''y'')"

definition carousel_onSelect :: "'e embla \<Rightarrow> 'e option \<Rightarrow> 'e carousel_state \<Rightarrow> 'e carousel_state" where
  "carousel_onSelect em api s =
     (case api of
        None \<Rightarrow> s
      | Some e \<Rightarrow> s\<lparr>cs_canScrollPrev := em_canScrollPrev em e, cs_canScrollNext := em_canScrollNext em e\<rparr>)"

text \<open>The engine calls every listener of the events it emits, with itself.\<close>

definition carousel_emit :: "'e embla \<Rightarrow> string list \<Rightarrow> 'e carousel_state \<Rightarrow> 'e carousel_state" where
  "carousel_emit em evs s =
     fold (\<lambda>ev s'. fold (\<lambda>l s''. if l = ev then carousel_onSelect em (cs_api s'') s'' else s'') (cs_on s') s') evs s"

definition engine_moved :: "'e embla \<Rightarrow> 'e \<times> string list \<Rightarrow> 'e carousel_state \<Rightarrow> 'e carousel_state" where
  "engine_moved em r s = carousel_emit em (snd r) (s\<lparr>cs_api := Some (fst r)\<rparr>)"

definition scrollPrev :: "'e embla \<Rightarrow> 'e carousel_state \<Rightarrow> 'e carousel_state" where
  "scrollPrev em s = (case cs_api s of None \<Rightarrow> s | Some e \<Rightarrow> engine_moved em (em_scrollPrev em e) s)"

definition scrollNext :: "'e embla \<Rightarrow> 'e carousel_state \<Rightarrow> 'e carousel_state" where
  "scrollNext em s = (case cs_api s of None \<Rightarrow> s | Some e \<Rightarrow> engine_moved em (em_scrollNext em e) s)"

text \<open>The second value is \<open>preventDefault\<close>.\<close>

definition carousel_handleKeyDown :: "'e embla \<Rightarrow> string \<Rightarrow> 'e carousel_state \<Rightarrow> 'e carousel_state \<times> bool" where
  "carousel_handleKeyDown em key s =
     (if key = ''ArrowLeft'' then (scrollPrev em s, True)
      else if key = ''ArrowRight'' then (scrollNext em s, True)
      else (s, False))"

section \<open>Effects\<close>

definition setApi_effect :: "bool \<Rightarrow> 'e carousel_state \<Rightarrow> 'e carousel_state" where
  "setApi_effect given s = (if cs_api s = None \<or> \<not> given then s else s\<lparr>cs_told := cs_told s + 1\<rparr>)"

definition select_effect :: "'e embla \<Rightarrow> 'e carousel_state \<Rightarrow> 'e carousel_state" where
  "select_effect em s =
     (case cs_api s of
        None \<Rightarrow> s
      | Some e \<Rightarrow> (carousel_onSelect em (Some e) s)\<lparr>cs_on := cs_on s @ [''reInit'', ''select'']\<rparr>)"

definition select_cleanup :: "'e carousel_state \<Rightarrow> 'e carousel_state" where
  "select_cleanup s = (if cs_api s = None then s else s\<lparr>cs_on := filter (\<lambda>l. l \<noteq> ''select'') (cs_on s)\<rparr>)"

text \<open>
  The hook hands out another engine, or none: the cleanup of the previous effect runs, what it
  leaves registered stays on the engine given up, then both effects run for the new one.
\<close>

definition api_changes :: "bool \<Rightarrow> 'e embla \<Rightarrow> 'e option \<Rightarrow> 'e carousel_state \<Rightarrow> 'e carousel_state" where
  "api_changes given em api s =
     (let s1 = select_cleanup s in
      select_effect em (setApi_effect given (s1\<lparr>cs_left := cs_left s1 @ cs_on s1, cs_on := [], cs_api := api\<rparr>)))"

datatype 'e carousel_event =
    CarPrev
  | CarNext
  | CarKey string
  | CarEngine 'e "string list"              \<comment> \<open>drag, resize: the engine moves by itself and emits events\<close>
  | CarApi "'e option"

definition carousel_step :: "bool \<Rightarrow> 'e embla \<Rightarrow> 'e carousel_event \<Rightarrow> 'e carousel_state \<Rightarrow> 'e carousel_state" where
  "carousel_step given em ev s =
     (case ev of
        CarPrev \<Rightarrow> scrollPrev em s
      | CarNext \<Rightarrow> scrollNext em s
      | CarKey k \<Rightarrow> fst (carousel_handleKeyDown em k s)
      | CarEngine e evs \<Rightarrow> if cs_api s = None then s else engine_moved em (e, evs) s
      | CarApi api \<Rightarrow> api_changes given em api s)"

definition carousel_run :: "bool \<Rightarrow> 'e embla \<Rightarrow> 'e carousel_event list \<Rightarrow> 'e carousel_state" where
  "carousel_run given em evs = fold (carousel_step given em) evs carousel_init"

section \<open>Rendering\<close>

datatype carousel_action = DoScrollPrev | DoScrollNext

record carousel_context =
  cc_orientation :: string
  cc_canScrollPrev :: bool
  cc_canScrollNext :: bool

definition carousel_contextValue :: "string \<Rightarrow> string option \<Rightarrow> 'e carousel_state \<Rightarrow> carousel_context" where
  "carousel_contextValue orientation axis s =
     \<lparr>cc_orientation =
        (if orientation \<noteq> [] then orientation else if axis = Some ''y'' then ''vertical'' else ''horizontal''),
      cc_canScrollPrev = cs_canScrollPrev s, cc_canScrollNext = cs_canScrollNext s\<rparr>"

definition useCarousel :: "carousel_context option \<Rightarrow> string + carousel_context" where
  "useCarousel context =
     (case context of None \<Rightarrow> Inl ''useCarousel must be used within a <Carousel />'' | Some c \<Rightarrow> Inr c)"

definition in_carousel :: "carousel_context option \<Rightarrow> (carousel_context \<Rightarrow> 'l node) \<Rightarrow> 'l node" where
  "in_carousel context f = (case useCarousel context of Inl e \<Rightarrow> Throw e | Inr c \<Rightarrow> f c)"

definition Carousel ::
  "string \<Rightarrow> string option \<Rightarrow> 'e carousel_state \<Rightarrow> (carousel_context option \<Rightarrow> carousel_action node list)
    \<Rightarrow> carousel_action ui_props \<Rightarrow> carousel_action node" where
  "Carousel orientation axis s children p =
     ui_elem ''div'' [(''role'', ''region''), (''aria-roledescription'', ''carousel'')] [] None
       (p\<lparr>up_children := children (Some (carousel_contextValue orientation axis s))\<rparr>)"

definition CarouselContent :: "carousel_context option \<Rightarrow> 'l ui_props \<Rightarrow> 'l node" where
  "CarouselContent context p =
     in_carousel context (\<lambda>c. el ''div''
       [ui_elem ''div'' [] [if cc_orientation c = ''horizontal'' then ''-ml-4'' else ''-mt-4 flex-col''] None p])"

definition CarouselItem :: "carousel_context option \<Rightarrow> 'l ui_props \<Rightarrow> 'l node" where
  "CarouselItem context p =
     in_carousel context (\<lambda>c. ui_elem ''div'' [(''role'', ''group''), (''aria-roledescription'', ''slide'')]
       [if cc_orientation c = ''horizontal'' then ''pl-4'' else ''pt-4''] None p)"

definition nav_button ::
  "bool \<Rightarrow> carousel_action \<Rightarrow> string \<Rightarrow> string option \<Rightarrow> string option \<Rightarrow> carousel_action ui_props
    \<Rightarrow> carousel_action node list \<Rightarrow> carousel_action node" where
  "nav_button can act place variant sz p kids =
     ui_Button (Some (nullish variant ''outline'')) (Some (nullish sz ''icon'')) False
       (preset [(''disabled'', bool_str (\<not> can))] [place] p
          \<lparr>up_onClick := Some (nullish (up_onClick p) [Local act]), up_children := kids\<rparr>)"

definition CarouselPrevious ::
  "carousel_context option \<Rightarrow> string option \<Rightarrow> string option \<Rightarrow> carousel_action ui_props \<Rightarrow> carousel_action node" where
  "CarouselPrevious context variant sz p =
     in_carousel context (\<lambda>c.
       nav_button (cc_canScrollPrev c) DoScrollPrev
         (if cc_orientation c = ''horizontal'' then ''-left-12 top-1/2 -translate-y-1/2''
          else ''-top-12 left-1/2 -translate-x-1/2 rotate-90'') variant sz p
         [el ''ArrowLeft'' [], ela ''span'' (cls ''sr-only'') [Text ''Previous slide'']])"

definition CarouselNext ::
  "carousel_context option \<Rightarrow> string option \<Rightarrow> string option \<Rightarrow> carousel_action ui_props \<Rightarrow> carousel_action node" where
  "CarouselNext context variant sz p =
     in_carousel context (\<lambda>c.
       nav_button (cc_canScrollNext c) DoScrollNext
         (if cc_orientation c = ''horizontal'' then ''-right-12 top-1/2 -translate-y-1/2''
          else ''-bottom-12 left-1/2 -translate-x-1/2 rotate-90'') variant sz p
         [el ''ArrowRight'' [], ela ''span'' (cls ''sr-only'') [Text ''Next slide'']])"

section \<open>The buttons follow the engine\<close>

text \<open>
  What the engine documents: a move that changes what can be scrolled emits \<open>select\<close> or \<open>reInit\<close>.
  \<open>reported\<close> says it of one move, \<open>run_reported\<close> of every move of a run.
\<close>

definition same_reach :: "'e embla \<Rightarrow> 'e \<Rightarrow> 'e \<Rightarrow> bool" where
  "same_reach em e e' \<longleftrightarrow>
     em_canScrollPrev em e' = em_canScrollPrev em e \<and> em_canScrollNext em e' = em_canScrollNext em e"

definition reported :: "'e embla \<Rightarrow> 'e \<Rightarrow> 'e \<times> string list \<Rightarrow> bool" where
  "reported em e r \<longleftrightarrow> List.member (snd r) ''select'' \<or> List.member (snd r) ''reInit'' \<or> same_reach em e (fst r)"

definition move_of :: "'e embla \<Rightarrow> 'e \<Rightarrow> 'e carousel_event \<Rightarrow> ('e \<times> string list) option" where
  "move_of em e ev =
     (case ev of
        CarPrev \<Rightarrow> Some (em_scrollPrev em e)
      | CarNext \<Rightarrow> Some (em_scrollNext em e)
      | CarKey k \<Rightarrow> if k = ''ArrowLeft'' then Some (em_scrollPrev em e)
                   else if k = ''ArrowRight'' then Some (em_scrollNext em e) else None
      | CarEngine e' evs \<Rightarrow> Some (e', evs)
      | CarApi api \<Rightarrow> None)"

definition step_reported :: "'e embla \<Rightarrow> 'e carousel_state \<Rightarrow> 'e carousel_event \<Rightarrow> bool" where
  "step_reported em s ev =
     (case cs_api s of
        None \<Rightarrow> True
      | Some e \<Rightarrow> (case move_of em e ev of None \<Rightarrow> True | Some r \<Rightarrow> reported em e r))"

fun run_reported :: "bool \<Rightarrow> 'e embla \<Rightarrow> 'e carousel_state \<Rightarrow> 'e carousel_event list \<Rightarrow> bool" where
  "run_reported given em s [] = True"
| "run_reported given em s (ev # evs) \<longleftrightarrow>
     step_reported em s ev \<and> run_reported given em (carousel_step given em ev s) evs"

text \<open>The component listens to both events, and its flags are the engine's answers.\<close>

definition carousel_ok :: "'e embla \<Rightarrow> 'e carousel_state \<Rightarrow> bool" where
  "carousel_ok em s =
     (case cs_api s of
        None \<Rightarrow> cs_on s = []
      | Some e \<Rightarrow> cs_on s = [''reInit'', ''select''] \<and> cs_canScrollPrev s = em_canScrollPrev em e
          \<and> cs_canScrollNext s = em_canScrollNext em e)"

lemma carousel_onSelect_frame [simp]:
  "cs_api (carousel_onSelect em api s) = cs_api s" "cs_on (carousel_onSelect em api s) = cs_on s"
  by (simp_all add: carousel_onSelect_def split: option.splits)

lemma carousel_onSelect_ok:
  "cs_api s = Some e \<Longrightarrow> cs_on s = [''reInit'', ''select''] \<Longrightarrow> carousel_ok em (carousel_onSelect em (Some e) s)"
  by (simp add: carousel_ok_def carousel_onSelect_def)

lemma emit_Cons:
  assumes "cs_on s = [''reInit'', ''select'']"
  shows "carousel_emit em (ev # evs) s
    = carousel_emit em evs (if ev = ''reInit'' \<or> ev = ''select'' then carousel_onSelect em (cs_api s) s else s)"
  using assms by (auto simp: carousel_emit_def)

lemma emit_keeps_ok:
  "cs_api s = Some e \<Longrightarrow> carousel_ok em s \<Longrightarrow> carousel_ok em (carousel_emit em evs s)"
proof (induction evs arbitrary: s)
  case (Cons ev evs)
  then have on: "cs_on s = [''reInit'', ''select'']" by (simp add: carousel_ok_def)
  with Cons show ?case by (simp add: emit_Cons carousel_onSelect_ok)
qed (simp add: carousel_emit_def)

lemma emit_makes_ok:
  assumes "cs_api s = Some e" and "cs_on s = [''reInit'', ''select'']"
    and "''select'' \<in> set evs \<or> ''reInit'' \<in> set evs"
  shows "carousel_ok em (carousel_emit em evs s)"
  using assms
proof (induction evs arbitrary: s)
  case (Cons ev evs)
  show ?case
  proof (cases "ev = ''reInit'' \<or> ev = ''select''")
    case True
    with Cons.prems(1,2) show ?thesis
      by (simp add: emit_Cons carousel_onSelect_ok emit_keeps_ok [where e = e])
  next
    case False
    with Cons show ?thesis by (auto simp: emit_Cons)
  qed
qed simp

lemma engine_moved_ok:
  assumes "carousel_ok em s" and "cs_api s = Some e" and "reported em e r"
  shows "carousel_ok em (engine_moved em r s)"
proof (cases "''select'' \<in> set (snd r) \<or> ''reInit'' \<in> set (snd r)")
  case True
  moreover have "cs_on s = [''reInit'', ''select'']" using assms(1,2) by (simp add: carousel_ok_def)
  ultimately show ?thesis unfolding engine_moved_def
    by (intro emit_makes_ok [where e = "fst r"]) simp_all
next
  case False
  with assms show ?thesis unfolding engine_moved_def
    by (intro emit_keeps_ok [where e = "fst r"]) (auto simp: reported_def same_reach_def carousel_ok_def)
qed

lemma api_changes_ok: "carousel_ok em (api_changes given em api s)"
  by (cases api) (simp_all add: api_changes_def select_effect_def setApi_effect_def carousel_ok_def
      carousel_onSelect_def Let_def)

lemma carousel_step_ok:
  assumes "carousel_ok em s" and "step_reported em s ev"
  shows "carousel_ok em (carousel_step given em ev s)"
  using assms
  by (cases ev; cases "cs_api s")
    (simp_all add: carousel_step_def scrollPrev_def scrollNext_def carousel_handleKeyDown_def step_reported_def
      move_of_def api_changes_ok engine_moved_ok split: if_splits)

theorem carousel_run_ok:
  assumes "run_reported given em carousel_init evs"
  shows "carousel_ok em (carousel_run given em evs)"
proof -
  have "carousel_ok em (fold (carousel_step given em) evs s)"
    if "carousel_ok em s" and "run_reported given em s evs" for s
    using that by (induction evs arbitrary: s) (auto simp: carousel_step_ok)
  moreover have "carousel_ok em carousel_init" by (simp add: carousel_ok_def carousel_init_def)
  ultimately show ?thesis using assms by (simp add: carousel_run_def)
qed

text \<open>
  The cleanup takes back one of the two registrations only: every engine given up keeps calling
  \<open>onSelect\<close> on \<open>reInit\<close>.
\<close>

lemma api_changes_leaks:
  assumes "carousel_ok em s" and "cs_api s = Some e"
  shows "cs_left (api_changes given em api s) = cs_left s @ [''reInit'']"
  using assms
  by (cases api) (simp_all add: api_changes_def select_effect_def setApi_effect_def carousel_ok_def
      carousel_onSelect_def select_cleanup_def Let_def)

end
