(* ===== verification/Ui_Form.thy ===== *)
theory Ui_Form
  imports Ui_Parts
begin

text \<open>
  The form parts of \<open>components/ui/form.tsx\<close>. The form library (\<open>react-hook-form\<close>) is a parameter: the
  error it reports for a field name, as the error's message when it has one. A part reads the field's
  name and the item's id from two contexts and derives the ids that tie label, control, description
  and message together.
\<close>

section \<open>Contexts\<close>

type_synonym field_state = "string \<Rightarrow> string option option"   \<comment> \<open>error of a field, its message\<close>

record form_field =
  ff_id :: string
  ff_name :: string
  ff_formItemId :: string
  ff_formDescriptionId :: string
  ff_formMessageId :: string
  ff_error :: "string option option"

definition useFormField :: "field_state \<Rightarrow> string option \<Rightarrow> string option \<Rightarrow> string + form_field" where
  "useFormField getFieldState fieldContext itemContext =
     (case fieldContext of
        None \<Rightarrow> Inl ''useFormField should be used within <FormField>''
      | Some name \<Rightarrow>
          (case itemContext of
             None \<Rightarrow> Inl ''useFormField should be used within <FormItem>''
           | Some i \<Rightarrow> Inr
               \<lparr>ff_id = i, ff_name = name, ff_formItemId = i @ ''-form-item'',
                ff_formDescriptionId = i @ ''-form-item-description'', ff_formMessageId = i @ ''-form-item-message'',
                ff_error = getFieldState name\<rparr>))"

text \<open>What a part sees of its surroundings: the form, the enclosing field and the enclosing item.\<close>

record form_scope =
  fs_state :: field_state
  fs_field :: "string option"
  fs_item :: "string option"

definition in_field :: "form_scope \<Rightarrow> (form_field \<Rightarrow> 'l node list) \<Rightarrow> 'l node list" where
  "in_field sc f =
     (case useFormField (fs_state sc) (fs_field sc) (fs_item sc) of Inl e \<Rightarrow> [Throw e] | Inr fd \<Rightarrow> f fd)"

section \<open>Parts\<close>

definition FormField :: "form_scope \<Rightarrow> string \<Rightarrow> (form_scope \<Rightarrow> 'l node list) \<Rightarrow> 'l node list" where
  "FormField sc name render = render (sc\<lparr>fs_field := Some name\<rparr>)"

definition FormItem :: "form_scope \<Rightarrow> string \<Rightarrow> 'l ui_props \<Rightarrow> (form_scope \<Rightarrow> 'l node list) \<Rightarrow> 'l node" where
  "FormItem sc useId p children =
     ui_elem ''div'' [] [] None (p\<lparr>up_children := children (sc\<lparr>fs_item := Some useId\<rparr>)\<rparr>)"

definition FormLabel :: "form_scope \<Rightarrow> 'l ui_props \<Rightarrow> 'l node list" where
  "FormLabel sc p =
     in_field sc (\<lambda>fd. [ui_elem ''Label'' [(''for'', ff_formItemId fd)]
       [if ff_error fd \<noteq> None then ''text-destructive'' else []] None p])"

definition FormControl :: "form_scope \<Rightarrow> 'l ui_props \<Rightarrow> 'l node list" where
  "FormControl sc p =
     in_field sc (\<lambda>fd. [Elem ''Slot''
       (with_attrs
         [(''id'', ff_formItemId fd),
          (''aria-describedby'',
             if ff_error fd = None then ff_formDescriptionId fd
             else ff_formDescriptionId fd @ '' '' @ ff_formMessageId fd),
          (''aria-invalid'', bool_str (ff_error fd \<noteq> None))] (up_attrs p))
       (handler_of None (up_onClick p)) (up_children p)])"

definition FormDescription :: "form_scope \<Rightarrow> 'l ui_props \<Rightarrow> 'l node list" where
  "FormDescription sc p = in_field sc (\<lambda>fd. [ui_elem ''p'' [(''id'', ff_formDescriptionId fd)] [] None p])"

text \<open>\<open>error ? String(error?.message ?? "") : children\<close>; an empty body renders nothing.\<close>

definition message_body :: "form_field \<Rightarrow> 'l node list \<Rightarrow> 'l node list" where
  "message_body fd children =
     (case ff_error fd of
        Some m \<Rightarrow> if nullish m [] = [] then [] else [Text (nullish m [])]
      | None \<Rightarrow> children)"

definition FormMessage :: "form_scope \<Rightarrow> 'l ui_props \<Rightarrow> 'l node list" where
  "FormMessage sc p =
     in_field sc (\<lambda>fd.
       let body = message_body fd (up_children p) in
       if body = [] then []
       else [ui_elem ''p'' [(''id'', ff_formMessageId fd)] [] None (p\<lparr>up_children := body\<rparr>)])"

section \<open>Facts\<close>

lemma in_field_inside:
  "fs_field sc = Some name \<Longrightarrow> fs_item sc = Some i \<Longrightarrow>
   in_field sc f = f \<lparr>ff_id = i, ff_name = name, ff_formItemId = i @ ''-form-item'',
      ff_formDescriptionId = i @ ''-form-item-description'', ff_formMessageId = i @ ''-form-item-message'',
      ff_error = fs_state sc name\<rparr>"
  by (simp add: in_field_def useFormField_def)

lemma parts_outside:
  assumes "fs_field sc = None"
  shows "FormLabel sc p = [Throw ''useFormField should be used within <FormField>'']"
    and "FormMessage sc p = [Throw ''useFormField should be used within <FormField>'']"
  using assms by (simp_all add: FormLabel_def FormMessage_def in_field_def useFormField_def)

text \<open>The label points at the control, in every state of the field.\<close>

lemma label_points_at_control:
  assumes "fs_field sc = Some name" and "fs_item sc = Some i"
    and "map_of (rev (up_attrs p)) ''for'' = None" and "map_of (rev (up_attrs q)) ''id'' = None"
  shows "map (\<lambda>n. node_attr n ''for'') (FormLabel sc p) = map (\<lambda>n. node_attr n ''id'') (FormControl sc q)"
  using assms
  by (simp add: FormLabel_def FormControl_def in_field_inside node_attr_ui_elem map_of_with_attrs)

text \<open>
  The control refers to the message exactly when the field has an error; the message is then
  rendered, unless the error has no text: the reference dangles.
\<close>

lemma error_message_shown:
  assumes "fs_field sc = Some name" and "fs_item sc = Some i" and "fs_state sc name = Some (Some m)"
    and "m \<noteq> []" and "map_of (rev (up_attrs p)) ''id'' = None"
  shows "map (\<lambda>n. node_attr n ''id'') (FormMessage sc p) = [Some (i @ ''-form-item-message'')]"
  using assms by (simp add: FormMessage_def in_field_inside message_body_def node_attr_ui_elem)

lemma empty_error_dangles:
  assumes "fs_field sc = Some name" and "fs_item sc = Some i" and "fs_state sc name = Some None"
    and "map_of (rev (up_attrs q)) ''aria-describedby'' = None"
  shows "FormMessage sc p = []"
    and "map (\<lambda>n. node_attr n ''aria-describedby'') (FormControl sc q)
      = [Some (i @ ''-form-item-description '' @ i @ ''-form-item-message'')]"
  using assms
  by (simp_all add: FormMessage_def FormControl_def in_field_inside message_body_def map_of_with_attrs)

end
