(* ===== verification/Ui_Menus.thy ===== *)
theory Ui_Menus
  imports Ui_Parts
begin

text \<open>
  The menus of \<open>components/ui\<close>: menu bar, drop-down menu, context menu and select box. They wrap the same
  parts of three Radix primitives and of a fourth. The parts are built by the functions of the
  first section, which take the name of the primitive; what a component adds to its primitive is the
  inset class, the indicator in front of the children of an item, the arrow behind those of a
  submenu, the portal around a menu's content, and the defaults of its placement.
\<close>

section \<open>Parts\<close>

definition prim :: "string \<Rightarrow> string \<Rightarrow> string" where
  "prim p part = p @ ''.'' @ part"

definition menu_part :: "string \<Rightarrow> string \<Rightarrow> 'l ui_props \<Rightarrow> 'l node" where
  "menu_part pr part p = ui_elem (prim pr part) [] [] None p"

definition inset_part :: "string \<Rightarrow> string \<Rightarrow> bool \<Rightarrow> 'l ui_props \<Rightarrow> 'l node" where
  "inset_part pr part inset p = ui_elem (prim pr part) [] [if inset then ''pl-8'' else []] None p"

definition sub_trigger :: "string \<Rightarrow> bool \<Rightarrow> 'l ui_props \<Rightarrow> 'l node" where
  "sub_trigger pr inset p = inset_part pr ''SubTrigger'' inset (p\<lparr>up_children := up_children p @ [el ''ChevronRight'' []]\<rparr>)"

definition marked_item :: "string \<Rightarrow> string \<Rightarrow> string \<Rightarrow> 'l ui_props \<Rightarrow> 'l node" where
  "marked_item pr part mark p =
     menu_part pr part (p\<lparr>up_children := el ''span'' [el (prim pr ''ItemIndicator'') [el mark []]] # up_children p\<rparr>)"

definition in_portal :: "string \<Rightarrow> 'l node \<Rightarrow> 'l node" where
  "in_portal pr n = el (prim pr ''Portal'') [n]"

definition menu_shortcut :: "'l ui_props \<Rightarrow> 'l node" where
  "menu_shortcut p = ui_elem ''span'' [] [] None p"

section \<open>Menu bar\<close>

definition MenubarMenu :: "'l ui_props \<Rightarrow> 'l node" where
  "MenubarMenu p = menu_part ''MenubarPrimitive'' ''Menu'' p"

definition MenubarGroup :: "'l ui_props \<Rightarrow> 'l node" where
  "MenubarGroup p = menu_part ''MenubarPrimitive'' ''Group'' p"

definition MenubarPortal :: "'l ui_props \<Rightarrow> 'l node" where
  "MenubarPortal p = menu_part ''MenubarPrimitive'' ''Portal'' p"

definition MenubarRadioGroup :: "'l ui_props \<Rightarrow> 'l node" where
  "MenubarRadioGroup p = menu_part ''MenubarPrimitive'' ''RadioGroup'' p"

definition MenubarSub :: "'l ui_props \<Rightarrow> 'l node" where
  "MenubarSub p = ui_elem (prim ''MenubarPrimitive'' ''Sub'') [(''data-slot'', ''menubar-sub'')] [] None p"

definition Menubar :: "'l ui_props \<Rightarrow> 'l node" where
  "Menubar p = menu_part ''MenubarPrimitive'' ''Root'' p"

definition MenubarTrigger :: "'l ui_props \<Rightarrow> 'l node" where
  "MenubarTrigger p = menu_part ''MenubarPrimitive'' ''Trigger'' p"

definition MenubarSubTrigger :: "bool \<Rightarrow> 'l ui_props \<Rightarrow> 'l node" where
  "MenubarSubTrigger inset p = sub_trigger ''MenubarPrimitive'' inset p"

definition MenubarSubContent :: "'l ui_props \<Rightarrow> 'l node" where
  "MenubarSubContent p = menu_part ''MenubarPrimitive'' ''SubContent'' p"

definition MenubarContent :: "'l ui_props \<Rightarrow> 'l node" where
  "MenubarContent p = in_portal ''MenubarPrimitive'' (ui_elem (prim ''MenubarPrimitive'' ''Content'') [(''align'', ''start''), (''alignOffset'', ''-4''), (''sideOffset'', ''8'')] [] None p)"

definition MenubarItem :: "bool \<Rightarrow> 'l ui_props \<Rightarrow> 'l node" where
  "MenubarItem inset p = inset_part ''MenubarPrimitive'' ''Item'' inset p"

definition MenubarCheckboxItem :: "'l ui_props \<Rightarrow> 'l node" where
  "MenubarCheckboxItem p = marked_item ''MenubarPrimitive'' ''CheckboxItem'' ''Check'' p"

definition MenubarRadioItem :: "'l ui_props \<Rightarrow> 'l node" where
  "MenubarRadioItem p = marked_item ''MenubarPrimitive'' ''RadioItem'' ''Circle'' p"

definition MenubarLabel :: "bool \<Rightarrow> 'l ui_props \<Rightarrow> 'l node" where
  "MenubarLabel inset p = inset_part ''MenubarPrimitive'' ''Label'' inset p"

definition MenubarSeparator :: "'l ui_props \<Rightarrow> 'l node" where
  "MenubarSeparator p = menu_part ''MenubarPrimitive'' ''Separator'' p"

definition MenubarShortcut :: "'l ui_props \<Rightarrow> 'l node" where
  "MenubarShortcut p = menu_shortcut p"

section \<open>Drop-down menu\<close>

definition DropdownMenuSubTrigger :: "bool \<Rightarrow> 'l ui_props \<Rightarrow> 'l node" where
  "DropdownMenuSubTrigger inset p = sub_trigger ''DropdownMenuPrimitive'' inset p"

definition DropdownMenuSubContent :: "'l ui_props \<Rightarrow> 'l node" where
  "DropdownMenuSubContent p = menu_part ''DropdownMenuPrimitive'' ''SubContent'' p"

definition DropdownMenuContent :: "'l ui_props \<Rightarrow> 'l node" where
  "DropdownMenuContent p = in_portal ''DropdownMenuPrimitive'' (ui_elem (prim ''DropdownMenuPrimitive'' ''Content'') [(''sideOffset'', ''4'')] [] None p)"

definition DropdownMenuItem :: "bool \<Rightarrow> 'l ui_props \<Rightarrow> 'l node" where
  "DropdownMenuItem inset p = inset_part ''DropdownMenuPrimitive'' ''Item'' inset p"

definition DropdownMenuCheckboxItem :: "'l ui_props \<Rightarrow> 'l node" where
  "DropdownMenuCheckboxItem p = marked_item ''DropdownMenuPrimitive'' ''CheckboxItem'' ''Check'' p"

definition DropdownMenuRadioItem :: "'l ui_props \<Rightarrow> 'l node" where
  "DropdownMenuRadioItem p = marked_item ''DropdownMenuPrimitive'' ''RadioItem'' ''Circle'' p"

definition DropdownMenuLabel :: "bool \<Rightarrow> 'l ui_props \<Rightarrow> 'l node" where
  "DropdownMenuLabel inset p = inset_part ''DropdownMenuPrimitive'' ''Label'' inset p"

definition DropdownMenuSeparator :: "'l ui_props \<Rightarrow> 'l node" where
  "DropdownMenuSeparator p = menu_part ''DropdownMenuPrimitive'' ''Separator'' p"

definition DropdownMenuShortcut :: "'l ui_props \<Rightarrow> 'l node" where
  "DropdownMenuShortcut p = menu_shortcut p"

section \<open>Context menu\<close>

definition ContextMenuSubTrigger :: "bool \<Rightarrow> 'l ui_props \<Rightarrow> 'l node" where
  "ContextMenuSubTrigger inset p = sub_trigger ''ContextMenuPrimitive'' inset p"

definition ContextMenuSubContent :: "'l ui_props \<Rightarrow> 'l node" where
  "ContextMenuSubContent p = menu_part ''ContextMenuPrimitive'' ''SubContent'' p"

definition ContextMenuContent :: "'l ui_props \<Rightarrow> 'l node" where
  "ContextMenuContent p = in_portal ''ContextMenuPrimitive'' (ui_elem (prim ''ContextMenuPrimitive'' ''Content'') [] [] None p)"

definition ContextMenuItem :: "bool \<Rightarrow> 'l ui_props \<Rightarrow> 'l node" where
  "ContextMenuItem inset p = inset_part ''ContextMenuPrimitive'' ''Item'' inset p"

definition ContextMenuCheckboxItem :: "'l ui_props \<Rightarrow> 'l node" where
  "ContextMenuCheckboxItem p = marked_item ''ContextMenuPrimitive'' ''CheckboxItem'' ''Check'' p"

definition ContextMenuRadioItem :: "'l ui_props \<Rightarrow> 'l node" where
  "ContextMenuRadioItem p = marked_item ''ContextMenuPrimitive'' ''RadioItem'' ''Circle'' p"

definition ContextMenuLabel :: "bool \<Rightarrow> 'l ui_props \<Rightarrow> 'l node" where
  "ContextMenuLabel inset p = inset_part ''ContextMenuPrimitive'' ''Label'' inset p"

definition ContextMenuSeparator :: "'l ui_props \<Rightarrow> 'l node" where
  "ContextMenuSeparator p = menu_part ''ContextMenuPrimitive'' ''Separator'' p"

definition ContextMenuShortcut :: "'l ui_props \<Rightarrow> 'l node" where
  "ContextMenuShortcut p = menu_shortcut p"

section \<open>Select box\<close>

definition SelectTrigger :: "'l ui_props \<Rightarrow> 'l node" where
  "SelectTrigger p =
     menu_part ''SelectPrimitive'' ''Trigger''
       (p\<lparr>up_children := up_children p @ [ela (prim ''SelectPrimitive'' ''Icon'') [(''asChild'', ''true'')] [el ''ChevronDown'' []]]\<rparr>)"

definition SelectScrollUpButton :: "'l ui_props \<Rightarrow> 'l node" where
  "SelectScrollUpButton p = menu_part ''SelectPrimitive'' ''ScrollUpButton'' (p\<lparr>up_children := [el ''ChevronUp'' []]\<rparr>)"

definition SelectScrollDownButton :: "'l ui_props \<Rightarrow> 'l node" where
  "SelectScrollDownButton p = menu_part ''SelectPrimitive'' ''ScrollDownButton'' (p\<lparr>up_children := [el ''ChevronDown'' []]\<rparr>)"

definition popper_class :: string where
  "popper_class = ''data-[side=bottom]:translate-y-1 data-[side=left]:-translate-x-1 data-[side=right]:translate-x-1 data-[side=top]:-translate-y-1''"

definition popper_viewport_class :: string where
  "popper_viewport_class = ''h-[var(--radix-select-trigger-height)] w-full min-w-[var(--radix-select-trigger-width)]''"

definition SelectContent :: "string option \<Rightarrow> 'l ui_props \<Rightarrow> 'l node" where
  "SelectContent position p =
     (let pos = nullish position ''popper''; popper = (pos = ''popper'') in
      in_portal ''SelectPrimitive''
        (ui_elem (prim ''SelectPrimitive'' ''Content'') [(''position'', pos)] [if popper then popper_class else []] None
          (p\<lparr>up_children :=
              [SelectScrollUpButton no_props,
               ela (prim ''SelectPrimitive'' ''Viewport'') (cn [if popper then popper_viewport_class else []] None) (up_children p),
               SelectScrollDownButton no_props]\<rparr>)))"

definition SelectLabel :: "'l ui_props \<Rightarrow> 'l node" where
  "SelectLabel p = menu_part ''SelectPrimitive'' ''Label'' p"

definition SelectItem :: "'l ui_props \<Rightarrow> 'l node" where
  "SelectItem p =
     menu_part ''SelectPrimitive'' ''Item''
       (p\<lparr>up_children := [el ''span'' [el (prim ''SelectPrimitive'' ''ItemIndicator'') [el ''Check'' []]],
           el (prim ''SelectPrimitive'' ''ItemText'') (up_children p)]\<rparr>)"

definition SelectSeparator :: "'l ui_props \<Rightarrow> 'l node" where
  "SelectSeparator p = menu_part ''SelectPrimitive'' ''Separator'' p"

section \<open>Facts\<close>

text \<open>Choosing an entry does what the caller gave as handler, and nothing when it is disabled.\<close>

lemma menu_item_click:
  assumes "map_of (rev (up_attrs p)) ''disabled'' = None"
  shows "click (inset_part pr part inset p) [] = nullish (up_onClick p) []"
    and "click (marked_item pr part mark p) [] = nullish (up_onClick p) []"
  using assms
  by (simp_all add: inset_part_def marked_item_def menu_part_def click_ui_elem nullish_def)

lemma disabled_item_click:
  assumes "map_of (rev (up_attrs p)) ''disabled'' = Some ''true''"
  shows "click (inset_part pr part inset p) path = [StopPropagation]"
  using assms by (cases path) (simp_all add: inset_part_def ui_elem_def is_disabled_def map_of_with_attrs)

text \<open>The entries of a select box keep their order between the two scroll buttons, in either placement.\<close>

lemma SelectContent_entries:
  "\<exists>attrs a1 hs up dn. SelectContent position p =
     el ''SelectPrimitive.Portal'' [Elem ''SelectPrimitive.Content'' attrs hs
       [up, ela ''SelectPrimitive.Viewport'' a1 (up_children p), dn]]"
  by (simp add: SelectContent_def in_portal_def prim_def ui_elem_def Let_def) blast

text \<open>What the caller says of the placement wins over the default.\<close>

lemma MenubarContent_align:
  assumes "map_of (rev (up_attrs p)) ''align'' = Some v"
  shows "\<exists>attrs hs kids. MenubarContent p = el ''MenubarPrimitive.Portal'' [Elem ''MenubarPrimitive.Content'' attrs hs kids]
     \<and> map_of attrs ''align'' = Some v"
  using assms by (simp add: MenubarContent_def in_portal_def prim_def ui_elem_def el_def map_of_with_attrs)

end
