(* ===== verification/Ui_Overlays.thy ===== *)
theory Ui_Overlays
  imports Ui_Menus
begin

text \<open>
  The overlays of \<open>components/ui\<close>: dialog, alert dialog, sheet, drawer, popover, tooltip, hover card and
  command palette. Opening, closing and focus are the primitives'; the wrappers decide what an
  overlay contains: its backdrop, its close button, its placement and its variants.
\<close>

section \<open>Dialog\<close>

text \<open>The close button in the corner of dialogs and sheets.\<close>

definition corner_close :: "string \<Rightarrow> 'l node" where
  "corner_close pr = el (prim pr ''Close'') [el ''X'' [], ela ''span'' (cls ''sr-only'') [Text ''Close'']]"

definition DialogOverlay :: "'l ui_props \<Rightarrow> 'l node" where
  "DialogOverlay p = menu_part ''DialogPrimitive'' ''Overlay'' p"

definition DialogContent :: "'l ui_props \<Rightarrow> 'l node" where
  "DialogContent p =
     el (prim ''DialogPrimitive'' ''Portal'')
       [DialogOverlay no_props,
        menu_part ''DialogPrimitive'' ''Content'' (p\<lparr>up_children := up_children p @ [corner_close ''DialogPrimitive'']\<rparr>)]"

definition DialogHeader :: "'l ui_props \<Rightarrow> 'l node" where
  "DialogHeader p = ui_elem ''div'' [] [] None p"

definition DialogFooter :: "'l ui_props \<Rightarrow> 'l node" where
  "DialogFooter p = ui_elem ''div'' [] [] None p"

definition DialogTitle :: "'l ui_props \<Rightarrow> 'l node" where
  "DialogTitle p = menu_part ''DialogPrimitive'' ''Title'' p"

definition DialogDescription :: "'l ui_props \<Rightarrow> 'l node" where
  "DialogDescription p = menu_part ''DialogPrimitive'' ''Description'' p"

section \<open>Alert dialog\<close>

definition AlertDialogOverlay :: "'l ui_props \<Rightarrow> 'l node" where
  "AlertDialogOverlay p = menu_part ''AlertDialogPrimitive'' ''Overlay'' p"

definition AlertDialogContent :: "'l ui_props \<Rightarrow> 'l node" where
  "AlertDialogContent p =
     el (prim ''AlertDialogPrimitive'' ''Portal'')
       [AlertDialogOverlay no_props, menu_part ''AlertDialogPrimitive'' ''Content'' p]"

definition AlertDialogHeader :: "'l ui_props \<Rightarrow> 'l node" where
  "AlertDialogHeader p = ui_elem ''div'' [] [] None p"

definition AlertDialogFooter :: "'l ui_props \<Rightarrow> 'l node" where
  "AlertDialogFooter p = ui_elem ''div'' [] [] None p"

definition AlertDialogTitle :: "'l ui_props \<Rightarrow> 'l node" where
  "AlertDialogTitle p = menu_part ''AlertDialogPrimitive'' ''Title'' p"

definition AlertDialogDescription :: "'l ui_props \<Rightarrow> 'l node" where
  "AlertDialogDescription p = menu_part ''AlertDialogPrimitive'' ''Description'' p"

definition AlertDialogAction :: "'l ui_props \<Rightarrow> 'l node" where
  "AlertDialogAction p = ui_elem (prim ''AlertDialogPrimitive'' ''Action'') [] (buttonVariants None None) None p"

definition AlertDialogCancel :: "'l ui_props \<Rightarrow> 'l node" where
  "AlertDialogCancel p =
     ui_elem (prim ''AlertDialogPrimitive'' ''Cancel'') [] (buttonVariants (Some ''outline'') None @ [''mt-2 sm:mt-0'']) None p"

section \<open>Sheet and drawer\<close>

definition SheetOverlay :: "'l ui_props \<Rightarrow> 'l node" where
  "SheetOverlay p = menu_part ''SheetPrimitive'' ''Overlay'' p"

definition sheetVariants :: "string option \<Rightarrow> string" where
  "sheetVariants sd =
     cva_choice
       [(''top'', ''inset-x-0 top-0 border-b data-[state=closed]:slide-out-to-top data-[state=open]:slide-in-from-top''),
        (''bottom'', ''inset-x-0 bottom-0 border-t data-[state=closed]:slide-out-to-bottom data-[state=open]:slide-in-from-bottom''),
        (''left'', ''inset-y-0 left-0 h-full w-3/4 border-r data-[state=closed]:slide-out-to-left data-[state=open]:slide-in-from-left sm:max-w-sm''),
        (''right'', ''inset-y-0 right-0 h-full w-3/4 border-l data-[state=closed]:slide-out-to-right data-[state=open]:slide-in-from-right sm:max-w-sm'')]
       ''right'' sd"

definition SheetContent :: "string option \<Rightarrow> 'l ui_props \<Rightarrow> 'l node" where
  "SheetContent sd p =
     el (prim ''SheetPrimitive'' ''Portal'')
       [SheetOverlay no_props,
        ui_elem (prim ''SheetPrimitive'' ''Content'') [] [sheetVariants (Some (nullish sd ''right''))] None
          (p\<lparr>up_children := corner_close ''SheetPrimitive'' # up_children p\<rparr>)]"

definition SheetHeader :: "'l ui_props \<Rightarrow> 'l node" where
  "SheetHeader p = ui_elem ''div'' [] [] None p"

definition SheetFooter :: "'l ui_props \<Rightarrow> 'l node" where
  "SheetFooter p = ui_elem ''div'' [] [] None p"

definition SheetTitle :: "'l ui_props \<Rightarrow> 'l node" where
  "SheetTitle p = menu_part ''SheetPrimitive'' ''Title'' p"

definition SheetDescription :: "'l ui_props \<Rightarrow> 'l node" where
  "SheetDescription p = menu_part ''SheetPrimitive'' ''Description'' p"

definition Drawer :: "bool option \<Rightarrow> 'l ui_props \<Rightarrow> 'l node" where
  "Drawer shouldScaleBackground p =
     Elem (prim ''DrawerPrimitive'' ''Root'')
       (with_attrs [(''shouldScaleBackground'', bool_str (nullish shouldScaleBackground True))] (up_attrs p)) [] (up_children p)"

definition DrawerOverlay :: "'l ui_props \<Rightarrow> 'l node" where
  "DrawerOverlay p = menu_part ''DrawerPrimitive'' ''Overlay'' p"

definition DrawerContent :: "'l ui_props \<Rightarrow> 'l node" where
  "DrawerContent p =
     el (prim ''DrawerPrimitive'' ''Portal'')
       [DrawerOverlay no_props,
        menu_part ''DrawerPrimitive'' ''Content'' (p\<lparr>up_children := el ''div'' [] # up_children p\<rparr>)]"

definition DrawerHeader :: "'l ui_props \<Rightarrow> 'l node" where
  "DrawerHeader p = ui_elem ''div'' [] [] None p"

definition DrawerFooter :: "'l ui_props \<Rightarrow> 'l node" where
  "DrawerFooter p = ui_elem ''div'' [] [] None p"

definition DrawerTitle :: "'l ui_props \<Rightarrow> 'l node" where
  "DrawerTitle p = menu_part ''DrawerPrimitive'' ''Title'' p"

definition DrawerDescription :: "'l ui_props \<Rightarrow> 'l node" where
  "DrawerDescription p = menu_part ''DrawerPrimitive'' ''Description'' p"

section \<open>Popover, tooltip, hover card\<close>

definition PopoverContent :: "'l ui_props \<Rightarrow> 'l node" where
  "PopoverContent p =
     in_portal ''PopoverPrimitive''
       (ui_elem (prim ''PopoverPrimitive'' ''Content'') [(''align'', ''center''), (''sideOffset'', ''4'')] [] None p)"

definition TooltipContent :: "'l ui_props \<Rightarrow> 'l node" where
  "TooltipContent p =
     in_portal ''TooltipPrimitive'' (ui_elem (prim ''TooltipPrimitive'' ''Content'') [(''sideOffset'', ''4'')] [] None p)"

definition HoverCardContent :: "'l ui_props \<Rightarrow> 'l node" where
  "HoverCardContent p =
     ui_elem (prim ''HoverCardPrimitive'' ''Content'') [(''align'', ''center''), (''sideOffset'', ''4'')] [] None p"

section \<open>Command palette\<close>

definition Command :: "'l ui_props \<Rightarrow> 'l node" where
  "Command p = ui_elem ''CommandPrimitive'' [] [] None p"

definition CommandDialog :: "'l ui_props \<Rightarrow> 'l node" where
  "CommandDialog p =
     Elem (prim ''DialogPrimitive'' ''Root'') (up_attrs p) []
       [DialogContent (no_props\<lparr>up_className := Some ''overflow-hidden p-0'',
          up_children := [Command (no_props\<lparr>up_children := up_children p\<rparr>)]\<rparr>)]"

definition CommandInput :: "'l ui_props \<Rightarrow> 'l node" where
  "CommandInput p =
     ela ''div'' [(''cmdk-input-wrapper'', [])] [el ''Search'' [], menu_part ''CommandPrimitive'' ''Input'' p]"

definition CommandList :: "'l ui_props \<Rightarrow> 'l node" where
  "CommandList p = menu_part ''CommandPrimitive'' ''List'' p"

definition CommandEmpty :: "'l ui_props \<Rightarrow> 'l node" where
  "CommandEmpty p = menu_part ''CommandPrimitive'' ''Empty'' p"

definition CommandGroup :: "'l ui_props \<Rightarrow> 'l node" where
  "CommandGroup p = menu_part ''CommandPrimitive'' ''Group'' p"

definition CommandSeparator :: "'l ui_props \<Rightarrow> 'l node" where
  "CommandSeparator p = menu_part ''CommandPrimitive'' ''Separator'' p"

definition CommandItem :: "'l ui_props \<Rightarrow> 'l node" where
  "CommandItem p = menu_part ''CommandPrimitive'' ''Item'' p"

definition CommandShortcut :: "'l ui_props \<Rightarrow> 'l node" where
  "CommandShortcut p = menu_shortcut p"

section \<open>Facts\<close>

fun tags :: "'l node \<Rightarrow> string list" where
  "tags (Elem tag attrs hs kids) = tag # concat (map tags kids)"
| "tags (ConfirmDialog c tr effs) = tags tr"
| "tags _ = []"

lemma tags_el [simp]: "tags (el t ks) = t # concat (map tags ks)" "tags (ela t a ks) = t # concat (map tags ks)"
  by (simp_all add: node_builders)

lemma tags_ui_elem [simp]: "tags (ui_elem t base cs own p) = t # concat (map tags (up_children p))"
  by (simp add: ui_elem_def)

lemma up_children_no_props [simp]: "up_children no_props = []"
  by (simp add: no_props_def)

lemmas overlay_defs = DialogContent_def SheetContent_def DrawerContent_def AlertDialogContent_def DialogOverlay_def
  SheetOverlay_def DrawerOverlay_def AlertDialogOverlay_def menu_part_def corner_close_def prim_def CommandDialog_def Command_def

text \<open>Dialogs, sheets and the command palette can always be left: their content has a close button of its own.\<close>

lemma overlays_close:
  "''DialogPrimitive.Close'' \<in> set (tags (DialogContent p))"
  "''SheetPrimitive.Close'' \<in> set (tags (SheetContent sd p))"
  "''DialogPrimitive.Close'' \<in> set (tags (CommandDialog p))"
  by (simp_all add: overlay_defs)

text \<open>An alert dialog and a drawer contain only what the caller puts there: leaving them is up to the caller.\<close>

lemma alert_content_tags:
  "tags (AlertDialogContent p) =
     [''AlertDialogPrimitive.Portal'', ''AlertDialogPrimitive.Overlay'', ''AlertDialogPrimitive.Content'']
       @ concat (map tags (up_children p))"
  "tags (DrawerContent p) =
     [''DrawerPrimitive.Portal'', ''DrawerPrimitive.Overlay'', ''DrawerPrimitive.Content'', ''div'']
       @ concat (map tags (up_children p))"
  by (simp_all add: overlay_defs)

text \<open>The two buttons of an alert dialog differ for every caller that does not restyle them.\<close>

lemma alert_buttons_differ: "buttonVariants None None \<noteq> buttonVariants (Some ''outline'') None @ rest"
  by (simp add: buttonVariants_def cva_choice_def button_variants_def)

lemma sheet_default_side: "SheetContent None p = SheetContent (Some ''right'') p"
  by (simp add: SheetContent_def)

end
