(* ===== verification/Ui_Basics.thy ===== *)
theory Ui_Basics
  imports Ui_Parts
begin

text \<open>
  The parts of \<open>components/ui\<close> whose only choice is a class: cards, tables, tabs, avatars, inputs, labels and the
  remaining parts of alerts, accordions, radio groups and the navigation menu; the toaster, and the calendar with its class table. The class of a
  part is kept in full here, before the caller's. \<open>primitive\<close> is a component that is the third-party one under another name. The class names
  of \<open>react-day-picker\<close> (\<open>getDefaultClassNames\<close>) and the month names of the host are parameters.
\<close>

section \<open>Elements with a class\<close>

definition primitive :: "string \<Rightarrow> 'l ui_props \<Rightarrow> 'l node" where
  "primitive tag p =
     Elem tag (with_attrs (case up_className p of None \<Rightarrow> [] | Some c \<Rightarrow> cls c) (up_attrs p)) (handler_of None (up_onClick p)) (up_children p)"

definition AspectRatio :: "'l ui_props \<Rightarrow> 'l node" where
  "AspectRatio p = primitive ''AspectRatioPrimitive.Root'' p"

definition AlertTitle :: "'l ui_props \<Rightarrow> 'l node" where
  "AlertTitle p = ui_elem ''h5'' [] [''mb-1 font-medium leading-none tracking-tight''] None p"

definition AlertDescription :: "'l ui_props \<Rightarrow> 'l node" where
  "AlertDescription p = ui_elem ''div'' [] [''text-sm [&_p]:leading-relaxed''] None p"

definition AccordionItem :: "'l ui_props \<Rightarrow> 'l node" where
  "AccordionItem p = ui_elem ''AccordionPrimitive.Item'' [] [''border-b''] None p"

definition RadioGroup :: "'l ui_props \<Rightarrow> 'l node" where
  "RadioGroup p = ui_elem ''RadioGroupPrimitive.Root'' [] [''grid gap-2''] None p"

definition Avatar :: "'l ui_props \<Rightarrow> 'l node" where
  "Avatar p = ui_elem ''AvatarPrimitive.Root'' [] [''relative flex h-10 w-10 shrink-0 overflow-hidden rounded-full''] None p"

definition AvatarImage :: "'l ui_props \<Rightarrow> 'l node" where
  "AvatarImage p = ui_elem ''AvatarPrimitive.Image'' [] [''aspect-square h-full w-full''] None p"

definition AvatarFallback :: "'l ui_props \<Rightarrow> 'l node" where
  "AvatarFallback p = ui_elem ''AvatarPrimitive.Fallback'' [] [''flex h-full w-full items-center justify-center rounded-full bg-muted''] None p"

definition Card :: "'l ui_props \<Rightarrow> 'l node" where
  "Card p = ui_elem ''div'' [] [''rounded-xl border bg-card text-card-foreground shadow''] None p"

definition CardHeader :: "'l ui_props \<Rightarrow> 'l node" where
  "CardHeader p = ui_elem ''div'' [] [''flex flex-col space-y-1.5 p-6''] None p"

definition CardTitle :: "'l ui_props \<Rightarrow> 'l node" where
  "CardTitle p = ui_elem ''div'' [] [''font-semibold leading-none tracking-tight''] None p"

definition CardDescription :: "'l ui_props \<Rightarrow> 'l node" where
  "CardDescription p = ui_elem ''div'' [] [''text-sm text-muted-foreground''] None p"

definition CardContent :: "'l ui_props \<Rightarrow> 'l node" where
  "CardContent p = ui_elem ''div'' [] [''p-6 pt-0''] None p"

definition CardFooter :: "'l ui_props \<Rightarrow> 'l node" where
  "CardFooter p = ui_elem ''div'' [] [''flex items-center p-6 pt-0''] None p"

definition Collapsible :: "'l ui_props \<Rightarrow> 'l node" where
  "Collapsible p = primitive ''CollapsiblePrimitive.Root'' p"

definition CollapsibleTrigger :: "'l ui_props \<Rightarrow> 'l node" where
  "CollapsibleTrigger p = primitive ''CollapsiblePrimitive.CollapsibleTrigger'' p"

definition CollapsibleContent :: "'l ui_props \<Rightarrow> 'l node" where
  "CollapsibleContent p = primitive ''CollapsiblePrimitive.CollapsibleContent'' p"

definition Skeleton :: "'l ui_props \<Rightarrow> 'l node" where
  "Skeleton p = ui_elem ''div'' [] [''animate-pulse rounded-md bg-primary/10''] None p"

definition Textarea :: "'l ui_props \<Rightarrow> 'l node" where
  "Textarea p = ui_elem ''textarea'' [] [''flex min-h-[60px] w-full rounded-md border border-input bg-transparent px-3 py-2 text-base shadow-sm placeholder:text-muted-foreground focus-visible:outline-none focus-visible:ring-1 focus-visible:ring-ring disabled:cursor-not-allowed disabled:opacity-50 md:text-sm''] None p"

text \<open>\<open>type\<close> is taken out of the properties and passed on, also when it is \<open>undefined\<close>.\<close>

definition Input :: "string option \<Rightarrow> 'l ui_props \<Rightarrow> 'l node" where
  "Input type p =
     ui_elem ''input'' (case type of None \<Rightarrow> [] | Some t \<Rightarrow> [(''type'', t)])
       [''flex h-9 w-full rounded-md border border-input bg-transparent px-3 py-1 text-base shadow-sm transition-colors file:border-0 file:bg-transparent file:text-sm file:font-medium file:text-foreground placeholder:text-muted-foreground focus-visible:outline-none focus-visible:ring-1 focus-visible:ring-ring disabled:cursor-not-allowed disabled:opacity-50 md:text-sm''] None p"

definition labelVariants :: string where
  "labelVariants = ''text-sm font-medium leading-none peer-disabled:cursor-not-allowed peer-disabled:opacity-70''"

definition Label :: "'l ui_props \<Rightarrow> 'l node" where
  "Label p = ui_elem ''LabelPrimitive.Root'' [] [labelVariants] None p"

text \<open>The table scrolls inside its own box; the properties are the table's.\<close>

definition Table :: "'l ui_props \<Rightarrow> 'l node" where
  "Table p =
     ela ''div'' (cls ''relative w-full overflow-auto'') [ui_elem ''table'' [] [''w-full caption-bottom text-sm''] None p]"

definition TableHeader :: "'l ui_props \<Rightarrow> 'l node" where
  "TableHeader p = ui_elem ''thead'' [] [''[&_tr]:border-b''] None p"

definition TableBody :: "'l ui_props \<Rightarrow> 'l node" where
  "TableBody p = ui_elem ''tbody'' [] [''[&_tr:last-child]:border-0''] None p"

definition TableFooter :: "'l ui_props \<Rightarrow> 'l node" where
  "TableFooter p = ui_elem ''tfoot'' [] [''border-t bg-muted/50 font-medium [&>tr]:last:border-b-0''] None p"

definition TableRow :: "'l ui_props \<Rightarrow> 'l node" where
  "TableRow p = ui_elem ''tr'' [] [''border-b transition-colors hover:bg-muted/50 data-[state=selected]:bg-muted''] None p"

definition TableHead :: "'l ui_props \<Rightarrow> 'l node" where
  "TableHead p = ui_elem ''th'' [] [''h-10 px-2 text-left align-middle font-medium text-muted-foreground [&:has([role=checkbox])]:pr-0 [&>[role=checkbox]]:translate-y-[2px]''] None p"

definition TableCell :: "'l ui_props \<Rightarrow> 'l node" where
  "TableCell p = ui_elem ''td'' [] [''p-2 align-middle [&:has([role=checkbox])]:pr-0 [&>[role=checkbox]]:translate-y-[2px]''] None p"

definition TableCaption :: "'l ui_props \<Rightarrow> 'l node" where
  "TableCaption p = ui_elem ''caption'' [] [''mt-4 text-sm text-muted-foreground''] None p"

definition Tabs :: "'l ui_props \<Rightarrow> 'l node" where
  "Tabs p = primitive ''TabsPrimitive.Root'' p"

definition TabsList :: "'l ui_props \<Rightarrow> 'l node" where
  "TabsList p = ui_elem ''TabsPrimitive.List'' [] [''inline-flex h-9 items-center justify-center rounded-lg bg-muted p-1 text-muted-foreground''] None p"

definition TabsTrigger :: "'l ui_props \<Rightarrow> 'l node" where
  "TabsTrigger p = ui_elem ''TabsPrimitive.Trigger'' [] [''inline-flex items-center justify-center whitespace-nowrap rounded-md px-3 py-1 text-sm font-medium ring-offset-background cursor-pointer transition-colors focus-visible:outline-none focus-visible:ring-2 focus-visible:ring-ring focus-visible:ring-offset-2 disabled:pointer-events-none disabled:opacity-50 disabled:cursor-not-allowed data-[state=active]:bg-background data-[state=active]:text-foreground''] None p"

definition TabsContent :: "'l ui_props \<Rightarrow> 'l node" where
  "TabsContent p = ui_elem ''TabsPrimitive.Content'' [] [''mt-2 ring-offset-background focus-visible:outline-none focus-visible:ring-2 focus-visible:ring-ring focus-visible:ring-offset-2''] None p"

definition NavigationMenuList :: "'l ui_props \<Rightarrow> 'l node" where
  "NavigationMenuList p = ui_elem ''NavigationMenuPrimitive.List'' [] [''group flex flex-1 list-none items-center justify-center space-x-1''] None p"

definition NavigationMenuContent :: "'l ui_props \<Rightarrow> 'l node" where
  "NavigationMenuContent p = ui_elem ''NavigationMenuPrimitive.Content'' [] [''left-0 top-0 w-full data-[motion^=from-]:animate-in data-[motion^=to-]:animate-out data-[motion^=from-]:fade-in data-[motion^=to-]:fade-out data-[motion=from-end]:slide-in-from-right-52 data-[motion=from-start]:slide-in-from-left-52 data-[motion=to-end]:slide-out-to-right-52 data-[motion=to-start]:slide-out-to-left-52 md:absolute md:w-auto ''] None p"

definition NavigationMenuItem :: "'l ui_props \<Rightarrow> 'l node" where
  "NavigationMenuItem p = primitive ''NavigationMenuPrimitive.Item'' p"

definition NavigationMenuLink :: "'l ui_props \<Rightarrow> 'l node" where
  "NavigationMenuLink p = primitive ''NavigationMenuPrimitive.Link'' p"

definition navigationMenuTriggerStyle :: string where
  "navigationMenuTriggerStyle = ''group inline-flex h-9 w-max items-center justify-center rounded-md bg-background px-4 py-2 text-sm font-medium cursor-pointer transition-colors hover:bg-accent hover:text-accent-foreground focus:bg-accent focus:text-accent-foreground focus:outline-none disabled:pointer-events-none disabled:opacity-50 disabled:cursor-not-allowed data-[state=open]:text-accent-foreground data-[state=open]:bg-accent/50 data-[state=open]:hover:bg-accent data-[state=open]:focus:bg-accent''"

section \<open>Toaster\<close>

text \<open>The class names a caller's \<open>toastOptions\<close> would replace as a whole.\<close>

definition toast_classNames :: "(string \<times> string) list" where
  "toast_classNames =
     [(''toast'', ''group toast group-[.toaster]:bg-background group-[.toaster]:text-foreground group-[.toaster]:border-border group-[.toaster]:shadow-lg''),
      (''description'', ''group-[.toast]:text-muted-foreground''),
      (''actionButton'', ''group-[.toast]:bg-primary group-[.toast]:text-primary-foreground''),
      (''cancelButton'', ''group-[.toast]:bg-muted group-[.toast]:text-muted-foreground'')]"

record sonner =
  sn_className :: string
  sn_classNames :: "(string \<times> string) list"
  sn_attrs :: "(string \<times> string) list"

definition Toaster :: "(string \<times> string) list option \<Rightarrow> 'l ui_props \<Rightarrow> sonner" where
  "Toaster toastOptions p =
     \<lparr>sn_className = nullish (up_className p) ''toaster group'', sn_classNames = nullish toastOptions toast_classNames,
      sn_attrs = up_attrs p\<rparr>"

section \<open>Calendar\<close>

text \<open>\<open>cn\<close> of texts that are all present: the arguments in order, as in \<open>cn\<close> of \<open>Ui_Base\<close>.\<close>

definition cn_text :: "string list \<Rightarrow> string" where
  "cn_text cs = join_with '' '' (filter (\<lambda>c. c \<noteq> []) cs)"

text \<open>The class table: \<open>dflt\<close> is \<open>getDefaultClassNames\<close>.\<close>

definition calendar_classNames :: "(string \<Rightarrow> string) \<Rightarrow> string \<Rightarrow> string \<Rightarrow> (string \<times> string) list" where
  "calendar_classNames dflt captionLayout buttonVariant =
     [(''root'', cn_text [''w-fit'', dflt ''root'']),
      (''months'', cn_text [''relative flex flex-col gap-4 md:flex-row'', dflt ''months'']),
      (''month'', cn_text [''flex w-full flex-col gap-4'', dflt ''month'']),
      (''nav'', cn_text [''absolute inset-x-0 top-0 flex w-full items-center justify-between gap-1'', dflt ''nav'']),
      (''button_previous'', cn_text (buttonVariants (Some buttonVariant) None @ [''h-(--cell-size) w-(--cell-size) select-none p-0 aria-disabled:opacity-50'', dflt ''button_previous''])),
      (''button_next'', cn_text (buttonVariants (Some buttonVariant) None @ [''h-(--cell-size) w-(--cell-size) select-none p-0 aria-disabled:opacity-50'', dflt ''button_next''])),
      (''month_caption'', cn_text [''flex h-(--cell-size) w-full items-center justify-center px-(--cell-size)'', dflt ''month_caption'']),
      (''dropdowns'', cn_text [''flex h-(--cell-size) w-full items-center justify-center gap-1.5 text-sm font-medium'', dflt ''dropdowns'']),
      (''dropdown_root'', cn_text [''has-focus:border-ring border-input shadow-xs has-focus:ring-ring/50 has-focus:ring-[3px] relative rounded-md border'', dflt ''dropdown_root'']),
      (''dropdown'', cn_text [''bg-popover absolute inset-0 opacity-0'', dflt ''dropdown'']),
      (''caption_label'', cn_text [''select-none font-medium'', if captionLayout = ''label'' then ''text-sm'' else ''[&>svg]:text-muted-foreground flex h-8 items-center gap-1 rounded-md pl-2 pr-1 text-sm [&>svg]:size-3.5'', dflt ''caption_label'']),
      (''table'', cn_text [''w-full border-collapse'']),
      (''weekdays'', cn_text [''flex'', dflt ''weekdays'']),
      (''weekday'', cn_text [''text-muted-foreground flex-1 select-none rounded-md text-[0.8rem] font-normal'', dflt ''weekday'']),
      (''week'', cn_text [''mt-2 flex w-full'', dflt ''week'']),
      (''week_number_header'', cn_text [''w-(--cell-size) select-none'', dflt ''week_number_header'']),
      (''week_number'', cn_text [''text-muted-foreground select-none text-[0.8rem]'', dflt ''week_number'']),
      (''day'', cn_text [''group/day relative aspect-square h-full w-full select-none p-0 text-center [&:first-child[data-selected=true]_button]:rounded-l-md [&:last-child[data-selected=true]_button]:rounded-r-md'', dflt ''day'']),
      (''range_start'', cn_text [''bg-accent rounded-l-md'', dflt ''range_start'']),
      (''range_middle'', cn_text [''rounded-none'', dflt ''range_middle'']),
      (''range_end'', cn_text [''bg-accent rounded-r-md'', dflt ''range_end'']),
      (''today'', cn_text [''bg-accent text-accent-foreground rounded-md data-[selected=true]:rounded-none'', dflt ''today'']),
      (''outside'', cn_text [''text-muted-foreground aria-selected:text-muted-foreground'', dflt ''outside'']),
      (''disabled'', cn_text [''text-muted-foreground opacity-50'', dflt ''disabled'']),
      (''hidden'', cn_text [''invisible'', dflt ''hidden''])]"

definition calendar_Root :: "'l ui_props \<Rightarrow> 'l node" where
  "calendar_Root p = ui_elem ''div'' [(''data-slot'', ''calendar'')] [] None p"

definition calendar_WeekNumber :: "'l ui_props \<Rightarrow> 'l node" where
  "calendar_WeekNumber p =
     primitive ''td''
       (p\<lparr>up_children := [ela ''div'' (cls ''flex size-(--cell-size) items-center justify-center text-center'') (up_children p)]\<rparr>)"

text \<open>
  The component of each name that the calendar draws with; a caller may replace any of them. \<open>dc_DayButton\<close> takes
  the date as text and the modifiers of the day.
\<close>

record 'l day_components =
  dc_Root :: "'l ui_props \<Rightarrow> 'l node"
  dc_Chevron :: "string \<Rightarrow> 'l ui_props \<Rightarrow> 'l node"
  dc_DayButton :: "string \<Rightarrow> day_modifiers \<Rightarrow> 'l ui_props \<Rightarrow> 'l node \<times> bool"
  dc_WeekNumber :: "'l ui_props \<Rightarrow> 'l node"

record 'l day_overrides =
  do_Root :: "('l ui_props \<Rightarrow> 'l node) option"
  do_Chevron :: "(string \<Rightarrow> 'l ui_props \<Rightarrow> 'l node) option"
  do_DayButton :: "(string \<Rightarrow> day_modifiers \<Rightarrow> 'l ui_props \<Rightarrow> 'l node \<times> bool) option"
  do_WeekNumber :: "('l ui_props \<Rightarrow> 'l node) option"

definition calendar_components :: "(string \<Rightarrow> string) \<Rightarrow> 'l day_overrides \<Rightarrow> 'l day_components" where
  "calendar_components dflt ov =
     \<lparr>dc_Root = nullish (do_Root ov) calendar_Root, dc_Chevron = nullish (do_Chevron ov) calendar_Chevron,
      dc_DayButton = nullish (do_DayButton ov) (\<lambda>day. CalendarDayButton day (dflt ''day'')),
      dc_WeekNumber = nullish (do_WeekNumber ov) calendar_WeekNumber\<rparr>"

text \<open>What the calendar hands to \<open>DayPicker\<close>; \<open>{...props}\<close> cannot contain a name taken out before it.\<close>

record ('d, 'l) day_picker =
  dp_showOutsideDays :: bool
  dp_className :: string
  dp_captionLayout :: string
  dp_formatMonthDropdown :: "'d \<Rightarrow> string"
  dp_classNames :: "(string \<times> string) list"
  dp_components :: "'l day_components"
  dp_attrs :: "(string \<times> string) list"

record ('d, 'l) calendar_props =
  cal_className :: "string option"
  cal_classNames :: "(string \<times> string) list"
  cal_showOutsideDays :: "bool option"
  cal_captionLayout :: "string option"
  cal_buttonVariant :: "string option"
  cal_formatMonthDropdown :: "('d \<Rightarrow> string) option"
  cal_components :: "'l day_overrides"
  cal_attrs :: "(string \<times> string) list"

definition DayCalendar :: "(string \<Rightarrow> string) \<Rightarrow> ('d \<Rightarrow> string) \<Rightarrow> ('d, 'l) calendar_props \<Rightarrow> ('d, 'l) day_picker" where
  "DayCalendar dflt shortMonth p =
     (let captionLayout = nullish (cal_captionLayout p) ''label'' in
      \<lparr>dp_showOutsideDays = nullish (cal_showOutsideDays p) True,
       dp_className =
         cn_text [''bg-background group/calendar p-3 [--cell-size:2rem] ['' @ ''[data-slot=card-content]_&]:bg-transparent ['' @ ''[data-slot=popover-content]_&]:bg-transparent'',
           ''rtl:**:[.rdp-button'' @ CHR 0x5C # ''_next>svg]:rotate-180'',
           ''rtl:**:[.rdp-button'' @ CHR 0x5C # ''_previous>svg]:rotate-180'',
           nullish (cal_className p) []],
       dp_captionLayout = captionLayout,
       dp_formatMonthDropdown = nullish (cal_formatMonthDropdown p) shortMonth,
       dp_classNames =
         with_attrs (calendar_classNames dflt captionLayout (nullish (cal_buttonVariant p) ''ghost'')) (cal_classNames p),
       dp_components = calendar_components dflt (cal_components p),
       dp_attrs = cal_attrs p\<rparr>)"

section \<open>Lemmas\<close>

text \<open>The properties of a table are the table's and not its box's, so a click on the box does nothing of its own.\<close>

lemma click_Table:
  assumes "map_of (rev (up_attrs p)) ''disabled'' = None"
  shows "click (Table p) [] = []" and "click (Table p) [0] = nullish (up_onClick p) []"
  using click_ui_elem [of p "[]" "''table''" "[''w-full caption-bottom text-sm'']" None] assms
  by (auto simp: Table_def ela_def cls_def is_disabled_def click_effs_def ui_elem_def Let_def)

text \<open>
  A class a caller gives for a part of the calendar replaces the calendar's own, the default class names
  included; the other parts keep the calendar's.
\<close>

lemma calendar_class_override:
  assumes "distinct (map fst (cal_classNames p))"
  shows "map_of (cal_classNames p) k = Some v \<Longrightarrow> map_of (dp_classNames (DayCalendar dflt sm p)) k = Some v"
    and "map_of (cal_classNames p) k = None \<Longrightarrow> map_of (dp_classNames (DayCalendar dflt sm p)) k =
      map_of (calendar_classNames dflt (dp_captionLayout (DayCalendar dflt sm p)) (nullish (cal_buttonVariant p) ''ghost'')) k"
proof -
  have "map_of (rev (cal_classNames p)) = map_of (cal_classNames p)"
    using assms by (intro map_of_inject_set [THEN iffD2]) (simp_all flip: rev_map)
  then show "map_of (cal_classNames p) k = Some v \<Longrightarrow> map_of (dp_classNames (DayCalendar dflt sm p)) k = Some v"
    and "map_of (cal_classNames p) k = None \<Longrightarrow> map_of (dp_classNames (DayCalendar dflt sm p)) k =
      map_of (calendar_classNames dflt (dp_captionLayout (DayCalendar dflt sm p)) (nullish (cal_buttonVariant p) ''ghost'')) k"
    by (simp_all add: DayCalendar_def Let_def map_of_with_attrs)
qed

end
