(* ===== verification/Spec2Isabelle.thy ===== *)
theory Spec2Isabelle
  imports Login Route_Tree System_Pages Engine_Api Throughput Sign_In Ssr Ui_Sidebar Ui_Chart Ui_Carousel Ui_Form Ui_Overlays Ui_Basics
begin

text \<open>
  \<^bold>\<open>ForgeQueue.\<close> ForgeQueue is a task queue: a Go backend over Redis and PostgreSQL, and a
  web console in TypeScript (\<^verbatim>\<open>src/web/src\<close>) with which operators watch queues, jobs and workers, retry
  and delete jobs and pause queues. This development models the console as it is written, and of the backend
  the queue engine, the HTTP server with everything a request passes on its way to a handler, tokens,
  accounts and single sign-on, and proves the properties that make the whole safe to operate.

  \<^bold>\<open>Parts and how they interact.\<close> Pages (\<^verbatim>\<open>routes/\<close>) are functions from data, preferences, session
  and component state to elements with handlers. Handlers call mutations (\<^verbatim>\<open>api/queries.ts\<close>), which
  call the typed API (\<^verbatim>\<open>api/endpoints.ts\<close>), which calls \<open>request\<close> (\<^verbatim>\<open>api/client.ts\<close>). \<open>request\<close> reads
  the base URL from the preferences store (\<^verbatim>\<open>lib/prefs.ts\<close>) and the token from the session store
  (\<^verbatim>\<open>lib/auth.ts\<close>), keeps the connection state, and clears the session on a 401, on which the root
  component (\<^verbatim>\<open>routes/__root.tsx\<close>) redirects to the login page. Both stores live in \<open>localStorage\<close>
  as JSON text. On the server side of the web application, \<^verbatim>\<open>server.ts\<close> and \<^verbatim>\<open>start.ts\<close> wrap the
  framework and turn its failures into a static page.
  In the backend a request passes the middleware and the rate limits (\<^verbatim>\<open>internal/httpapi/middleware.go\<close>,
  \<^verbatim>\<open>ratelimit.go\<close>), its token is verified (\<^verbatim>\<open>internal/auth\<close>), it is routed and checked for its permission
  (\<^verbatim>\<open>server.go\<close>) and answered by a handler that issues Redis commands one after the other (\<^verbatim>\<open>handlers.go\<close>).
  Sessions come from a password login or from an OpenID Connect provider (\<^verbatim>\<open>oidc.go\<close>), with the pending logins and
  one-time codes in memory or in Redis. Tasks enter by the gateway (\<^verbatim>\<open>internal/gateway\<close>), which writes them to the
  journal in PostgreSQL (\<^verbatim>\<open>internal/durable\<close>) and then to Redis; worker pools (\<^verbatim>\<open>internal/worker\<close>) claim, run,
  acknowledge, retry and recover them with Lua scripts, and a reconciler puts unfinished rows of the journal back
  into Redis. The HTTP handlers work on the same Redis keys as the pools.

  \<^bold>\<open>Theories.\<close>
  \<^item> \<open>Prelude\<close>: JavaScript numbers (an integer or \<open>NaN\<close>), decimal text, string operations, insertion-ordered
    sets and the stable array sort; the locale \<open>consistent_comparator\<close> states what a comparator must
    satisfy for the sort to order, and proves sortedness and stability from it. The locale
    \<open>service_refinement\<close> states what a service owes to a specification of its calls, reply by reply, and
    lifts it to runs.
  \<^item> \<open>Json\<close>: \<open>JSON.stringify\<close> and \<open>JSON.parse\<close>, with the round trip for the values the console stores.
    \<open>Dates\<close>: \<open>Date.parse\<close> and \<open>toISOString\<close> on ISO texts. \<open>Calendar\<close>: the timestamps the server formats, and that
    the console reads back the instant that was written. \<open>Runtime\<close>: the host (clock, environment, number format, error texts of the engine) as a record
    of parameters, \<open>localStorage\<close> with its failure mode, property access and subscriptions; the locale
    \<open>text_codec\<close> is the contract of everything stored as text, interpreted on JSON itself, on sessions
    and on preferences.
  \<^item> \<open>Format\<close>, \<open>Forge_Types\<close>: \<^verbatim>\<open>lib/format.ts\<close> and \<^verbatim>\<open>types/forgequeue.ts\<close>.
  \<^item> \<open>Auth\<close>, \<open>Prefs\<close>, \<open>Client\<close>, \<open>Endpoints\<close>, \<open>Queries\<close>: the stores and the API layer. \<open>auth_store\<close> and
    \<open>prefs_store\<close> are the module variables of the two stores; every operation takes and returns the store
    with the storage. \<open>console\<close> is the state outside the components. The locale \<open>transport\<close> in \<open>Queries\<close> is the
    contract of an answered request, interpreted on \<open>settle\<close> of \<open>Client\<close>, on which the laws of mutations rest.
  \<^item> \<open>View\<close>: elements, handlers and effects; \<open>click\<close> with event bubbling and \<open>stopPropagation\<close>; \<open>perform\<close> runs
    an effect on the console; \<open>guarded\<close> and \<open>only_calls\<close> are the specifications of pages.
    \<open>Shared_View\<close>, \<open>Data_Table\<close>, \<open>Json_Viewer\<close>, \<open>Charts\<close>, \<open>Job_Tables\<close>, \<open>App_Shell\<close>: the theories of
    \<^verbatim>\<open>components/\<close>, one definition per component and one per handler that computes something.
  \<^item> \<open>Queue_Pages\<close>, \<open>Job_Pages\<close>, \<open>Worker_Pages\<close>, \<open>System_Pages\<close>, \<open>Login\<close>: the pages of \<^verbatim>\<open>routes/\<close>, each with
    its state, its updates and its view. \<open>Login\<close> is a step relation in which user events and the answers of
    three independent requests interleave freely.
    The root route is there too. \<open>Rendering\<close> says which pages can be rendered at all; \<open>Route_Tree\<close> is \<^verbatim>\<open>routeTree.gen.ts\<close> and says where the
    links of the pages go.
  \<^item> \<open>Ui_Base\<close>, \<open>Ui_Parts\<close>, \<open>Ui_Menus\<close>, \<open>Ui_Overlays\<close>, \<open>Ui_Sidebar\<close>, \<open>Ui_Chart\<close>, \<open>Ui_Carousel\<close>, \<open>Ui_Form\<close>, \<open>Ui_Basics\<close>: the
    component library \<^verbatim>\<open>components/ui\<close> with \<^verbatim>\<open>hooks/use-mobile.tsx\<close>. A part takes the properties of its element;
    \<open>ui_elem\<close> is the spread \<open>{...props}\<close>. The side bar and the carousel have state over time: events between
    two renders share the handlers of the first, and the carousel's engine is a parameter.
  \<^item> \<open>Ssr\<close>: \<^verbatim>\<open>server.ts\<close>, \<^verbatim>\<open>start.ts\<close>, \<^verbatim>\<open>lib/error-capture.ts\<close> and \<^verbatim>\<open>lib/error-page.ts\<close>.
  \<^item> \<open>Server_Routes\<close>: the routes of \<^verbatim>\<open>internal/httpapi/server.go\<close> with the matching of Go's router, \<open>require\<close>,
    and the roles of \<^verbatim>\<open>internal/auth/rbac.go\<close>.
  \<^item> \<open>Redis_Store\<close>, \<open>Job_Handlers\<close>: the Redis keys as a record, commands that may fail because the connection is
    lost after any number of them, with or without the last one having taken effect, and one definition per
    handler. \<open>board\<close> and \<open>spec\<close> are the abstract specification, a job board; \<open>board_of\<close> is the abstraction, and
    \<open>serve_call\<close> is interpreted as a \<open>service_refinement\<close> of it. The locale \<open>command_frame\<close> carries a relation
    that every single command keeps over whole handlers.
  \<^item> \<open>Task_Queue\<close>: the scripts and the loops of a worker pool, one definition each. \<open>Queue_Engine\<close>: the gateway, any
    number of workers with their heartbeats, and the recovery and promotion loops as a step relation that interleaves
    them at single commands, with crashes between any two. \<open>Worker_Loop\<close>: an iteration of each loop as the code
    runs it, over a connection that may be lost, shown to be a sequence of steps of the engine; the gateway's enqueue.
    \<open>Journal\<close>: the table, its statements, the paging of the sweep and the reconciler. \<open>Engine_Api\<close>: the HTTP handlers on the
    database of the engine; the locale \<open>write_frame\<close> extends \<open>command_frame\<close> to the commands that write.
  \<^item> \<open>Middleware\<close>: \<^verbatim>\<open>middleware.go\<close>, \<^verbatim>\<open>ratelimit.go\<close> and the login guard. \<open>Tokens\<close>: \<^verbatim>\<open>token.go\<close>, \<^verbatim>\<open>password.go\<close>,
    \<^verbatim>\<open>service.go\<close> and the interceptor of the gateway. \<open>Auth_Config\<close>: \<^verbatim>\<open>config.go\<close>. \<open>Sso\<close>: \<^verbatim>\<open>oidc.go\<close>, \<^verbatim>\<open>state.go\<close>,
    \<^verbatim>\<open>redis_state.go\<close> and the sign-in handlers. \<open>Sso_Flow\<close>: the locale \<open>state_store\<close> is the contract of the interface
    \<open>StateStore\<close>, interpreted on both stores, and the flow is proved over it. \<open>Throughput\<close>: the series of the charts. \<open>Sign_In\<close>: login page, handler,
    session store and gate together.

  \<^bold>\<open>What is shown.\<close>
  \<^item> Across components (this theory): no single click destroys anything; controls match the server's
    permissions, with the two pages where they do not; what each role may do; a rejected token leads to
    the login page; the job page's dialogs for retry and re-enqueue promise the opposite of what the
    handlers do.
  \<^item> Job handlers: they refine the job board over every sequence of calls and every loss of the connection
    that is not answered with 500; a deleted job is gone; a retry that is answered with 500 can lose one.
  \<^item> Queue engine: every accepted task is at exactly one place or acknowledged once, whatever interleaves and
    wherever workers crash; a task fails exactly as often as its budget before it is dead; a worker that lost its
    lease has no effect any more; the loops as written only make steps of the engine; what the gateway reports as
    routed survives the loss of Redis; the reconciler puts every unfinished task back in a bounded number of ticks; a deleted job
    never runs again unless the journal resurrects it; the journalled backoff agrees with the scheduled one up to
    the attempt at which its 64-bit arithmetic overflows.
  \<^item> Who gets in: logins are bounded by burst and rate in every stretch of time, globally and per address; every response
    carries the security headers and no handler reads past the body limit; a token that verifies was signed by the
    server and is not expired; gateway and HTTP server admit the same tokens; exactly the accounts of the environment
    sign in; a single sign-on gives the session of its user once; and where it goes wrong: a display name that is a
    local account's, a return target of two slashes, two exchanges at once, an environment with no way to sign in.
  \<^item> Console and server together: after a login both agree on the session, its expiry and its permissions; the series of the
    charts counts everything in its range, and twice what happens in a second at which two intervals meet.
  \<^item> Sessions: they survive a reload, are dropped when expired, are cleared completely, and only a 401
    with a readable body ends one; a stored value of the wrong shape is accepted and makes permission
    checks throw.
  \<^item> Login: one login in flight whatever the interleaving, one use of a single-sign-on code, the
    outcome of good and failed answers, and that the form never hangs when requests settle.
  \<^item> API: every call reaches its handler with its argument intact, for every text an id may be; cache keys
    identify calls, with one exception; a mutation over many requests reports exactly once.
  \<^item> Tables and views: pages partition the sorted rows, sorting is by key and stable, selection is exact,
    typed confirmation cannot be bypassed, expand-all shows every value, at most one navigation entry is
    active, durations are printed to their stated precision, the pages render without an exception on
    data with valid timestamps, and every link leads to one route.
  \<^item> Component library: the side bar's mode, cookie and toggles agree; the carousel's buttons follow its
    engine and its cleanup leaves a listener behind; labels, controls and messages of a form refer to each
    other; every coloured series is declared for every theme; dialogs and sheets can always be closed.
  \<^item> Server shell: framework failures never reach the browser, describing an error ends and is bounded even
    for circular causes, a captured error is reported once.

  \<^bold>\<open>Modelling decisions and bounds.\<close> Strings are lists of bytes, so texts are in UTF-8 where the source has
  UTF-16; operations that cut or compare texts are exact on ASCII. Timestamps and counts are integers;
  \<open>NaN\<close> is kept because an unparsable timestamp yields it. A quotient that is printed with \<open>toFixed\<close> is
  rounded to the nearest double first. An element keeps its tag, the attributes that depend on data, its
  handlers and its children; fixed layout classes and icons are left out. Formatting of dates for
  display, locale-dependent number formatting, and engine error texts are functions of the host. The JSON
  parser takes fuel, twice the length of the text plus one, which \<open>pval_fuel\<close> proves enough: more fuel never
  changes a result; \<open>describeError\<close> follows at most \<open>CAUSE_DEPTH_LIMIT\<close> causes, as the source does, of chains
  that may be endless (\<open>thrown\<close> is a codatatype). Everything else is recursive on its data. \<open>fetch\<close> is a parameter: any function from requests to a
  response or a rejection, the abort after ten seconds being one of the rejections.
  A Lua script and a single command are atomic; everything between them may interleave in \<open>Queue_Engine\<close>. A lost connection
  is a countdown of commands, and the last one may have taken effect without its reply. Scores of the delayed set
  are microseconds, token buckets hold rationals, instants of the Go side are nanoseconds. Stored task bodies,
  leases and pending logins are the decoded values. HMAC, PBKDF2, SHA-256, the randomness, the provider's answers and the reading of
  address literals are parameters, with what is assumed of them stated in the theorems that need it.
  \<open>url_parse\<close> follows \<open>url.Parse\<close> for addresses of web pages.

  \<^bold>\<open>Not modelled.\<close> The matching of the router and the query cache themselves, chart drawing and class merging
  (third-party); exports of \<^verbatim>\<open>components/ui\<close> that are a third-party primitive under another name. In the backend,
  the starting and draining of goroutines, metrics and telemetry, the connection pools, migrations, TLS and the gRPC
  transport, the health handlers, and sample task handlers: they only call libraries or keep no state
  the properties speak of. The expiry of task keys in Redis is outside the model. In \<open>Job_Handlers\<close> a handler's commands are
  not interrupted by another handler's; \<open>Engine_Api\<close> relates them to running workers. The benchmark of
  another queue (\<^verbatim>\<open>bench/bullmq\<close>) is no part of the program.
\<close>

section \<open>Permissions of a page\<close>

text \<open>Whether the server would let the session of a page make a call.\<close>

definition permitted :: "ctx \<Rightarrow> api_call \<Rightarrow> bool" where
  "permitted cx c \<longleftrightarrow> require_access (required_access c) (map_option (\<lambda>s. u_permissions (s_user s)) (cx_session cx)) = Pass"

lemma permitted_needs: "call_access c = Needs p \<Longrightarrow> permitted cx c = cx_can cx p"
  by (cases "cx_session cx") (simp_all add: permitted_def required_access_eq cx_can_def)

lemma permitted_writes [simp]:
  "permitted cx (RetryJob i) = cx_can cx ''jobs:write''" "permitted cx (RequeueJob i) = cx_can cx ''jobs:write''"
  "permitted cx (DeleteJob i) = cx_can cx ''jobs:write''" "permitted cx (PauseQueue n) = cx_can cx ''queues:write''"
  "permitted cx (ResumeQueue n) = cx_can cx ''queues:write''" "permitted cx (PurgeQueue n) = cx_can cx ''queues:write''"
  "permitted cx (RetryDlq i) = cx_can cx ''dlq:write''" "permitted cx (DeleteDlq i) = cx_can cx ''dlq:write''"
  "permitted cx PurgeDlq = cx_can cx ''dlq:write''" "permitted cx (PromoteDelayed i) = cx_can cx ''delayed:write''"
  "permitted cx (CancelDelayed i) = cx_can cx ''delayed:write''"
  by (simp_all add: permitted_needs)

lemmas mutation_defs = jobs_del_def promote_def cancel_def pause_queue_def resume_queue_def purge_queue_def
  dlq_del_def dlq_purge_def retry_job_def requeue_job_def delete_job_def

section \<open>Properties across components\<close>

text \<open>
  (C1) No single click destroys anything: on every page of the console, in every state and for every
  session, each request that deletes, purges or cancels is made only by confirming a dialog that
  is marked destructive; no button, link, input or row click makes one directly.
\<close>

theorem destructive_needs_confirmation:
  "list_all guarded (Overview cx s tp queues workers dlq qt rts)
   \<and> list_all guarded (QueuesList cx queues ql)
   \<and> list_all guarded (QueueDetail cx name err q jobs delayed tp qd)
   \<and> list_all guarded (DlqPage cx dlq dp)
   \<and> list_all guarded (DelayedPage cx delayed de)
   \<and> list_all guarded (JobDetail cx err jb ld jd)
   \<and> list_all guarded (WorkersList cx workers wt)
   \<and> list_all guarded (WorkerDetail cx err wk lt rts)
   \<and> list_all guarded (SettingsPage cx)
   \<and> list_all guarded (ConnectionPage cx conn pg)
   \<and> list_all guarded (Metrics cx tp rng)"
  unfolding guarded_def
  by (intro conjI Overview_effs QueuesList_effs QueueDetail_effs DlqPage_effs DelayedPage_effs JobDetail_effs
      WorkersList_effs WorkerDetail_effs SettingsPage_effs ConnectionPage_effs Metrics_effs)
    (auto simp: mutation_defs list_all_iff)

text \<open>
  (C6) The console offers what the server allows: on the queue, job, dead letter, delayed and worker pages
  every request a control can make, confirmed or not, is one the server's permission check
  passes for the session the page was rendered with.
\<close>

theorem offered_actions_permitted:
  "list_all (only_calls (permitted cx)) (QueueDetail cx name err q jobs delayed tp qd)
   \<and> list_all (only_calls (permitted cx)) (DlqPage cx dlq dp)
   \<and> list_all (only_calls (permitted cx)) (DelayedPage cx delayed de)
   \<and> list_all (only_calls (permitted cx)) (JobDetail cx err jb ld jd)
   \<and> list_all (only_calls (permitted cx)) (WorkersList cx workers wt)
   \<and> list_all (only_calls (permitted cx)) (WorkerDetail cx err wk lt rts)"
  unfolding only_calls_def
  by (intro conjI QueueDetail_effs DlqPage_effs DelayedPage_effs JobDetail_effs WorkersList_effs WorkerDetail_effs)
    (auto simp: mutation_defs list_all_iff)

text \<open>
  (C26) Two pages offer more than the server allows: the pause and resume controls of the overview and of
  the list of queues are shown to every session, and for one without \<open>queues:write\<close> the server
  answers them with 403.
\<close>

theorem pause_control_not_gated:
  assumes "cx_session cx = Some ss" and "\<not> cx_can cx ''queues:write''"
  shows "\<not> only_calls (permitted cx) (overview_action_cell x :: overview_action node)
     \<and> \<not> only_calls (permitted cx) (queues_action_cell cx x :: queues_action node)
     \<and> require_access (required_access (PauseQueue (q_name x))) (Some (u_permissions (s_user ss))) =
         Reject 403 ''insufficient permissions''"
  using assms
  by (auto simp: only_calls_def overview_action_cell_def queues_action_cell_def pause_queue_def resume_queue_def
      required_access_eq cx_can_def)

definition viewer_ctx :: ctx where
  "viewer_ctx = \<lparr>cx_host = sample_host, cx_prefs = prefs_defaults sample_host,
     cx_session = Some \<lparr>s_token = ''t'', s_expiresAt = [], s_user =
       \<lparr>u_username = ''v'', u_roles = [''viewer''], u_permissions = permissionsForRoles [RoleViewer]\<rparr>\<rparr>\<rparr>"

lemma viewer_list: "permissionsForRoles [RoleViewer] =
    [''delayed:read'', ''dlq:read'', ''jobs:read'', ''metrics:read'', ''queues:read'', ''system:read'', ''workers:read'']"
  by code_simp

lemma operator_list: "permissionsForRoles [RoleOperator] =
    [''delayed:read'', ''delayed:write'', ''dlq:read'', ''dlq:write'', ''jobs:read'', ''jobs:write'', ''metrics:read'',
     ''queues:read'', ''queues:write'', ''system:read'', ''workers:read'']"
  by code_simp

theorem pause_control_not_gated_witness:
  "require_access (required_access (PauseQueue ''email'')) (Some (permissionsForRoles [RoleViewer])) =
     Reject 403 ''insufficient permissions''"
  using pause_control_not_gated [of viewer_ctx _ "\<lparr>q_name = ''email'', q_pending = 0, q_processing = 0, q_delayed = 0,
      q_failed = 0, q_completed = 0, q_workers = 0, q_ratePerMin = 0, q_oldestJobAt = None, q_status = QsHealthy\<rparr>"]
  by (simp add: viewer_ctx_def cx_can_def viewer_list)

text \<open>
  (C25) The roles mean what their names say: a viewer is refused every request that changes the system,
  with 403, and allowed every other one; an operator is allowed all of them; without a valid token
  only the sign-in endpoints answer.
\<close>

theorem role_access:
  "require_access (required_access c) (Some (permissionsForRoles [RoleViewer])) =
     (if is_write c then Reject 403 ''insufficient permissions'' else Pass)
   \<and> require_access (required_access c) (Some (permissionsForRoles [RoleOperator])) = Pass
   \<and> (require_access (required_access c) None = Pass) =
       (case c of AuthConfigC \<Rightarrow> True | Login _ _ \<Rightarrow> True | ExchangeOidc _ \<Rightarrow> True | _ \<Rightarrow> False)"
  unfolding required_access_eq viewer_list operator_list by (cases c) simp_all



section \<open>Dialogs and handlers\<close>

text \<open>What a confirmation dialog says, and the requests its confirm button makes.\<close>

fun promise :: "'l node \<Rightarrow> string" where
  "promise (ConfirmDialog c tr effs) = cp_description c"
| "promise _ = []"

definition calls_of :: "'l node \<Rightarrow> api_call list" where
  "calls_of n = concat (map eff_calls (click n []))"

text \<open>
  (C23) The job page promises the opposite of what the server does. Confirming Retry, whose dialog says that the
  attempt count is kept, resets it to zero; confirming Re-enqueue, whose dialog says that the
  attempts are reset, keeps them. Both succeed whenever the job has a stored body and the connection holds.
\<close>

theorem retry_promise_swapped:
  assumes "cx_can cx ''jobs:write''" and "rd_task (fst d) (j_id j) = Some (Body tm)" and "up (snd d)"
    and "run_service (serve_call ge) (calls_of (job_buttons cx j ! 0 :: job_action node)) d = (reps1, d1)"
    and "run_service (serve_call ge) (calls_of (job_buttons cx j ! 1 :: job_action node)) d = (reps2, d2)"
  shows "promise (job_buttons cx j ! 0 :: job_action node) = ''Job is moved back to pending, keeping its attempt count.''
     \<and> reps1 = [Some NoContent] \<and> rd_task (fst d1) (j_id j) = Some (Body (tm\<lparr>tm_attempts := 0\<rparr>))
     \<and> promise (job_buttons cx j ! 1 :: job_action node) =
         ''A fresh enqueue with attempts reset to 0. Ensure the handler is idempotent.''
     \<and> reps2 = [Some NoContent] \<and> rd_task (fst d2) (j_id j) = Some (Body tm)"
proof -
  obtain r l where d: "d = (r, l)" by (cases d)
  have calls: "calls_of (job_buttons cx j ! 0 :: job_action node) = [RetryJob (j_id j)]"
      "calls_of (job_buttons cx j ! 1 :: job_action node) = [RequeueJob (j_id j)]"
    using assms(1) by (simp_all add: calls_of_def job_buttons_def Can_def retry_job_def requeue_job_def)
  have texts: "promise (job_buttons cx j ! 0 :: job_action node) = ''Job is moved back to pending, keeping its attempt count.''"
      "promise (job_buttons cx j ! 1 :: job_action node) =
         ''A fresh enqueue with attempts reset to 0. Ensure the handler is idempotent.''"
    using assms(1) by (simp_all add: job_buttons_def Can_def confirm_def)
  from requeue_stored [of r "j_id j" "Body tm" l True] assms(2,3) d
  obtain r1 where r1: "requeue (j_id j) True (r, l) = (Inr True, (r1, l))"
      "rd_task r1 (j_id j) = Some (Body (tm\<lparr>tm_attempts := 0\<rparr>))" by auto
  from requeue_stored [of r "j_id j" "Body tm" l False] assms(2,3) d
  obtain r2 where r2: "requeue (j_id j) False (r, l) = (Inr True, (r2, l))" "rd_task r2 (j_id j) = Some (Body tm)"
    by auto
  from assms(4,5) r1 r2 texts show ?thesis
    unfolding calls d by (auto simp: serve_call_def h_RetryJob_def h_RequeueJob_def reply_found_def)
qed

definition operator_ctx :: ctx where
  "operator_ctx = \<lparr>cx_host = sample_host, cx_prefs = prefs_defaults sample_host,
     cx_session = Some \<lparr>s_token = ''t'', s_expiresAt = [], s_user =
       \<lparr>u_username = ''o'', u_roles = [''operator''], u_permissions = permissionsForRoles [RoleOperator]\<rparr>\<rparr>\<rparr>"

definition sample_db :: db where
  "sample_db = (sample_redis\<lparr>rd_task := [''j1'' \<mapsto> Body sample_task]\<rparr>, sample_link None)"

theorem retry_promise_swapped_witness:
  "let j = no_job sample_env ''j1'' sample_task JsDlq;
       after = (\<lambda>k. rd_task (fst (snd (run_service (serve_call sample_env)
         (calls_of (job_buttons operator_ctx j ! k :: job_action node)) sample_db))) ''j1'') in
   after 0 = Some (Body (sample_task\<lparr>tm_attempts := 0\<rparr>)) \<and> after 1 = Some (Body sample_task)"
proof -
  let ?j = "no_job sample_env ''j1'' sample_task JsDlq"
  have "cx_can operator_ctx ''jobs:write''" by (simp add: operator_ctx_def cx_can_def operator_list)
  moreover have "rd_task (fst sample_db) (j_id ?j) = Some (Body sample_task)" by (simp add: sample_db_def no_job_def)
  moreover have "up (snd sample_db)" by (simp add: sample_db_def sample_link_def)
  ultimately show ?thesis
    using retry_promise_swapped [OF _ _ _ prod.collapse [symmetric] prod.collapse [symmetric], of operator_ctx sample_db ?j]
    by (simp add: Let_def no_job_def)
qed

end
